(* ===== verification/GoErrors.thy ===== *)
theory GoErrors
  imports Prelude
begin

text \<open>
  Go errors as values (\<^verbatim>\<open>src/common/errors.go\<close>): the sentinel errors of package
  \<^verbatim>\<open>common\<close>, errors made by \<^verbatim>\<open>errors.New\<close> and \<^verbatim>\<open>fmt.Errorf\<close>, chains built with the
  verb \<^verbatim>\<open>%w\<close>, and errors that come from outside the repository (drivers, the network,
  gRPC), which are opaque: an identity and the text \<^verbatim>\<open>Error()\<close> returns. \<open>errors_is\<close> is
  \<^verbatim>\<open>errors.Is\<close> against a sentinel. A format string's other arguments (protobuf dumps, type
  names) are not rendered: \<open>Wrap p e\<close> is \<^verbatim>\<open>fmt.Errorf("p: %w", e)\<close> with \<open>p\<close> the literal
  part of the format.

  A call that returns \<^verbatim>\<open>(T, error)\<close> and may also panic has the outcome \<open>'a res\<close>.
\<close>

section \<open>Sentinel errors\<close>

datatype sentinel =
    ErrTableDoesNotExist
  | ErrDataSourceNotSupported
  | ErrDataTypeNotSupported
  | ErrDataTypeMismatch
  | ErrMethodNotSupported
  | ErrReadLimitExceeded
  | ErrInvalidRequest
  | ErrValueOutOfTypeBounds
  | ErrUnimplementedTypedValue
  | ErrUnimplementedExpression
  | ErrUnsupportedExpression
  | ErrUnimplementedOperation
  | ErrUnimplementedPredicateType
  | ErrInvariantViolation
  | ErrUnimplementedArithmeticalExpression
  | ErrEmptyTableName
  | ErrPageSizeExceeded

fun sentinel_text :: "sentinel \<Rightarrow> string" where
  "sentinel_text ErrTableDoesNotExist = ''table does not exist''"
| "sentinel_text ErrDataSourceNotSupported = ''data source not supported''"
| "sentinel_text ErrDataTypeNotSupported = ''data type not supported''"
| "sentinel_text ErrDataTypeMismatch = ''data type mismatch''"
| "sentinel_text ErrMethodNotSupported = ''method not supported''"
| "sentinel_text ErrReadLimitExceeded = ''read limit exceeded''"
| "sentinel_text ErrInvalidRequest = ''invalid request''"
| "sentinel_text ErrValueOutOfTypeBounds =
     ''value is out of possible range of values for the type''"
| "sentinel_text ErrUnimplementedTypedValue = ''unimplemented typed value''"
| "sentinel_text ErrUnimplementedExpression = ''unimplemented expression''"
| "sentinel_text ErrUnsupportedExpression = ''expression is not supported''"
| "sentinel_text ErrUnimplementedOperation = ''unimplemented operation''"
| "sentinel_text ErrUnimplementedPredicateType = ''unimplemented predicate type''"
| "sentinel_text ErrInvariantViolation = ''implementation error (invariant violation)''"
| "sentinel_text ErrUnimplementedArithmeticalExpression =
     ''unimplemented arithmetical expression''"
| "sentinel_text ErrEmptyTableName = ''empty table name''"
| "sentinel_text ErrPageSizeExceeded = ''page size exceeded, check service configuration''"

section \<open>Error chains\<close>

datatype go_error =
    Sentinel sentinel
  | NewErr string
  | Wrap string go_error
  | Foreign nat string

fun error_text :: "go_error \<Rightarrow> string" where
  "error_text (Sentinel s) = sentinel_text s"
| "error_text (NewErr t) = t"
| "error_text (Wrap p e) = p @ '': '' @ error_text e"
| "error_text (Foreign i t) = t"

fun errors_is :: "go_error \<Rightarrow> sentinel \<Rightarrow> bool" where
  "errors_is (Sentinel s) t = (s = t)"
| "errors_is (NewErr m) t = False"
| "errors_is (Wrap p e) t = errors_is e t"
| "errors_is (Foreign i m) t = False"

text \<open>\<^verbatim>\<open>ErrorMatcher.Match\<close>; a nil error matches nothing.\<close>

fun matcher_match :: "sentinel list \<Rightarrow> go_error option \<Rightarrow> bool" where
  "matcher_match es None = False"
| "matcher_match [] (Some e) = False"
| "matcher_match (t # ts) (Some e) = (errors_is e t \<or> matcher_match ts (Some e))"

lemma matcher_match_iff [simp]:
  "matcher_match es err \<longleftrightarrow> (\<exists>e. err = Some e \<and> (\<exists>t \<in> set es. errors_is e t))"
  by (induction es err rule: matcher_match.induct) auto

text \<open>A chain matches at most one sentinel: it has one innermost error.\<close>

lemma errors_is_unique: "errors_is e s \<Longrightarrow> errors_is e t \<Longrightarrow> s = t"
  by (induction e) auto

section \<open>Outcomes\<close>

datatype 'a res = Ok 'a | Err go_error | Panic string

fun bind_res :: "'a res \<Rightarrow> ('a \<Rightarrow> 'b res) \<Rightarrow> 'b res" where
  "bind_res (Ok x) f = f x"
| "bind_res (Err e) f = Err e"
| "bind_res (Panic m) f = Panic m"

text \<open>\<^verbatim>\<open>if err != nil { return fmt.Errorf("p: %w", err) }\<close>\<close>

fun wrap_res :: "string \<Rightarrow> 'a res \<Rightarrow> 'a res" where
  "wrap_res p (Ok x) = Ok x"
| "wrap_res p (Err e) = Err (Wrap p e)"
| "wrap_res p (Panic m) = Panic m"

lemma bind_res_Ok_iff [res_simps]: "bind_res m f = Ok y \<longleftrightarrow> (\<exists>x. m = Ok x \<and> f x = Ok y)"
  by (cases m) auto

lemma bind_res_Err_iff [res_simps]:
  "bind_res m f = Err e \<longleftrightarrow> m = Err e \<or> (\<exists>x. m = Ok x \<and> f x = Err e)"
  by (cases m) auto

lemma bind_res_Panic_iff [res_simps]:
  "bind_res m f = Panic p \<longleftrightarrow> m = Panic p \<or> (\<exists>x. m = Ok x \<and> f x = Panic p)"
  by (cases m) auto

lemma wrap_res_Ok_iff [simp]: "wrap_res p m = Ok y \<longleftrightarrow> m = Ok y"
  by (cases m) auto

lemma wrap_res_Err_iff [res_simps]: "wrap_res p m = Err e \<longleftrightarrow> (\<exists>e'. m = Err e' \<and> e = Wrap p e')"
  by (cases m) auto

lemma wrap_res_Panic_iff [simp]: "wrap_res p m = Panic q \<longleftrightarrow> m = Panic q"
  by (cases m) auto

text \<open>A loop that stops at the first failing item (\<^verbatim>\<open>for ... if err != nil return\<close>).\<close>

fun map_res :: "('a \<Rightarrow> 'b res) \<Rightarrow> 'a list \<Rightarrow> 'b list res" where
  "map_res f [] = Ok []"
| "map_res f (x # xs) =
     bind_res (f x) (\<lambda>y. bind_res (map_res f xs) (\<lambda>ys. Ok (y # ys)))"

lemma map_res_Ok_iff:
  "map_res f xs = Ok ys \<longleftrightarrow> list_all2 (\<lambda>x y. f x = Ok y) xs ys"
proof (induction xs arbitrary: ys)
  case Nil
  then show ?case by (cases ys) auto
next
  case (Cons x xs)
  then show ?case by (cases ys) (auto simp: res_simps list_all2_Cons1)
qed

lemma map_res_Ok_length: "map_res f xs = Ok ys \<Longrightarrow> length ys = length xs"
  by (simp add: map_res_Ok_iff list_all2_lengthD)

text \<open>The error of such a loop is the error of its first failing item.\<close>

lemma map_res_Err:
  "map_res f xs = Err e \<Longrightarrow> \<exists>i < length xs. f (xs ! i) = Err e \<and> (\<forall>j < i. \<exists>y. f (xs ! j) = Ok y)"
proof (induction xs)
  case Nil
  then show ?case by simp
next
  case (Cons x xs)
  show ?case
  proof (cases "f x")
    case (Ok y)
    with Cons obtain i where "i < length xs" "f (xs ! i) = Err e"
      and "\<forall>j < i. \<exists>y. f (xs ! j) = Ok y" by (auto simp: res_simps)
    then have "Suc i < length (x # xs)" "f ((x # xs) ! Suc i) = Err e"
      and "\<forall>j < Suc i. \<exists>y. f ((x # xs) ! j) = Ok y"
      using Ok by (auto simp: less_Suc_eq_0_disj)
    then show ?thesis by blast
  qed (use Cons.prems in auto)
qed

end
