(* ===== verification/YdbTypes.thy ===== *)
theory YdbTypes
  imports GoErrors
begin

text \<open>
  The YDB type system as the connector sees it (\<^verbatim>\<open>src/common/ydb_type_helpers.go\<close>): the
  oneof \<^verbatim>\<open>Ydb.Type\<close> as a datatype, the constructors and accessors of the helper file, and
  \<^verbatim>\<open>TypesEqual\<close> with its three auxiliary comparisons. Primitive identifiers that the
  sources name are constructors; every other one is \<open>Type_OTHER n\<close>. The protobuf
  null-valued alternatives (Void, Null, EmptyList, EmptyDict) carry the enum number that
  \<^verbatim>\<open>structpb.NullValue\<close> holds (0 in every message a client can build).
\<close>

section \<open>Types and columns\<close>

datatype prim_type =
    Type_UNSPECIFIED
  | Type_BOOL | Type_INT8 | Type_UINT8 | Type_INT16 | Type_UINT16
  | Type_INT32 | Type_UINT32 | Type_INT64 | Type_UINT64
  | Type_FLOAT | Type_DOUBLE
  | Type_DATE | Type_DATETIME | Type_TIMESTAMP
  | Type_STRING | Type_UTF8 | Type_JSON | Type_JSON_DOCUMENT
  | Type_OTHER nat

datatype ydb_type =
    TypeUnset
  | TypeId prim_type
  | DecimalType u32 u32
  | OptionalType ydb_type
  | ListType ydb_type
  | TupleType "ydb_type list"
  | StructType "(string \<times> ydb_type) list"
  | DictType ydb_type ydb_type
  | VariantTuple "ydb_type list"
  | VariantStruct "(string \<times> ydb_type) list"
  | VariantUnset
  | TaggedType string ydb_type
  | VoidType int
  | NullType int
  | EmptyListType int
  | EmptyDictType int
  | PgType string

record column =
  col_name :: string
  col_type :: ydb_type

datatype date_time_format = DATE_TIME_FORMAT_UNSPECIFIED | STRING_FORMAT | YQL_FORMAT

definition MakePrimitiveType :: "prim_type \<Rightarrow> ydb_type" where
  "MakePrimitiveType i = TypeId i"

definition MakeOptionalType :: "ydb_type \<Rightarrow> ydb_type" where
  "MakeOptionalType t = OptionalType t"

definition MakeTaggedType :: "string \<Rightarrow> ydb_type \<Rightarrow> ydb_type" where
  "MakeTaggedType tag t = TaggedType tag t"

definition MakeListType :: "ydb_type \<Rightarrow> ydb_type" where
  "MakeListType t = ListType t"

definition MakeStructType :: "(string \<times> ydb_type) list \<Rightarrow> ydb_type" where
  "MakeStructType ms = StructType ms"

lemmas make_type_defs [simp] =
  MakePrimitiveType_def MakeOptionalType_def MakeTaggedType_def MakeListType_def MakeStructType_def

text \<open>\<^verbatim>\<open>Select.What\<close>: each item carries a column or something else (\<open>None\<close>).\<close>

type_synonym select_what = "column option list"

fun SelectWhatToYDBTypes :: "select_what \<Rightarrow> ydb_type list res" where
  "SelectWhatToYDBTypes [] = Ok []"
| "SelectWhatToYDBTypes (None # items) = Err (NewErr ''item is not a column'')"
| "SelectWhatToYDBTypes (Some c # items) =
     bind_res (SelectWhatToYDBTypes items) (\<lambda>ts. Ok (col_type c # ts))"

fun YdbTypeToYdbPrimitiveTypeID :: "ydb_type \<Rightarrow> prim_type res" where
  "YdbTypeToYdbPrimitiveTypeID (TypeId i) = Ok i"
| "YdbTypeToYdbPrimitiveTypeID (OptionalType t) =
     (case t of
        TypeId i \<Rightarrow> Ok i
      | _ \<Rightarrow> Err (Wrap ''unexpected type'' (Sentinel ErrDataTypeNotSupported)))"
| "YdbTypeToYdbPrimitiveTypeID t =
     Err (Wrap ''unexpected type'' (Sentinel ErrDataTypeNotSupported))"

fun MakeYdbDateTimeType :: "prim_type \<Rightarrow> date_time_format \<Rightarrow> ydb_type res" where
  "MakeYdbDateTimeType i YQL_FORMAT = Ok (MakePrimitiveType i)"
| "MakeYdbDateTimeType i STRING_FORMAT = Ok (MakePrimitiveType Type_UTF8)"
| "MakeYdbDateTimeType i DATE_TIME_FORMAT_UNSPECIFIED =
     Err (Wrap ''unexpected datetime format'' (Sentinel ErrInvalidRequest))"

section \<open>TypesEqual\<close>

text \<open>The protobuf getters used on the right-hand side.\<close>

fun GetTypeId :: "ydb_type \<Rightarrow> prim_type" where
  "GetTypeId (TypeId i) = i"
| "GetTypeId t = Type_UNSPECIFIED"

fun GetNullType :: "ydb_type \<Rightarrow> int" where
  "GetNullType (NullType n) = n"
| "GetNullType t = 0"

fun GetVoidType :: "ydb_type \<Rightarrow> int" where
  "GetVoidType (VoidType n) = n"
| "GetVoidType t = 0"

fun GetEmptyListType :: "ydb_type \<Rightarrow> int" where
  "GetEmptyListType (EmptyListType n) = n"
| "GetEmptyListType t = 0"

fun GetEmptyDictType :: "ydb_type \<Rightarrow> int" where
  "GetEmptyDictType (EmptyDictType n) = n"
| "GetEmptyDictType t = 0"

text \<open>
  \<^verbatim>\<open>TypesEqual\<close> calls itself with the sides swapped, as the source does. A nil
  message that is dereferenced is a \<open>Panic\<close>. \<open>and_res\<close> is the short-circuit \<^verbatim>\<open>&&\<close>.
\<close>

definition and_res :: "bool res \<Rightarrow> bool res \<Rightarrow> bool res" where
  "and_res a b = bind_res a (\<lambda>x. if x then b else Ok False)"

lemma and_res_cong [fundef_cong]: "a = a' \<Longrightarrow> b = b' \<Longrightarrow> and_res a b = and_res a' b'"
  by simp

lemma and_res_Ok_eq [simp]: "and_res (Ok a) (Ok b) = Ok (a \<and> b)"
  by (simp add: and_res_def)

function (sequential) TypesEqual :: "ydb_type \<Rightarrow> ydb_type \<Rightarrow> bool res"
  and tuplesEqual :: "ydb_type list \<Rightarrow> ydb_type list \<Rightarrow> bool res"
  and tuplesLoop :: "ydb_type list \<Rightarrow> ydb_type list \<Rightarrow> bool res"
  and structsEqual :: "(string \<times> ydb_type) list \<Rightarrow> (string \<times> ydb_type) list \<Rightarrow> bool res"
  and structsLoop :: "(string \<times> ydb_type) list \<Rightarrow> (string \<times> ydb_type) list \<Rightarrow> bool res"
where
  "TypesEqual (TypeId i) rhs = Ok (i = GetTypeId rhs)"
| "TypesEqual (NullType n) rhs = Ok (GetNullType rhs \<noteq> 0)"
| "TypesEqual (OptionalType l) rhs =
     (case rhs of OptionalType r \<Rightarrow> TypesEqual r l | _ \<Rightarrow> Ok False)"
| "TypesEqual (DictType lk lp) rhs =
     (case rhs of DictType rk rp \<Rightarrow> and_res (TypesEqual rk lk) (TypesEqual rp lp) | _ \<Rightarrow> Ok False)"
| "TypesEqual (ListType l) rhs =
     (case rhs of ListType r \<Rightarrow> TypesEqual r l | _ \<Rightarrow> Ok False)"
| "TypesEqual (DecimalType lp ls) rhs =
     (case rhs of DecimalType rp rs \<Rightarrow> Ok (rp = lp \<and> rs = ls) | _ \<Rightarrow> Ok False)"
| "TypesEqual (TupleType ls) rhs =
     (case rhs of TupleType rs \<Rightarrow> tuplesEqual rs ls | _ \<Rightarrow> Ok False)"
| "TypesEqual (StructType ls) rhs =
     (case rhs of StructType rs \<Rightarrow> structsEqual rs ls | _ \<Rightarrow> Ok False)"
| "TypesEqual (VariantTuple ls) rhs =
     (case rhs of
        VariantTuple rs \<Rightarrow> tuplesEqual rs ls
      | VariantStruct rs \<Rightarrow> Panic ''nil pointer dereference''
      | VariantUnset \<Rightarrow> Panic ''unreachable''
      | _ \<Rightarrow> Ok False)"
| "TypesEqual (VariantStruct ls) rhs =
     (case rhs of
        VariantTuple rs \<Rightarrow> Panic ''nil pointer dereference''
      | VariantStruct rs \<Rightarrow> structsEqual rs ls
      | VariantUnset \<Rightarrow> Panic ''unreachable''
      | _ \<Rightarrow> Ok False)"
| "TypesEqual VariantUnset rhs =
     (case rhs of
        VariantTuple rs \<Rightarrow> Panic ''nil pointer dereference''
      | VariantStruct rs \<Rightarrow> Panic ''nil pointer dereference''
      | VariantUnset \<Rightarrow> Panic ''unreachable''
      | _ \<Rightarrow> Ok False)"
| "TypesEqual (TaggedType tag l) rhs =
     (case rhs of
        TaggedType rtag r \<Rightarrow> (if rtag = tag then TypesEqual r l else Ok False)
      | _ \<Rightarrow> Panic ''nil pointer dereference'')"
| "TypesEqual (VoidType n) rhs = Ok (GetVoidType rhs \<noteq> 0)"
| "TypesEqual (EmptyListType n) rhs = Ok (GetEmptyListType rhs \<noteq> 0)"
| "TypesEqual (EmptyDictType n) rhs = Ok (GetEmptyDictType rhs \<noteq> 0)"
| "TypesEqual (PgType n) rhs = (case rhs of PgType m \<Rightarrow> Ok (m = n) | _ \<Rightarrow> Ok False)"
| "TypesEqual TypeUnset rhs = Panic ''unreachable''"
| "tuplesEqual ls rs = (if length ls \<noteq> length rs then Ok False else tuplesLoop ls rs)"
| "tuplesLoop (l # ls) (r # rs) = and_res (TypesEqual r l) (tuplesLoop ls rs)"
| "tuplesLoop _ _ = Ok True"
| "structsEqual ls rs = (if length rs \<noteq> length ls then Ok False else structsLoop ls rs)"
| "structsLoop ((ln, l) # ls) ((rn, r) # rs) =
     (if rn \<noteq> ln then Ok False else and_res (TypesEqual r l) (structsLoop ls rs))"
| "structsLoop _ _ = Ok True"
  by pat_completeness auto
termination
  by (relation "measure (\<lambda>x. case x of
       Inl (Inl (l, r)) \<Rightarrow> 2 * (size l + size r)
     | Inl (Inr (ls, rs)) \<Rightarrow> 2 * (size_list size ls + size_list size rs) + 1
     | Inr (Inl (ls, rs)) \<Rightarrow> 2 * (size_list size ls + size_list size rs)
     | Inr (Inr (Inl (ls, rs))) \<Rightarrow>
         2 * (size_list (size_prod (\<lambda>_. 0) size) ls + size_list (size_prod (\<lambda>_. 0) size) rs) + 1
     | Inr (Inr (Inr (ls, rs))) \<Rightarrow>
         2 * (size_list (size_prod (\<lambda>_. 0) size) ls + size_list (size_prod (\<lambda>_. 0) size) rs))")
    auto

text \<open>
  The types on which \<^verbatim>\<open>TypesEqual\<close> decides equality: no unspecified primitive, no
  null-valued alternative, no variant, no tagged type.
\<close>

fun plain_type :: "ydb_type \<Rightarrow> bool" where
  "plain_type (TypeId i) = (i \<noteq> Type_UNSPECIFIED)"
| "plain_type (DecimalType p s) = True"
| "plain_type (OptionalType t) = plain_type t"
| "plain_type (ListType t) = plain_type t"
| "plain_type (DictType k p) = (plain_type k \<and> plain_type p)"
| "plain_type (TupleType ts) = list_all plain_type ts"
| "plain_type (StructType ms) = list_all (\<lambda>m. plain_type (snd m)) ms"
| "plain_type (PgType n) = True"
| "plain_type t = False"

lemma GetTypeId_plain: "plain_type t \<Longrightarrow> i \<noteq> Type_UNSPECIFIED \<Longrightarrow> i = GetTypeId t \<longleftrightarrow> TypeId i = t"
  by (cases t) auto

lemma TypesEqual_plain:
  "plain_type l \<Longrightarrow> plain_type r \<Longrightarrow> TypesEqual l r = Ok (l = r)"
  "list_all plain_type ls \<Longrightarrow> list_all plain_type rs \<Longrightarrow> tuplesEqual ls rs = Ok (ls = rs)"
  "list_all plain_type ls \<Longrightarrow> list_all plain_type rs \<Longrightarrow> length ls = length rs \<Longrightarrow>
     tuplesLoop ls rs = Ok (ls = rs)"
  "list_all (\<lambda>m. plain_type (snd m)) ms \<Longrightarrow> list_all (\<lambda>m. plain_type (snd m)) ns \<Longrightarrow>
     structsEqual ms ns = Ok (ms = ns)"
  "list_all (\<lambda>m. plain_type (snd m)) ms \<Longrightarrow> list_all (\<lambda>m. plain_type (snd m)) ns \<Longrightarrow>
     length ms = length ns \<Longrightarrow> structsLoop ms ns = Ok (ms = ns)"
proof (induction l r and ls rs and ls rs and ms ns and ms ns
    rule: TypesEqual_tuplesEqual_tuplesLoop_structsEqual_structsLoop.induct)
qed (auto split: ydb_type.splits simp: GetTypeId_plain)

text \<open>A tagged type on the left and anything else on the right is a nil dereference.\<close>

lemma TypesEqual_tagged_panics:
  "(\<And>tag' t'. r \<noteq> TaggedType tag' t') \<Longrightarrow> TypesEqual (TaggedType tag t) r = Panic ''nil pointer dereference''"
  by (cases r) auto

end
