(* ===== verification/SqlModel.thy ===== *)
theory SqlModel
  imports YdbTypes
begin

text \<open>
  The request trees of the connector API (\<^verbatim>\<open>TExpression\<close>, \<^verbatim>\<open>TPredicate\<close>, \<^verbatim>\<open>TypedValue\<close>) and the
  shared vocabulary of the relational data sources (\<^verbatim>\<open>rdbms/utils/sql.go\<close>,
  \<^verbatim>\<open>select_query_args.go\<close>): query arguments, the parts of a SELECT, splits, and the interface
  \<^verbatim>\<open>SQLFormatter\<close> as a record of functions. Sub-messages are present, as the YDB side always
  sends them; a oneof without a payload is a constructor of its own. The alternatives of a
  oneof that no formatter of the connector supports are kept opaque
  (\<open>ExprOther\<close> for Coalesce, If and Cast; \<open>PredOther\<close> for Between, In, If and Regexp).
\<close>

section \<open>Typed values, expressions and predicates\<close>

datatype ydb_value =
    BoolValue bool
  | Int32Value u32
  | Uint32Value u32
  | Int64Value u64
  | Uint64Value u64
  | FloatValue u32
  | DoubleValue u64
  | BytesValue string
  | TextValue string
  | NullFlagValue
  | ValueOther nat

record typed_value =
  tv_type :: ydb_type
  tv_value :: ydb_value

datatype arith_op =
    EXPRESSION_OPERATION_UNSPECIFIED | MUL | ADD | SUB | DIV | MOD | BIT_AND | BIT_OR | BIT_XOR

datatype expression =
    ExprUnset
  | ExprTypedValue typed_value
  | ExprColumn string
  | ExprArith arith_op expression expression
  | ExprNull
  | ExprOther nat

datatype cmp_op =
    COMPARISON_OPERATION_UNSPECIFIED | CMP_L | CMP_LE | CMP_EQ | CMP_NE | CMP_GE | CMP_G
  | CMP_IND | CMP_ID | CMP_STARTS_WITH | CMP_ENDS_WITH | CMP_CONTAINS

datatype predicate =
    PredUnset
  | Negation predicate
  | Conjunction "predicate list"
  | Disjunction "predicate list"
  | IsNull expression
  | IsNotNull expression
  | Comparison cmp_op expression expression
  | BoolExpression expression
  | PredCoalesce "predicate list"
  | PredOther nat

datatype filtering = FILTERING_UNSPECIFIED | FILTERING_OPTIONAL | FILTERING_MANDATORY | FILTERING_OTHER nat

datatype data_source_kind =
    KIND_UNSPECIFIED | CLICKHOUSE | POSTGRESQL | S3 | YDB | MYSQL | MS_SQL_SERVER | GREENPLUM
  | ORACLE | LOGGING | MONGO_DB | REDIS | PROMETHEUS | ICEBERG | OPENSEARCH

section \<open>Query arguments\<close>

text \<open>
  What Go stores in the \<^verbatim>\<open>any\<close> of a query argument: a value, a pointer to a value
  (optional types), or a typed nil pointer (NULL). \<open>ArgTimeUTC us\<close> is
  \<^verbatim>\<open>time.UnixMicro(us).UTC()\<close>.
\<close>

datatype go_scalar =
    GoBool | GoInt8 | GoUint8 | GoInt16 | GoUint16 | GoInt32 | GoUint32 | GoInt64 | GoUint64
  | GoBytes | GoString

datatype arg_value =
    ArgBool bool
  | ArgInt32 u32
  | ArgUint32 u32
  | ArgInt64 u64
  | ArgUint64 u64
  | ArgFloat u32
  | ArgDouble u64
  | ArgBytes string
  | ArgText string
  | ArgTimeUTC u64
  | ArgPtr arg_value
  | ArgNilPtr go_scalar

record query_arg =
  arg_ydb_type :: "ydb_type option"
  arg_val :: arg_value

type_synonym query_args = "query_arg list"

definition AddTyped :: "query_args \<Rightarrow> ydb_type \<Rightarrow> arg_value \<Rightarrow> query_args" where
  "AddTyped q t v = q @ [\<lparr>arg_ydb_type = Some t, arg_val = v\<rparr>]"

definition AddUntyped :: "query_args \<Rightarrow> arg_value \<Rightarrow> query_args" where
  "AddUntyped q v = q @ [\<lparr>arg_ydb_type = None, arg_val = v\<rparr>]"

text \<open>The methods that accept a nil receiver.\<close>

fun Count :: "query_args option \<Rightarrow> nat" where
  "Count None = 0"
| "Count (Some q) = length q"

fun Values :: "query_args option \<Rightarrow> arg_value list" where
  "Values None = []"
| "Values (Some q) = map arg_val q"

lemma AddTyped_length [simp]: "length (AddTyped q t v) = Suc (length q)"
  by (simp add: AddTyped_def)

lemma Values_length: "length (Values q) = Count q"
  by (cases q) auto

section \<open>Splits, query parts and the formatter interface\<close>

record select_query_parts =
  SelectClause :: string
  FromClause :: string
  WhereClause :: string

text \<open>\<^verbatim>\<open>DefaultSelectQueryRender\<close>\<close>

definition DefaultSelectQueryRender :: "select_query_parts \<Rightarrow> string res" where
  "DefaultSelectQueryRender parts =
     Ok (''SELECT '' @ SelectClause parts @ '' FROM '' @ FromClause parts @
         (if WhereClause parts \<noteq> '''' then '' WHERE '' @ WhereClause parts else ''''))"

text \<open>
  The interface \<^verbatim>\<open>SQLFormatter\<close>. \<open>RenderSelectQueryText\<close> gets the bytes of
  \<^verbatim>\<open>split.GetDescription()\<close>, the only part of a split any implementation reads.
\<close>

record sql_formatter =
  GetPlaceholder :: "nat \<Rightarrow> string res"
  SanitiseIdentifier :: "string \<Rightarrow> string"
  SupportsPushdownExpression :: "expression \<Rightarrow> bool"
  FormatFrom :: "string \<Rightarrow> string"
  RenderSelectQueryText :: "select_query_parts \<Rightarrow> string \<Rightarrow> string res"

end
