(* ===== verification/SqlFormatters.thy ===== *)
theory SqlFormatters
  imports SqlModel
begin

text \<open>
  The seven implementations of \<^verbatim>\<open>SQLFormatter\<close>
  (\<^verbatim>\<open>rdbms/{clickhouse,postgresql,ms_sql_server,mysql,oracle,ydb,logging}/sql_formatter.go\<close>).
  Greenplum uses the PostgreSQL one. The only configuration they read is
  \<^verbatim>\<open>TPushdownConfig.EnableTimestampPushdown\<close>, here the argument \<open>ts\<close>, and the mode of the YDB
  data source. \<^verbatim>\<open>protojson.Unmarshal\<close> of a split description is a parameter.

  The locale \<open>quoted_identifiers\<close> is the contract of \<^verbatim>\<open>SanitiseIdentifier\<close>: the text is one
  quoted identifier in which every quote is doubled. Its lemmas show that a scanner of
  quoted identifiers reads back exactly the identifier, whatever bytes it holds, and stops
  at the closing quote. It is interpreted on every formatter that quotes.
\<close>

section \<open>Quoted identifiers\<close>

text \<open>
  The lexical rule of SQL for delimited identifiers: after the opening quote, two quotes
  are one quote character, one quote ends the identifier.
\<close>

fun scan_body :: "char \<Rightarrow> string \<Rightarrow> (string \<times> string) option" where
  "scan_body q [] = None"
| "scan_body q [c] = (if c = q then Some ([], []) else None)"
| "scan_body q (c # d # s) =
     (if c = q then
        (if d = q then map_option (\<lambda>(i, r). (q # i, r)) (scan_body q s) else Some ([], d # s))
      else map_option (\<lambda>(i, r). (c # i, r)) (scan_body q (d # s)))"

fun scan_quoted :: "char \<Rightarrow> string \<Rightarrow> (string \<times> string) option" where
  "scan_quoted q [] = None"
| "scan_quoted q (c # s) = (if c = q then scan_body q s else None)"

lemma scan_body_other:
  "c \<noteq> q \<Longrightarrow> s \<noteq> [] \<Longrightarrow> scan_body q (c # s) = map_option (\<lambda>(i, r). (c # i, r)) (scan_body q s)"
  by (cases s) auto

lemma scan_body_doubled:
  assumes "rest = [] \<or> hd rest \<noteq> q"
  shows "scan_body q (replace_char q [q, q] s @ q # rest) = Some (s, rest)"
proof (induction s)
  case Nil
  with assms show ?case by (cases rest) auto
next
  case (Cons c s)
  then show ?case by (auto simp: scan_body_other)
qed

locale quoted_identifiers =
  fixes quote_char :: char
    and strip :: "string \<Rightarrow> string"
    and sanitise :: "string \<Rightarrow> string"
  assumes sanitise_eq:
    "sanitise s = quote_char # replace_char quote_char [quote_char, quote_char] (strip s) @ [quote_char]"
begin

lemma scan_sanitised:
  assumes "rest = [] \<or> hd rest \<noteq> quote_char"
  shows "scan_quoted quote_char (sanitise s @ rest) = Some (strip s, rest)"
  using scan_body_doubled [OF assms] by (simp add: sanitise_eq)

lemma sanitise_inj: "sanitise s = sanitise t \<Longrightarrow> strip s = strip t"
  using scan_sanitised [of "[]" s] scan_sanitised [of "[]" t] by simp

end

section \<open>ClickHouse, PostgreSQL, MS SQL Server, Oracle: double quotes\<close>

text \<open>
  \<^verbatim>\<open>strings.ReplaceAll(ident, string([]byte{0}), "")\<close>, then the doubling of the quotes: the
  same three lines in four packages.
\<close>

definition drop_nul :: "string \<Rightarrow> string" where
  "drop_nul s = replace_char (CHR 0x00) '''' s"

definition ch_SanitiseIdentifier :: "string \<Rightarrow> string" where
  "ch_SanitiseIdentifier ident =
     CHR 0x22 # replace_char (CHR 0x22) [CHR 0x22, CHR 0x22] (drop_nul ident) @ [CHR 0x22]"

definition pg_SanitiseIdentifier :: "string \<Rightarrow> string" where
  "pg_SanitiseIdentifier ident =
     CHR 0x22 # replace_char (CHR 0x22) [CHR 0x22, CHR 0x22] (drop_nul ident) @ [CHR 0x22]"

definition ms_SanitiseIdentifier :: "string \<Rightarrow> string" where
  "ms_SanitiseIdentifier ident =
     CHR 0x22 # replace_char (CHR 0x22) [CHR 0x22, CHR 0x22] (drop_nul ident) @ [CHR 0x22]"

definition ora_SanitiseIdentifier :: "string \<Rightarrow> string" where
  "ora_SanitiseIdentifier ident =
     CHR 0x22 # replace_char (CHR 0x22) [CHR 0x22, CHR 0x22] (drop_nul ident) @ [CHR 0x22]"

fun ch_supportsType :: "bool \<Rightarrow> prim_type \<Rightarrow> bool" where
  "ch_supportsType ts Type_BOOL = True"
| "ch_supportsType ts Type_INT8 = True"
| "ch_supportsType ts Type_UINT8 = True"
| "ch_supportsType ts Type_INT16 = True"
| "ch_supportsType ts Type_UINT16 = True"
| "ch_supportsType ts Type_INT32 = True"
| "ch_supportsType ts Type_UINT32 = True"
| "ch_supportsType ts Type_INT64 = True"
| "ch_supportsType ts Type_UINT64 = True"
| "ch_supportsType ts Type_FLOAT = True"
| "ch_supportsType ts Type_DOUBLE = True"
| "ch_supportsType ts Type_JSON = False"
| "ch_supportsType ts Type_TIMESTAMP = ts"
| "ch_supportsType ts _ = False"

fun ch_supportsConstantValueExpression :: "bool \<Rightarrow> ydb_type \<Rightarrow> bool" where
  "ch_supportsConstantValueExpression ts (TypeId i) = ch_supportsType ts i"
| "ch_supportsConstantValueExpression ts (OptionalType t) = ch_supportsConstantValueExpression ts t"
| "ch_supportsConstantValueExpression ts _ = False"

fun ch_SupportsPushdownExpression :: "bool \<Rightarrow> expression \<Rightarrow> bool" where
  "ch_SupportsPushdownExpression ts (ExprColumn c) = True"
| "ch_SupportsPushdownExpression ts (ExprTypedValue v) = ch_supportsConstantValueExpression ts (tv_type v)"
| "ch_SupportsPushdownExpression ts (ExprArith op l r) = False"
| "ch_SupportsPushdownExpression ts ExprNull = True"
| "ch_SupportsPushdownExpression ts _ = False"

definition ch_formatter :: "bool \<Rightarrow> sql_formatter" where
  "ch_formatter ts =
     \<lparr>GetPlaceholder = (\<lambda>n. Ok ''?''),
      SanitiseIdentifier = ch_SanitiseIdentifier,
      SupportsPushdownExpression = ch_SupportsPushdownExpression ts,
      FormatFrom = ch_SanitiseIdentifier,
      RenderSelectQueryText = (\<lambda>parts descr. DefaultSelectQueryRender parts)\<rparr>"

fun pg_supportsType :: "bool \<Rightarrow> prim_type \<Rightarrow> bool" where
  "pg_supportsType ts Type_BOOL = True"
| "pg_supportsType ts Type_INT8 = True"
| "pg_supportsType ts Type_UINT8 = False"
| "pg_supportsType ts Type_INT16 = True"
| "pg_supportsType ts Type_UINT16 = False"
| "pg_supportsType ts Type_INT32 = True"
| "pg_supportsType ts Type_UINT32 = False"
| "pg_supportsType ts Type_INT64 = True"
| "pg_supportsType ts Type_UINT64 = False"
| "pg_supportsType ts Type_FLOAT = True"
| "pg_supportsType ts Type_DOUBLE = True"
| "pg_supportsType ts Type_JSON = False"
| "pg_supportsType ts Type_TIMESTAMP = ts"
| "pg_supportsType ts _ = False"

fun pg_supportsConstantValueExpression :: "bool \<Rightarrow> ydb_type \<Rightarrow> bool" where
  "pg_supportsConstantValueExpression ts (TypeId i) = pg_supportsType ts i"
| "pg_supportsConstantValueExpression ts (OptionalType t) = pg_supportsConstantValueExpression ts t"
| "pg_supportsConstantValueExpression ts _ = False"

fun pg_SupportsPushdownExpression :: "bool \<Rightarrow> expression \<Rightarrow> bool" where
  "pg_SupportsPushdownExpression ts (ExprColumn c) = True"
| "pg_SupportsPushdownExpression ts (ExprTypedValue v) = pg_supportsConstantValueExpression ts (tv_type v)"
| "pg_SupportsPushdownExpression ts (ExprArith op l r) = False"
| "pg_SupportsPushdownExpression ts ExprNull = True"
| "pg_SupportsPushdownExpression ts _ = False"

definition pg_formatter :: "bool \<Rightarrow> sql_formatter" where
  "pg_formatter ts =
     \<lparr>GetPlaceholder = (\<lambda>n. Ok (''$'' @ dec (n + 1))),
      SanitiseIdentifier = pg_SanitiseIdentifier,
      SupportsPushdownExpression = pg_SupportsPushdownExpression ts,
      FormatFrom = pg_SanitiseIdentifier,
      RenderSelectQueryText = (\<lambda>parts descr. DefaultSelectQueryRender parts)\<rparr>"

fun ms_supportsType :: "bool \<Rightarrow> prim_type \<Rightarrow> bool" where
  "ms_supportsType ts Type_BOOL = True"
| "ms_supportsType ts Type_INT8 = True"
| "ms_supportsType ts Type_UINT8 = False"
| "ms_supportsType ts Type_INT16 = True"
| "ms_supportsType ts Type_UINT16 = False"
| "ms_supportsType ts Type_INT32 = True"
| "ms_supportsType ts Type_UINT32 = False"
| "ms_supportsType ts Type_INT64 = True"
| "ms_supportsType ts Type_UINT64 = False"
| "ms_supportsType ts Type_FLOAT = True"
| "ms_supportsType ts Type_DOUBLE = True"
| "ms_supportsType ts Type_TIMESTAMP = ts"
| "ms_supportsType ts _ = False"

fun ms_supportsConstantValueExpression :: "bool \<Rightarrow> ydb_type \<Rightarrow> bool" where
  "ms_supportsConstantValueExpression ts (TypeId i) = ms_supportsType ts i"
| "ms_supportsConstantValueExpression ts (OptionalType t) = ms_supportsConstantValueExpression ts t"
| "ms_supportsConstantValueExpression ts _ = False"

fun ms_SupportsPushdownExpression :: "bool \<Rightarrow> expression \<Rightarrow> bool" where
  "ms_SupportsPushdownExpression ts (ExprColumn c) = True"
| "ms_SupportsPushdownExpression ts (ExprTypedValue v) = ms_supportsConstantValueExpression ts (tv_type v)"
| "ms_SupportsPushdownExpression ts (ExprArith op l r) = False"
| "ms_SupportsPushdownExpression ts ExprNull = True"
| "ms_SupportsPushdownExpression ts _ = False"

definition ms_formatter :: "bool \<Rightarrow> sql_formatter" where
  "ms_formatter ts =
     \<lparr>GetPlaceholder = (\<lambda>n. Ok (''@p'' @ dec (n + 1))),
      SanitiseIdentifier = ms_SanitiseIdentifier,
      SupportsPushdownExpression = ms_SupportsPushdownExpression ts,
      FormatFrom = ms_SanitiseIdentifier,
      RenderSelectQueryText = (\<lambda>parts descr. DefaultSelectQueryRender parts)\<rparr>"

fun ora_supportsType :: "bool \<Rightarrow> prim_type \<Rightarrow> bool" where
  "ora_supportsType ts Type_INT64 = True"
| "ora_supportsType ts Type_DOUBLE = True"
| "ora_supportsType ts Type_TIMESTAMP = ts"
| "ora_supportsType ts _ = False"

fun ora_supportsConstantValueExpression :: "bool \<Rightarrow> ydb_type \<Rightarrow> bool" where
  "ora_supportsConstantValueExpression ts (TypeId i) = ora_supportsType ts i"
| "ora_supportsConstantValueExpression ts (OptionalType t) = ora_supportsConstantValueExpression ts t"
| "ora_supportsConstantValueExpression ts _ = False"

fun ora_SupportsPushdownExpression :: "bool \<Rightarrow> expression \<Rightarrow> bool" where
  "ora_SupportsPushdownExpression ts (ExprColumn c) = True"
| "ora_SupportsPushdownExpression ts (ExprTypedValue v) = ora_supportsConstantValueExpression ts (tv_type v)"
| "ora_SupportsPushdownExpression ts (ExprArith op l r) = False"
| "ora_SupportsPushdownExpression ts ExprNull = True"
| "ora_SupportsPushdownExpression ts _ = False"

definition ora_formatter :: "bool \<Rightarrow> sql_formatter" where
  "ora_formatter ts =
     \<lparr>GetPlaceholder = (\<lambda>n. Ok ('':'' @ dec (n + 1))),
      SanitiseIdentifier = ora_SanitiseIdentifier,
      SupportsPushdownExpression = ora_SupportsPushdownExpression ts,
      FormatFrom = ora_SanitiseIdentifier,
      RenderSelectQueryText = (\<lambda>parts descr. DefaultSelectQueryRender parts)\<rparr>"

interpretation ch_ids: quoted_identifiers "CHR 0x22" drop_nul ch_SanitiseIdentifier
  by unfold_locales (simp add: ch_SanitiseIdentifier_def)

interpretation pg_ids: quoted_identifiers "CHR 0x22" drop_nul pg_SanitiseIdentifier
  by unfold_locales (simp add: pg_SanitiseIdentifier_def)

interpretation ms_ids: quoted_identifiers "CHR 0x22" drop_nul ms_SanitiseIdentifier
  by unfold_locales (simp add: ms_SanitiseIdentifier_def)

interpretation ora_ids: quoted_identifiers "CHR 0x22" drop_nul ora_SanitiseIdentifier
  by unfold_locales (simp add: ora_SanitiseIdentifier_def)

section \<open>MySQL: backticks\<close>

definition my_SanitiseIdentifier :: "string \<Rightarrow> string" where
  "my_SanitiseIdentifier ident =
     CHR 0x60 # replace_char (CHR 0x60) [CHR 0x60, CHR 0x60] ident @ [CHR 0x60]"

fun my_supportsType :: "bool \<Rightarrow> prim_type \<Rightarrow> bool" where
  "my_supportsType ts Type_BOOL = True"
| "my_supportsType ts Type_INT8 = True"
| "my_supportsType ts Type_UINT8 = True"
| "my_supportsType ts Type_INT16 = True"
| "my_supportsType ts Type_UINT16 = True"
| "my_supportsType ts Type_INT32 = True"
| "my_supportsType ts Type_UINT32 = True"
| "my_supportsType ts Type_INT64 = True"
| "my_supportsType ts Type_UINT64 = True"
| "my_supportsType ts Type_FLOAT = True"
| "my_supportsType ts Type_DOUBLE = True"
| "my_supportsType ts Type_TIMESTAMP = ts"
| "my_supportsType ts _ = False"

fun my_supportsConstantValueExpression :: "bool \<Rightarrow> ydb_type \<Rightarrow> bool" where
  "my_supportsConstantValueExpression ts (TypeId i) = my_supportsType ts i"
| "my_supportsConstantValueExpression ts (OptionalType t) = my_supportsConstantValueExpression ts t"
| "my_supportsConstantValueExpression ts _ = False"

fun my_SupportsPushdownExpression :: "bool \<Rightarrow> expression \<Rightarrow> bool" where
  "my_SupportsPushdownExpression ts (ExprColumn c) = True"
| "my_SupportsPushdownExpression ts (ExprTypedValue v) = my_supportsConstantValueExpression ts (tv_type v)"
| "my_SupportsPushdownExpression ts (ExprArith op l r) = False"
| "my_SupportsPushdownExpression ts ExprNull = True"
| "my_SupportsPushdownExpression ts _ = False"

definition my_formatter :: "bool \<Rightarrow> sql_formatter" where
  "my_formatter ts =
     \<lparr>GetPlaceholder = (\<lambda>n. Ok ''?''),
      SanitiseIdentifier = my_SanitiseIdentifier,
      SupportsPushdownExpression = my_SupportsPushdownExpression ts,
      FormatFrom = my_SanitiseIdentifier,
      RenderSelectQueryText = (\<lambda>parts descr. DefaultSelectQueryRender parts)\<rparr>"

interpretation my_ids: quoted_identifiers "CHR 0x60" "\<lambda>s. s" my_SanitiseIdentifier
  by unfold_locales (simp add: my_SanitiseIdentifier_def)

section \<open>YDB and Cloud Logging\<close>

datatype ydb_mode =
    MODE_UNSPECIFIED | MODE_TABLE_SERVICE_STDLIB_SCAN_QUERIES | MODE_QUERY_SERVICE_NATIVE

text \<open>
  The split descriptions of the YDB data source (\<^verbatim>\<open>ydb/split.proto\<close>) and of Cloud Logging
  (\<^verbatim>\<open>logging/split.proto\<close>, its endpoint left to the connection manager).
\<close>

datatype ydb_split_description = SplitColumnShard "u64 list" | SplitDataShard | SplitUnset

record logging_ydb_source =
  src_database :: string
  src_table :: string
  src_tablet_ids :: "u64 list"

fun ydb_supportsTypeForPushdown :: "bool \<Rightarrow> prim_type \<Rightarrow> bool" where
  "ydb_supportsTypeForPushdown ts Type_BOOL = True"
| "ydb_supportsTypeForPushdown ts Type_INT8 = True"
| "ydb_supportsTypeForPushdown ts Type_UINT8 = True"
| "ydb_supportsTypeForPushdown ts Type_INT16 = True"
| "ydb_supportsTypeForPushdown ts Type_UINT16 = True"
| "ydb_supportsTypeForPushdown ts Type_INT32 = True"
| "ydb_supportsTypeForPushdown ts Type_UINT32 = True"
| "ydb_supportsTypeForPushdown ts Type_INT64 = True"
| "ydb_supportsTypeForPushdown ts Type_UINT64 = True"
| "ydb_supportsTypeForPushdown ts Type_FLOAT = True"
| "ydb_supportsTypeForPushdown ts Type_DOUBLE = True"
| "ydb_supportsTypeForPushdown ts Type_STRING = True"
| "ydb_supportsTypeForPushdown ts Type_UTF8 = True"
| "ydb_supportsTypeForPushdown ts Type_JSON = False"
| "ydb_supportsTypeForPushdown ts Type_TIMESTAMP = ts"
| "ydb_supportsTypeForPushdown ts _ = False"

fun ydb_supportsConstantValueExpression :: "bool \<Rightarrow> ydb_type \<Rightarrow> bool" where
  "ydb_supportsConstantValueExpression ts (TypeId i) = ydb_supportsTypeForPushdown ts i"
| "ydb_supportsConstantValueExpression ts (OptionalType t) = ydb_supportsConstantValueExpression ts t"
| "ydb_supportsConstantValueExpression ts (NullType n) = True"
| "ydb_supportsConstantValueExpression ts _ = False"

fun ydb_SupportsPushdownExpression :: "bool \<Rightarrow> expression \<Rightarrow> bool" where
  "ydb_SupportsPushdownExpression ts (ExprColumn c) = True"
| "ydb_SupportsPushdownExpression ts (ExprTypedValue v) = ydb_supportsConstantValueExpression ts (tv_type v)"
| "ydb_SupportsPushdownExpression ts (ExprArith op l r) = False"
| "ydb_SupportsPushdownExpression ts ExprNull = True"
| "ydb_SupportsPushdownExpression ts _ = False"

fun ydb_GetPlaceholder :: "ydb_mode \<Rightarrow> nat \<Rightarrow> string res" where
  "ydb_GetPlaceholder MODE_QUERY_SERVICE_NATIVE n = Ok (''$p'' @ dec n)"
| "ydb_GetPlaceholder MODE_TABLE_SERVICE_STDLIB_SCAN_QUERIES n = Ok ''?''"
| "ydb_GetPlaceholder MODE_UNSPECIFIED n = Panic ''unknown mode''"

definition ydb_SanitiseIdentifier :: "string \<Rightarrow> string" where
  "ydb_SanitiseIdentifier ident = [CHR 0x60] @ ident @ [CHR 0x60]"

definition ydb_FormatFrom :: "string \<Rightarrow> string" where
  "ydb_FormatFrom tableName = ydb_SanitiseIdentifier (trim_prefix tableName ''/'')"

fun RenderSelectQueryTextForColumnShard :: "select_query_parts \<Rightarrow> u64 list \<Rightarrow> string res" where
  "RenderSelectQueryTextForColumnShard parts [tabletID] =
     Ok (''SELECT '' @ SelectClause parts @ '' FROM '' @ FromClause parts @
         '' WITH TabletId='' @ [CHR 0x27] @ dec (unat tabletID) @ [CHR 0x27] @
         (if WhereClause parts \<noteq> '''' then '' WHERE '' @ WhereClause parts else ''''))"
| "RenderSelectQueryTextForColumnShard parts tabletIDs =
     Err (NewErr ''column shard split description must contain exactly 1 shard id'')"

definition renderSelectQueryTextForDataShard :: "select_query_parts \<Rightarrow> string res" where
  "renderSelectQueryTextForDataShard parts =
     wrap_res ''default select query render'' (DefaultSelectQueryRender parts)"

definition ydb_RenderSelectQueryText ::
  "(string \<Rightarrow> ydb_split_description res) \<Rightarrow> select_query_parts \<Rightarrow> string \<Rightarrow> string res" where
  "ydb_RenderSelectQueryText unmarshal parts descr =
     bind_res (wrap_res ''unmarshal split description'' (unmarshal descr)) (\<lambda>d.
       case d of
         SplitColumnShard ids \<Rightarrow>
           wrap_res ''render select query text for column shard''
             (RenderSelectQueryTextForColumnShard parts ids)
       | SplitDataShard \<Rightarrow>
           wrap_res ''render select query text for column shard''
             (renderSelectQueryTextForDataShard parts)
       | SplitUnset \<Rightarrow> Err (NewErr ''unknown split description type''))"

definition ydb_formatter ::
  "(string \<Rightarrow> ydb_split_description res) \<Rightarrow> ydb_mode \<Rightarrow> bool \<Rightarrow> sql_formatter" where
  "ydb_formatter unmarshal mode ts =
     \<lparr>GetPlaceholder = ydb_GetPlaceholder mode,
      SanitiseIdentifier = ydb_SanitiseIdentifier,
      SupportsPushdownExpression = ydb_SupportsPushdownExpression ts,
      FormatFrom = ydb_FormatFrom,
      RenderSelectQueryText = ydb_RenderSelectQueryText unmarshal\<rparr>"

text \<open>Cloud Logging embeds the YDB formatter and replaces the rendering of the query.\<close>

definition logging_RenderSelectQueryText ::
  "(string \<Rightarrow> logging_ydb_source option res) \<Rightarrow> select_query_parts \<Rightarrow> string \<Rightarrow> string res" where
  "logging_RenderSelectQueryText unmarshal parts descr =
     bind_res (wrap_res ''unmarshal split description'' (unmarshal descr)) (\<lambda>d.
       case d of
         None \<Rightarrow> Panic ''nil pointer dereference''
       | Some src \<Rightarrow> RenderSelectQueryTextForColumnShard parts (src_tablet_ids src))"

definition logging_formatter ::
  "(string \<Rightarrow> logging_ydb_source option res) \<Rightarrow> ydb_mode \<Rightarrow> bool \<Rightarrow> sql_formatter" where
  "logging_formatter unmarshal mode ts =
     \<lparr>GetPlaceholder = ydb_GetPlaceholder mode,
      SanitiseIdentifier = ydb_SanitiseIdentifier,
      SupportsPushdownExpression = ydb_SupportsPushdownExpression ts,
      FormatFrom = ydb_FormatFrom,
      RenderSelectQueryText = logging_RenderSelectQueryText unmarshal\<rparr>"

lemmas formatter_defs =
  ch_formatter_def pg_formatter_def ms_formatter_def ora_formatter_def my_formatter_def
  ydb_formatter_def logging_formatter_def

text \<open>
  YDB's \<^verbatim>\<open>SanitiseIdentifier\<close> quotes without escaping: an identifier with a backtick ends the
  quoted name early, and what follows it is read as query text.
\<close>

lemma ydb_identifier_breaks_out:
  assumes "CHR 0x60 \<notin> set a" and "b \<noteq> []" and "hd b \<noteq> CHR 0x60"
  shows "scan_quoted (CHR 0x60) (ydb_SanitiseIdentifier (a @ CHR 0x60 # b)) = Some (a, b @ [CHR 0x60])"
proof -
  have "scan_body (CHR 0x60) (replace_char (CHR 0x60) [CHR 0x60, CHR 0x60] a @ CHR 0x60 # (b @ [CHR 0x60]))
        = Some (a, b @ [CHR 0x60])"
    by (rule scan_body_doubled) (use assms in simp)
  then show ?thesis
    using assms by (simp add: ydb_SanitiseIdentifier_def replace_char_absent)
qed

end
