(* ===== verification/PredicateBuilder.thy ===== *)
theory PredicateBuilder
  imports SqlFormatters
begin

text \<open>
  The construction of the WHERE clause and of the whole SELECT
  (\<^verbatim>\<open>rdbms/utils/predicate_builder.go\<close>, \<^verbatim>\<open>select_helpers.go\<close>, \<^verbatim>\<open>select_query.go\<close>). The builder's
  mutable fields (the query arguments and the suppressed conjunction errors) are passed
  through every call and returned also when the call fails, because the source keeps what
  a failed call has already appended. Counters of operands are unbounded.
\<close>

section \<open>Expressions\<close>

text \<open>Every literal appends its argument and returns the placeholder of the last argument.\<close>

definition add_arg ::
  "sql_formatter \<Rightarrow> ydb_type \<Rightarrow> arg_value \<Rightarrow> query_args \<Rightarrow> string res \<times> query_args" where
  "add_arg F t v args =
     (let args' = AddTyped args t v in (GetPlaceholder F (Count (Some args') - 1), args'))"

fun wrap_fst :: "string \<Rightarrow> 'a res \<times> 'b \<Rightarrow> 'a res \<times> 'b" where
  "wrap_fst p (r, s) = (wrap_res p r, s)"

definition addTypedNull ::
  "sql_formatter \<Rightarrow> go_scalar \<Rightarrow> ydb_type \<Rightarrow> query_args \<Rightarrow> string res \<times> query_args" where
  "addTypedNull F acceptor t args = add_arg F t (ArgNilPtr acceptor) args"

fun null_acceptor :: "prim_type \<Rightarrow> go_scalar option" where
  "null_acceptor Type_BOOL = Some GoBool"
| "null_acceptor Type_INT8 = Some GoInt8"
| "null_acceptor Type_UINT8 = Some GoUint8"
| "null_acceptor Type_INT16 = Some GoInt16"
| "null_acceptor Type_UINT16 = Some GoUint16"
| "null_acceptor Type_INT32 = Some GoInt32"
| "null_acceptor Type_UINT32 = Some GoUint32"
| "null_acceptor Type_INT64 = Some GoInt64"
| "null_acceptor Type_UINT64 = Some GoUint64"
| "null_acceptor Type_STRING = Some GoBytes"
| "null_acceptor Type_UTF8 = Some GoString"
| "null_acceptor _ = None"

fun formatNullFlagValue ::
  "sql_formatter \<Rightarrow> typed_value \<Rightarrow> query_args \<Rightarrow> string res \<times> query_args" where
  "formatNullFlagValue F v args =
     (case tv_type v of
        OptionalType (TypeId i) \<Rightarrow>
          (case null_acceptor i of
             Some a \<Rightarrow> addTypedNull F a (tv_type v) args
           | None \<Rightarrow>
               (Err (Wrap ''unsupported primitive type'' (Sentinel ErrUnimplementedTypedValue)), args))
      | OptionalType _ \<Rightarrow>
          (Err (Wrap ''unsupported type'' (Sentinel ErrUnimplementedTypedValue)), args)
      | _ \<Rightarrow>
          (Err (Wrap ''null flag values must be optionally typed''
                 (Sentinel ErrUnimplementedTypedValue)), args))"

fun formatPrimitiveValue ::
  "sql_formatter \<Rightarrow> typed_value \<Rightarrow> bool \<Rightarrow> query_args \<Rightarrow> string res \<times> query_args" where
  "formatPrimitiveValue F v embedBool args =
     (case tv_value v of
        BoolValue b \<Rightarrow>
          if embedBool then (Ok (if b then ''true'' else ''false''), args)
          else add_arg F (tv_type v) (ArgBool b) args
      | Int32Value x \<Rightarrow> add_arg F (tv_type v) (ArgInt32 x) args
      | Uint32Value x \<Rightarrow> add_arg F (tv_type v) (ArgUint32 x) args
      | Int64Value x \<Rightarrow>
          (case GetTypeId (tv_type v) of
             Type_INT64 \<Rightarrow> add_arg F (tv_type v) (ArgInt64 x) args
           | Type_TIMESTAMP \<Rightarrow> add_arg F (tv_type v) (ArgTimeUTC x) args
           | _ \<Rightarrow> (Err (Wrap ''unsupported type'' (Sentinel ErrUnimplementedTypedValue)), args))
      | Uint64Value x \<Rightarrow> add_arg F (tv_type v) (ArgUint64 x) args
      | FloatValue x \<Rightarrow> add_arg F (tv_type v) (ArgFloat x) args
      | DoubleValue x \<Rightarrow> add_arg F (tv_type v) (ArgDouble x) args
      | BytesValue x \<Rightarrow> add_arg F (tv_type v) (ArgBytes x) args
      | TextValue x \<Rightarrow> add_arg F (tv_type v) (ArgText x) args
      | NullFlagValue \<Rightarrow> wrap_fst ''format null flag value'' (formatNullFlagValue F v args)
      | ValueOther n \<Rightarrow>
          (Err (Wrap ''unsupported type'' (Sentinel ErrUnimplementedTypedValue)), args))"

fun formatOptionalValue ::
  "sql_formatter \<Rightarrow> typed_value \<Rightarrow> query_args \<Rightarrow> string res \<times> query_args" where
  "formatOptionalValue F v args =
     (case tv_value v of
        BoolValue b \<Rightarrow> add_arg F (tv_type v) (ArgPtr (ArgBool b)) args
      | Int32Value x \<Rightarrow> add_arg F (tv_type v) (ArgPtr (ArgInt32 x)) args
      | Uint32Value x \<Rightarrow> add_arg F (tv_type v) (ArgPtr (ArgUint32 x)) args
      | Int64Value x \<Rightarrow> add_arg F (tv_type v) (ArgPtr (ArgInt64 x)) args
      | Uint64Value x \<Rightarrow> add_arg F (tv_type v) (ArgPtr (ArgUint64 x)) args
      | FloatValue x \<Rightarrow> add_arg F (tv_type v) (ArgPtr (ArgFloat x)) args
      | DoubleValue x \<Rightarrow> add_arg F (tv_type v) (ArgPtr (ArgDouble x)) args
      | BytesValue x \<Rightarrow> add_arg F (tv_type v) (ArgPtr (ArgBytes x)) args
      | TextValue x \<Rightarrow> add_arg F (tv_type v) (ArgPtr (ArgText x)) args
      | NullFlagValue \<Rightarrow> wrap_fst ''format null flag value'' (formatNullFlagValue F v args)
      | ValueOther n \<Rightarrow>
          (Err (Wrap ''unsupported type'' (Sentinel ErrUnimplementedTypedValue)), args))"

fun is_OptionalType :: "ydb_type \<Rightarrow> bool" where
  "is_OptionalType (OptionalType t) = True"
| "is_OptionalType t = False"

definition formatValue ::
  "sql_formatter \<Rightarrow> typed_value \<Rightarrow> bool \<Rightarrow> query_args \<Rightarrow> string res \<times> query_args" where
  "formatValue F v embedBool args =
     (if is_OptionalType (tv_type v) then formatOptionalValue F v args
      else formatPrimitiveValue F v embedBool args)"

fun arith_text :: "arith_op \<Rightarrow> string option" where
  "arith_text MUL = Some '' * ''"
| "arith_text ADD = Some '' + ''"
| "arith_text SUB = Some '' - ''"
| "arith_text BIT_AND = Some '' & ''"
| "arith_text BIT_OR = Some '' | ''"
| "arith_text BIT_XOR = Some '' ^ ''"
| "arith_text _ = None"

text \<open>Sequencing of two calls that share the builder's state.\<close>

fun bind_st :: "'a res \<times> 's \<Rightarrow> ('a \<Rightarrow> 's \<Rightarrow> 'b res \<times> 's) \<Rightarrow> 'b res \<times> 's" where
  "bind_st (Ok x, s) f = f x s"
| "bind_st (Err e, s) f = (Err e, s)"
| "bind_st (Panic m, s) f = (Panic m, s)"

lemma bind_st_cong [fundef_cong]:
  "m = m' \<Longrightarrow> (\<And>x s. m' = (Ok x, s) \<Longrightarrow> f x s = g x s) \<Longrightarrow> bind_st m f = bind_st m' g"
  by (cases m'; cases "fst m'") auto

function (sequential) formatExpression ::
    "sql_formatter \<Rightarrow> expression \<Rightarrow> bool \<Rightarrow> query_args \<Rightarrow> string res \<times> query_args"
  and formatArithmeticalExpression ::
    "sql_formatter \<Rightarrow> arith_op \<Rightarrow> expression \<Rightarrow> expression \<Rightarrow> bool \<Rightarrow> query_args \<Rightarrow>
     string res \<times> query_args"
where
  "formatExpression F e embedBool args =
     (if \<not> SupportsPushdownExpression F e then (Err (Sentinel ErrUnsupportedExpression), args)
      else
        (case e of
           ExprColumn c \<Rightarrow> (Ok (SanitiseIdentifier F c), args)
         | ExprTypedValue v \<Rightarrow> wrap_fst ''format value'' (formatValue F v embedBool args)
         | ExprArith op l r \<Rightarrow>
             wrap_fst ''format arithmetical expression''
               (formatArithmeticalExpression F op l r embedBool args)
         | ExprNull \<Rightarrow> (Ok ''NULL'', args)
         | _ \<Rightarrow> (Err (Wrap ''type'' (Sentinel ErrUnimplementedExpression)), args)))"
| "formatArithmeticalExpression F op l r embedBool args =
     (case arith_text op of
        None \<Rightarrow> (Err (Wrap ''operation'' (Sentinel ErrUnimplementedArithmeticalExpression)), args)
      | Some operation \<Rightarrow>
          bind_st (wrap_fst ''format left expression'' (formatExpression F l embedBool args)) (\<lambda>left args.
          bind_st (wrap_fst ''format right expression'' (formatExpression F r embedBool args)) (\<lambda>right args.
            (Ok (''('' @ left @ operation @ right @ '')''), args))))"
  by pat_completeness auto

termination
  by (relation "measure (\<lambda>x. case x of
        Inl (F, e, b, a) \<Rightarrow> 2 * size e
      | Inr (F, op, l, r, b, a) \<Rightarrow> 2 * (size l + size r) + 1)") auto

declare formatExpression.simps [simp del] formatArithmeticalExpression.simps [simp del]

section \<open>Predicates\<close>

record pbuilder =
  pb_args :: query_args
  pb_conjunctionErrors :: "go_error list"

definition with_args ::
  "(query_args \<Rightarrow> string res \<times> query_args) \<Rightarrow> pbuilder \<Rightarrow> string res \<times> pbuilder" where
  "with_args f pb = (case f (pb_args pb) of (r, a) \<Rightarrow> (r, pb\<lparr>pb_args := a\<rparr>))"

fun cmp_text :: "cmp_op \<Rightarrow> string option" where
  "cmp_text CMP_L = Some '' < ''"
| "cmp_text CMP_LE = Some '' <= ''"
| "cmp_text CMP_EQ = Some '' = ''"
| "cmp_text CMP_NE = Some '' <> ''"
| "cmp_text CMP_GE = Some '' >= ''"
| "cmp_text CMP_G = Some '' > ''"
| "cmp_text _ = None"

definition formatComparison ::
  "sql_formatter \<Rightarrow> cmp_op \<Rightarrow> expression \<Rightarrow> expression \<Rightarrow> bool \<Rightarrow> query_args \<Rightarrow>
   string res \<times> query_args" where
  "formatComparison F op l r embedBool args =
     (case cmp_text op of
        None \<Rightarrow> (Err (Wrap ''op'' (Sentinel ErrUnimplementedOperation)), args)
      | Some operation \<Rightarrow>
          bind_st (wrap_fst ''format left expression'' (formatExpression F l embedBool args)) (\<lambda>left args.
          bind_st (wrap_fst ''format right expression'' (formatExpression F r embedBool args)) (\<lambda>right args.
            (Ok (''('' @ left @ operation @ right @ '')''), args))))"

definition formatIsNull ::
  "sql_formatter \<Rightarrow> expression \<Rightarrow> query_args \<Rightarrow> string res \<times> query_args" where
  "formatIsNull F e args =
     bind_st (wrap_fst ''format expression'' (formatExpression F e False args)) (\<lambda>s args.
       (Ok (''('' @ s @ '' IS NULL)''), args))"

definition formatIsNotNull ::
  "sql_formatter \<Rightarrow> expression \<Rightarrow> query_args \<Rightarrow> string res \<times> query_args" where
  "formatIsNotNull F e args =
     bind_st (wrap_fst ''format expression'' (formatExpression F e False args)) (\<lambda>s args.
       (Ok (''('' @ s @ '' IS NOT NULL)''), args))"

text \<open>The locals of the loops of \<^verbatim>\<open>formatConjunction\<close> and \<^verbatim>\<open>formatDisjunction\<close>.\<close>

record loop_vars =
  lv_sb :: string
  lv_count :: nat
  lv_first :: string
  lv_err :: "go_error option"

definition loop_init :: loop_vars where
  "loop_init = \<lparr>lv_sb = '''', lv_count = 0, lv_first = '''', lv_err = None\<rparr>"

definition loop_add :: "string \<Rightarrow> string \<Rightarrow> loop_vars \<Rightarrow> loop_vars" where
  "loop_add sep statement v =
     (if 0 < lv_count v then
        v\<lparr>lv_sb := lv_sb v @ (if lv_count v = 1 then ''('' @ lv_first v else '''') @ sep @ statement,
          lv_count := lv_count v + 1, lv_err := None\<rparr>
      else v\<lparr>lv_first := statement, lv_count := lv_count v + 1, lv_err := None\<rparr>)"

definition loop_result :: "loop_vars \<Rightarrow> string" where
  "loop_result v = (if lv_count v = 1 then lv_sb v @ lv_first v else lv_sb v @ '')'')"

text \<open>\<^verbatim>\<open>fmt.Errorf("format predicate: %w", nil)\<close> wraps nothing.\<close>

fun wrap_nilable :: "string \<Rightarrow> go_error option \<Rightarrow> go_error" where
  "wrap_nilable p (Some e) = Wrap p e"
| "wrap_nilable p None = NewErr p"

function (sequential) formatPredicate ::
    "sql_formatter \<Rightarrow> data_source_kind \<Rightarrow> predicate \<Rightarrow> bool \<Rightarrow> bool \<Rightarrow> pbuilder \<Rightarrow>
     string res \<times> pbuilder"
  and formatNegation ::
    "sql_formatter \<Rightarrow> data_source_kind \<Rightarrow> predicate \<Rightarrow> pbuilder \<Rightarrow> string res \<times> pbuilder"
  and formatConjunction ::
    "sql_formatter \<Rightarrow> data_source_kind \<Rightarrow> predicate list \<Rightarrow> bool \<Rightarrow> loop_vars \<Rightarrow> pbuilder \<Rightarrow>
     string res \<times> pbuilder"
  and formatDisjunction ::
    "sql_formatter \<Rightarrow> data_source_kind \<Rightarrow> predicate list \<Rightarrow> loop_vars \<Rightarrow> pbuilder \<Rightarrow>
     string res \<times> pbuilder"
  and formatCoalesce ::
    "sql_formatter \<Rightarrow> data_source_kind \<Rightarrow> predicate list \<Rightarrow> string \<Rightarrow> pbuilder \<Rightarrow>
     string res \<times> pbuilder"
where
  "formatPredicate F k p topLevel embedBool pb =
     (case p of
        Negation q \<Rightarrow> wrap_fst ''format negation'' (formatNegation F k q pb)
      | Conjunction ps \<Rightarrow>
          wrap_fst ''format conjunction'' (formatConjunction F k ps topLevel loop_init pb)
      | Disjunction ps \<Rightarrow> wrap_fst ''format disjunction'' (formatDisjunction F k ps loop_init pb)
      | IsNull e \<Rightarrow> wrap_fst ''format is null'' (with_args (formatIsNull F e) pb)
      | IsNotNull e \<Rightarrow> wrap_fst ''format is not null'' (with_args (formatIsNotNull F e) pb)
      | Comparison op l r \<Rightarrow>
          wrap_fst ''format comparison'' (with_args (formatComparison F op l r embedBool) pb)
      | BoolExpression e \<Rightarrow>
          wrap_fst ''format expression'' (with_args (formatExpression F e embedBool) pb)
      | PredCoalesce ps \<Rightarrow>
          wrap_fst ''format coalesce'' (formatCoalesce F k ps ''COALESCE('' pb)
      | _ \<Rightarrow> (Err (Wrap ''type'' (Sentinel ErrUnimplementedPredicateType)), pb))"
| "formatNegation F k q pb =
     bind_st (wrap_fst ''format predicate'' (formatPredicate F k q False False pb)) (\<lambda>pred pb.
       (Ok (''(NOT '' @ pred @ '')''), pb))"
| "formatConjunction F k [] topLevel v pb =
     (if lv_count v = 0 then (Err (wrap_nilable ''format predicate'' (lv_err v)), pb)
      else (Ok (loop_result v), pb))"
| "formatConjunction F k (p # ps) topLevel v pb =
     (case formatPredicate F k p False False pb of
        (Ok statement, pb') \<Rightarrow>
          formatConjunction F k ps topLevel (loop_add '' AND '' statement v) pb'
      | (Err e, pb') \<Rightarrow>
          if \<not> topLevel then (Err (Wrap ''format predicate'' e), pb')
          else
            formatConjunction F k ps topLevel (v\<lparr>lv_err := Some e\<rparr>)
              (pb'\<lparr>pb_conjunctionErrors :=
                 pb_conjunctionErrors pb' @ [Wrap ''format predicate'' e]\<rparr>)
      | (Panic m, pb') \<Rightarrow> (Panic m, pb'))"
| "formatDisjunction F k [] v pb =
     (if lv_count v = 0 then (Err (NewErr ''no operands''), pb) else (Ok (loop_result v), pb))"
| "formatDisjunction F k (p # ps) v pb =
     bind_st (wrap_fst ''format predicate'' (formatPredicate F k p False True pb)) (\<lambda>statement pb.
       formatDisjunction F k ps (loop_add '' OR '' statement v) pb)"
| "formatCoalesce F k [] sb pb = (Ok (sb @ '')''), pb)"
| "formatCoalesce F k (p # ps) sb pb =
     bind_st (wrap_fst ''format expression'' (formatPredicate F k p False (k = LOGGING) pb)) (\<lambda>statement pb.
       formatCoalesce F k ps (sb @ statement @ (if ps \<noteq> [] then '', '' else '''')) pb)"
  by pat_completeness auto

termination
  by (relation "measure (\<lambda>x. case x of
        Inl (Inl (F, k, p, _)) \<Rightarrow> 2 * size p
      | Inl (Inr (F, k, p, _)) \<Rightarrow> 2 * size p + 1
      | Inr (Inl (F, k, ps, _)) \<Rightarrow> 2 * size_list size ps
      | Inr (Inr (Inl (F, k, ps, _))) \<Rightarrow> 2 * size_list size ps
      | Inr (Inr (Inr (F, k, ps, _))) \<Rightarrow> 2 * size_list size ps)") auto

declare formatPredicate.simps [simp del] formatNegation.simps [simp del]

section \<open>The WHERE clause and the query\<close>

definition acceptableErrors :: "sentinel list" where
  "acceptableErrors = [ErrUnsupportedExpression, ErrUnimplementedPredicateType, ErrUnimplementedTypedValue]"

text \<open>
  \<^verbatim>\<open>formatWhereClause\<close> returns the clause and the arguments also beside an error; its only
  caller drops them then, and the outcome here is the error alone. On an error
  \<^verbatim>\<open>formatPredicate\<close> returns the empty text.
\<close>

fun formatWhereClause ::
  "filtering \<Rightarrow> sql_formatter \<Rightarrow> predicate option \<Rightarrow> data_source_kind \<Rightarrow> (string \<times> query_args) res" where
  "formatWhereClause filtering F None k =
     Err (Wrap ''unexpected nil filter'' (Sentinel ErrInvalidRequest))"
| "formatWhereClause filtering F (Some p) k =
     (case formatPredicate F k p True False \<lparr>pb_args = [], pb_conjunctionErrors = []\<rparr> of
        (Panic m, pb) \<Rightarrow> Panic m
      | (r, pb) \<Rightarrow>
         (if filtering = FILTERING_UNSPECIFIED \<or> filtering = FILTERING_OPTIONAL then
            (case r of
               Ok clause \<Rightarrow> Ok (clause, pb_args pb)
             | Err e \<Rightarrow>
                 if matcher_match acceptableErrors (Some e) then Ok ('''', pb_args pb) else Err e
             | Panic m \<Rightarrow> Panic m)
          else if filtering = FILTERING_MANDATORY then
            (case r of Ok clause \<Rightarrow> Ok (clause, pb_args pb) | Err e \<Rightarrow> Err e | Panic m \<Rightarrow> Panic m)
          else Err (NewErr ''unknown filtering mode'')))"

text \<open>\<^verbatim>\<open>select_helpers.go\<close>: the items of the SELECT list, an item without a column being an error.\<close>

fun selectWhatToYDBColumns :: "select_what \<Rightarrow> column list res" where
  "selectWhatToYDBColumns [] = Ok []"
| "selectWhatToYDBColumns (item # items) =
     (case item of
        None \<Rightarrow> Err (NewErr ''item is not a column'')
      | Some c \<Rightarrow> bind_res (selectWhatToYDBColumns items) (\<lambda>cs. Ok (c # cs)))"

definition makeTSelectTWhatForEmptyColumnsRequest :: select_what where
  "makeTSelectTWhatForEmptyColumnsRequest =
     [Some \<lparr>col_name = '''', col_type = MakePrimitiveType Type_INT64\<rparr>]"

definition formatSelectClause ::
  "sql_formatter \<Rightarrow> select_what \<Rightarrow> bool \<Rightarrow> (string \<times> select_what) res" where
  "formatSelectClause F selectWhat fakeZeroOnEmptyColumnsSet =
     bind_res (wrap_res ''convert Select.What.Items to Ydb.Columns'' (selectWhatToYDBColumns selectWhat))
       (\<lambda>columns.
          if columns = [] then
            (if \<not> fakeZeroOnEmptyColumnsSet then Err (NewErr ''empty columns set'')
             else Ok (''0'', makeTSelectTWhatForEmptyColumnsRequest))
          else Ok (join '', '' (map (\<lambda>c. SanitiseIdentifier F (col_name c)) columns), selectWhat))"

text \<open>
  A split as \<^verbatim>\<open>MakeSelectQuery\<close> reads it: the SELECT list, the optional WHERE (whose typed
  filter is itself optional), the kind of the data source, the description bytes.
\<close>

record split_request =
  sp_what :: select_what
  sp_where :: "predicate option option"
  sp_kind :: data_source_kind
  sp_description :: string

record select_query =
  QueryText :: string
  QueryArgs :: "query_args option"
  YdbTypes :: "ydb_type list"

definition MakeSelectQuery ::
  "sql_formatter \<Rightarrow> split_request \<Rightarrow> filtering \<Rightarrow> string \<Rightarrow> select_query res" where
  "MakeSelectQuery F split filtering tableName =
     bind_res (wrap_res ''format select clause'' (formatSelectClause F (sp_what split) True)) (\<lambda>(sel, what').
     bind_res (wrap_res ''convert Select.What to Ydb types'' (SelectWhatToYDBTypes what')) (\<lambda>types.
       if tableName = '''' then Err (Sentinel ErrEmptyTableName)
       else
         bind_res
           (case sp_where split of
              None \<Rightarrow> Ok ('''', None)
            | Some w \<Rightarrow>
                bind_res (wrap_res ''format where clause'' (formatWhereClause filtering F w (sp_kind split)))
                  (\<lambda>(clause, args). Ok (clause, Some args)))
           (\<lambda>(clause, args).
              bind_res
                (wrap_res ''render query text''
                  (RenderSelectQueryText F
                     \<lparr>SelectClause = sel, FromClause = FormatFrom F tableName, WhereClause = clause\<rparr>
                     (sp_description split)))
                (\<lambda>text. Ok \<lparr>QueryText = text, QueryArgs = args, YdbTypes = types\<rparr>))))"

end
