(* ===== verification/SqlTerms.thy ===== *)
theory SqlTerms
  imports PredicateBuilder
begin

text \<open>
  The abstract syntax of the conditions the predicate builder writes, and the functional
  refinement of the builder: \<open>expr_spec\<close> and \<open>pred_spec\<close> translate a request tree into a term
  and the arguments it consumes, with no text and no state, and the lemmas show that the
  builder returns exactly the printed term and exactly these arguments, or fails with the
  same sentinel.
\<close>

section \<open>Terms and their text\<close>

datatype sql_term =
    TCol string
  | TArg nat
  | TNull
  | TBool bool
  | TArith arith_op sql_term sql_term
  | TCmp cmp_op sql_term sql_term
  | TIsNull sql_term
  | TIsNotNull sql_term
  | TNot sql_term
  | TAnd "sql_term list"
  | TOr "sql_term list"
  | TCoalesce "sql_term list"

fun res_text :: "string res \<Rightarrow> string" where
  "res_text (Ok s) = s"
| "res_text _ = ''''"

definition op_text :: "string option \<Rightarrow> string" where
  "op_text x = (case x of Some s \<Rightarrow> s | None \<Rightarrow> '''')"

fun print_term :: "sql_formatter \<Rightarrow> sql_term \<Rightarrow> string" where
  "print_term F (TCol c) = SanitiseIdentifier F c"
| "print_term F (TArg n) = res_text (GetPlaceholder F n)"
| "print_term F TNull = ''NULL''"
| "print_term F (TBool b) = (if b then ''true'' else ''false'')"
| "print_term F (TArith op l r) =
     ''('' @ print_term F l @ op_text (arith_text op) @ print_term F r @ '')''"
| "print_term F (TCmp op l r) =
     ''('' @ print_term F l @ op_text (cmp_text op) @ print_term F r @ '')''"
| "print_term F (TIsNull t) = ''('' @ print_term F t @ '' IS NULL)''"
| "print_term F (TIsNotNull t) = ''('' @ print_term F t @ '' IS NOT NULL)''"
| "print_term F (TNot t) = ''(NOT '' @ print_term F t @ '')''"
| "print_term F (TAnd ts) = ''('' @ join '' AND '' (map (print_term F) ts) @ '')''"
| "print_term F (TOr ts) = ''('' @ join '' OR '' (map (print_term F) ts) @ '')''"
| "print_term F (TCoalesce ts) = ''COALESCE('' @ join '', '' (map (print_term F) ts) @ '')''"

text \<open>The argument numbers of a term, in the order its text mentions them.\<close>

fun term_args :: "sql_term \<Rightarrow> nat list" where
  "term_args (TCol c) = []"
| "term_args (TArg n) = [n]"
| "term_args TNull = []"
| "term_args (TBool b) = []"
| "term_args (TArith op l r) = term_args l @ term_args r"
| "term_args (TCmp op l r) = term_args l @ term_args r"
| "term_args (TIsNull t) = term_args t"
| "term_args (TIsNotNull t) = term_args t"
| "term_args (TNot t) = term_args t"
| "term_args (TAnd ts) = concat (map term_args ts)"
| "term_args (TOr ts) = concat (map term_args ts)"
| "term_args (TCoalesce ts) = concat (map term_args ts)"

text \<open>A list of operands, where one operand stands for itself.\<close>

fun t_and :: "sql_term list \<Rightarrow> sql_term" where
  "t_and [t] = t"
| "t_and ts = TAnd ts"

fun t_or :: "sql_term list \<Rightarrow> sql_term" where
  "t_or [t] = t"
| "t_or ts = TOr ts"

lemma term_args_t_and [simp]: "term_args (t_and ts) = concat (map term_args ts)"
  by (cases ts rule: t_and.cases) auto

lemma term_args_t_or [simp]: "term_args (t_or ts) = concat (map term_args ts)"
  by (cases ts rule: t_or.cases) auto

section \<open>The translation as a specification\<close>

text \<open>The Go value bound for a literal.\<close>

fun scalar_arg :: "ydb_type \<Rightarrow> ydb_value \<Rightarrow> arg_value option" where
  "scalar_arg t (BoolValue b) = Some (ArgBool b)"
| "scalar_arg t (Int32Value x) = Some (ArgInt32 x)"
| "scalar_arg t (Uint32Value x) = Some (ArgUint32 x)"
| "scalar_arg t (Int64Value x) =
     (if is_OptionalType t then Some (ArgInt64 x)
      else if GetTypeId t = Type_INT64 then Some (ArgInt64 x)
      else if GetTypeId t = Type_TIMESTAMP then Some (ArgTimeUTC x) else None)"
| "scalar_arg t (Uint64Value x) = Some (ArgUint64 x)"
| "scalar_arg t (FloatValue x) = Some (ArgFloat x)"
| "scalar_arg t (DoubleValue x) = Some (ArgDouble x)"
| "scalar_arg t (BytesValue x) = Some (ArgBytes x)"
| "scalar_arg t (TextValue x) = Some (ArgText x)"
| "scalar_arg t NullFlagValue = None"
| "scalar_arg t (ValueOther n) = None"

fun null_arg :: "ydb_type \<Rightarrow> arg_value option" where
  "null_arg (OptionalType (TypeId i)) = map_option ArgNilPtr (null_acceptor i)"
| "null_arg t = None"

definition literal_arg :: "typed_value \<Rightarrow> arg_value option" where
  "literal_arg v =
     (if tv_value v = NullFlagValue then null_arg (tv_type v)
      else map_option (if is_OptionalType (tv_type v) then ArgPtr else id)
             (scalar_arg (tv_type v) (tv_value v)))"

fun embedded_bool :: "bool \<Rightarrow> typed_value \<Rightarrow> bool option" where
  "embedded_bool embedBool v =
     (case tv_value v of
        BoolValue b \<Rightarrow> if embedBool \<and> \<not> is_OptionalType (tv_type v) then Some b else None
      | _ \<Rightarrow> None)"

text \<open>
  A translation fails with the innermost sentinel of the error, or with no sentinel;
  \<open>'a outcome\<close> pairs it with the arguments consumed, which a failure keeps.
\<close>

type_synonym 'a outcome = "(sentinel option + 'a) \<times> query_args"

fun then_spec :: "'a outcome \<Rightarrow> ('a \<Rightarrow> nat \<Rightarrow> 'b outcome) \<Rightarrow> nat \<Rightarrow> 'b outcome" where
  "then_spec (Inl s, as) f n = (Inl s, as)"
| "then_spec (Inr x, as) f n = (case f x (n + length as) of (r, bs) \<Rightarrow> (r, as @ bs))"

definition literal_spec :: "bool \<Rightarrow> nat \<Rightarrow> typed_value \<Rightarrow> sql_term outcome" where
  "literal_spec embedBool n v =
     (case embedded_bool embedBool v of
        Some b \<Rightarrow> (Inr (TBool b), [])
      | None \<Rightarrow>
          (case literal_arg v of
             Some a \<Rightarrow> (Inr (TArg n), [\<lparr>arg_ydb_type = Some (tv_type v), arg_val = a\<rparr>])
           | None \<Rightarrow> (Inl (Some ErrUnimplementedTypedValue), [])))"

fun expr_spec :: "sql_formatter \<Rightarrow> bool \<Rightarrow> nat \<Rightarrow> expression \<Rightarrow> sql_term outcome" where
  "expr_spec F eb n (ExprArith op l r) =
     (if \<not> SupportsPushdownExpression F (ExprArith op l r) then (Inl (Some ErrUnsupportedExpression), [])
      else if arith_text op = None then (Inl (Some ErrUnimplementedArithmeticalExpression), [])
      else then_spec (expr_spec F eb n l) (\<lambda>tl n.
           then_spec (expr_spec F eb n r) (\<lambda>tr n. (Inr (TArith op tl tr), [])) n) n)"
| "expr_spec F eb n e =
     (if \<not> SupportsPushdownExpression F e then (Inl (Some ErrUnsupportedExpression), [])
      else
        (case e of
           ExprColumn c \<Rightarrow> (Inr (TCol c), [])
         | ExprTypedValue v \<Rightarrow> literal_spec eb n v
         | ExprNull \<Rightarrow> (Inr TNull, [])
         | _ \<Rightarrow> (Inl (Some ErrUnimplementedExpression), [])))"

fun pred_spec :: "sql_formatter \<Rightarrow> data_source_kind \<Rightarrow> bool \<Rightarrow> nat \<Rightarrow> predicate \<Rightarrow> sql_term outcome"
  and preds_spec :: "sql_formatter \<Rightarrow> data_source_kind \<Rightarrow> bool \<Rightarrow> nat \<Rightarrow> predicate list \<Rightarrow> sql_term list outcome"
where
  "pred_spec F k eb n (Negation q) =
     then_spec (pred_spec F k False n q) (\<lambda>t n. (Inr (TNot t), [])) n"
| "pred_spec F k eb n (Conjunction ps) =
     (if ps = [] then (Inl None, [])
      else then_spec (preds_spec F k False n ps) (\<lambda>ts n. (Inr (t_and ts), [])) n)"
| "pred_spec F k eb n (Disjunction ps) =
     (if ps = [] then (Inl None, [])
      else then_spec (preds_spec F k True n ps) (\<lambda>ts n. (Inr (t_or ts), [])) n)"
| "pred_spec F k eb n (IsNull e) =
     then_spec (expr_spec F False n e) (\<lambda>t n. (Inr (TIsNull t), [])) n"
| "pred_spec F k eb n (IsNotNull e) =
     then_spec (expr_spec F False n e) (\<lambda>t n. (Inr (TIsNotNull t), [])) n"
| "pred_spec F k eb n (Comparison op l r) =
     (if cmp_text op = None then (Inl (Some ErrUnimplementedOperation), [])
      else then_spec (expr_spec F eb n l) (\<lambda>tl n.
           then_spec (expr_spec F eb n r) (\<lambda>tr n. (Inr (TCmp op tl tr), [])) n) n)"
| "pred_spec F k eb n (BoolExpression e) = expr_spec F eb n e"
| "pred_spec F k eb n (PredCoalesce ps) =
     then_spec (preds_spec F k (k = LOGGING) n ps) (\<lambda>ts n. (Inr (TCoalesce ts), [])) n"
| "pred_spec F k eb n p = (Inl (Some ErrUnimplementedPredicateType), [])"
| "preds_spec F k eb n [] = (Inr [], [])"
| "preds_spec F k eb n (p # ps) =
     then_spec (pred_spec F k eb n p) (\<lambda>t n.
     then_spec (preds_spec F k eb n ps) (\<lambda>ts n. (Inr (t # ts), [])) n) n"

text \<open>
  The operands of a top-level conjunction: those that translate, and the sentinels of those
  that do not; the arguments of a failed operand stay among the arguments.
\<close>

fun top_spec :: "sql_formatter \<Rightarrow> data_source_kind \<Rightarrow> nat \<Rightarrow> predicate list \<Rightarrow>
    sql_term list \<times> sentinel option list \<times> query_args" where
  "top_spec F k n [] = ([], [], [])"
| "top_spec F k n (p # ps) =
     (case pred_spec F k False n p of
        (r, as) \<Rightarrow>
          (case top_spec F k (n + length as) ps of
             (ts, fs, bs) \<Rightarrow>
               (case r of
                  Inr t \<Rightarrow> (t # ts, fs, as @ bs)
                | Inl s \<Rightarrow> (ts, s # fs, as @ bs))))"

section \<open>The builder refines the specification\<close>

fun error_root :: "go_error \<Rightarrow> sentinel option" where
  "error_root (Sentinel s) = Some s"
| "error_root (NewErr m) = None"
| "error_root (Wrap p e) = error_root e"
| "error_root (Foreign i m) = None"

lemma errors_is_root: "errors_is e s \<longleftrightarrow> error_root e = Some s"
  by (induction e) auto

text \<open>Every placeholder is rendered: true of all formatters, for YDB in its two modes.\<close>

definition renders_placeholders :: "sql_formatter \<Rightarrow> bool" where
  "renders_placeholders F \<longleftrightarrow> (\<forall>n. \<exists>s. GetPlaceholder F n = Ok s)"

lemma ydb_GetPlaceholder_Ok: "mode \<noteq> MODE_UNSPECIFIED \<Longrightarrow> \<exists>s. ydb_GetPlaceholder mode n = Ok s"
  by (cases mode) auto

lemma formatters_render_placeholders [simp]:
  "renders_placeholders (ch_formatter ts)" "renders_placeholders (pg_formatter ts)"
  "renders_placeholders (ms_formatter ts)" "renders_placeholders (ora_formatter ts)"
  "renders_placeholders (my_formatter ts)"
  "mode \<noteq> MODE_UNSPECIFIED \<Longrightarrow> renders_placeholders (ydb_formatter u mode ts)"
  "mode \<noteq> MODE_UNSPECIFIED \<Longrightarrow> renders_placeholders (logging_formatter u' mode ts)"
  by (simp_all add: renders_placeholders_def formatter_defs ydb_GetPlaceholder_Ok)

fun agrees :: "sql_formatter \<Rightarrow> string res \<Rightarrow> sentinel option + sql_term \<Rightarrow> bool" where
  "agrees F (Ok s) (Inr t) = (s = print_term F t)"
| "agrees F (Err e) (Inl x) = (error_root e = x)"
| "agrees F _ _ = False"

lemma agrees_Inr [simp]: "agrees F r (Inr t) \<longleftrightarrow> r = Ok (print_term F t)"
  by (cases r) auto

lemma agrees_Inl [simp]: "agrees F r (Inl x) \<longleftrightarrow> (\<exists>e. r = Err e \<and> error_root e = x)"
  by (cases r) auto

lemma add_arg_eq:
  assumes "renders_placeholders F"
  shows "add_arg F t v args =
         (Ok (res_text (GetPlaceholder F (length args))), args @ [\<lparr>arg_ydb_type = Some t, arg_val = v\<rparr>])"
  using assms unfolding renders_placeholders_def add_arg_def AddTyped_def
  by (auto simp: Let_def) (metis res_text.simps(1))

lemma formatNullFlagValue_spec:
  assumes "renders_placeholders F"
  shows "case null_arg (tv_type v) of
           Some a \<Rightarrow> formatNullFlagValue F v args =
             (Ok (print_term F (TArg (length args))),
              args @ [\<lparr>arg_ydb_type = Some (tv_type v), arg_val = a\<rparr>])
         | None \<Rightarrow> \<exists>e. formatNullFlagValue F v args = (Err e, args) \<and>
                      error_root e = Some ErrUnimplementedTypedValue"
  using assms
  by (cases "tv_type v" rule: null_arg.cases)
     (auto simp: addTypedNull_def add_arg_eq split: option.splits)

lemma formatValue_spec:
  assumes "renders_placeholders F" and "literal_spec eb (length args) v = (x, as)"
  shows "\<exists>r. formatValue F v eb args = (r, args @ as) \<and> agrees F r x"
proof (cases "tv_value v = NullFlagValue")
  case True
  then show ?thesis
    using assms formatNullFlagValue_spec [OF assms(1), of v args]
    by (auto simp: formatValue_def literal_spec_def literal_arg_def split: option.splits)
next
  case False
  show ?thesis
  proof (cases "is_OptionalType (tv_type v)")
    case True
    then show ?thesis
      using assms False
      by (cases "tv_value v")
         (auto simp: formatValue_def literal_spec_def literal_arg_def add_arg_eq)
  next
    case False
    then show ?thesis
      using assms \<open>tv_value v \<noteq> NullFlagValue\<close>
      by (cases "tv_value v")
         (auto simp: formatValue_def literal_spec_def literal_arg_def add_arg_eq split: prim_type.splits if_splits)
  qed
qed

lemma formatExpression_spec:
  assumes "renders_placeholders F" and "expr_spec F eb (length args) e = (x, as)"
  shows "\<exists>r. formatExpression F e eb args = (r, args @ as) \<and> agrees F r x"
  using assms(2)
proof (induction e arbitrary: args x as)
  case (ExprTypedValue v)
  show ?case
  proof (cases "SupportsPushdownExpression F (ExprTypedValue v)")
    case True
    with ExprTypedValue have "literal_spec eb (length args) v = (x, as)" by simp
    from formatValue_spec [OF assms(1) this] obtain r where
      "formatValue F v eb args = (r, args @ as)" "agrees F r x" by blast
    with True show ?thesis by (cases x) (auto simp: formatExpression.simps)
  qed (use ExprTypedValue in \<open>auto simp: formatExpression.simps\<close>)
next
  case (ExprArith op l r)
  show ?case
  proof (cases "SupportsPushdownExpression F (ExprArith op l r) \<and> arith_text op \<noteq> None")
    case True
    obtain xl al where l: "expr_spec F eb (length args) l = (xl, al)" by fastforce
    obtain xr ar where r: "expr_spec F eb (length args + length al) r = (xr, ar)" by fastforce
    from ExprArith.IH(1) [OF l] ExprArith.IH(2) [of "args @ al" xr ar] r True ExprArith.prems l
    show ?thesis
      by (cases xl; cases xr)
         (auto simp: formatExpression.simps [of F "ExprArith op l r"]
                     formatArithmeticalExpression.simps op_text_def)
  qed (use ExprArith.prems in \<open>auto simp: formatExpression.simps [of F "ExprArith op l r"]
                     formatArithmeticalExpression.simps split: if_splits\<close>)
qed (auto simp: formatExpression.simps split: if_splits)

text \<open>The locals of the operand loops after the statements \<open>ss\<close>.\<close>

definition loop_of :: "string \<Rightarrow> string list \<Rightarrow> loop_vars \<Rightarrow> bool" where
  "loop_of sep ss v \<longleftrightarrow>
     lv_count v = length ss \<and> (ss \<noteq> [] \<longrightarrow> lv_first v = hd ss) \<and>
     lv_sb v = (if length ss < 2 then '''' else ''('' @ join sep ss)"

lemma loop_of_init [simp]: "loop_of sep [] loop_init"
  by (simp add: loop_of_def loop_init_def)

lemma loop_init_fields [simp]: "lv_count loop_init = 0" "lv_err loop_init = None"
  by (simp_all add: loop_init_def)

lemma loop_of_err [simp]: "loop_of sep ss (v\<lparr>lv_err := e\<rparr>) = loop_of sep ss v"
  by (simp add: loop_of_def)

lemma join_snoc: "ss \<noteq> [] \<Longrightarrow> join sep (ss @ [s]) = join sep ss @ sep @ s"
  by (induction sep ss rule: join.induct) auto

lemma loop_of_add: "loop_of sep ss v \<Longrightarrow> loop_of sep (ss @ [s]) (loop_add sep s v)"
  using join_snoc [of "tl ss" sep s]
  by (cases ss; cases "tl ss") (auto simp: loop_of_def loop_add_def)

lemma loop_result_eq:
  "loop_of sep ss v \<Longrightarrow> ss \<noteq> [] \<Longrightarrow>
     loop_result v = (if length ss = 1 then hd ss else ''('' @ join sep ss @ '')'')"
  by (cases ss; cases "tl ss") (auto simp: loop_of_def loop_result_def)

lemma loop_result_and:
  "loop_of '' AND '' (map (print_term F) ts) v \<Longrightarrow> ts \<noteq> [] \<Longrightarrow>
     loop_result v = print_term F (t_and ts)"
  by (cases ts rule: t_and.cases) (simp_all add: loop_result_eq)

lemma loop_result_or:
  "loop_of '' OR '' (map (print_term F) ts) v \<Longrightarrow> ts \<noteq> [] \<Longrightarrow>
     loop_result v = print_term F (t_or ts)"
  by (cases ts rule: t_or.cases) (simp_all add: loop_result_eq)

text \<open>What one nested call guarantees; the loops rely on it for each operand.\<close>

definition formats :: "sql_formatter \<Rightarrow> data_source_kind \<Rightarrow> bool \<Rightarrow> predicate \<Rightarrow> bool" where
  "formats F k eb p \<longleftrightarrow>
     (\<forall>pb x as. pred_spec F k eb (length (pb_args pb)) p = (x, as) \<longrightarrow>
        (\<exists>r. formatPredicate F k p False eb pb = (r, pb\<lparr>pb_args := pb_args pb @ as\<rparr>) \<and> agrees F r x))"

lemma formatsE:
  assumes "formats F k eb p"
  obtains r x as where
    "pred_spec F k eb (length (pb_args pb)) p = (x, as)"
    "formatPredicate F k p False eb pb = (r, pb\<lparr>pb_args := pb_args pb @ as\<rparr>)" "agrees F r x"
  using assms unfolding formats_def by (metis surj_pair)

lemma formatConjunction_spec:
  assumes "\<And>p. p \<in> set ps \<Longrightarrow> formats F k False p"
    and "preds_spec F k False (length (pb_args pb)) ps = (x, as)"
    and "loop_of '' AND '' (map (print_term F) ts0) v" and "ts0 \<noteq> [] \<or> ps \<noteq> []"
  shows "\<exists>r. formatConjunction F k ps False v pb = (r, pb\<lparr>pb_args := pb_args pb @ as\<rparr>) \<and>
             agrees F r (map_sum (\<lambda>s. s) (\<lambda>ts. t_and (ts0 @ ts)) x)"
  using assms
proof (induction ps arbitrary: v pb x as ts0)
  case Nil
  then show ?case by (auto simp: loop_result_and) (auto simp: loop_of_def)
next
  case (Cons p ps)
  obtain r y bs where p: "pred_spec F k False (length (pb_args pb)) p = (y, bs)"
    "formatPredicate F k p False False pb = (r, pb\<lparr>pb_args := pb_args pb @ bs\<rparr>)" "agrees F r y"
    by (rule formatsE [of F k False p pb]) (use Cons.prems(1) in auto)
  show ?case
  proof (cases y)
    case (Inl s)
    then show ?thesis using p Cons.prems(2) by auto
  next
    case (Inr t)
    obtain z cs where z: "preds_spec F k False (length (pb_args pb) + length bs) ps = (z, cs)"
      by fastforce
    let ?pb = "pb\<lparr>pb_args := pb_args pb @ bs\<rparr>"
    from Cons.IH [of ?pb z cs "ts0 @ [t]" "loop_add '' AND '' (print_term F t) v"]
    obtain r' where "formatConjunction F k ps False (loop_add '' AND '' (print_term F t) v) ?pb =
        (r', ?pb\<lparr>pb_args := pb_args ?pb @ cs\<rparr>)"
      "agrees F r' (map_sum (\<lambda>s. s) (\<lambda>ts. t_and ((ts0 @ [t]) @ ts)) z)"
      using Cons.prems(1,3) z by (auto simp: loop_of_add)
    then show ?thesis using p Inr z Cons.prems(2) by (cases z) auto
  qed
qed

lemma formatDisjunction_spec:
  assumes "\<And>p. p \<in> set ps \<Longrightarrow> formats F k True p"
    and "preds_spec F k True (length (pb_args pb)) ps = (x, as)"
    and "loop_of '' OR '' (map (print_term F) ts0) v" and "ts0 \<noteq> [] \<or> ps \<noteq> []"
  shows "\<exists>r. formatDisjunction F k ps v pb = (r, pb\<lparr>pb_args := pb_args pb @ as\<rparr>) \<and>
             agrees F r (map_sum (\<lambda>s. s) (\<lambda>ts. t_or (ts0 @ ts)) x)"
  using assms
proof (induction ps arbitrary: v pb x as ts0)
  case Nil
  then show ?case by (auto simp: loop_result_or) (auto simp: loop_of_def)
next
  case (Cons p ps)
  obtain r y bs where p: "pred_spec F k True (length (pb_args pb)) p = (y, bs)"
    "formatPredicate F k p False True pb = (r, pb\<lparr>pb_args := pb_args pb @ bs\<rparr>)" "agrees F r y"
    by (rule formatsE [of F k True p pb]) (use Cons.prems(1) in auto)
  show ?case
  proof (cases y)
    case (Inl s)
    then show ?thesis using p Cons.prems(2) by auto
  next
    case (Inr t)
    obtain z cs where z: "preds_spec F k True (length (pb_args pb) + length bs) ps = (z, cs)"
      by fastforce
    let ?pb = "pb\<lparr>pb_args := pb_args pb @ bs\<rparr>"
    from Cons.IH [of ?pb z cs "ts0 @ [t]" "loop_add '' OR '' (print_term F t) v"]
    obtain r' where "formatDisjunction F k ps (loop_add '' OR '' (print_term F t) v) ?pb =
        (r', ?pb\<lparr>pb_args := pb_args ?pb @ cs\<rparr>)"
      "agrees F r' (map_sum (\<lambda>s. s) (\<lambda>ts. t_or ((ts0 @ [t]) @ ts)) z)"
      using Cons.prems(1,3) z by (auto simp: loop_of_add)
    then show ?thesis using p Inr z Cons.prems(2) by (cases z) auto
  qed
qed

lemma join_Cons: "join sep (s # ss) = s @ (if ss = [] then '''' else sep @ join sep ss)"
  by (cases ss) auto

lemma preds_spec_length: "preds_spec F k eb n ps = (Inr ts, as) \<Longrightarrow> length ts = length ps"
proof (induction ps arbitrary: n ts as)
  case (Cons p ps)
  obtain y bs where y: "pred_spec F k eb n p = (y, bs)" by fastforce
  obtain z cs where z: "preds_spec F k eb (n + length bs) ps = (z, cs)" by fastforce
  from Cons y z show ?case by (cases y; cases z) auto
qed simp

lemma formatCoalesce_spec:
  assumes "\<And>p. p \<in> set ps \<Longrightarrow> formats F k (k = LOGGING) p"
    and "preds_spec F k (k = LOGGING) (length (pb_args pb)) ps = (x, as)"
  shows "\<exists>r. formatCoalesce F k ps sb pb = (r, pb\<lparr>pb_args := pb_args pb @ as\<rparr>) \<and>
             (case x of
                Inr ts \<Rightarrow> r = Ok (sb @ join '', '' (map (print_term F) ts) @ '')'')
              | Inl s \<Rightarrow> \<exists>e. r = Err e \<and> error_root e = s)"
  using assms
proof (induction ps arbitrary: sb pb x as)
  case Nil
  then show ?case by auto
next
  case (Cons p ps)
  obtain r y bs where p: "pred_spec F k (k = LOGGING) (length (pb_args pb)) p = (y, bs)"
    "formatPredicate F k p False (k = LOGGING) pb = (r, pb\<lparr>pb_args := pb_args pb @ bs\<rparr>)" "agrees F r y"
    by (rule formatsE [of F k "k = LOGGING" p pb]) (use Cons.prems(1) in auto)
  show ?case
  proof (cases y)
    case (Inl s)
    then show ?thesis using p Cons.prems(2) by auto
  next
    case (Inr t)
    obtain z cs where z: "preds_spec F k (k = LOGGING) (length (pb_args pb) + length bs) ps = (z, cs)"
      by fastforce
    let ?pb = "pb\<lparr>pb_args := pb_args pb @ bs\<rparr>"
    let ?sb = "sb @ print_term F t @ (if ps \<noteq> [] then '', '' else '''')"
    from Cons.IH [of ?pb z cs ?sb] Cons.prems(1) z
    obtain r' where r': "formatCoalesce F k ps ?sb ?pb = (r', ?pb\<lparr>pb_args := pb_args ?pb @ cs\<rparr>)"
      "case z of Inr ts \<Rightarrow> r' = Ok (?sb @ join '', '' (map (print_term F) ts) @ '')'')
              | Inl s \<Rightarrow> \<exists>e. r' = Err e \<and> error_root e = s"
      by auto
    show ?thesis
    proof (cases z)
      case (Inl s)
      then show ?thesis using r' p Inr z Cons.prems(2) by auto
    next
      case z': (Inr ts)
      then have "ts = [] \<longleftrightarrow> ps = []" using preds_spec_length [of F k _ _ ps ts cs] z by auto
      then show ?thesis using z' r' p Inr z Cons.prems(2) by (auto simp: join_Cons)
    qed
  qed
qed

text \<open>Lifting of the expression lemmas to the builder's state.\<close>

lemma formatsI:
  assumes "\<And>pb x as. pred_spec F k eb (length (pb_args pb)) p = (x, as) \<Longrightarrow>
     \<exists>r. formatPredicate F k p False eb pb = (r, pb\<lparr>pb_args := pb_args pb @ as\<rparr>) \<and> agrees F r x"
  shows "formats F k eb p"
  using assms by (simp add: formats_def)

lemma formatComparison_spec:
  assumes "renders_placeholders F"
    and "pred_spec F k eb (length args) (Comparison op l r) = (x, as)"
  shows "\<exists>s. formatComparison F op l r eb args = (s, args @ as) \<and> agrees F s x"
proof (cases "cmp_text op")
  case None
  with assms(2) show ?thesis by (auto simp: formatComparison_def)
next
  case (Some s)
  obtain xl al where l: "expr_spec F eb (length args) l = (xl, al)" by fastforce
  obtain xr ar where r: "expr_spec F eb (length args + length al) r = (xr, ar)" by fastforce
  from formatExpression_spec [OF assms(1) l] formatExpression_spec [OF assms(1), of eb "args @ al" r]
  show ?thesis using l r Some assms(2)
    by (cases xl; cases xr) (auto simp: formatComparison_def op_text_def)
qed

lemma formatIsNull_spec:
  assumes "renders_placeholders F"
    and "pred_spec F k eb (length args) (IsNull e) = (x, as)"
  shows "\<exists>s. formatIsNull F e args = (s, args @ as) \<and> agrees F s x"
proof -
  obtain y bs where y: "expr_spec F False (length args) e = (y, bs)" by fastforce
  from formatExpression_spec [OF assms(1) y] y assms(2) show ?thesis
    by (cases y) (auto simp: formatIsNull_def)
qed

lemma formatIsNotNull_spec:
  assumes "renders_placeholders F"
    and "pred_spec F k eb (length args) (IsNotNull e) = (x, as)"
  shows "\<exists>s. formatIsNotNull F e args = (s, args @ as) \<and> agrees F s x"
proof -
  obtain y bs where y: "expr_spec F False (length args) e = (y, bs)" by fastforce
  from formatExpression_spec [OF assms(1) y] y assms(2) show ?thesis
    by (cases y) (auto simp: formatIsNotNull_def)
qed

lemma agrees_wrap [simp]: "agrees F (wrap_res p r) x = agrees F r x"
  by (cases r; cases x) auto

lemma formats_leaf:
  assumes "\<And>args x as. pred_spec F k eb (length args) p = (x, as) \<Longrightarrow>
      \<exists>s. f args = (s, args @ as) \<and> agrees F s x"
    and "\<And>pb. formatPredicate F k p False eb pb = wrap_fst m (with_args f pb)"
  shows "formats F k eb p"
proof (rule formatsI)
  fix pb :: pbuilder and x as
  assume "pred_spec F k eb (length (pb_args pb)) p = (x, as)"
  from assms(1) [OF this] show "\<exists>r. formatPredicate F k p False eb pb =
      (r, pb\<lparr>pb_args := pb_args pb @ as\<rparr>) \<and> agrees F r x"
    by (auto simp: assms(2) with_args_def)
qed

lemma formats_Negation:
  assumes "formats F k False q"
  shows "formats F k eb (Negation q)"
proof (rule formatsI)
  fix pb :: pbuilder and x as
  assume x: "pred_spec F k eb (length (pb_args pb)) (Negation q) = (x, as)"
  obtain r y bs where q: "pred_spec F k False (length (pb_args pb)) q = (y, bs)"
    "formatPredicate F k q False False pb = (r, pb\<lparr>pb_args := pb_args pb @ bs\<rparr>)" "agrees F r y"
    by (rule formatsE [OF assms])
  with x show "\<exists>r. formatPredicate F k (Negation q) False eb pb =
      (r, pb\<lparr>pb_args := pb_args pb @ as\<rparr>) \<and> agrees F r x"
    by (cases y) (auto simp: formatPredicate.simps [of F k "Negation q"] formatNegation.simps)
qed

lemma formats_Conjunction:
  assumes "\<And>p. p \<in> set ps \<Longrightarrow> formats F k False p"
  shows "formats F k eb (Conjunction ps)"
proof (rule formatsI)
  fix pb :: pbuilder and x as
  assume x: "pred_spec F k eb (length (pb_args pb)) (Conjunction ps) = (x, as)"
  obtain y bs where y: "preds_spec F k False (length (pb_args pb)) ps = (y, bs)" by fastforce
  show "\<exists>r. formatPredicate F k (Conjunction ps) False eb pb =
      (r, pb\<lparr>pb_args := pb_args pb @ as\<rparr>) \<and> agrees F r x"
    using formatConjunction_spec [OF assms y, of "[]" loop_init] x y
    by (cases y; cases "ps = []")
       (auto simp: formatPredicate.simps [of F k "Conjunction _"])
qed

lemma formats_Disjunction:
  assumes "\<And>p. p \<in> set ps \<Longrightarrow> formats F k True p"
  shows "formats F k eb (Disjunction ps)"
proof (rule formatsI)
  fix pb :: pbuilder and x as
  assume x: "pred_spec F k eb (length (pb_args pb)) (Disjunction ps) = (x, as)"
  obtain y bs where y: "preds_spec F k True (length (pb_args pb)) ps = (y, bs)" by fastforce
  show "\<exists>r. formatPredicate F k (Disjunction ps) False eb pb =
      (r, pb\<lparr>pb_args := pb_args pb @ as\<rparr>) \<and> agrees F r x"
    using formatDisjunction_spec [OF assms y, of "[]" loop_init] x y
    by (cases y; cases "ps = []")
       (auto simp: formatPredicate.simps [of F k "Disjunction _"])
qed

lemma formats_Coalesce:
  assumes "\<And>p. p \<in> set ps \<Longrightarrow> formats F k (k = LOGGING) p"
  shows "formats F k eb (PredCoalesce ps)"
proof (rule formatsI)
  fix pb :: pbuilder and x as
  assume x: "pred_spec F k eb (length (pb_args pb)) (PredCoalesce ps) = (x, as)"
  obtain y bs where y: "preds_spec F k (k = LOGGING) (length (pb_args pb)) ps = (y, bs)" by fastforce
  show "\<exists>r. formatPredicate F k (PredCoalesce ps) False eb pb =
      (r, pb\<lparr>pb_args := pb_args pb @ as\<rparr>) \<and> agrees F r x"
    using formatCoalesce_spec [OF assms y, of "''COALESCE(''"] x y
    by (cases y) (auto simp: formatPredicate.simps [of F k "PredCoalesce ps"])
qed

lemma formatPredicate_spec:
  assumes F: "renders_placeholders F"
  shows "formats F k eb p"
proof (induction p arbitrary: eb)
  case (Comparison op l r)
  show ?case
    by (rule formats_leaf [OF formatComparison_spec [OF F]])
       (auto simp: formatPredicate.simps [of F k "Comparison op l r"])
next
  case (IsNull e)
  show ?case
    by (rule formats_leaf [OF formatIsNull_spec [OF F]])
       (auto simp: formatPredicate.simps [of F k "IsNull e"])
next
  case (IsNotNull e)
  show ?case
    by (rule formats_leaf [OF formatIsNotNull_spec [OF F]])
       (auto simp: formatPredicate.simps [of F k "IsNotNull e"])
next
  case (BoolExpression e)
  show ?case
    by (rule formats_leaf [where f = "formatExpression F e eb", OF formatExpression_spec [OF F]])
       (auto simp: formatPredicate.simps [of F k "BoolExpression e"])
qed (auto simp: formats_Negation formats_Conjunction formats_Disjunction formats_Coalesce
          intro!: formatsI simp: formatPredicate.simps [of _ _ PredUnset] formatPredicate.simps [of _ _ "PredOther _"])

section \<open>The top level\<close>

text \<open>What is left of a conjunction: the translated operands, or the last error.\<close>

definition conj_outcome ::
  "sql_term list \<Rightarrow> sentinel option list \<Rightarrow> sentinel option \<Rightarrow> sentinel option + sql_term" where
  "conj_outcome ts fs last_err =
     (if ts \<noteq> [] then Inr (t_and ts) else Inl (if fs = [] then last_err else last fs))"

lemma conj_outcome_Cons [simp]: "conj_outcome ts (s # fs) err = conj_outcome ts fs s"
  by (simp add: conj_outcome_def)

lemma formatConjunction_top:
  assumes F: "renders_placeholders F"
    and "top_spec F k (length (pb_args pb)) ps = (ts, fs, as)"
    and "loop_of '' AND '' (map (print_term F) ts0) v"
  shows "\<exists>r errs.
           formatConjunction F k ps True v pb =
             (r, pb\<lparr>pb_args := pb_args pb @ as, pb_conjunctionErrors := pb_conjunctionErrors pb @ errs\<rparr>) \<and>
           map error_root errs = fs \<and>
           agrees F r (conj_outcome (ts0 @ ts) fs (Option.bind (lv_err v) error_root))"
  using assms(2,3)
proof (induction ps arbitrary: v pb ts fs as ts0)
  case Nil
  then show ?case
    by (cases "lv_err v") (auto simp: loop_result_and conj_outcome_def, auto simp: loop_of_def)
next
  case (Cons p ps)
  obtain r x bs where p: "pred_spec F k False (length (pb_args pb)) p = (x, bs)"
    "formatPredicate F k p False False pb = (r, pb\<lparr>pb_args := pb_args pb @ bs\<rparr>)" "agrees F r x"
    by (rule formatsE [OF formatPredicate_spec [OF F]])
  obtain us gs cs where rest: "top_spec F k (length (pb_args pb) + length bs) ps = (us, gs, cs)"
    by (metis prod_cases3)
  show ?case
  proof (cases x)
    case (Inr t)
    with Cons.prems p rest have eqs: "ts = t # us" "fs = gs" "as = bs @ cs" by auto
    let ?pb = "pb\<lparr>pb_args := pb_args pb @ bs\<rparr>"
    let ?v = "loop_add '' AND '' (print_term F t) v"
    obtain r' errs where
      "formatConjunction F k ps True ?v ?pb =
         (r', ?pb\<lparr>pb_args := pb_args ?pb @ cs, pb_conjunctionErrors := pb_conjunctionErrors ?pb @ errs\<rparr>)"
      "map error_root errs = gs"
      "agrees F r' (conj_outcome ((ts0 @ [t]) @ us) gs (Option.bind (lv_err ?v) error_root))"
      using Cons.IH [of ?pb us gs cs "ts0 @ [t]" ?v] Cons.prems(2) rest by (auto simp: loop_of_add)
    then show ?thesis
      using p Inr by (intro exI [of _ r'] exI [of _ errs]) (simp add: eqs conj_outcome_def)
  next
    case (Inl s)
    with p obtain e where e: "r = Err e" "error_root e = s" by auto
    from Inl Cons.prems p rest have eqs: "ts = us" "fs = s # gs" "as = bs @ cs" by auto
    let ?pb = "pb\<lparr>pb_args := pb_args pb @ bs,
                  pb_conjunctionErrors := pb_conjunctionErrors pb @ [Wrap ''format predicate'' e]\<rparr>"
    obtain r' errs where
      "formatConjunction F k ps True (v\<lparr>lv_err := Some e\<rparr>) ?pb =
         (r', ?pb\<lparr>pb_args := pb_args ?pb @ cs, pb_conjunctionErrors := pb_conjunctionErrors ?pb @ errs\<rparr>)"
      "map error_root errs = gs"
      "agrees F r' (conj_outcome (ts0 @ us) gs s)"
      using Cons.IH [of ?pb us gs cs ts0 "v\<lparr>lv_err := Some e\<rparr>"] Cons.prems(2) rest e by auto
    then show ?thesis
      by (intro exI [of _ r'] exI [of _ "Wrap ''format predicate'' e # errs"]) (auto simp: p e eqs)
  qed
qed

text \<open>The translation of a whole filter.\<close>

fun where_spec :: "sql_formatter \<Rightarrow> data_source_kind \<Rightarrow> predicate \<Rightarrow>
    (sentinel option + sql_term) \<times> sentinel option list \<times> query_args" where
  "where_spec F k (Conjunction ps) =
     (case top_spec F k 0 ps of
        (ts, fs, as) \<Rightarrow>
          (conj_outcome ts fs None, fs, as))"
| "where_spec F k p = (case pred_spec F k False 0 p of (x, as) \<Rightarrow> (x, [], as))"

lemma where_spec_simple:
  "(\<And>ps. p \<noteq> Conjunction ps) \<Longrightarrow> where_spec F k p = (case pred_spec F k False 0 p of (x, as) \<Rightarrow> (x, [], as))"
  by (cases p) auto

lemma formatPredicate_topLevel:
  "\<nexists>ps. p = Conjunction ps \<Longrightarrow> formatPredicate F k p topLevel eb pb = formatPredicate F k p False eb pb"
  by (cases p) (simp_all add: formatPredicate.simps)

lemma formatPredicate_where:
  assumes F: "renders_placeholders F" and "where_spec F k p = (x, fs, as)"
  shows "\<exists>r errs.
           formatPredicate F k p True False \<lparr>pb_args = [], pb_conjunctionErrors = []\<rparr> =
             (r, \<lparr>pb_args = as, pb_conjunctionErrors = errs\<rparr>) \<and>
           map error_root errs = fs \<and> agrees F r x"
proof (cases "\<exists>ps. p = Conjunction ps")
  case True
  then obtain ps where p: "p = Conjunction ps" by blast
  obtain ts fs' as' where t: "top_spec F k 0 ps = (ts, fs', as')" by (metis prod_cases3)
  with assms(2) p have eqs: "fs' = fs" "as' = as" by auto
  have x: "x = conj_outcome ts fs None"
    using assms(2) p t by auto
  let ?pb = "\<lparr>pb_args = [], pb_conjunctionErrors = []\<rparr>"
  obtain r errs where
    "formatConjunction F k ps True loop_init ?pb =
       (r, ?pb\<lparr>pb_args := pb_args ?pb @ as, pb_conjunctionErrors := pb_conjunctionErrors ?pb @ errs\<rparr>)"
    "map error_root errs = fs" "agrees F r x"
    using formatConjunction_top [OF F, of k ?pb ps ts fs as "[]" loop_init] t
    unfolding x eqs by auto
  then show ?thesis
    by (intro exI [of _ "wrap_res ''format conjunction'' r"] exI [of _ errs])
       (simp add: p formatPredicate.simps [of F k "Conjunction ps"])
next
  case False
  then have "pred_spec F k False 0 p = (x, as)" "fs = []"
    using assms(2) by (auto simp: where_spec_simple split: prod.splits)
  then obtain r where "formatPredicate F k p False False \<lparr>pb_args = [], pb_conjunctionErrors = []\<rparr> =
      (r, \<lparr>pb_args = as, pb_conjunctionErrors = []\<rparr>)" "agrees F r x"
    using formatPredicate_spec [OF F, of k False p, unfolded formats_def, rule_format,
        of "\<lparr>pb_args = [], pb_conjunctionErrors = []\<rparr>" x as] by auto
  then show ?thesis
    using False \<open>fs = []\<close> by (simp add: formatPredicate_topLevel [of p F k True])
qed

text \<open>What every filtering mode makes of it.\<close>

definition acceptable :: "sentinel option \<Rightarrow> bool" where
  "acceptable s \<longleftrightarrow> s \<in> Some ` set acceptableErrors"

lemma matcher_acceptable: "matcher_match acceptableErrors (Some e) \<longleftrightarrow> acceptable (error_root e)"
  by (auto simp: acceptable_def errors_is_root)

lemma formatWhereClause_spec:
  assumes "renders_placeholders F" and "where_spec F k p = (x, fs, as)"
  shows "case x of
           Inr t \<Rightarrow>
             formatWhereClause filtering F (Some p) k =
               (case filtering of
                  FILTERING_OTHER n \<Rightarrow> Err (NewErr ''unknown filtering mode'')
                | _ \<Rightarrow> Ok (print_term F t, as))
         | Inl s \<Rightarrow>
             \<exists>e. error_root e = s \<and>
               formatWhereClause filtering F (Some p) k =
                 (case filtering of
                    FILTERING_OTHER n \<Rightarrow> Err (NewErr ''unknown filtering mode'')
                  | FILTERING_MANDATORY \<Rightarrow> Err e
                  | _ \<Rightarrow> if acceptable s then Ok ('''', as) else Err e)"
proof -
  obtain r errs where r: "formatPredicate F k p True False \<lparr>pb_args = [], pb_conjunctionErrors = []\<rparr> =
      (r, \<lparr>pb_args = as, pb_conjunctionErrors = errs\<rparr>)" "agrees F r x"
    using formatPredicate_where [OF assms] by blast
  show ?thesis
  proof (cases x)
    case (Inr t)
    with r show ?thesis by (cases filtering) auto
  next
    case (Inl s)
    with r obtain e where "r = Err e" "error_root e = s" by auto
    then show ?thesis
      using Inl r by (cases filtering) (auto simp: matcher_acceptable [symmetric] simp del: matcher_match_iff)
  qed
qed

end
