(* ===== verification/PushdownSemantics.thy ===== *)
theory PushdownSemantics
  imports SqlTerms
begin

text \<open>
  The meaning of a pushed-down filter. The semantics of the data source (values of columns,
  comparison, arithmetic, NULL) is a parameter \<open>S\<close>; conditions are evaluated in SQL's
  three-valued logic (\<open>None\<close> is unknown). The same parameter gives the meaning of the
  request's predicate and of the term the builder printed, so that the theorems compare the
  rows a query returns with the rows that satisfy the request.
\<close>

section \<open>Three-valued evaluation\<close>

record ('row, 'v) data_semantics =
  column_value :: "string \<Rightarrow> 'row \<Rightarrow> 'v"
  literal_value :: "typed_value \<Rightarrow> 'v"
  argument_value :: "query_arg \<Rightarrow> 'v"
  bool_value :: "bool \<Rightarrow> 'v"
  null_value :: 'v
  truth :: "'v \<Rightarrow> bool option"
  value_is_null :: "'v \<Rightarrow> bool"
  arith_value :: "arith_op \<Rightarrow> 'v \<Rightarrow> 'v \<Rightarrow> 'v"
  compare_values :: "cmp_op \<Rightarrow> 'v \<Rightarrow> 'v \<Rightarrow> bool option"
  opaque_expr :: "expression \<Rightarrow> 'row \<Rightarrow> 'v"
  opaque_pred :: "predicate \<Rightarrow> 'row \<Rightarrow> bool option"

definition and3 :: "bool option list \<Rightarrow> bool option" where
  "and3 bs = (if Some False \<in> set bs then Some False else if None \<in> set bs then None else Some True)"

definition or3 :: "bool option list \<Rightarrow> bool option" where
  "or3 bs = (if Some True \<in> set bs then Some True else if None \<in> set bs then None else Some False)"

fun coalesce3 :: "bool option list \<Rightarrow> bool option" where
  "coalesce3 [] = None"
| "coalesce3 (Some b # bs) = Some b"
| "coalesce3 (None # bs) = coalesce3 bs"

fun eval_expr :: "('row, 'v) data_semantics \<Rightarrow> 'row \<Rightarrow> expression \<Rightarrow> 'v" where
  "eval_expr S row (ExprColumn c) = column_value S c row"
| "eval_expr S row (ExprTypedValue v) = literal_value S v"
| "eval_expr S row (ExprArith op l r) = arith_value S op (eval_expr S row l) (eval_expr S row r)"
| "eval_expr S row ExprNull = null_value S"
| "eval_expr S row e = opaque_expr S e row"

fun eval_pred :: "('row, 'v) data_semantics \<Rightarrow> 'row \<Rightarrow> predicate \<Rightarrow> bool option" where
  "eval_pred S row (Negation p) = map_option Not (eval_pred S row p)"
| "eval_pred S row (Conjunction ps) = and3 (map (eval_pred S row) ps)"
| "eval_pred S row (Disjunction ps) = or3 (map (eval_pred S row) ps)"
| "eval_pred S row (IsNull e) = Some (value_is_null S (eval_expr S row e))"
| "eval_pred S row (IsNotNull e) = Some (\<not> value_is_null S (eval_expr S row e))"
| "eval_pred S row (Comparison op l r) = compare_values S op (eval_expr S row l) (eval_expr S row r)"
| "eval_pred S row (BoolExpression e) = truth S (eval_expr S row e)"
| "eval_pred S row (PredCoalesce ps) = coalesce3 (map (eval_pred S row) ps)"
| "eval_pred S row p = opaque_pred S p row"

fun eval_value :: "('row, 'v) data_semantics \<Rightarrow> query_args \<Rightarrow> 'row \<Rightarrow> sql_term \<Rightarrow> 'v" where
  "eval_value S args row (TCol c) = column_value S c row"
| "eval_value S args row (TArg n) =
     (if n < length args then argument_value S (args ! n) else null_value S)"
| "eval_value S args row (TBool b) = bool_value S b"
| "eval_value S args row (TArith op l r) =
     arith_value S op (eval_value S args row l) (eval_value S args row r)"
| "eval_value S args row t = null_value S"

fun eval_term :: "('row, 'v) data_semantics \<Rightarrow> query_args \<Rightarrow> 'row \<Rightarrow> sql_term \<Rightarrow> bool option" where
  "eval_term S args row (TNot t) = map_option Not (eval_term S args row t)"
| "eval_term S args row (TAnd ts) = and3 (map (eval_term S args row) ts)"
| "eval_term S args row (TOr ts) = or3 (map (eval_term S args row) ts)"
| "eval_term S args row (TIsNull t) = Some (value_is_null S (eval_value S args row t))"
| "eval_term S args row (TIsNotNull t) = Some (\<not> value_is_null S (eval_value S args row t))"
| "eval_term S args row (TCmp op l r) =
     compare_values S op (eval_value S args row l) (eval_value S args row r)"
| "eval_term S args row (TCoalesce ts) = coalesce3 (map (eval_term S args row) ts)"
| "eval_term S args row t = truth S (eval_value S args row t)"

text \<open>
  The driver binds what the connector hands over: an argument has the value of the literal
  it was made from, and the words \<^verbatim>\<open>true\<close> and \<^verbatim>\<open>false\<close> denote the boolean literals.
\<close>

definition binds_literals :: "('row, 'v) data_semantics \<Rightarrow> bool" where
  "binds_literals S \<longleftrightarrow>
     (\<forall>v a. literal_arg v = Some a \<longrightarrow>
        argument_value S \<lparr>arg_ydb_type = Some (tv_type v), arg_val = a\<rparr> = literal_value S v) \<and>
     (\<forall>t b. literal_value S \<lparr>tv_type = t, tv_value = BoolValue b\<rparr> = bool_value S b)"

lemma and3_single [simp]: "and3 [b] = b"
  by (cases b) (auto simp: and3_def)

lemma or3_single [simp]: "or3 [b] = b"
  by (cases b) (auto simp: or3_def)

lemma and3_True: "and3 bs = Some True \<longleftrightarrow> (\<forall>b \<in> set bs. b = Some True)"
  by (auto simp: and3_def) (metis (full_types) not_None_eq)

lemma eval_term_t_and [simp]: "eval_term S args row (t_and ts) = and3 (map (eval_term S args row) ts)"
  by (cases ts rule: t_and.cases) auto

lemma eval_term_t_or [simp]: "eval_term S args row (t_or ts) = or3 (map (eval_term S args row) ts)"
  by (cases ts rule: t_or.cases) auto

section \<open>A translated condition has the meaning of the request\<close>

lemma then_spec_Inr:
  "then_spec m f n = (Inr y, as) \<longleftrightarrow>
     (\<exists>x bs cs. m = (Inr x, bs) \<and> f x (n + length bs) = (Inr y, cs) \<and> as = bs @ cs)"
  by (cases "(m, f, n)" rule: then_spec.cases) (auto split: prod.splits)

text \<open>A translation touches only its own slice of the argument list.\<close>

lemma literal_spec_eval:
  assumes "binds_literals S" and "literal_spec eb (length pre) v = (Inr t, as)"
  shows "eval_value S (pre @ as @ post) row t = literal_value S v \<and>
         eval_term S (pre @ as @ post) row t = truth S (literal_value S v)"
proof (cases "embedded_bool eb v")
  case None
  then show ?thesis
    using assms by (auto simp: literal_spec_def binds_literals_def nth_append split: option.splits)
next
  case (Some b)
  then have "v = \<lparr>tv_type = tv_type v, tv_value = BoolValue b\<rparr>"
    by (cases v) (auto split: ydb_value.splits if_splits)
  then have "literal_value S v = bool_value S b"
    using assms(1) unfolding binds_literals_def by metis
  then show ?thesis
    using assms(2) Some by (auto simp: literal_spec_def)
qed

lemma expr_spec_eval:
  assumes S: "binds_literals S" and "expr_spec F eb (length pre) e = (Inr t, as)"
  shows "eval_value S (pre @ as @ post) row t = eval_expr S row e \<and>
         eval_term S (pre @ as @ post) row t = truth S (eval_expr S row e)"
  using assms(2)
proof (induction e arbitrary: pre t as post)
  case (ExprTypedValue v)
  then show ?case
    using literal_spec_eval [OF S, of eb pre v t as post row] by (auto split: if_splits)
next
  case (ExprArith op l r)
  then obtain tl al tr ar where l: "expr_spec F eb (length pre) l = (Inr tl, al)"
    and r: "expr_spec F eb (length (pre @ al)) r = (Inr tr, ar)"
    and eqs: "t = TArith op tl tr" "as = al @ ar"
    by (auto simp: then_spec_Inr split: if_splits)
  from ExprArith.IH(1) [OF l, of "ar @ post"] ExprArith.IH(2) [OF r, of post] show ?case
    by (simp add: eqs)
qed (auto split: if_splits)

lemma preds_spec_eval:
  assumes "\<And>p pre t as post. p \<in> set ps \<Longrightarrow> pred_spec F k eb (length pre) p = (Inr t, as) \<Longrightarrow>
             eval_term S (pre @ as @ post) row t = eval_pred S row p"
    and "preds_spec F k eb (length pre) ps = (Inr ts, as)"
  shows "map (eval_term S (pre @ as @ post) row) ts = map (eval_pred S row) ps"
  using assms
proof (induction ps arbitrary: pre ts as post)
  case (Cons p ps)
  from Cons.prems(2) obtain t bs us cs where p: "pred_spec F k eb (length pre) p = (Inr t, bs)"
    and rest: "preds_spec F k eb (length (pre @ bs)) ps = (Inr us, cs)"
    and eqs: "ts = t # us" "as = bs @ cs"
    by (auto simp: then_spec_Inr)
  have "eval_term S (pre @ bs @ (cs @ post)) row t = eval_pred S row p"
    by (rule Cons.prems(1)) (use p in auto)
  moreover have "map (eval_term S ((pre @ bs) @ cs @ post) row) us = map (eval_pred S row) ps"
    by (rule Cons.IH [OF Cons.prems(1) rest]) auto
  ultimately show ?case by (simp add: eqs)
qed simp

lemma pred_spec_eval:
  assumes S: "binds_literals S"
  shows "pred_spec F k eb (length pre) p = (Inr t, as) \<Longrightarrow>
           eval_term S (pre @ as @ post) row t = eval_pred S row p"
proof (induction p arbitrary: eb pre t as post)
  case (Negation q)
  then show ?case by (fastforce simp: then_spec_Inr)
next
  case (Conjunction ps)
  then obtain ts where "preds_spec F k False (length pre) ps = (Inr ts, as)" "t = t_and ts"
    by (auto simp: then_spec_Inr split: if_splits)
  then show ?case using preds_spec_eval [of ps F k False S row pre ts as post] Conjunction.IH by simp
next
  case (Disjunction ps)
  then obtain ts where "preds_spec F k True (length pre) ps = (Inr ts, as)" "t = t_or ts"
    by (auto simp: then_spec_Inr split: if_splits)
  then show ?case using preds_spec_eval [of ps F k True S row pre ts as post] Disjunction.IH by simp
next
  case (PredCoalesce ps)
  then obtain ts where "preds_spec F k (k = LOGGING) (length pre) ps = (Inr ts, as)" "t = TCoalesce ts"
    by (auto simp: then_spec_Inr split: if_splits)
  then show ?case
    using preds_spec_eval [of ps F k "k = LOGGING" S row pre ts as post] PredCoalesce.IH by simp
next
  case (Comparison op l r)
  then obtain tl al tr ar where l: "expr_spec F eb (length pre) l = (Inr tl, al)"
    and r: "expr_spec F eb (length (pre @ al)) r = (Inr tr, ar)"
    and eqs: "t = TCmp op tl tr" "as = al @ ar"
    by (auto simp: then_spec_Inr split: if_splits)
  from expr_spec_eval [OF S l, of "ar @ post"] expr_spec_eval [OF S r, of post] show ?case
    by (simp add: eqs)
next
  case (BoolExpression e)
  then show ?case using expr_spec_eval [OF S, of F eb pre e t as post] by simp
next
  case (IsNull e)
  then obtain x where "expr_spec F False (length pre) e = (Inr x, as)" "t = TIsNull x"
    by (auto simp: then_spec_Inr)
  then show ?case using expr_spec_eval [OF S] by simp
next
  case (IsNotNull e)
  then obtain x where "expr_spec F False (length pre) e = (Inr x, as)" "t = TIsNotNull x"
    by (auto simp: then_spec_Inr)
  then show ?case using expr_spec_eval [OF S] by simp
qed auto

text \<open>
  Every term left of a top-level conjunction is one of its operands; without suppressed
  operands all of them are there, in order.
\<close>

lemma top_spec_eval:
  assumes S: "binds_literals S" and "top_spec F k (length pre) ps = (ts, fs, as)"
  shows "set (map (eval_term S (pre @ as @ post) row) ts) \<subseteq> set (map (eval_pred S row) ps) \<and>
         (fs = [] \<longrightarrow> map (eval_term S (pre @ as @ post) row) ts = map (eval_pred S row) ps)"
  using assms(2)
proof (induction ps arbitrary: pre ts fs as post)
  case (Cons p ps)
  obtain x bs where p: "pred_spec F k False (length pre) p = (x, bs)" by fastforce
  obtain us gs cs where rest: "top_spec F k (length (pre @ bs)) ps = (us, gs, cs)"
    by (metis prod_cases3)
  from Cons.IH [OF rest, of post] Cons.prems p rest
    pred_spec_eval [OF S, of F k False pre p _ bs "cs @ post"]
  show ?case by (cases x) (auto simp: image_subset_iff)
qed simp

lemma where_spec_eval:
  assumes S: "binds_literals S" and "where_spec F k p = (Inr t, fs, as)"
  shows "eval_pred S row p = Some True \<Longrightarrow> eval_term S as row t = Some True"
    and "fs = [] \<Longrightarrow> eval_term S as row t = eval_pred S row p"
proof -
  have "(eval_pred S row p = Some True \<longrightarrow> eval_term S as row t = Some True) \<and>
        (fs = [] \<longrightarrow> eval_term S as row t = eval_pred S row p)"
  proof (cases "\<exists>ps. p = Conjunction ps")
    case True
    then obtain ps where p: "p = Conjunction ps" by blast
    obtain ts fs' as' where t: "top_spec F k 0 ps = (ts, fs', as')" by (metis prod_cases3)
    with assms(2) p have eqs: "fs' = fs" "as' = as" "t = t_and ts"
      by (auto simp: conj_outcome_def split: if_splits)
    from top_spec_eval [OF S, of F k "[]" ps ts fs as "[]" row] t
    show ?thesis by (auto simp: eqs p and3_True)
  next
    case False
    then have "pred_spec F k False 0 p = (Inr t, as)"
      using assms(2) by (auto simp: where_spec_simple split: prod.splits)
    then show ?thesis using pred_spec_eval [OF S, of F k False "[]" p t as "[]" row] by simp
  qed
  then show "eval_pred S row p = Some True \<Longrightarrow> eval_term S as row t = Some True"
    and "fs = [] \<Longrightarrow> eval_term S as row t = eval_pred S row p" by auto
qed

section \<open>Placeholders and arguments\<close>

lemma literal_spec_args: "literal_spec eb n v = (Inr t, as) \<Longrightarrow> term_args t = [n..<n + length as]"
  by (auto simp: literal_spec_def split: option.splits)

lemma expr_spec_args: "expr_spec F eb n e = (Inr t, as) \<Longrightarrow> term_args t = [n..<n + length as]"
proof (induction e arbitrary: n t as)
  case (ExprArith op l r)
  then show ?case by (fastforce simp: then_spec_Inr upt_append add.assoc split: if_splits)
qed (auto simp: literal_spec_args split: if_splits)

lemma preds_spec_args:
  assumes "\<And>p n t as. p \<in> set ps \<Longrightarrow> pred_spec F k eb n p = (Inr t, as) \<Longrightarrow>
             term_args t = [n..<n + length as]"
    and "preds_spec F k eb n ps = (Inr ts, as)"
  shows "concat (map term_args ts) = [n..<n + length as]"
  using assms
proof (induction ps arbitrary: n ts as)
  case (Cons p ps)
  from Cons.prems(2) obtain t bs us cs where p: "pred_spec F k eb n p = (Inr t, bs)"
    and rest: "preds_spec F k eb (n + length bs) ps = (Inr us, cs)"
    and eqs: "ts = t # us" "as = bs @ cs"
    by (auto simp: then_spec_Inr)
  have "concat (map term_args us) = [n + length bs..<n + length bs + length cs]"
    by (rule Cons.IH [OF Cons.prems(1) rest]) auto
  with Cons.prems(1) [OF _ p] show ?case by (simp add: eqs upt_append add.assoc)
qed simp

lemma pred_spec_args: "pred_spec F k eb n p = (Inr t, as) \<Longrightarrow> term_args t = [n..<n + length as]"
proof (induction p arbitrary: eb n t as)
  case (Conjunction ps)
  then show ?case
    by (auto simp: then_spec_Inr split: if_splits intro!: preds_spec_args [of ps F k])
next
  case (Disjunction ps)
  then show ?case
    by (auto simp: then_spec_Inr split: if_splits intro!: preds_spec_args [of ps F k])
next
  case (PredCoalesce ps)
  then show ?case
    by (auto simp: then_spec_Inr intro!: preds_spec_args [of ps F k])
next
  case (Comparison op l r)
  then show ?case
    by (auto simp: then_spec_Inr expr_spec_args upt_append add.assoc split: if_splits)
qed (auto simp: then_spec_Inr expr_spec_args)

lemma where_spec_args:
  assumes "where_spec F k p = (Inr t, [], as)"
  shows "term_args t = [0..<length as]"
proof (cases "\<exists>ps. p = Conjunction ps")
  case True
  then obtain ps where p: "p = Conjunction ps" by blast
  have "fst (snd (top_spec F k n ps)) = [] \<Longrightarrow>
      preds_spec F k False n ps = (Inr (fst (top_spec F k n ps)), snd (snd (top_spec F k n ps)))" for n
    by (induction ps arbitrary: n) (auto split: prod.splits sum.splits)
  from this [of 0] assms p have "\<exists>ts. preds_spec F k False 0 ps = (Inr ts, as) \<and> t = t_and ts"
    by (auto simp: conj_outcome_def split: prod.splits if_splits)
  then show ?thesis by (auto dest: preds_spec_args [rotated] intro: pred_spec_args)
next
  case False
  then show ?thesis
    using assms pred_spec_args [of F k False 0 p t as] by (auto simp: where_spec_simple split: prod.splits)
qed

end
