(* ===== verification/SqlText.thy ===== *)
theory SqlText
  imports PushdownSemantics "HOL-Library.Sublist"
begin

text \<open>
  The text of a pushed-down condition is unambiguous: a parser of the SQL subset the builder
  writes reads back the term, whatever bytes the column names hold. The parser is
  parametrised by the lexical rules of a dialect (delimited identifiers, placeholders); the
  locale \<open>sql_dialect\<close> states what the round trip needs of them, and is interpreted on the
  formatters of PostgreSQL, MS SQL Server, Oracle (numbered placeholders), ClickHouse and
  MySQL (positional placeholders, which the parser numbers in the order of their occurrence).
\<close>

section \<open>The parser\<close>

datatype tail_op = OpAnd | OpOr | OpCmp cmp_op | OpArith arith_op

definition tail_ops :: "(string \<times> tail_op) list" where
  "tail_ops =
     [('' AND '', OpAnd), ('' OR '', OpOr),
      ('' < '', OpCmp CMP_L), ('' <= '', OpCmp CMP_LE), ('' = '', OpCmp CMP_EQ),
      ('' <> '', OpCmp CMP_NE), ('' >= '', OpCmp CMP_GE), ('' > '', OpCmp CMP_G),
      ('' * '', OpArith MUL), ('' + '', OpArith ADD), ('' - '', OpArith SUB),
      ('' & '', OpArith BIT_AND), ('' | '', OpArith BIT_OR), ('' ^ '', OpArith BIT_XOR)]"

definition find_op :: "string \<Rightarrow> (string \<times> tail_op) option" where
  "find_op s = find (\<lambda>(w, x). has_prefix s w) tail_ops"

type_synonym ident_scanner = "string \<Rightarrow> (string \<times> string) option"
type_synonym arg_scanner = "nat \<Rightarrow> string \<Rightarrow> (nat \<times> string) option"

definition parse_atom :: "ident_scanner \<Rightarrow> arg_scanner \<Rightarrow> nat \<Rightarrow> string \<Rightarrow> (sql_term \<times> nat \<times> string) option" where
  "parse_atom si sa n s =
     (if has_prefix s ''NULL'' then Some (TNull, n, drop 4 s)
      else if has_prefix s ''true'' then Some (TBool True, n, drop 4 s)
      else if has_prefix s ''false'' then Some (TBool False, n, drop 5 s)
      else
        (case si s of
           Some (c, r) \<Rightarrow> Some (TCol c, n, r)
         | None \<Rightarrow>
             (case sa n s of
                Some (i, r) \<Rightarrow> Some (TArg i, n + 1, r)
              | None \<Rightarrow> None)))"

definition expect_close :: "(sql_term \<Rightarrow> sql_term) \<Rightarrow> (sql_term \<times> nat \<times> string) option \<Rightarrow>
    (sql_term \<times> nat \<times> string) option" where
  "expect_close mk x =
     (case x of
        Some (t, n, r) \<Rightarrow> if has_prefix r '')'' then Some (mk t, n, drop 1 r) else None
      | None \<Rightarrow> None)"

fun parse :: "ident_scanner \<Rightarrow> arg_scanner \<Rightarrow> nat \<Rightarrow> nat \<Rightarrow> string \<Rightarrow> (sql_term \<times> nat \<times> string) option"
  and parse_tail :: "ident_scanner \<Rightarrow> arg_scanner \<Rightarrow> nat \<Rightarrow> string \<Rightarrow> nat \<Rightarrow> string \<Rightarrow>
    (sql_term list \<times> nat \<times> string) option"
where
  "parse si sa 0 n s = None"
| "parse si sa (Suc f) n s =
     (if has_prefix s ''(NOT '' then expect_close TNot (parse si sa f n (drop 5 s))
      else if has_prefix s ''('' then
        (case parse si sa f n (drop 1 s) of
           None \<Rightarrow> None
         | Some (t, n, r) \<Rightarrow>
             if has_prefix r '' IS NULL)'' then Some (TIsNull t, n, drop 9 r)
             else if has_prefix r '' IS NOT NULL)'' then Some (TIsNotNull t, n, drop 13 r)
             else
               (case find_op r of
                  None \<Rightarrow> None
                | Some (w, OpCmp op) \<Rightarrow> expect_close (TCmp op t) (parse si sa f n (drop (length w) r))
                | Some (w, OpArith op) \<Rightarrow> expect_close (TArith op t) (parse si sa f n (drop (length w) r))
                | Some (w, OpAnd) \<Rightarrow> map_option (\<lambda>(ts, x). (TAnd (t # ts), x)) (parse_tail si sa f w n r)
                | Some (w, OpOr) \<Rightarrow> map_option (\<lambda>(ts, x). (TOr (t # ts), x)) (parse_tail si sa f w n r)))
      else if has_prefix s ''COALESCE()'' then Some (TCoalesce [], n, drop 10 s)
      else if has_prefix s ''COALESCE('' then
        (case parse si sa f n (drop 9 s) of
           None \<Rightarrow> None
         | Some (t, n, r) \<Rightarrow>
             map_option (\<lambda>(ts, x). (TCoalesce (t # ts), x)) (parse_tail si sa f '', '' n r))
      else parse_atom si sa n s)"
| "parse_tail si sa 0 w n s = None"
| "parse_tail si sa (Suc f) w n s =
     (if has_prefix s '')'' then Some ([], n, drop 1 s)
      else if has_prefix s w then
        (case parse si sa f n (drop (length w) s) of
           None \<Rightarrow> None
         | Some (t, n, r) \<Rightarrow> map_option (\<lambda>(ts, x). (t # ts, x)) (parse_tail si sa f w n r))
      else None)"

declare parse.simps(2) [simp del] parse_tail.simps(2) [simp del]

text \<open>The fuel a term needs, and the terms the builder makes.\<close>

fun term_size :: "sql_term \<Rightarrow> nat" where
  "term_size (TArith op l r) = Suc (term_size l + term_size r)"
| "term_size (TCmp op l r) = Suc (term_size l + term_size r)"
| "term_size (TIsNull t) = Suc (term_size t)"
| "term_size (TIsNotNull t) = Suc (term_size t)"
| "term_size (TNot t) = Suc (term_size t)"
| "term_size (TAnd ts) = Suc (sum_list (map (\<lambda>t. Suc (term_size t)) ts))"
| "term_size (TOr ts) = Suc (sum_list (map (\<lambda>t. Suc (term_size t)) ts))"
| "term_size (TCoalesce ts) = Suc (sum_list (map (\<lambda>t. Suc (term_size t)) ts))"
| "term_size t = 1"

fun wf_term :: "sql_term \<Rightarrow> bool" where
  "wf_term (TArith op l r) = (arith_text op \<noteq> None \<and> wf_term l \<and> wf_term r)"
| "wf_term (TCmp op l r) = (cmp_text op \<noteq> None \<and> wf_term l \<and> wf_term r)"
| "wf_term (TIsNull t) = wf_term t"
| "wf_term (TIsNotNull t) = wf_term t"
| "wf_term (TNot t) = wf_term t"
| "wf_term (TAnd ts) = (2 \<le> length ts \<and> list_all wf_term ts)"
| "wf_term (TOr ts) = (2 \<le> length ts \<and> list_all wf_term ts)"
| "wf_term (TCoalesce ts) = list_all wf_term ts"
| "wf_term t = True"

fun rename_cols :: "(string \<Rightarrow> string) \<Rightarrow> sql_term \<Rightarrow> sql_term" where
  "rename_cols f (TCol c) = TCol (f c)"
| "rename_cols f (TArith op l r) = TArith op (rename_cols f l) (rename_cols f r)"
| "rename_cols f (TCmp op l r) = TCmp op (rename_cols f l) (rename_cols f r)"
| "rename_cols f (TIsNull t) = TIsNull (rename_cols f t)"
| "rename_cols f (TIsNotNull t) = TIsNotNull (rename_cols f t)"
| "rename_cols f (TNot t) = TNot (rename_cols f t)"
| "rename_cols f (TAnd ts) = TAnd (map (rename_cols f) ts)"
| "rename_cols f (TOr ts) = TOr (map (rename_cols f) ts)"
| "rename_cols f (TCoalesce ts) = TCoalesce (map (rename_cols f) ts)"
| "rename_cols f t = t"

text \<open>The names of the columns of a term.\<close>

fun term_cols :: "sql_term \<Rightarrow> string list" where
  "term_cols (TCol c) = [c]"
| "term_cols (TArith op l r) = term_cols l @ term_cols r"
| "term_cols (TCmp op l r) = term_cols l @ term_cols r"
| "term_cols (TIsNull t) = term_cols t"
| "term_cols (TIsNotNull t) = term_cols t"
| "term_cols (TNot t) = term_cols t"
| "term_cols (TAnd ts) = concat (map term_cols ts)"
| "term_cols (TOr ts) = concat (map term_cols ts)"
| "term_cols (TCoalesce ts) = concat (map term_cols ts)"
| "term_cols t = []"

text \<open>
  The terms whose text can be read from the placeholder \<open>n\<close> on: the dialect accepts the names of their columns,
  and their arguments are numbered in the order of the text, from \<open>n\<close>, unless the placeholders carry the numbers.
\<close>

definition aligned :: "bool \<Rightarrow> (string \<Rightarrow> bool) \<Rightarrow> nat \<Rightarrow> sql_term list \<Rightarrow> bool" where
  "aligned numbered name_ok n ts \<longleftrightarrow>
     list_all name_ok (concat (map term_cols ts)) \<and>
     (numbered \<or> concat (map term_args ts) = [n..<n + length (concat (map term_args ts))])"

lemma upt_split:
  assumes "xs @ ys = [n..<n + length (xs @ ys)]"
  shows "xs = [n..<n + length xs]" and "ys = [n + length xs..<n + length xs + length ys]"
proof -
  have "take (length xs) (xs @ ys) = take (length xs) [n..<n + length (xs @ ys)]"
    using assms by (rule arg_cong)
  then show "xs = [n..<n + length xs]" by (simp add: take_upt)
  have "drop (length xs) (xs @ ys) = drop (length xs) [n..<n + length (xs @ ys)]"
    using assms by (rule arg_cong)
  then show "ys = [n + length xs..<n + length xs + length ys]" by (simp add: add.assoc)
qed

lemma aligned_Cons:
  assumes "aligned b ok n (t # ts)"
  shows "aligned b ok n [t]" and "aligned b ok (n + length (term_args t)) ts"
  using upt_split [of "term_args t" "concat (map term_args ts)" n] assms by (auto simp: aligned_def)

lemma aligned_pair:
  assumes "aligned b ok n [l, r]"
  shows "aligned b ok n [l]" and "aligned b ok (n + length (term_args l)) [r]"
  using aligned_Cons [OF assms] by auto

definition delim :: "string \<Rightarrow> bool" where
  "delim r \<longleftrightarrow> r = [] \<or> hd r \<in> set '' ),''"

lemma find_op_iff: "(w, x) \<in> set tail_ops \<Longrightarrow> find_op (w @ r) = Some (w, x)"
proof -
  have "list_all (\<lambda>(w, x). find_op (w @ r) = Some (w, x)) tail_ops"
    by (simp add: tail_ops_def find_op_def)
  then show "(w, x) \<in> set tail_ops \<Longrightarrow> find_op (w @ r) = Some (w, x)"
    by (auto simp: list_all_iff)
qed

lemma cmp_text_tail: "cmp_text op = Some w \<Longrightarrow> (w, OpCmp op) \<in> set tail_ops"
  by (cases op) (auto simp: tail_ops_def)

lemma arith_text_tail: "arith_text op = Some w \<Longrightarrow> (w, OpArith op) \<in> set tail_ops"
  by (cases op) (auto simp: tail_ops_def)

lemma tail_ops_not_is:
  "(w, x) \<in> set tail_ops \<Longrightarrow>
     \<not> has_prefix (w @ r) '' IS NULL)'' \<and> \<not> has_prefix (w @ r) '' IS NOT NULL)'' \<and> delim (w @ r)"
  by (auto simp: tail_ops_def delim_def)

lemma join_concat: "join w (s # ss) = s @ concat (map (\<lambda>t. w @ t) ss)"
  by (induction ss arbitrary: s) auto

section \<open>The contract of a dialect\<close>

locale sql_dialect =
  fixes F :: sql_formatter
    and scan_ident :: ident_scanner
    and strip :: "string \<Rightarrow> string"
    and scan_arg :: arg_scanner
    and numbered :: bool
    and name_ok :: "string \<Rightarrow> bool"
  assumes scan_ident_text: "name_ok c \<Longrightarrow> delim r \<Longrightarrow> scan_ident (SanitiseIdentifier F c @ r) = Some (strip c, r)"
    and ident_start: "\<exists>x s. SanitiseIdentifier F c = x # s \<and> x \<notin> set ''()CNtf''"
    and scan_arg_text: "delim r \<Longrightarrow> numbered \<or> i = n \<Longrightarrow> scan_arg n (res_text (GetPlaceholder F i) @ r) = Some (i, r)"
    and arg_start: "\<exists>x s. res_text (GetPlaceholder F n) = x # s \<and> x \<notin> set ''()CNtf''"
    and arg_not_ident: "scan_ident (res_text (GetPlaceholder F n) @ r) = None"
begin

definition reads :: "nat \<Rightarrow> sql_term \<Rightarrow> bool" where
  "reads f t \<longleftrightarrow>
     (\<forall>n r. wf_term t \<longrightarrow> aligned numbered name_ok n [t] \<longrightarrow> delim r \<longrightarrow>
        parse scan_ident scan_arg f n (print_term F t @ r) =
          Some (rename_cols strip t, n + length (term_args t), r))"

lemma readsD:
  "reads f t \<Longrightarrow> wf_term t \<Longrightarrow> aligned numbered name_ok n [t] \<Longrightarrow> delim r \<Longrightarrow>
     parse scan_ident scan_arg f n (print_term F t @ r) =
       Some (rename_cols strip t, n + length (term_args t), r)"
  by (simp add: reads_def)

lemma print_term_start:
  "\<not> has_prefix (print_term F t @ r) ''NOT ''" "\<not> has_prefix (print_term F t @ r) '')''"
proof -
  have "\<not> has_prefix (print_term F t @ r) ''NOT '' \<and> \<not> has_prefix (print_term F t @ r) '')''"
  proof (cases t)
    case (TCol c)
    then show ?thesis using ident_start [of c] by auto
  next
    case (TArg n)
    then show ?thesis using arg_start [of n] by auto
  qed auto
  then show "\<not> has_prefix (print_term F t @ r) ''NOT ''" "\<not> has_prefix (print_term F t @ r) '')''"
    by auto
qed

lemma reads_open:
  assumes "reads f t" "wf_term t" "aligned numbered name_ok n [t]" "delim r"
  shows "parse scan_ident scan_arg (Suc f) n (''('' @ print_term F t @ r) =
    (if has_prefix r '' IS NULL)'' then
       Some (TIsNull (rename_cols strip t), n + length (term_args t), drop 9 r)
     else if has_prefix r '' IS NOT NULL)'' then
       Some (TIsNotNull (rename_cols strip t), n + length (term_args t), drop 13 r)
     else
       (case find_op r of
          None \<Rightarrow> None
        | Some (w, OpCmp op) \<Rightarrow>
            expect_close (TCmp op (rename_cols strip t))
              (parse scan_ident scan_arg f (n + length (term_args t)) (drop (length w) r))
        | Some (w, OpArith op) \<Rightarrow>
            expect_close (TArith op (rename_cols strip t))
              (parse scan_ident scan_arg f (n + length (term_args t)) (drop (length w) r))
        | Some (w, OpAnd) \<Rightarrow>
            map_option (\<lambda>(ts, x). (TAnd (rename_cols strip t # ts), x))
              (parse_tail scan_ident scan_arg f w (n + length (term_args t)) r)
        | Some (w, OpOr) \<Rightarrow>
            map_option (\<lambda>(ts, x). (TOr (rename_cols strip t # ts), x))
              (parse_tail scan_ident scan_arg f w (n + length (term_args t)) r)))"
  using readsD [OF assms] print_term_start(1) [of t r] by (simp add: parse.simps(2))

lemma reads_binary:
  assumes "reads f l" "reads f t" "wf_term l" "wf_term t"
    and al: "aligned numbered name_ok n [l, t]"
    and x: "(w, x) \<in> set tail_ops" "x = OpCmp cop \<and> mk = TCmp cop \<or> x = OpArith aop \<and> mk = TArith aop"
  shows "parse scan_ident scan_arg (Suc f) n (''('' @ print_term F l @ w @ print_term F t @ '')'' @ r) =
    Some (mk (rename_cols strip l) (rename_cols strip t), n + length (term_args l @ term_args t), r)"
proof -
  have t: "parse scan_ident scan_arg f (n + length (term_args l)) (print_term F t @ '')'' @ r) =
      Some (rename_cols strip t, n + length (term_args l) + length (term_args t), '')'' @ r)"
    by (rule readsD [OF assms(2) assms(4) aligned_pair(2) [OF al]]) (simp add: delim_def)
  have "delim (w @ print_term F t @ '')'' @ r)"
    using tail_ops_not_is [OF x(1)] by simp
  from reads_open [OF assms(1) assms(3) aligned_pair(1) [OF al] this]
  show ?thesis
    using t x(2) tail_ops_not_is [OF x(1)] find_op_iff [OF x(1)]
    by (auto simp: expect_close_def add.assoc)
qed

lemma parse_tail_reads:
  assumes "\<And>t f. t \<in> set ts \<Longrightarrow> term_size t \<le> f \<Longrightarrow> reads f t"
    and "list_all wf_term ts" and "aligned numbered name_ok n ts"
    and "w \<in> {'' AND '', '' OR '', '', ''}" and "Suc (sum_list (map (\<lambda>t. Suc (term_size t)) ts)) \<le> f"
  shows "parse_tail scan_ident scan_arg f w n (concat (map (\<lambda>t. w @ print_term F t) ts) @ '')'' @ r) =
           Some (map (rename_cols strip) ts, n + length (concat (map term_args ts)), r)"
  using assms
proof (induction ts arbitrary: n f)
  case Nil
  then show ?case by (cases f) (auto simp: parse_tail.simps(2))
next
  case (Cons t ts)
  then obtain g where f: "f = Suc g" by (cases f) auto
  let ?rest = "concat (map (\<lambda>t. w @ print_term F t) ts) @ '')'' @ r"
  have w: "\<not> has_prefix (w @ s) '')''" for s
    using Cons.prems(4) by auto
  have "delim ?rest"
    using Cons.prems(4) by (cases ts) (auto simp: delim_def)
  then have "parse scan_ident scan_arg g n (print_term F t @ ?rest) =
      Some (rename_cols strip t, n + length (term_args t), ?rest)"
    using Cons.prems f aligned_Cons(1) [OF Cons.prems(3)] by (intro readsD) auto
  moreover have "parse_tail scan_ident scan_arg g w (n + length (term_args t)) ?rest =
      Some (map (rename_cols strip) ts, n + length (term_args t) + length (concat (map term_args ts)), r)"
    using Cons.prems f aligned_Cons(2) [OF Cons.prems(3)] by (intro Cons.IH) auto
  ultimately show ?case
    using w by (simp add: f add.assoc parse_tail.simps(2))
qed

lemma reads_many:
  assumes "\<And>u f. u \<in> set (t # ts) \<Longrightarrow> term_size u \<le> f \<Longrightarrow> reads f u"
    and "list_all wf_term (t # ts)" and "aligned numbered name_ok n (t # ts)" and "ts \<noteq> []"
    and "sum_list (map (\<lambda>t. Suc (term_size t)) (t # ts)) \<le> f"
    and x: "(w, x) = ('' AND '', OpAnd) \<and> mk = TAnd \<or> (w, x) = ('' OR '', OpOr) \<and> mk = TOr"
  shows "parse scan_ident scan_arg (Suc f) n (''('' @ join w (map (print_term F) (t # ts)) @ '')'' @ r) =
           Some (mk (map (rename_cols strip) (t # ts)), n + length (concat (map term_args (t # ts))), r)"
proof -
  let ?tail = "concat (map (\<lambda>t. w @ print_term F t) ts) @ '')'' @ r"
  have wx: "(w, x) \<in> set tail_ops" using x by (auto simp: tail_ops_def)
  obtain u us where ts: "ts = u # us" using assms(4) by (cases ts) auto
  have tail: "parse_tail scan_ident scan_arg f w (n + length (term_args t)) ?tail =
      Some (map (rename_cols strip) ts, n + length (term_args t) + length (concat (map term_args ts)), r)"
    using assms aligned_Cons(2) [OF assms(3)] by (intro parse_tail_reads) auto
  have "delim ?tail" using tail_ops_not_is [OF wx] by (simp add: ts)
  with assms aligned_Cons(1) [OF assms(3)]
  have "parse scan_ident scan_arg (Suc f) n (''('' @ print_term F t @ ?tail) =
      Some (mk (rename_cols strip t # map (rename_cols strip) ts),
            n + length (term_args t) + length (concat (map term_args ts)), r)"
    using tail tail_ops_not_is [OF wx] find_op_iff [OF wx] x
    by (subst reads_open) (auto simp: ts)
  then show ?thesis
    by (simp only: list.map join_concat) (simp add: comp_def add.assoc)
qed

end

context sql_dialect
begin

lemma reads_atom:
  assumes "t \<in> {TNull, TBool True, TBool False} \<or> (\<exists>c. t = TCol c) \<or> (\<exists>i. t = TArg i)"
  shows "reads (Suc f) t"
  unfolding reads_def
proof (intro allI impI)
  fix n r
  assume al: "aligned numbered name_ok n [t]" and r: "delim r"
  show "parse scan_ident scan_arg (Suc f) n (print_term F t @ r) =
      Some (rename_cols strip t, n + length (term_args t), r)"
  proof (cases t)
    case (TCol c)
    with al have "name_ok c" by (simp add: aligned_def)
    then show ?thesis
      using TCol ident_start [of c] scan_ident_text [OF _ r, of c]
      by (auto simp: parse.simps(2) parse_atom_def)
  next
    case (TArg i)
    with al have "numbered \<or> i = n" by (auto simp: aligned_def)
    then show ?thesis
      using TArg arg_start [of i] scan_arg_text [OF r, of i n] arg_not_ident [of i r]
      by (auto simp: parse.simps(2) parse_atom_def)
  qed (use assms in \<open>auto simp: parse.simps(2) parse_atom_def\<close>)
qed

lemma reads_coalesce:
  assumes "\<And>t f. t \<in> set ts \<Longrightarrow> term_size t \<le> f \<Longrightarrow> reads f t"
    and "list_all wf_term ts" and "aligned numbered name_ok n ts"
    and "sum_list (map (\<lambda>t. Suc (term_size t)) ts) \<le> f"
  shows "parse scan_ident scan_arg (Suc f) n (''COALESCE('' @ join '', '' (map (print_term F) ts) @ '')'' @ r) =
           Some (TCoalesce (map (rename_cols strip) ts), n + length (concat (map term_args ts)), r)"
proof (cases ts)
  case Nil
  then show ?thesis by (simp add: parse.simps(2))
next
  case (Cons t us)
  let ?tail = "concat (map (\<lambda>t. '', '' @ print_term F t) us) @ '')'' @ r"
  have al: "aligned numbered name_ok n [t]" "aligned numbered name_ok (n + length (term_args t)) us"
    using aligned_Cons [of numbered name_ok n t us] assms(3) Cons by auto
  have tail: "parse_tail scan_ident scan_arg f '', '' (n + length (term_args t)) ?tail =
      Some (map (rename_cols strip) us, n + length (term_args t) + length (concat (map term_args us)), r)"
    using assms al(2) Cons by (intro parse_tail_reads) auto
  have "delim ?tail" by (cases us) (auto simp: delim_def)
  then have "parse scan_ident scan_arg f n (print_term F t @ ?tail) =
      Some (rename_cols strip t, n + length (term_args t), ?tail)"
    using assms al(1) Cons by (intro readsD) auto
  moreover have "join '', '' (map (print_term F) ts) @ '')'' @ r = print_term F t @ ?tail"
    by (simp only: Cons list.map join_concat) (simp add: comp_def)
  ultimately show ?thesis
    using tail print_term_start(2) [of t ?tail] Cons by (simp add: parse.simps(2) add.assoc)
qed

lemma reads_term: "term_size t \<le> f \<Longrightarrow> reads f t"
proof (induction t arbitrary: f)
  case (TArith op l t)
  then obtain g where f: "f = Suc g" "term_size l \<le> g" "term_size t \<le> g" by (cases f) auto
  show ?case
    unfolding reads_def
  proof (intro allI impI)
    fix n r
    assume wf: "wf_term (TArith op l t)" and al: "aligned numbered name_ok n [TArith op l t]"
    then obtain w where "arith_text op = Some w" by auto
    then show "parse scan_ident scan_arg f n (print_term F (TArith op l t) @ r) =
        Some (rename_cols strip (TArith op l t), n + length (term_args (TArith op l t)), r)"
      using reads_binary [OF TArith.IH(1) [OF f(2)] TArith.IH(2) [OF f(3)], of n w "OpArith op"] wf al f(1)
      by (auto simp: aligned_def op_text_def arith_text_tail)
  qed
next
  case (TCmp op l t)
  then obtain g where f: "f = Suc g" "term_size l \<le> g" "term_size t \<le> g" by (cases f) auto
  show ?case
    unfolding reads_def
  proof (intro allI impI)
    fix n r
    assume wf: "wf_term (TCmp op l t)" and al: "aligned numbered name_ok n [TCmp op l t]"
    then obtain w where "cmp_text op = Some w" by auto
    then show "parse scan_ident scan_arg f n (print_term F (TCmp op l t) @ r) =
        Some (rename_cols strip (TCmp op l t), n + length (term_args (TCmp op l t)), r)"
      using reads_binary [OF TCmp.IH(1) [OF f(2)] TCmp.IH(2) [OF f(3)], of n w "OpCmp op"] wf al f(1)
      by (auto simp: aligned_def op_text_def cmp_text_tail)
  qed
next
  case (TIsNull t)
  then obtain g where f: "f = Suc g" "term_size t \<le> g" by (cases f) auto
  have "delim ('' IS NULL)'' @ r)" for r by (simp add: delim_def)
  from reads_open [OF TIsNull.IH [OF f(2)] _ _ this] show ?case
    by (auto simp: reads_def f(1) aligned_def)
next
  case (TIsNotNull t)
  then obtain g where f: "f = Suc g" "term_size t \<le> g" by (cases f) auto
  have "delim ('' IS NOT NULL)'' @ r)" for r by (simp add: delim_def)
  from reads_open [OF TIsNotNull.IH [OF f(2)] _ _ this] show ?case
    by (auto simp: reads_def f(1) aligned_def)
next
  case (TNot t)
  then obtain g where f: "f = Suc g" "term_size t \<le> g" by (cases f) auto
  have "delim ('')'' @ r)" for r by (simp add: delim_def)
  from readsD [OF TNot.IH [OF f(2)] _ _ this] show ?case
    by (auto simp: reads_def f(1) aligned_def parse.simps(2) expect_close_def)
next
  case (TAnd ts)
  then obtain g where f: "f = Suc g" by (cases f) auto
  show ?case
    unfolding reads_def
  proof (intro allI impI)
    fix n r
    assume wf: "wf_term (TAnd ts)" and al: "aligned numbered name_ok n [TAnd ts]"
    then obtain t us where ts: "ts = t # us" "us \<noteq> []" by (cases ts; cases "tl ts") auto
    show "parse scan_ident scan_arg f n (print_term F (TAnd ts) @ r) =
        Some (rename_cols strip (TAnd ts), n + length (term_args (TAnd ts)), r)"
      using reads_many [of t us n g "'' AND ''" OpAnd TAnd r] TAnd wf al f ts
      by (auto simp: aligned_def)
  qed
next
  case (TOr ts)
  then obtain g where f: "f = Suc g" by (cases f) auto
  show ?case
    unfolding reads_def
  proof (intro allI impI)
    fix n r
    assume wf: "wf_term (TOr ts)" and al: "aligned numbered name_ok n [TOr ts]"
    then obtain t us where ts: "ts = t # us" "us \<noteq> []" by (cases ts; cases "tl ts") auto
    show "parse scan_ident scan_arg f n (print_term F (TOr ts) @ r) =
        Some (rename_cols strip (TOr ts), n + length (term_args (TOr ts)), r)"
      using reads_many [of t us n g "'' OR ''" OpOr TOr r] TOr wf al f ts
      by (auto simp: aligned_def)
  qed
next
  case (TCoalesce ts)
  then obtain g where f: "f = Suc g" by (cases f) auto
  show ?case
    unfolding reads_def
  proof (intro allI impI)
    fix n r
    assume wf: "wf_term (TCoalesce ts)" and al: "aligned numbered name_ok n [TCoalesce ts]"
    show "parse scan_ident scan_arg f n (print_term F (TCoalesce ts) @ r) =
        Some (rename_cols strip (TCoalesce ts), n + length (term_args (TCoalesce ts)), r)"
      using reads_coalesce [of ts n g r] TCoalesce wf al f by (auto simp: aligned_def)
  qed
next
  case (TBool b)
  then show ?case by (cases f; cases b) (auto intro: reads_atom)
qed (use reads_atom in \<open>auto simp: Suc_le_D dest!: Suc_le_D\<close>)

lemma join_length:
  assumes "\<And>t. t \<in> set ts \<Longrightarrow> term_size t \<le> length (print_term F t)" and "w \<noteq> []"
  shows "sum_list (map (\<lambda>t. Suc (term_size t)) ts) \<le> Suc (length (join w (map (print_term F) ts)))"
  using assms(1)
proof (induction ts)
  case (Cons t ts)
  have "term_size t \<le> length (print_term F t)" "1 \<le> length w"
    using Cons.prems assms(2) by (auto simp: Suc_le_eq)
  then show ?case using Cons.IH Cons.prems by (cases ts) fastforce+
qed simp

lemma term_size_print: "wf_term t \<Longrightarrow> term_size t \<le> length (print_term F t)"
proof (induction t)
  case (TCol c)
  then show ?case using ident_start [of c] by auto
next
  case (TArg n)
  then show ?case using arg_start [of n] by auto
next
  case (TAnd ts)
  then show ?case using join_length [of ts "'' AND ''"] by (auto simp: list_all_iff)
next
  case (TOr ts)
  then show ?case using join_length [of ts "'' OR ''"] by (auto simp: list_all_iff)
next
  case (TCoalesce ts)
  then show ?case using join_length [of ts "'', ''"] by (auto simp: list_all_iff)
qed auto

end

section \<open>Reading a whole condition\<close>

definition parse_where :: "ident_scanner \<Rightarrow> arg_scanner \<Rightarrow> string \<Rightarrow> sql_term option" where
  "parse_where si sa s =
     (case parse si sa (length s) 0 s of
        Some (t, n, r) \<Rightarrow> if r = [] then Some t else None
      | None \<Rightarrow> None)"

context sql_dialect
begin

lemma parse_where_print:
  assumes "wf_term t" and "numbered \<or> term_args t = [0..<m]" and "list_all name_ok (term_cols t)"
  shows "parse_where scan_ident scan_arg (print_term F t) = Some (rename_cols strip t)"
proof -
  have "aligned numbered name_ok 0 [t]" using assms(2,3) by (auto simp: aligned_def)
  from readsD [OF reads_term [OF term_size_print [OF assms(1)]] assms(1) this, of "[]"] show ?thesis
    by (simp add: parse_where_def delim_def)
qed

end

lemma expr_spec_wf: "expr_spec F eb n e = (Inr t, as) \<Longrightarrow> wf_term t"
proof (induction e arbitrary: n t as)
  case (ExprArith op l r)
  then show ?case by (auto simp: then_spec_Inr split: if_splits)
qed (auto simp: literal_spec_def split: if_splits option.splits)

lemma preds_spec_wf:
  assumes "\<And>p eb n t as. p \<in> set ps \<Longrightarrow> pred_spec F k eb n p = (Inr t, as) \<Longrightarrow> wf_term t"
    and "preds_spec F k eb n ps = (Inr ts, as)"
  shows "list_all wf_term ts"
  using assms
proof (induction ps arbitrary: n ts as)
  case (Cons p ps)
  from Cons.prems(2) obtain t bs us cs where p: "pred_spec F k eb n p = (Inr t, bs)"
    and rest: "preds_spec F k eb (n + length bs) ps = (Inr us, cs)" and eqs: "ts = t # us"
    by (auto simp: then_spec_Inr)
  have "list_all wf_term us"
    by (rule Cons.IH [OF Cons.prems(1) rest]) auto
  with Cons.prems(1) [OF _ p] show ?case by (simp add: eqs)
qed simp

lemma wf_t_and: "ts \<noteq> [] \<Longrightarrow> list_all wf_term ts \<Longrightarrow> wf_term (t_and ts)"
  by (cases ts rule: t_and.cases) auto

lemma wf_t_or: "ts \<noteq> [] \<Longrightarrow> list_all wf_term ts \<Longrightarrow> wf_term (t_or ts)"
  by (cases ts rule: t_or.cases) auto

lemma pred_spec_wf: "pred_spec F k eb n p = (Inr t, as) \<Longrightarrow> wf_term t"
proof (induction p arbitrary: eb n t as)
  case (Conjunction ps)
  then obtain ts where ts: "preds_spec F k False n ps = (Inr ts, as)" "t = t_and ts" "ps \<noteq> []"
    by (auto simp: then_spec_Inr split: if_splits)
  moreover have "list_all wf_term ts" by (rule preds_spec_wf [OF Conjunction.IH ts(1)])
  ultimately show ?case using preds_spec_length [OF ts(1)] by (auto intro: wf_t_and)
next
  case (Disjunction ps)
  then obtain ts where ts: "preds_spec F k True n ps = (Inr ts, as)" "t = t_or ts" "ps \<noteq> []"
    by (auto simp: then_spec_Inr split: if_splits)
  moreover have "list_all wf_term ts" by (rule preds_spec_wf [OF Disjunction.IH ts(1)])
  ultimately show ?case using preds_spec_length [OF ts(1)] by (auto intro: wf_t_or)
next
  case (PredCoalesce ps)
  then obtain ts where ts: "preds_spec F k (k = LOGGING) n ps = (Inr ts, as)" "t = TCoalesce ts"
    by (auto simp: then_spec_Inr)
  moreover have "list_all wf_term ts" by (rule preds_spec_wf [OF PredCoalesce.IH ts(1)])
  ultimately show ?case by simp
next
  case (Comparison op l r)
  then show ?case by (auto simp: then_spec_Inr split: if_splits dest: expr_spec_wf)
qed (auto simp: then_spec_Inr dest: expr_spec_wf)

lemma top_spec_wf: "top_spec F k n ps = (ts, fs, as) \<Longrightarrow> list_all wf_term ts"
  by (induction ps arbitrary: n ts fs as)
     (auto split: prod.splits sum.splits dest: pred_spec_wf)

lemma where_spec_wf: "where_spec F k p = (Inr t, fs, as) \<Longrightarrow> wf_term t"
  by (cases p) (auto simp: conj_outcome_def split: prod.splits if_splits
      intro: wf_t_and top_spec_wf pred_spec_wf simp del: pred_spec.simps)

section \<open>Anonymous placeholders\<close>

text \<open>What a reader makes of placeholders without numbers: it counts them.\<close>

fun relabel :: "nat \<Rightarrow> sql_term \<Rightarrow> sql_term"
  and relabels :: "nat \<Rightarrow> sql_term list \<Rightarrow> sql_term list"
where
  "relabel n (TArg i) = TArg n"
| "relabel n (TArith op l r) = TArith op (relabel n l) (relabel (n + length (term_args l)) r)"
| "relabel n (TCmp op l r) = TCmp op (relabel n l) (relabel (n + length (term_args l)) r)"
| "relabel n (TIsNull t) = TIsNull (relabel n t)"
| "relabel n (TIsNotNull t) = TIsNotNull (relabel n t)"
| "relabel n (TNot t) = TNot (relabel n t)"
| "relabel n (TAnd ts) = TAnd (relabels n ts)"
| "relabel n (TOr ts) = TOr (relabels n ts)"
| "relabel n (TCoalesce ts) = TCoalesce (relabels n ts)"
| "relabel n t = t"
| "relabels n [] = []"
| "relabels n (t # ts) = relabel n t # relabels (n + length (term_args t)) ts"

lemma relabel_args:
  "term_args (relabel n t) = [n..<n + length (term_args t)]"
  "concat (map term_args (relabels n ts)) = [n..<n + length (concat (map term_args ts))]"
  by (induction n t and n ts rule: relabel_relabels.induct) (simp_all add: upt_append add.assoc)

lemma relabel_print:
  assumes "\<And>i j. res_text (GetPlaceholder F i) = res_text (GetPlaceholder F j)"
  shows "print_term F (relabel n t) = print_term F t" "map (print_term F) (relabels n ts) = map (print_term F) ts"
  by (induction n t and n ts rule: relabel_relabels.induct) (simp_all, metis assms)

lemma relabel_wf:
  "wf_term (relabel n t) = wf_term t \<and> term_cols (relabel n t) = term_cols t"
  "length (relabels n ts) = length ts \<and> list_all wf_term (relabels n ts) = list_all wf_term ts \<and>
   map term_cols (relabels n ts) = map term_cols ts"
  by (induction n t and n ts rule: relabel_relabels.induct) simp_all

lemma relabel_aligned:
  "term_args t = [n..<n + length (term_args t)] \<Longrightarrow> relabel n t = t"
  "concat (map term_args ts) = [n..<n + length (concat (map term_args ts))] \<Longrightarrow> relabels n ts = ts"
proof (induction n t and n ts rule: relabel_relabels.induct)
  case (2 n op l r)
  then show ?case using upt_split [of "term_args l" "term_args r" n] by simp
next
  case (3 n op l r)
  then show ?case using upt_split [of "term_args l" "term_args r" n] by simp
next
  case (12 n t ts)
  then show ?case using upt_split [of "term_args t" "concat (map term_args ts)" n] by simp
qed simp_all

section \<open>Columns of a request\<close>

fun expr_cols :: "expression \<Rightarrow> string list" where
  "expr_cols (ExprColumn c) = [c]"
| "expr_cols (ExprArith op l r) = expr_cols l @ expr_cols r"
| "expr_cols e = []"

fun pred_cols :: "predicate \<Rightarrow> string list" where
  "pred_cols (Negation p) = pred_cols p"
| "pred_cols (Conjunction ps) = concat (map pred_cols ps)"
| "pred_cols (Disjunction ps) = concat (map pred_cols ps)"
| "pred_cols (PredCoalesce ps) = concat (map pred_cols ps)"
| "pred_cols (IsNull e) = expr_cols e"
| "pred_cols (IsNotNull e) = expr_cols e"
| "pred_cols (Comparison op l r) = expr_cols l @ expr_cols r"
| "pred_cols (BoolExpression e) = expr_cols e"
| "pred_cols p = []"

lemma expr_spec_cols: "expr_spec F eb n e = (Inr t, as) \<Longrightarrow> set (term_cols t) \<subseteq> set (expr_cols e)"
proof (induction e arbitrary: n t as)
  case (ExprArith op l r)
  then show ?case by (fastforce simp: then_spec_Inr split: if_splits)
qed (auto simp: literal_spec_def split: if_splits option.splits)

lemma preds_spec_cols:
  assumes "\<And>p eb n t as. p \<in> set ps \<Longrightarrow> pred_spec F k eb n p = (Inr t, as) \<Longrightarrow> set (term_cols t) \<subseteq> set (pred_cols p)"
    and "preds_spec F k eb n ps = (Inr ts, as)"
  shows "set (concat (map term_cols ts)) \<subseteq> set (concat (map pred_cols ps))"
  using assms
proof (induction ps arbitrary: n ts as)
  case (Cons p ps)
  from Cons.prems(2) obtain t bs us cs where p: "pred_spec F k eb n p = (Inr t, bs)"
    and rest: "preds_spec F k eb (n + length bs) ps = (Inr us, cs)" and eqs: "ts = t # us"
    by (auto simp: then_spec_Inr)
  have "set (concat (map term_cols us)) \<subseteq> set (concat (map pred_cols ps))"
    by (rule Cons.IH [OF Cons.prems(1) rest]) auto
  with Cons.prems(1) [OF _ p] show ?case by (auto simp: eqs)
qed simp

lemma t_and_cols: "set (term_cols (t_and ts)) = set (concat (map term_cols ts))"
  by (cases ts rule: t_and.cases) auto

lemma t_or_cols: "set (term_cols (t_or ts)) = set (concat (map term_cols ts))"
  by (cases ts rule: t_or.cases) auto

lemma pred_spec_cols: "pred_spec F k eb n p = (Inr t, as) \<Longrightarrow> set (term_cols t) \<subseteq> set (pred_cols p)"
proof (induction p arbitrary: eb n t as)
  case (Conjunction ps)
  then obtain ts where ts: "preds_spec F k False n ps = (Inr ts, as)" "t = t_and ts"
    by (auto simp: then_spec_Inr split: if_splits)
  with preds_spec_cols [OF Conjunction.IH ts(1)] show ?case by (simp add: t_and_cols del: set_concat)
next
  case (Disjunction ps)
  then obtain ts where ts: "preds_spec F k True n ps = (Inr ts, as)" "t = t_or ts"
    by (auto simp: then_spec_Inr split: if_splits)
  with preds_spec_cols [OF Disjunction.IH ts(1)] show ?case by (simp add: t_or_cols del: set_concat)
next
  case (PredCoalesce ps)
  then obtain ts where ts: "preds_spec F k (k = LOGGING) n ps = (Inr ts, as)" "t = TCoalesce ts"
    by (auto simp: then_spec_Inr)
  with preds_spec_cols [OF PredCoalesce.IH ts(1)] show ?case by simp
next
  case (Comparison op l r)
  then show ?case by (fastforce simp: then_spec_Inr split: if_splits dest: expr_spec_cols)
qed (fastforce simp: then_spec_Inr dest: expr_spec_cols)+

lemma top_spec_cols: "top_spec F k n ps = (ts, fs, as) \<Longrightarrow> set (concat (map term_cols ts)) \<subseteq> set (concat (map pred_cols ps))"
proof (induction ps arbitrary: n ts fs as)
  case (Cons p ps)
  obtain x bs where p: "pred_spec F k False n p = (x, bs)" by fastforce
  obtain us gs cs where rest: "top_spec F k (n + length bs) ps = (us, gs, cs)" by (metis prod_cases3)
  show ?case using Cons.prems Cons.IH [OF rest] p rest pred_spec_cols [of F k False n p _ bs] by (cases x) (auto simp: subset_eq)
qed simp

text \<open>The arguments that the text mentions are among those that are passed, in their order.\<close>

lemma top_spec_args: "top_spec F k n ps = (ts, fs, as) \<Longrightarrow> subseq (concat (map term_args ts)) [n..<n + length as]"
proof (induction ps arbitrary: n ts fs as)
  case (Cons p ps)
  obtain x bs where p: "pred_spec F k False n p = (x, bs)" by fastforce
  obtain us gs cs where rest: "top_spec F k (n + length bs) ps = (us, gs, cs)" by (metis prod_cases3)
  note r = Cons.IH [OF rest]
  have cut: "[n..<n + length (bs @ cs)] = [n..<n + length bs] @ [n + length bs..<n + length bs + length cs]"
    by (simp add: upt_append add.assoc)
  show ?case
  proof (cases x)
    case (Inl e)
    with Cons.prems p rest have "ts = us" "as = bs @ cs" by auto
    then show ?thesis using list_emb_append2 [OF r, of "[n..<n + length bs]"] cut by simp
  next
    case (Inr t)
    with Cons.prems p rest have "ts = t # us" "as = bs @ cs" by auto
    then show ?thesis using r pred_spec_args [OF p [unfolded Inr]] list_emb_append_mono [OF subseq_order.refl r, of "[n..<n + length bs]"] cut by simp
  qed
qed simp

lemma where_spec_cols:
  assumes "where_spec F k p = (Inr t, fs, as)"
  shows "set (term_cols t) \<subseteq> set (pred_cols p)" and "subseq (term_args t) [0..<length as]"
proof -
  have "set (term_cols t) \<subseteq> set (pred_cols p) \<and> subseq (term_args t) [0..<length as]"
  proof (cases "\<exists>ps. p = Conjunction ps")
    case True
    then obtain ps where p: "p = Conjunction ps" by blast
    obtain ts fs' as' where top: "top_spec F k 0 ps = (ts, fs', as')" by (metis prod_cases3)
    with assms p have eqs: "as' = as" "t = t_and ts" by (auto simp: conj_outcome_def split: if_splits)
    have "term_args (t_and ts) = concat (map term_args ts)" by (cases ts rule: t_and.cases) auto
    with top_spec_cols [OF top] top_spec_args [OF top] show ?thesis by (simp add: p eqs t_and_cols del: set_concat)
  next
    case False
    then have spec: "pred_spec F k False 0 p = (Inr t, as)"
      using assms by (auto simp: where_spec_simple split: prod.splits)
    from pred_spec_cols [OF spec] pred_spec_args [OF spec] show ?thesis by simp
  qed
  then show "set (term_cols t) \<subseteq> set (pred_cols p)" "subseq (term_args t) [0..<length as]" by auto
qed

section \<open>The dialects\<close>

text \<open>Placeholders that name an argument by its number, counted from one, and anonymous ones.\<close>

definition scan_numbered :: "string \<Rightarrow> arg_scanner" where
  "scan_numbered mark n s =
     (if has_prefix s mark then
        Some (read_dec 0 (takeWhile is_digit (drop (length mark) s)) - 1,
              dropWhile is_digit (drop (length mark) s))
      else None)"

definition scan_positional :: arg_scanner where
  "scan_positional n s = (if has_prefix s ''?'' then Some (n, drop 1 s) else None)"

lemma delim_not_digit: "delim r \<Longrightarrow> r = [] \<or> \<not> is_digit (hd r)"
  by (auto simp: delim_def is_digit_def)

lemma delim_not_quote: "delim r \<Longrightarrow> r = [] \<or> hd r \<noteq> CHR 0x22" "delim r \<Longrightarrow> r = [] \<or> hd r \<noteq> CHR 0x60"
  by (auto simp: delim_def)

lemma scan_numbered_text: "delim r \<Longrightarrow> scan_numbered mark m (mark @ dec (n + 1) @ r) = Some (n, r)"
  using dec_digits [of "n + 1"] delim_not_digit [of r]
  by (cases r) (auto simp: scan_numbered_def list_all_iff takeWhile_append2 dropWhile_append2
      takeWhile_tail takeWhile_eq_all_conv [THEN iffD2])

interpretation pg_sql: sql_dialect "pg_formatter ts" "scan_quoted (CHR 0x22)" drop_nul "scan_numbered ''$''" True "\<lambda>_. True"
  for ts :: bool
proof unfold_locales
  fix r :: string and i n
  show "delim r \<Longrightarrow> scan_numbered ''$'' n (res_text (GetPlaceholder (pg_formatter ts) i) @ r) = Some (i, r)"
    using scan_numbered_text [of r "''$''" n i] by (simp add: formatter_defs)
  show "delim r \<Longrightarrow> scan_quoted (CHR 0x22) (SanitiseIdentifier (pg_formatter ts) c @ r) = Some (drop_nul c, r)" for c
    using pg_ids.scan_sanitised [OF delim_not_quote(1)] by (simp add: formatter_defs)
qed (auto simp: formatter_defs pg_SanitiseIdentifier_def)

interpretation ms_sql: sql_dialect "ms_formatter ts" "scan_quoted (CHR 0x22)" drop_nul "scan_numbered ''@p''" True "\<lambda>_. True"
  for ts :: bool
proof unfold_locales
  fix r :: string and i n
  show "delim r \<Longrightarrow> scan_numbered ''@p'' n (res_text (GetPlaceholder (ms_formatter ts) i) @ r) = Some (i, r)"
    using scan_numbered_text [of r "''@p''" n i] by (simp add: formatter_defs)
  show "delim r \<Longrightarrow> scan_quoted (CHR 0x22) (SanitiseIdentifier (ms_formatter ts) c @ r) = Some (drop_nul c, r)" for c
    using ms_ids.scan_sanitised [OF delim_not_quote(1)] by (simp add: formatter_defs)
qed (auto simp: formatter_defs ms_SanitiseIdentifier_def)

interpretation ora_sql: sql_dialect "ora_formatter ts" "scan_quoted (CHR 0x22)" drop_nul "scan_numbered '':''" True "\<lambda>_. True"
  for ts :: bool
proof unfold_locales
  fix r :: string and i n
  show "delim r \<Longrightarrow> scan_numbered '':'' n (res_text (GetPlaceholder (ora_formatter ts) i) @ r) = Some (i, r)"
    using scan_numbered_text [of r "'':''" n i] by (simp add: formatter_defs)
  show "delim r \<Longrightarrow> scan_quoted (CHR 0x22) (SanitiseIdentifier (ora_formatter ts) c @ r) = Some (drop_nul c, r)" for c
    using ora_ids.scan_sanitised [OF delim_not_quote(1)] by (simp add: formatter_defs)
qed (auto simp: formatter_defs ora_SanitiseIdentifier_def)

text \<open>ClickHouse reads escape sequences inside a delimited identifier. This scanner gives no meaning to a backslash.\<close>

definition scan_unescaped :: "char \<Rightarrow> ident_scanner" where
  "scan_unescaped q s =
     (case scan_quoted q s of
        Some (c, r) \<Rightarrow> if CHR 0x5C \<in> set c then None else Some (c, r)
      | None \<Rightarrow> None)"

definition no_backslash :: "string \<Rightarrow> bool" where
  "no_backslash c \<longleftrightarrow> CHR 0x5C \<notin> set c"

lemma no_backslash_drop_nul: "no_backslash c \<Longrightarrow> no_backslash (drop_nul c)"
  by (induction c) (auto simp: no_backslash_def drop_nul_def)

interpretation ch_sql: sql_dialect "ch_formatter ts" "scan_unescaped (CHR 0x22)" drop_nul scan_positional False no_backslash
  for ts :: bool
proof unfold_locales
  show "no_backslash c \<Longrightarrow> delim r \<Longrightarrow>
      scan_unescaped (CHR 0x22) (SanitiseIdentifier (ch_formatter ts) c @ r) = Some (drop_nul c, r)" for r c
    using ch_ids.scan_sanitised [OF delim_not_quote(1), of r c] no_backslash_drop_nul [of c]
    by (simp add: formatter_defs scan_unescaped_def no_backslash_def)
qed (auto simp: formatter_defs ch_SanitiseIdentifier_def scan_positional_def scan_unescaped_def)

interpretation my_sql: sql_dialect "my_formatter ts" "scan_quoted (CHR 0x60)" "\<lambda>s. s" scan_positional False "\<lambda>_. True"
  for ts :: bool
proof unfold_locales
  show "delim r \<Longrightarrow> scan_quoted (CHR 0x60) (SanitiseIdentifier (my_formatter ts) c @ r) = Some (c, r)" for r c
    using my_ids.scan_sanitised [OF delim_not_quote(2)] by (simp add: formatter_defs)
qed (auto simp: formatter_defs my_SanitiseIdentifier_def scan_positional_def)

end
