(* ===== verification/Pushdown.thy ===== *)
theory Pushdown
  imports SqlText
begin

text \<open>
  The properties of filter pushdown: what the WHERE clause of a query selects compared with
  what the request asks for, in every filtering mode, for the texts of five dialects.
\<close>

section \<open>The dialects with quoted identifiers\<close>

text \<open>
  A dialect: its formatter, how its server reads identifiers and what it keeps of a name, how it reads placeholders,
  whether these carry the number of their argument, and the names whose text it reads back.
\<close>

record dialect =
  dl_formatter :: sql_formatter
  dl_ident :: ident_scanner
  dl_strip :: "string \<Rightarrow> string"
  dl_arg :: arg_scanner
  dl_numbered :: bool
  dl_name :: "string \<Rightarrow> bool"

definition dialects :: "bool \<Rightarrow> dialect list" where
  "dialects ts =
     [\<lparr>dl_formatter = pg_formatter ts, dl_ident = scan_quoted (CHR 0x22), dl_strip = drop_nul, dl_arg = scan_numbered ''$'',
       dl_numbered = True, dl_name = (\<lambda>_. True)\<rparr>,
      \<lparr>dl_formatter = ms_formatter ts, dl_ident = scan_quoted (CHR 0x22), dl_strip = drop_nul, dl_arg = scan_numbered ''@p'',
       dl_numbered = True, dl_name = (\<lambda>_. True)\<rparr>,
      \<lparr>dl_formatter = ora_formatter ts, dl_ident = scan_quoted (CHR 0x22), dl_strip = drop_nul, dl_arg = scan_numbered '':'',
       dl_numbered = True, dl_name = (\<lambda>_. True)\<rparr>,
      \<lparr>dl_formatter = ch_formatter ts, dl_ident = scan_unescaped (CHR 0x22), dl_strip = drop_nul, dl_arg = scan_positional,
       dl_numbered = False, dl_name = no_backslash\<rparr>,
      \<lparr>dl_formatter = my_formatter ts, dl_ident = scan_quoted (CHR 0x60), dl_strip = (\<lambda>s. s), dl_arg = scan_positional,
       dl_numbered = False, dl_name = (\<lambda>_. True)\<rparr>]"

definition reads_where :: "dialect \<Rightarrow> string \<Rightarrow> sql_term option" where
  "reads_where d clause = parse_where (dl_ident d) (dl_arg d) clause"

lemma dialects_numbered:
  assumes "d \<in> set (dialects ts)" and "wf_term t" and "list_all (dl_name d) (term_cols t)"
    and "dl_numbered d \<or> term_args t = [0..<m]"
  shows "reads_where d (print_term (dl_formatter d) t) = Some (rename_cols (dl_strip d) t)"
  using assms pg_sql.parse_where_print ms_sql.parse_where_print ora_sql.parse_where_print
    ch_sql.parse_where_print my_sql.parse_where_print
  by (auto simp: dialects_def reads_where_def)

lemma dialects_anonymous: "d \<in> set (dialects ts) \<Longrightarrow> \<not> dl_numbered d \<Longrightarrow>
    res_text (GetPlaceholder (dl_formatter d) i) = res_text (GetPlaceholder (dl_formatter d) j)"
  by (auto simp: dialects_def formatter_defs)

lemma dialects_parse:
  assumes "d \<in> set (dialects ts)" and "wf_term t" and "list_all (dl_name d) (term_cols t)"
  shows "reads_where d (print_term (dl_formatter d) t) =
    Some (rename_cols (dl_strip d) (if dl_numbered d then t else relabel 0 t))"
proof (cases "dl_numbered d")
  case True
  then show ?thesis using dialects_numbered [OF assms] by simp
next
  case False
  have "reads_where d (print_term (dl_formatter d) (relabel 0 t)) = Some (rename_cols (dl_strip d) (relabel 0 t))"
    by (rule dialects_numbered [OF assms(1)]) (use assms(2,3) relabel_wf(1) [of 0 t] relabel_args(1) [of 0 t] in auto)
  moreover have "print_term (dl_formatter d) (relabel 0 t) = print_term (dl_formatter d) t"
    by (rule relabel_print(1)) (rule dialects_anonymous [OF assms(1) False])
  ultimately show ?thesis using False by simp
qed

lemma dialects_render: "d \<in> set (dialects ts) \<Longrightarrow> renders_placeholders (dl_formatter d)"
  by (auto simp: dialects_def)

lemma eval_rename:
  assumes "\<And>c row. column_value S (strip c) row = column_value S c row"
  shows "eval_value S args row (rename_cols strip t) = eval_value S args row t"
    and "eval_term S args row (rename_cols strip t) = eval_term S args row t"
proof -
  show v: "eval_value S args row (rename_cols strip t) = eval_value S args row t" for t
    by (induction t) (auto simp: assms)
  show "eval_term S args row (rename_cols strip t) = eval_term S args row t"
  proof (induction t)
    case (TAnd ts)
    then show ?case by (simp cong: map_cong)
  next
    case (TOr ts)
    then show ?case by (simp cong: map_cong)
  next
    case (TCoalesce ts)
    then show ?case by (simp cong: map_cong)
  qed (auto simp: v assms)
qed

section \<open>From the outcome back to the specification\<close>

abbreviation empty_builder :: pbuilder where
  "empty_builder \<equiv> \<lparr>pb_args = [], pb_conjunctionErrors = []\<rparr>"

text \<open>The errors the builder suppressed while formatting a filter.\<close>

definition suppressed :: "sql_formatter \<Rightarrow> data_source_kind \<Rightarrow> predicate \<Rightarrow> go_error list" where
  "suppressed F k p = pb_conjunctionErrors (snd (formatPredicate F k p True False empty_builder))"

lemma suppressed_spec:
  assumes "renders_placeholders F" and "where_spec F k p = (x, fs, as)"
  shows "map error_root (suppressed F k p) = fs"
  using formatPredicate_where [OF assms] by (auto simp: suppressed_def)

lemma whereE:
  assumes "renders_placeholders F" and "formatWhereClause filtering F (Some p) k = Ok (clause, args)"
  obtains (pushed) t fs where "where_spec F k p = (Inr t, fs, args)" "clause = print_term F t"
  | (dropped) s fs where "where_spec F k p = (Inl s, fs, args)" "clause = ''''"
      "filtering \<noteq> FILTERING_MANDATORY" "acceptable s"
proof -
  obtain x fs as where w: "where_spec F k p = (x, fs, as)" by (metis prod_cases3)
  from formatWhereClause_spec [OF assms(1) w, of filtering] assms(2) w
  show thesis
    by (cases x; cases filtering) (auto intro: pushed dropped split: if_splits)
qed

section \<open>Properties\<close>

text \<open>The semantics of a data source does not tell a name from what the server keeps of it.\<close>

definition reads_names :: "dialect \<Rightarrow> ('row, 'v) data_semantics \<Rightarrow> bool" where
  "reads_names d S \<longleftrightarrow> (\<forall>c row. column_value S (dl_strip d c) row = column_value S c row)"

lemma eval_reads:
  assumes "reads_names d S"
  shows "eval_term S args row (rename_cols (dl_strip d) t) = eval_term S args row t"
  using assms by (intro eval_rename(2)) (simp add: reads_names_def)

lemma length_rename: "term_args (rename_cols f t) = term_args t"
  by (induction t) (simp_all add: comp_def cong: map_cong)

text \<open>C1: when no operand of the filter was suppressed and a clause is pushed at all, the text of the WHERE clause means
  the request's filter. In the five dialects with quoted identifiers the clause parses back, with its placeholders bound
  to the arguments in order, to a condition that has for every row the value of the requested predicate, whatever bytes
  its column names contain (for ClickHouse: any but a backslash, which its server reads as an escape). A bound argument
  has the value of its literal, and zero bytes, which the formatters drop from names, do not tell columns apart.\<close>

theorem where_text_means_filter:
  assumes "d \<in> set (dialects ts)" and "list_all (dl_name d) (pred_cols p)"
    and "binds_literals S" and "reads_names d S"
    and "formatWhereClause filtering (dl_formatter d) (Some p) k = Ok (clause, args)"
    and "suppressed (dl_formatter d) k p = []" and "clause \<noteq> ''''"
  shows "\<exists>t. reads_where d clause = Some t \<and> (\<forall>row. eval_term S args row t = eval_pred S row p)"
proof -
  let ?F = "dl_formatter d"
  note F = dialects_render [OF assms(1)]
  obtain t fs where w: "where_spec ?F k p = (Inr t, fs, args)" and c: "clause = print_term ?F t"
    using whereE [OF F assms(5)] assms(7) by metis
  with suppressed_spec [OF F w] assms(6) have w: "where_spec ?F k p = (Inr t, [], args)" by simp
  have "list_all (dl_name d) (term_cols t)" using where_spec_cols(1) [OF w] assms(2) by (auto simp: list_all_iff)
  then show ?thesis
    using dialects_numbered [OF assms(1) where_spec_wf [OF w], of "length args"] where_spec_args [OF w]
      where_spec_eval(2) [OF assms(3) w] eval_reads [OF assms(4)] c by auto
qed

text \<open>C3: pushdown never loses a row. In every filtering mode and in the five dialects, a row that satisfies the
  requested predicate satisfies the condition that the server reads from the text, even when operands of a top-level
  conjunction were suppressed: always for the dialects whose placeholders carry the number of their argument, and for
  the positional ones (ClickHouse, MySQL) whenever the text has as many placeholders as arguments are passed. Column
  names of ClickHouse are free of backslashes; bound arguments have the values of their literals, and zero bytes
  do not tell columns apart.\<close>

theorem pushdown_keeps_matching_rows:
  assumes "d \<in> set (dialects ts)" and "list_all (dl_name d) (pred_cols p)"
    and "binds_literals S" and "reads_names d S"
    and "formatWhereClause filtering (dl_formatter d) (Some p) k = Ok (clause, args)"
    and "eval_pred S row p = Some True" and "clause \<noteq> ''''"
  shows "\<exists>t. reads_where d clause = Some t \<and>
    (dl_numbered d \<or> length (term_args t) = length args \<longrightarrow> eval_term S args row t = Some True)"
proof -
  let ?F = "dl_formatter d"
  note F = dialects_render [OF assms(1)]
  obtain t fs where w: "where_spec ?F k p = (Inr t, fs, args)" and c: "clause = print_term ?F t"
    using whereE [OF F assms(5)] assms(7) by metis
  let ?t = "if dl_numbered d then t else relabel 0 t"
  have "list_all (dl_name d) (term_cols t)" using where_spec_cols(1) [OF w] assms(2) by (auto simp: list_all_iff)
  then have "reads_where d clause = Some (rename_cols (dl_strip d) ?t)"
    unfolding c by (rule dialects_parse [OF assms(1) where_spec_wf [OF w]])
  moreover have "?t = t" if "dl_numbered d \<or> length (term_args ?t) = length args"
  proof (cases "dl_numbered d")
    case False
    with that have "length (term_args t) = length args" by (simp add: relabel_args)
    then have "term_args t = [0..<length args]" using where_spec_cols(2) [OF w] subseq_same_length by fastforce
    then show ?thesis using relabel_aligned(1) [of t 0] False by simp
  qed simp
  ultimately show ?thesis
    using where_spec_eval(1) [OF assms(3) w assms(6)] eval_reads [OF assms(4)] by (metis length_rename)
qed

text \<open>C4: mandatory filtering is exact when nothing was suppressed: the clause is never empty,
  its placeholders are numbered 0, 1, ... in the order of the text, one per argument, and the
  condition has the value of the requested predicate on every row.\<close>

theorem mandatory_pushdown_exact:
  assumes "renders_placeholders F" and "binds_literals S"
    and "formatWhereClause FILTERING_MANDATORY F (Some p) k = Ok (clause, args)"
    and "suppressed F k p = []"
  shows "\<exists>t. clause = print_term F t \<and> term_args t = [0..<length args] \<and>
             (\<forall>row. eval_term S args row t = eval_pred S row p)"
  using assms(1,3)
proof (cases rule: whereE)
  case (pushed t fs)
  with suppressed_spec [OF assms(1) pushed(1)] assms(4) have "where_spec F k p = (Inr t, [], args)" by simp
  then show ?thesis
    using where_spec_eval(2) [OF assms(2)] where_spec_args pushed(2) by blast
qed simp

text \<open>Optional filtering tolerates exactly the acceptable errors. It fails precisely when
  mandatory filtering fails with an error outside the acceptable list, and then with an error of
  the same class; when mandatory filtering succeeds the two agree.\<close>

theorem optional_filtering_errors:
  assumes "renders_placeholders F"
  shows "case formatWhereClause FILTERING_MANDATORY F (Some p) k of
           Ok r \<Rightarrow> formatWhereClause FILTERING_OPTIONAL F (Some p) k = Ok r
         | Err e \<Rightarrow>
             if \<exists>s \<in> set acceptableErrors. errors_is e s
             then \<exists>args. formatWhereClause FILTERING_OPTIONAL F (Some p) k = Ok ('''', args)
             else formatWhereClause FILTERING_OPTIONAL F (Some p) k = Err e
         | Panic m \<Rightarrow> False"
proof -
  obtain x fs as where w: "where_spec F k p = (x, fs, as)" by (metis prod_cases3)
  obtain r errs where r: "formatPredicate F k p True False empty_builder =
      (r, \<lparr>pb_args = as, pb_conjunctionErrors = errs\<rparr>)" "agrees F r x"
    using formatPredicate_where [OF assms w] by blast
  then show ?thesis by (cases x) auto
qed

text \<open>C33: the statement of a query. When \<^verbatim>\<open>MakeSelectQuery\<close> succeeds for a data source that
  renders queries the default way, every item of the request is a column, the table name is not
  empty, the text selects the sanitised columns in the requested order (the constant 0 when
  there is none) from the sanitised table with the formatted clause after WHERE, and the types
  of the result are the requested types (one Int64 when there is no column).\<close>

theorem select_query_text:
  assumes "MakeSelectQuery F split filtering table = Ok q"
    and "RenderSelectQueryText F = (\<lambda>parts descr. DefaultSelectQueryRender parts)"
  shows "\<exists>cols clause.
           sp_what split = map Some cols \<and> table \<noteq> '''' \<and>
           QueryText q =
             ''SELECT '' @
             (if cols = [] then ''0'' else join '', '' (map (\<lambda>c. SanitiseIdentifier F (col_name c)) cols)) @
             '' FROM '' @ FormatFrom F table @ (if clause = '''' then '''' else '' WHERE '' @ clause) \<and>
           YdbTypes q = (if cols = [] then [TypeId Type_INT64] else map col_type cols) \<and>
           (case sp_where split of
              None \<Rightarrow> clause = '''' \<and> QueryArgs q = None
            | Some w \<Rightarrow> \<exists>args. QueryArgs q = Some args \<and>
                formatWhereClause filtering F w (sp_kind split) = Ok (clause, args))"
proof -
  have cols: "selectWhatToYDBColumns ws = Ok cs \<longleftrightarrow> ws = map Some cs" for ws cs
    by (induction ws arbitrary: cs) (auto simp: res_simps split: option.splits)
  have types: "SelectWhatToYDBTypes (map Some cs) = Ok (map col_type cs)" for cs
    by (induction cs) auto
  obtain sel what' tys clause args where sel: "formatSelectClause F (sp_what split) True = Ok (sel, what')"
    and tys: "SelectWhatToYDBTypes what' = Ok tys" and table: "table \<noteq> ''''"
    and clause: "(case sp_where split of None \<Rightarrow> Ok ('''', None) | Some w \<Rightarrow>
        bind_res (wrap_res ''format where clause'' (formatWhereClause filtering F w (sp_kind split)))
          (\<lambda>(clause, args). Ok (clause, Some args))) = Ok (clause, args)"
    and q: "q = \<lparr>QueryText = ''SELECT '' @ sel @ '' FROM '' @ FormatFrom F table @
        (if clause \<noteq> '''' then '' WHERE '' @ clause else ''''), QueryArgs = args, YdbTypes = tys\<rparr>"
    using assms by (auto simp: MakeSelectQuery_def res_simps DefaultSelectQueryRender_def split: if_splits)
  from sel obtain cs where cs: "sp_what split = map Some cs"
    and sel': "if cs = [] then sel = ''0'' \<and> what' = makeTSelectTWhatForEmptyColumnsRequest
         else sel = join '', '' (map (\<lambda>c. SanitiseIdentifier F (col_name c)) cs) \<and> what' = map Some cs"
    by (auto simp: formatSelectClause_def res_simps cols split: if_splits)
  have "tys = (if cs = [] then [TypeId Type_INT64] else map col_type cs)"
    using tys sel' by (auto simp: types makeTSelectTWhatForEmptyColumnsRequest_def split: if_splits)
  moreover have "case sp_where split of None \<Rightarrow> clause = '''' \<and> args = None
      | Some w \<Rightarrow> \<exists>as. args = Some as \<and> formatWhereClause filtering F w (sp_kind split) = Ok (clause, as)"
    using clause by (auto simp: res_simps split: option.splits)
  ultimately show ?thesis
    using cs sel' table q by (intro exI [of _ cs] exI [of _ clause]) (auto split: if_splits option.splits)
qed

section \<open>A concrete data source\<close>

text \<open>Rows of one integer column, where every opaque condition has a fixed value.\<close>

definition demo_literal :: "ydb_value \<Rightarrow> int option" where
  "demo_literal v =
     (case v of
        BoolValue b \<Rightarrow> Some (if b then 1 else 0)
      | Int64Value x \<Rightarrow> Some (sint x)
      | _ \<Rightarrow> None)"

fun demo_argument :: "arg_value \<Rightarrow> int option" where
  "demo_argument (ArgBool b) = Some (if b then 1 else 0)"
| "demo_argument (ArgInt64 x) = Some (sint x)"
| "demo_argument (ArgTimeUTC x) = Some (sint x)"
| "demo_argument (ArgPtr a) = demo_argument a"
| "demo_argument _ = None"

fun demo_compare :: "cmp_op \<Rightarrow> int option \<Rightarrow> int option \<Rightarrow> bool option" where
  "demo_compare CMP_L (Some x) (Some y) = Some (x < y)"
| "demo_compare CMP_EQ (Some x) (Some y) = Some (x = y)"
| "demo_compare _ _ _ = None"

definition demo_source :: "bool option \<Rightarrow> (int, int option) data_semantics" where
  "demo_source opaque =
     \<lparr>column_value = (\<lambda>c row. Some row),
      literal_value = (\<lambda>v. demo_literal (tv_value v)),
      argument_value = (\<lambda>a. demo_argument (arg_val a)),
      bool_value = (\<lambda>b. Some (if b then 1 else 0)),
      null_value = None,
      truth = map_option (\<lambda>x. x \<noteq> 0),
      value_is_null = (\<lambda>v. v = None),
      arith_value = (\<lambda>op x y. None),
      compare_values = demo_compare,
      opaque_expr = (\<lambda>e row. None),
      opaque_pred = (\<lambda>p row. opaque)\<rparr>"

lemma demo_binds [simp]: "binds_literals (demo_source v)"
  unfolding binds_literals_def
proof (intro conjI allI impI)
  fix u a
  assume a: "literal_arg u = Some a"
  show "argument_value (demo_source v) \<lparr>arg_ydb_type = Some (tv_type u), arg_val = a\<rparr> =
        literal_value (demo_source v) u"
  proof (cases "tv_value u = NullFlagValue")
    case True
    with a show ?thesis
      by (cases "tv_type u" rule: null_arg.cases)
         (auto simp: literal_arg_def demo_source_def demo_literal_def)
  next
    case False
    with a show ?thesis
      by (cases "tv_value u")
         (auto simp: literal_arg_def demo_source_def demo_literal_def split: if_splits)
  qed
qed (simp add: demo_source_def demo_literal_def)

definition int64_lit :: "u64 \<Rightarrow> expression" where
  "int64_lit x = ExprTypedValue \<lparr>tv_type = TypeId Type_INT64, tv_value = Int64Value x\<rparr>"

definition less_than_five :: predicate where
  "less_than_five = Comparison CMP_L (ExprColumn ''a'') (int64_lit 5)"

lemmas demo_defs = int64_lit_def less_than_five_def suppressed_def demo_source_def demo_literal_def
lemmas builder_simps =
  formatPredicate.simps formatComparison_def formatExpression.simps formatValue_def with_args_def
  add_arg_def AddTyped_def loop_init_def loop_add_def loop_result_def acceptableErrors_def
  pg_SanitiseIdentifier_def my_SanitiseIdentifier_def drop_nul_def

lemma dec_one: "dec (Suc 0) = ''1''"
  by code_simp

lemma demo_where:
  "f \<in> {FILTERING_OPTIONAL, FILTERING_MANDATORY} \<Longrightarrow>
   formatWhereClause f (pg_formatter False) (Some less_than_five) POSTGRESQL =
     Ok (''('' @ [CHR 0x22] @ ''a'' @ [CHR 0x22] @ '' < $1)'',
         [\<lparr>arg_ydb_type = Some (TypeId Type_INT64), arg_val = ArgInt64 5\<rparr>])"
  by (auto simp: demo_defs builder_simps pg_formatter_def dec_one)

lemma demo_suppressed: "suppressed (pg_formatter False) POSTGRESQL less_than_five = []"
  by (simp add: demo_defs builder_simps pg_formatter_def)

section \<open>Witnesses\<close>

lemma demo_dialect: "hd (dialects False) \<in> set (dialects False) \<and> dl_formatter (hd (dialects False)) = pg_formatter False \<and>
    dl_name (hd (dialects False)) = (\<lambda>_. True) \<and> dl_numbered (hd (dialects False)) \<and>
    reads_names (hd (dialects False)) (demo_source None)"
  by (simp add: dialects_def reads_names_def demo_source_def)

theorem where_text_means_filter_witness:
  "\<exists>t. reads_where (hd (dialects False)) (''('' @ [CHR 0x22] @ ''a'' @ [CHR 0x22] @ '' < $1)'') = Some t \<and>
       (\<forall>row. eval_term (demo_source None)
          [\<lparr>arg_ydb_type = Some (TypeId Type_INT64), arg_val = ArgInt64 5\<rparr>] row t =
          eval_pred (demo_source None) row less_than_five)"
  using where_text_means_filter [of "hd (dialects False)" False less_than_five "demo_source None" FILTERING_OPTIONAL POSTGRESQL]
    demo_dialect demo_where [of FILTERING_OPTIONAL] demo_suppressed by (simp add: list_all_iff)

theorem pushdown_keeps_matching_rows_witness:
  "\<exists>t. reads_where (hd (dialects False)) (''('' @ [CHR 0x22] @ ''a'' @ [CHR 0x22] @ '' < $1)'') = Some t \<and>
       eval_term (demo_source None)
         [\<lparr>arg_ydb_type = Some (TypeId Type_INT64), arg_val = ArgInt64 5\<rparr>] 3 t = Some True"
proof -
  have "eval_pred (demo_source None) 3 less_than_five = Some True" by (simp add: demo_defs)
  then show ?thesis
    using pushdown_keeps_matching_rows [of "hd (dialects False)" False less_than_five "demo_source None" FILTERING_OPTIONAL
        POSTGRESQL _ _ 3] demo_dialect demo_where [of FILTERING_OPTIONAL] by (simp add: list_all_iff)
qed

theorem mandatory_pushdown_exact_witness:
  "\<exists>t. ''('' @ [CHR 0x22] @ ''a'' @ [CHR 0x22] @ '' < $1)'' = print_term (pg_formatter False) t \<and>
       term_args t = [0..<1] \<and>
       (\<forall>row. eval_term (demo_source None)
         [\<lparr>arg_ydb_type = Some (TypeId Type_INT64), arg_val = ArgInt64 5\<rparr>] row t =
         eval_pred (demo_source None) row less_than_five)"
  using mandatory_pushdown_exact [OF _ demo_binds demo_where [of FILTERING_MANDATORY] demo_suppressed, of None]
  by simp

theorem optional_filtering_errors_witness:
  "\<exists>args. formatWhereClause FILTERING_OPTIONAL (pg_formatter False) (Some (PredOther 0)) POSTGRESQL = Ok ('''', args)"
  using optional_filtering_errors [of "pg_formatter False" "PredOther 0" POSTGRESQL]
  by (simp add: formatPredicate.simps acceptableErrors_def)

theorem select_query_text_witness:
  "\<exists>clause. ''SELECT '' @ [CHR 0x22] @ ''a'' @ [CHR 0x22] @ '' FROM '' @ [CHR 0x22] @ ''t'' @ [CHR 0x22] =
     ''SELECT '' @ SanitiseIdentifier (pg_formatter False) ''a'' @ '' FROM '' @
     FormatFrom (pg_formatter False) ''t'' @ (if clause = '''' then '''' else '' WHERE '' @ clause)"
  using select_query_text [of "pg_formatter False"
      "\<lparr>sp_what = [Some \<lparr>col_name = ''a'', col_type = TypeId Type_UTF8\<rparr>], sp_where = None,
        sp_kind = POSTGRESQL, sp_description = ''''\<rparr>" FILTERING_OPTIONAL "''t''"
      "\<lparr>QueryText = ''SELECT '' @ [CHR 0x22] @ ''a'' @ [CHR 0x22] @ '' FROM '' @ [CHR 0x22] @ ''t'' @ [CHR 0x22],
        QueryArgs = None, YdbTypes = [TypeId Type_UTF8]\<rparr>"]
  by (auto simp: MakeSelectQuery_def formatSelectClause_def DefaultSelectQueryRender_def pg_formatter_def
      pg_SanitiseIdentifier_def drop_nul_def)

section \<open>Deviations\<close>

text \<open>Mandatory filtering is not always complete. A top-level conjunction with an operand
  that cannot be pushed down (here an alternative the builder does not implement) is accepted in
  mandatory mode with only its other operands: the query succeeds, and a row that the request
  excludes passes its WHERE clause.\<close>

theorem mandatory_filtering_drops_operands:
  "\<exists>clause args t.
     formatWhereClause FILTERING_MANDATORY (pg_formatter False)
       (Some (Conjunction [less_than_five, PredOther 0])) POSTGRESQL = Ok (clause, args) \<and>
     clause = print_term (pg_formatter False) t \<and>
     eval_term (demo_source (Some False)) args 3 t = Some True \<and>
     eval_pred (demo_source (Some False)) 3 (Conjunction [less_than_five, PredOther 0]) = Some False"
  by (rule exI [of _ "''('' @ [CHR 0x22] @ ''a'' @ [CHR 0x22] @ '' < $1)''"],
      rule exI [of _ "[\<lparr>arg_ydb_type = Some (TypeId Type_INT64), arg_val = ArgInt64 5\<rparr>]"],
      rule exI [of _ "TCmp CMP_L (TCol ''a'') (TArg 0)"])
     (simp add: demo_defs builder_simps pg_formatter_def dec_one op_text_def and3_def)

text \<open>A suppressed operand leaves its arguments behind. For MySQL, whose placeholders are
  positional, the conjunction of an operand that fails after its literal was bound and of
  \<^verbatim>\<open>b = 2\<close> gives a text with one placeholder and two arguments, the first of which is
  the literal of the operand that is not in the text.\<close>

theorem suppressed_operand_leaves_arguments:
  "formatWhereClause FILTERING_OPTIONAL (my_formatter False)
     (Some (Conjunction [Comparison CMP_EQ (int64_lit 1) (ExprOther 0),
                         Comparison CMP_EQ (ExprColumn ''b'') (int64_lit 2)])) MYSQL =
   Ok (''('' @ [CHR 0x60] @ ''b'' @ [CHR 0x60] @ '' = ?)'',
       [\<lparr>arg_ydb_type = Some (TypeId Type_INT64), arg_val = ArgInt64 1\<rparr>,
        \<lparr>arg_ydb_type = Some (TypeId Type_INT64), arg_val = ArgInt64 2\<rparr>])"
  by (simp add: demo_defs builder_simps my_formatter_def)

end
