(* ===== verification/Sizes.thy ===== *)
theory Sizes
  imports GoErrors
begin

text \<open>
  The sizes of row values (\<^verbatim>\<open>paging/size.go\<close>). An acceptor is the Go value that a driver scans
  into: a value, a pointer or a pointer to a pointer of one of the types below, any of which
  may be nil. The payload of a variable-length value is its bytes; a map of strings keeps its
  pairs. The payloads of fixed-size values do not matter for sizes and are kept as bytes too.
\<close>

section \<open>Acceptors\<close>

datatype go_kind =
    KBool | KInt8 | KUint8 | KInt16 | KUint16 | KInt32 | KUint32 | KFloat32
  | KInt64 | KUint64 | KFloat64 | KTime
  | KBytes | KString | KBinary | KStringMap
  | KPgBool | KPgInt2 | KPgInt4 | KPgInt8 | KPgFloat4 | KPgFloat8 | KPgText | KPgDate | KPgTimestamp
  | KUUID | KObjectID
  | KOther nat

datatype content = Bytes string | Pairs "(string \<times> string) list"

datatype go_any =
    NilInterface
  | Direct go_kind content
  | NilPtr go_kind
  | Ptr go_kind content
  | NilPtrPtr go_kind
  | PtrToNil go_kind
  | PtrPtr go_kind content

datatype acceptor_kind = unknownSize | fixedSize | variableSize

text \<open>\<^verbatim>\<open>uint64(len(x))\<close>; for a map the loop over its pairs.\<close>

fun content_len :: "content \<Rightarrow> u64" where
  "content_len (Bytes s) = of_nat (length s)"
| "content_len (Pairs ps) = sum_list (map (\<lambda>(k, v). of_nat (length k + length v)) ps)"

fun fixed_width :: "go_kind \<Rightarrow> u64 option" where
  "fixed_width KBool = Some 1"
| "fixed_width KInt8 = Some 1"
| "fixed_width KUint8 = Some 1"
| "fixed_width KInt16 = Some 2"
| "fixed_width KUint16 = Some 2"
| "fixed_width KInt32 = Some 4"
| "fixed_width KUint32 = Some 4"
| "fixed_width KFloat32 = Some 4"
| "fixed_width KInt64 = Some 8"
| "fixed_width KUint64 = Some 8"
| "fixed_width KFloat64 = Some 8"
| "fixed_width KTime = Some 16"
| "fixed_width KPgBool = Some 1"
| "fixed_width KPgInt2 = Some 2"
| "fixed_width KPgInt4 = Some 4"
| "fixed_width KPgInt8 = Some 8"
| "fixed_width KPgFloat4 = Some 4"
| "fixed_width KPgFloat8 = Some 8"
| "fixed_width KPgDate = Some 16"
| "fixed_width KPgTimestamp = Some 16"
| "fixed_width KUUID = Some 16"
| "fixed_width KObjectID = Some 12"
| "fixed_width _ = None"

definition unexpected_type :: "'a res" where
  "unexpected_type = Err (Wrap ''value of unexpected data type'' (Sentinel ErrDataTypeNotSupported))"

text \<open>
  Which of the three indirections the type switch of \<^verbatim>\<open>sizeOfValueBloated\<close> lists for a type:
  the value itself, the pointer, the pointer to a pointer.
\<close>

fun bloated_accepts :: "go_kind \<Rightarrow> bool \<times> bool \<times> bool" where
  "bloated_accepts KBinary = (False, True, True)"
| "bloated_accepts KPgBool = (False, True, False)"
| "bloated_accepts KPgInt2 = (False, True, False)"
| "bloated_accepts KPgInt4 = (False, True, False)"
| "bloated_accepts KPgInt8 = (False, True, False)"
| "bloated_accepts KPgFloat4 = (False, True, False)"
| "bloated_accepts KPgFloat8 = (False, True, False)"
| "bloated_accepts KPgText = (False, True, False)"
| "bloated_accepts KPgDate = (False, True, False)"
| "bloated_accepts KPgTimestamp = (False, True, False)"
| "bloated_accepts KUUID = (False, False, True)"
| "bloated_accepts (KOther n) = (False, False, False)"
| "bloated_accepts _ = (True, True, True)"

definition measure_content :: "go_kind \<Rightarrow> u64 \<Rightarrow> u64 \<times> acceptor_kind" where
  "measure_content k len =
     (case fixed_width k of Some w \<Rightarrow> (w, fixedSize) | None \<Rightarrow> (len, variableSize))"

fun sizeOfValueBloated :: "go_any \<Rightarrow> (u64 \<times> acceptor_kind) res" where
  "sizeOfValueBloated NilInterface = unexpected_type"
| "sizeOfValueBloated (Direct k c) =
     (if fst (bloated_accepts k) then Ok (measure_content k (content_len c)) else unexpected_type)"
| "sizeOfValueBloated (Ptr k c) =
     (if fst (snd (bloated_accepts k)) then Ok (measure_content k (content_len c)) else unexpected_type)"
| "sizeOfValueBloated (PtrPtr k c) =
     (if snd (snd (bloated_accepts k)) then Ok (measure_content k (content_len c)) else unexpected_type)"
| "sizeOfValueBloated (NilPtr k) =
     (if k = KPgText then Panic ''nil pointer dereference''
      else if fst (snd (bloated_accepts k)) then Ok (measure_content k 0) else unexpected_type)"
| "sizeOfValueBloated (NilPtrPtr k) =
     (if snd (snd (bloated_accepts k)) then Ok (measure_content k 0) else unexpected_type)"
| "sizeOfValueBloated (PtrToNil k) =
     (if snd (snd (bloated_accepts k)) then Ok (measure_content k 0) else unexpected_type)"

text \<open>
  The reference implementation by reflection, which follows up to two pointers, knows nothing
  of UUIDs and string maps, and sizes every nil as a variable-length value of zero bytes.
\<close>

fun reflection_knows :: "go_kind \<Rightarrow> bool" where
  "reflection_knows KUUID = False"
| "reflection_knows KStringMap = False"
| "reflection_knows (KOther n) = False"
| "reflection_knows _ = True"

fun sizeOfValueReflection :: "go_any \<Rightarrow> (u64 \<times> acceptor_kind) res" where
  "sizeOfValueReflection NilInterface = Ok (0, variableSize)"
| "sizeOfValueReflection (NilPtr k) = Ok (0, variableSize)"
| "sizeOfValueReflection (NilPtrPtr k) = Ok (0, variableSize)"
| "sizeOfValueReflection (PtrToNil k) = Ok (0, variableSize)"
| "sizeOfValueReflection (Direct k c) =
     (if reflection_knows k then Ok (measure_content k (content_len c)) else unexpected_type)"
| "sizeOfValueReflection (Ptr k c) =
     (if reflection_knows k then Ok (measure_content k (content_len c)) else unexpected_type)"
| "sizeOfValueReflection (PtrPtr k c) =
     (if reflection_knows k then Ok (measure_content k (content_len c)) else unexpected_type)"

section \<open>Size patterns\<close>

record size_pattern =
  varyingSizeIx :: "nat list"
  fixedSizeTotal :: u64

fun estimate_loop :: "nat list \<Rightarrow> go_any list \<Rightarrow> u64 \<Rightarrow> u64 res" where
  "estimate_loop [] acceptors sizeTotal = Ok sizeTotal"
| "estimate_loop (ix # ixs) acceptors sizeTotal =
     (if ix < length acceptors then
        bind_res (wrap_res ''size of value'' (sizeOfValueBloated (acceptors ! ix))) (\<lambda>(sz, k).
          estimate_loop ixs acceptors (sizeTotal + sz))
      else Panic ''index out of range'')"

definition estimate :: "size_pattern \<Rightarrow> go_any list \<Rightarrow> u64 res" where
  "estimate sp acceptors = estimate_loop (varyingSizeIx sp) acceptors (fixedSizeTotal sp)"

fun pattern_loop :: "nat \<Rightarrow> go_any list \<Rightarrow> size_pattern \<Rightarrow> size_pattern res" where
  "pattern_loop i [] sp = Ok sp"
| "pattern_loop i (a # as) sp =
     bind_res (wrap_res ''estimate size of value'' (sizeOfValueBloated a)) (\<lambda>(sz, k).
       case k of
         fixedSize \<Rightarrow> pattern_loop (Suc i) as (sp\<lparr>fixedSizeTotal := fixedSizeTotal sp + sz\<rparr>)
       | variableSize \<Rightarrow> pattern_loop (Suc i) as (sp\<lparr>varyingSizeIx := varyingSizeIx sp @ [i]\<rparr>)
       | unknownSize \<Rightarrow> Err (NewErr ''unknown type kind''))"

definition newSizePattern :: "go_any list \<Rightarrow> size_pattern res" where
  "newSizePattern acceptors = pattern_loop 0 acceptors \<lparr>varyingSizeIx = [], fixedSizeTotal = 0\<rparr>"

text \<open>The size of a row without the pattern: every value measured.\<close>

definition row_size :: "go_any list \<Rightarrow> u64 res" where
  "row_size acceptors = bind_res (map_res sizeOfValueBloated acceptors) (\<lambda>ss. Ok (sum_list (map fst ss)))"

text \<open>
  The Go type of an acceptor. The slots a driver scans into keep their types from row to row;
  only what they point to changes.
\<close>

fun go_type :: "go_any \<Rightarrow> (nat \<times> go_kind) option" where
  "go_type NilInterface = None"
| "go_type (Direct k c) = Some (0, k)"
| "go_type (NilPtr k) = Some (1, k)"
| "go_type (Ptr k c) = Some (1, k)"
| "go_type (NilPtrPtr k) = Some (2, k)"
| "go_type (PtrToNil k) = Some (2, k)"
| "go_type (PtrPtr k c) = Some (2, k)"

lemma measure_content_kind [simp]:
  "snd (measure_content k l) = (if fixed_width k = None then variableSize else fixedSize)"
  by (auto simp: measure_content_def split: option.splits)

text \<open>Values of one Go type have one kind, and one size when the kind is fixed.\<close>

lemma bloated_same_type:
  assumes "go_type a = go_type b" and "sizeOfValueBloated a = Ok (x, k)" "sizeOfValueBloated b = Ok (y, k')"
  shows "k = k' \<and> (k = fixedSize \<longrightarrow> x = y)"
  using assms
  by (cases a; cases b)
     (auto simp: unexpected_type_def measure_content_def split: if_splits option.splits)

lemma bloated_kind_not_unknown: "sizeOfValueBloated a = Ok (x, k) \<Longrightarrow> k \<noteq> unknownSize"
  by (cases a) (auto simp: unexpected_type_def measure_content_def split: if_splits option.splits)

lemma estimate_loop_append:
  "estimate_loop (is @ js) as t = bind_res (estimate_loop is as t) (estimate_loop js as)"
proof (induction "is" arbitrary: t)
  case (Cons i "is")
  then show ?case
    by (cases "sizeOfValueBloated (as ! i)") auto
qed simp

lemma pattern_loop_estimate:
  assumes "pattern_loop (length pre) as sp = Ok sp'"
    and "map go_type bs = map go_type as" and "map_res sizeOfValueBloated bs = Ok ss"
  shows "\<exists>ixs w. varyingSizeIx sp' = varyingSizeIx sp @ ixs \<and>
           fixedSizeTotal sp' = fixedSizeTotal sp + w \<and>
           (\<forall>t. estimate_loop ixs (pre @ bs) (t + w) = Ok (t + sum_list (map fst ss)))"
  using assms
proof (induction as arbitrary: pre sp bs ss)
  case Nil
  then show ?case by (auto intro!: exI [of _ "[]"] exI [of _ 0])
next
  case (Cons a as)
  obtain b bs' where bs: "bs = b # bs'" using Cons.prems(2) by (cases bs) auto
  obtain y kb ss' where b: "sizeOfValueBloated b = Ok (y, kb)"
    and ss: "ss = (y, kb) # ss'" "map_res sizeOfValueBloated bs' = Ok ss'"
    using Cons.prems(3) bs by (auto simp: res_simps)
  obtain x ka where a: "sizeOfValueBloated a = Ok (x, ka)"
    using Cons.prems(1) by (auto simp: res_simps)
  have same: "ka = kb" "ka = fixedSize \<longrightarrow> x = y"
    using bloated_same_type [OF _ a b] Cons.prems(2) bs by auto
  have types: "map go_type bs' = map go_type as" using Cons.prems(2) bs by simp
  consider "ka = fixedSize" | "ka = variableSize"
    using bloated_kind_not_unknown [OF a] by (cases ka) auto
  then show ?case
  proof cases
    case 1
    with Cons.prems(1) a have "pattern_loop (length (pre @ [b])) as
        (sp\<lparr>fixedSizeTotal := fixedSizeTotal sp + x\<rparr>) = Ok sp'" by simp
    from Cons.IH [OF this types ss(2)] obtain ixs w where
      ih: "varyingSizeIx sp' = varyingSizeIx sp @ ixs" "fixedSizeTotal sp' = fixedSizeTotal sp + x + w"
      "\<And>t. estimate_loop ixs ((pre @ [b]) @ bs') (t + w) = Ok (t + sum_list (map fst ss'))"
      by auto
    show ?thesis
      using ih(1,2) ih(3) [of "_ + x"] same 1
      by (intro exI [of _ ixs] exI [of _ "x + w"]) (simp add: bs ss add.assoc)
  next
    case 2
    with Cons.prems(1) a have "pattern_loop (length (pre @ [b])) as
        (sp\<lparr>varyingSizeIx := varyingSizeIx sp @ [length pre]\<rparr>) = Ok sp'" by simp
    from Cons.IH [OF this types ss(2)] obtain ixs w where
      ih: "varyingSizeIx sp' = varyingSizeIx sp @ length pre # ixs" "fixedSizeTotal sp' = fixedSizeTotal sp + w"
      "\<And>t. estimate_loop ixs ((pre @ [b]) @ bs') (t + w) = Ok (t + sum_list (map fst ss'))"
      by auto
    have "estimate_loop (length pre # ixs) (pre @ bs) (t + w) = Ok (t + sum_list (map fst ss))" for t
      using ih(3) [of "t + y"] b by (simp add: bs ss nth_append add.assoc add.commute add.left_commute)
    with ih(1,2) show ?thesis by blast
  qed
qed

lemma estimate_row_size:
  assumes "newSizePattern first = Ok sp"
    and "map go_type row = map go_type first" and "row_size row = Ok s"
  shows "estimate sp row = Ok s"
proof -
  obtain ss where ss: "map_res sizeOfValueBloated row = Ok ss" "s = sum_list (map fst ss)"
    using assms(3) by (auto simp: row_size_def res_simps)
  from pattern_loop_estimate [of "[]" "first" "\<lparr>varyingSizeIx = [], fixedSizeTotal = 0\<rparr>" sp row ss] assms ss
  obtain ixs w where "varyingSizeIx sp = ixs" "fixedSizeTotal sp = w"
    "\<And>t. estimate_loop ixs row (t + w) = Ok (t + s)"
    by (auto simp: newSizePattern_def)
  from this(3) [of 0] this(1,2) show ?thesis by (simp add: estimate_def)
qed

text \<open>C32: the cached size pattern is exact. The pattern computed from the first row gives, for
  every later row whose slots have the same Go types, the size that measuring every value of
  that row gives, modulo the width of the counter.\<close>

theorem size_pattern_exact:
  assumes "newSizePattern first = Ok sp"
    and "map go_type row = map go_type first" and "row_size row = Ok s"
  shows "estimate sp row = Ok s"
  using assms by (rule estimate_row_size)

theorem size_pattern_exact_witness:
  "newSizePattern [PtrPtr KInt32 (Bytes []), NilPtr KString] = Ok \<lparr>varyingSizeIx = [1], fixedSizeTotal = 4\<rparr> \<and>
   estimate \<lparr>varyingSizeIx = [1], fixedSizeTotal = 4\<rparr> [PtrToNil KInt32, Ptr KString (Bytes ''abc'')] = Ok 7"
  using size_pattern_exact [of "[PtrPtr KInt32 (Bytes []), NilPtr KString]"
      "\<lparr>varyingSizeIx = [1], fixedSizeTotal = 4\<rparr>" "[PtrToNil KInt32, Ptr KString (Bytes ''abc'')]" 7]
  by (simp add: newSizePattern_def row_size_def measure_content_def)

text \<open>The fast size function agrees with the reflective one on every value that both accept,
  nil pointers to fixed-size types excepted, where the fast one charges the full width.\<close>

theorem bloated_matches_reflection:
  assumes "sizeOfValueBloated v = Ok r" and "sizeOfValueReflection v = Ok r'"
  shows "r = r' \<or> (\<exists>k w. v \<in> {NilPtr k, NilPtrPtr k, PtrToNil k} \<and>
           fixed_width k = Some w \<and> r = (w, fixedSize) \<and> r' = (0, variableSize))"
  using assms
  by (cases v)
     (auto simp: unexpected_type_def measure_content_def split: if_splits option.splits)

theorem bloated_matches_reflection_witness:
  "sizeOfValueBloated (Ptr KString (Bytes ''ab'')) = Ok (2, variableSize) \<and>
   sizeOfValueReflection (Ptr KString (Bytes ''ab'')) = Ok (2, variableSize) \<and>
   ((2 :: u64, variableSize) = (2, variableSize) \<or>
     (\<exists>k w. Ptr KString (Bytes ''ab'') \<in> {NilPtr k, NilPtrPtr k, PtrToNil k} \<and>
       fixed_width k = Some w \<and> (2, variableSize) = (w, fixedSize) \<and> (2 :: u64, variableSize) = (0, variableSize)))"
  using bloated_matches_reflection [of "Ptr KString (Bytes ''ab'')" "(2, variableSize)" "(2, variableSize)"]
  by (simp add: measure_content_def)

end
