(* ===== verification/Traffic.thy ===== *)
theory Traffic
  imports Sizes
begin

text \<open>
  Counters, the traffic tracker of a sink and the read limiter of a split
  (\<^verbatim>\<open>utils/counter.go\<close>, \<^verbatim>\<open>paging/traffic_tracker.go\<close>, \<^verbatim>\<open>paging/read_limiter.go\<close>). A counter is an
  object that may point to a parent counter, so the counters of a tracker live in a small
  store of their own; an address is a position in it. All sums are 64-bit words.
\<close>

section \<open>Counters\<close>

record counter =
  parent :: "nat option"
  cvalue :: u64

type_synonym counters = "counter list"

definition NewCounter :: "counters \<Rightarrow> nat \<times> counters" where
  "NewCounter h = (length h, h @ [\<lparr>parent = None, cvalue = 0\<rparr>])"

definition MakeChild :: "nat \<Rightarrow> counters \<Rightarrow> nat \<times> counters" where
  "MakeChild c h = (length h, h @ [\<lparr>parent = Some c, cvalue = 0\<rparr>])"

definition Value :: "counters \<Rightarrow> nat \<Rightarrow> u64" where
  "Value h c = cvalue (h ! c)"

definition bump :: "nat \<Rightarrow> u64 \<Rightarrow> counters \<Rightarrow> counters" where
  "bump c d h = h[c := (h ! c)\<lparr>cvalue := cvalue (h ! c) + d\<rparr>]"

definition counter_Add :: "nat \<Rightarrow> u64 \<Rightarrow> counters \<Rightarrow> counters" where
  "counter_Add c delta h =
     bump c delta (case parent (h ! c) of Some p \<Rightarrow> bump p delta h | None \<Rightarrow> h)"

lemma bump_length [simp]: "length (bump c d h) = length h"
  by (simp add: bump_def)

lemma bump_parent [simp]: "parent (bump c d h ! a) = parent (h ! a)"
  by (cases "c < length h") (auto simp: bump_def nth_list_update list_update_beyond)

lemma Value_bump [simp]:
  "a < length h \<Longrightarrow> Value (bump c d h) a = Value h a + (if a = c then d else 0)"
  by (simp add: bump_def Value_def nth_list_update)

lemma counter_Add_length [simp]: "length (counter_Add c d h) = length h"
  by (simp add: counter_Add_def split: option.splits)

lemma counter_Add_parent [simp]: "parent (counter_Add c d h ! a) = parent (h ! a)"
  by (simp add: counter_Add_def split: option.splits)

text \<open>A delta reaches the counter and its parent, and nothing else.\<close>

lemma Value_counter_Add [simp]:
  "a < length h \<Longrightarrow> parent (h ! c) \<noteq> Some c \<Longrightarrow>
     Value (counter_Add c d h) a = Value h a + (if a = c \<or> parent (h ! c) = Some a then d else 0)"
  by (auto simp: counter_Add_def split: option.splits)

section \<open>The traffic tracker\<close>

record tracker =
  bytesPerPage :: u64
  rowsPerPage :: u64
  sizePattern :: "size_pattern option"
  heap :: counters
  bytesTotal :: nat
  rowsTotal :: nat
  bytesCurr :: nat
  rowsCurr :: nat

definition refreshCounters :: "tracker \<Rightarrow> tracker" where
  "refreshCounters tt =
     (let (b, h) = MakeChild (bytesTotal tt) (heap tt);
          (r, h) = MakeChild (rowsTotal tt) h
      in tt\<lparr>heap := h, bytesCurr := b, rowsCurr := r\<rparr>)"

definition newTrafficTracker :: "u64 \<Rightarrow> u64 \<Rightarrow> tracker" where
  "newTrafficTracker bytes_per_page rows_per_page =
     (let (b, h) = NewCounter [];
          (r, h) = NewCounter h
      in refreshCounters
           \<lparr>bytesPerPage = bytes_per_page, rowsPerPage = rows_per_page, sizePattern = None,
            heap = h, bytesTotal = b, rowsTotal = r, bytesCurr = 0, rowsCurr = 0\<rparr>)"

definition checkPageSizeLimit :: "tracker \<Rightarrow> u64 \<Rightarrow> u64 \<Rightarrow> bool res" where
  "checkPageSizeLimit tt bytesDelta rowsDelta =
     (if bytesPerPage tt \<noteq> 0 \<and> bytesDelta > bytesPerPage tt then
        Err (Wrap ''single row size exceeds page size limit'' (Sentinel ErrPageSizeExceeded))
      else if bytesPerPage tt \<noteq> 0 \<and> Value (heap tt) (bytesCurr tt) + bytesDelta > bytesPerPage tt then
        Ok True
      else if rowsPerPage tt \<noteq> 0 \<and> Value (heap tt) (rowsCurr tt) + rowsDelta > rowsPerPage tt then
        Ok True
      else Ok False)"

definition maybeInit :: "tracker \<Rightarrow> go_any list \<Rightarrow> unit res \<times> tracker" where
  "maybeInit tt acceptors =
     (case sizePattern tt of
        Some sp \<Rightarrow> (Ok (), tt)
      | None \<Rightarrow>
          (case newSizePattern acceptors of
             Ok sp \<Rightarrow> (Ok (), tt\<lparr>sizePattern := Some sp\<rparr>)
           | Err e \<Rightarrow> (Err (Wrap ''new size pattern'' e), tt)
           | Panic m \<Rightarrow> (Panic m, tt)))"

definition tryAddRow :: "tracker \<Rightarrow> go_any list \<Rightarrow> bool res \<times> tracker" where
  "tryAddRow tt acceptors =
     (case maybeInit tt acceptors of
        (Err e, tt) \<Rightarrow> (Err (Wrap ''maybe init'' e), tt)
      | (Panic m, tt) \<Rightarrow> (Panic m, tt)
      | (Ok _, tt) \<Rightarrow>
          (case sizePattern tt of
             None \<Rightarrow> (Panic ''nil pointer dereference'', tt)
           | Some sp \<Rightarrow>
               (case bind_res (wrap_res ''size pattern estimate'' (estimate sp acceptors)) (\<lambda>totalBytes.
                     bind_res (wrap_res ''check page size limit'' (checkPageSizeLimit tt totalBytes 1)) (\<lambda>full.
                     Ok (totalBytes, full))) of
                  Err e \<Rightarrow> (Err e, tt)
                | Panic m \<Rightarrow> (Panic m, tt)
                | Ok (totalBytes, full) \<Rightarrow>
                    if full then (Ok False, tt)
                    else
                      (Ok True,
                       tt\<lparr>heap := counter_Add (rowsCurr tt) 1 (counter_Add (bytesCurr tt) totalBytes (heap tt))\<rparr>))))"

record traffic_stats =
  st_rows :: u64
  st_bytes :: u64

definition DumpStats :: "tracker \<Rightarrow> bool \<Rightarrow> traffic_stats" where
  "DumpStats tt tot =
     (if tot then \<lparr>st_rows = Value (heap tt) (rowsTotal tt), st_bytes = Value (heap tt) (bytesTotal tt)\<rparr>
      else \<lparr>st_rows = Value (heap tt) (rowsCurr tt), st_bytes = Value (heap tt) (bytesCurr tt)\<rparr>)"

text \<open>The shape of the counters: two totals without a parent, two children of the totals.\<close>

definition tracker_inv :: "tracker \<Rightarrow> bool" where
  "tracker_inv tt \<longleftrightarrow>
     distinct [bytesTotal tt, rowsTotal tt, bytesCurr tt, rowsCurr tt] \<and>
     bytesTotal tt < length (heap tt) \<and> rowsTotal tt < length (heap tt) \<and>
     bytesCurr tt < length (heap tt) \<and> rowsCurr tt < length (heap tt) \<and>
     parent (heap tt ! bytesCurr tt) = Some (bytesTotal tt) \<and>
     parent (heap tt ! rowsCurr tt) = Some (rowsTotal tt)"

lemma tracker_inv_new [simp]: "tracker_inv (newTrafficTracker b r)"
  by (simp add: tracker_inv_def newTrafficTracker_def refreshCounters_def NewCounter_def MakeChild_def)

lemma tracker_inv_refresh: "tracker_inv tt \<Longrightarrow> tracker_inv (refreshCounters tt)"
  by (auto simp: tracker_inv_def refreshCounters_def MakeChild_def nth_append)

lemma refresh_stats:
  assumes "tracker_inv tt"
  shows "DumpStats (refreshCounters tt) False = \<lparr>st_rows = 0, st_bytes = 0\<rparr>"
    and "DumpStats (refreshCounters tt) True = DumpStats tt True"
  using assms
  by (auto simp: tracker_inv_def DumpStats_def refreshCounters_def MakeChild_def Value_def nth_append)

lemma new_stats [simp]: "DumpStats (newTrafficTracker b r) tot = \<lparr>st_rows = 0, st_bytes = 0\<rparr>"
  by (simp add: DumpStats_def newTrafficTracker_def refreshCounters_def NewCounter_def MakeChild_def Value_def)

lemma refresh_fields [simp]:
  "bytesPerPage (refreshCounters tt) = bytesPerPage tt" "rowsPerPage (refreshCounters tt) = rowsPerPage tt"
  "sizePattern (refreshCounters tt) = sizePattern tt"
  by (simp_all add: refreshCounters_def MakeChild_def)

lemma new_fields [simp]:
  "bytesPerPage (newTrafficTracker b r) = b" "rowsPerPage (newTrafficTracker b r) = r"
  "sizePattern (newTrafficTracker b r) = None"
  by (simp_all add: newTrafficTracker_def NewCounter_def)

section \<open>The read limiter\<close>

datatype read_limiter = readLimiterNoop | readLimiterRows u64 u64

fun limiter_addRow :: "read_limiter \<Rightarrow> unit res \<times> read_limiter" where
  "limiter_addRow readLimiterNoop = (Ok (), readLimiterNoop)"
| "limiter_addRow (readLimiterRows rowsRead rowsLimit) =
     (if rowsRead \<ge> rowsLimit then
        (Err (Wrap ''can read only line(s) from data source per request'' (Sentinel ErrReadLimitExceeded)),
         readLimiterRows rowsRead rowsLimit)
      else (Ok (), readLimiterRows (rowsRead + 1) rowsLimit))"

fun MakeReadLimiter :: "u64 option \<Rightarrow> read_limiter" where
  "MakeReadLimiter None = readLimiterNoop"
| "MakeReadLimiter (Some rows) = readLimiterRows 0 rows"

section \<open>One call of the tracker\<close>

text \<open>
  The size a tracker charges for a row: by its pattern, or by the pattern it derives from the
  row when it has none yet.
\<close>

definition charge :: "tracker \<Rightarrow> go_any list \<Rightarrow> u64 res" where
  "charge tt row =
     (case sizePattern tt of
        Some sp \<Rightarrow> estimate sp row
      | None \<Rightarrow> bind_res (newSizePattern row) (\<lambda>sp. estimate sp row))"

definition fits :: "tracker \<Rightarrow> u64 \<Rightarrow> bool" where
  "fits tt bytes \<longleftrightarrow>
     (bytesPerPage tt = 0 \<or> st_bytes (DumpStats tt False) + bytes \<le> bytesPerPage tt) \<and>
     (rowsPerPage tt = 0 \<or> st_rows (DumpStats tt False) + 1 \<le> rowsPerPage tt)"

definition oversized :: "tracker \<Rightarrow> u64 \<Rightarrow> bool" where
  "oversized tt bytes \<longleftrightarrow> bytesPerPage tt \<noteq> 0 \<and> bytes > bytesPerPage tt"

lemma check_limit:
  "checkPageSizeLimit tt bytes 1 =
     (if oversized tt bytes then
        Err (Wrap ''single row size exceeds page size limit'' (Sentinel ErrPageSizeExceeded))
      else Ok (\<not> fits tt bytes))"
  by (auto simp: checkPageSizeLimit_def oversized_def fits_def DumpStats_def not_less)

lemma tracker_inv_add:
  assumes "tracker_inv tt"
  shows "tracker_inv (tt\<lparr>heap := counter_Add (rowsCurr tt) 1 (counter_Add (bytesCurr tt) b (heap tt))\<rparr>)"
  using assms by (simp add: tracker_inv_def)

lemma add_stats:
  assumes "tracker_inv tt"
  shows "DumpStats (tt\<lparr>heap := counter_Add (rowsCurr tt) 1 (counter_Add (bytesCurr tt) b (heap tt))\<rparr>) tot =
     \<lparr>st_rows = st_rows (DumpStats tt tot) + 1, st_bytes = st_bytes (DumpStats tt tot) + b\<rparr>"
  using assms by (auto simp: tracker_inv_def DumpStats_def)

lemma pattern_update [simp]:
  "tracker_inv (tt\<lparr>sizePattern := sp\<rparr>) = tracker_inv tt"
  "DumpStats (tt\<lparr>sizePattern := sp\<rparr>) tot = DumpStats tt tot"
  "fits (tt\<lparr>sizePattern := sp\<rparr>) b = fits tt b"
  "oversized (tt\<lparr>sizePattern := sp\<rparr>) b = oversized tt b"
  by (simp_all add: tracker_inv_def DumpStats_def fits_def oversized_def)

lemma pattern_same: "sizePattern tt = sp \<Longrightarrow> tt = tt\<lparr>sizePattern := sp\<rparr>"
  by (cases tt) simp

text \<open>The pattern in force for a row.\<close>

definition next_pattern :: "tracker \<Rightarrow> go_any list \<Rightarrow> size_pattern \<Rightarrow> bool" where
  "next_pattern tt row sp \<longleftrightarrow>
     sizePattern tt = Some sp \<or> sizePattern tt = None \<and> newSizePattern row = Ok sp"

lemma charge_iff: "charge tt row = Ok b \<longleftrightarrow> (\<exists>sp. next_pattern tt row sp \<and> estimate sp row = Ok b)"
  by (cases "sizePattern tt") (auto simp: charge_def next_pattern_def res_simps)

text \<open>What \<^verbatim>\<open>tryAddRow\<close> does, on every branch.\<close>

lemma tryAddRow_charged:
  assumes inv: "tracker_inv tt" and sp: "next_pattern tt row sp" "estimate sp row = Ok b"
  shows "oversized tt b \<Longrightarrow>
      \<exists>e. tryAddRow tt row = (Err e, tt\<lparr>sizePattern := Some sp\<rparr>) \<and> errors_is e ErrPageSizeExceeded"
    and "\<not> oversized tt b \<Longrightarrow> \<not> fits tt b \<Longrightarrow> tryAddRow tt row = (Ok False, tt\<lparr>sizePattern := Some sp\<rparr>)"
    and "\<not> oversized tt b \<Longrightarrow> fits tt b \<Longrightarrow>
       \<exists>tt'. tryAddRow tt row = (Ok True, tt') \<and> tracker_inv tt' \<and> sizePattern tt' = Some sp \<and>
         bytesPerPage tt' = bytesPerPage tt \<and> rowsPerPage tt' = rowsPerPage tt \<and>
         (\<forall>tot. DumpStats tt' tot =
            \<lparr>st_rows = st_rows (DumpStats tt tot) + 1, st_bytes = st_bytes (DumpStats tt tot) + b\<rparr>)"
proof -
  have m: "maybeInit tt row = (Ok (), tt\<lparr>sizePattern := Some sp\<rparr>)"
    using sp(1) pattern_same [of tt "Some sp"] by (auto simp: next_pattern_def maybeInit_def)
  let ?tt = "tt\<lparr>sizePattern := Some sp\<rparr>"
  have "tryAddRow tt row =
     (if oversized tt b then
        (Err (Wrap ''check page size limit'' (Wrap ''single row size exceeds page size limit''
               (Sentinel ErrPageSizeExceeded))), ?tt)
      else if fits tt b then
        (Ok True, ?tt\<lparr>heap := counter_Add (rowsCurr ?tt) 1 (counter_Add (bytesCurr ?tt) b (heap ?tt))\<rparr>)
      else (Ok False, ?tt))"
    using m sp(2) check_limit [of ?tt b] by (simp add: tryAddRow_def)
  then show "oversized tt b \<Longrightarrow>
      \<exists>e. tryAddRow tt row = (Err e, tt\<lparr>sizePattern := Some sp\<rparr>) \<and> errors_is e ErrPageSizeExceeded"
    and "\<not> oversized tt b \<Longrightarrow> \<not> fits tt b \<Longrightarrow> tryAddRow tt row = (Ok False, tt\<lparr>sizePattern := Some sp\<rparr>)"
    and "\<not> oversized tt b \<Longrightarrow> fits tt b \<Longrightarrow>
       \<exists>tt'. tryAddRow tt row = (Ok True, tt') \<and> tracker_inv tt' \<and> sizePattern tt' = Some sp \<and>
         bytesPerPage tt' = bytesPerPage tt \<and> rowsPerPage tt' = rowsPerPage tt \<and>
         (\<forall>tot. DumpStats tt' tot =
            \<lparr>st_rows = st_rows (DumpStats tt tot) + 1, st_bytes = st_bytes (DumpStats tt tot) + b\<rparr>)"
    using tracker_inv_add [of ?tt b] add_stats [of ?tt b] inv by simp_all
qed

lemma tryAddRow_uncharged:
  assumes "\<And>b. charge tt row \<noteq> Ok b"
  shows "(\<exists>e. fst (tryAddRow tt row) = Err e) \<or> (\<exists>m. fst (tryAddRow tt row) = Panic m)"
  using assms
  by (cases "sizePattern tt"; cases "newSizePattern row")
     (auto simp: tryAddRow_def maybeInit_def charge_def res_simps split: res.splits prod.splits)

end
