(* ===== verification/ArrowHelpers.thy ===== *)
theory ArrowHelpers
  imports YdbTypes
begin

text \<open>
  The mapping of YDB types to Arrow (\<^verbatim>\<open>src/common/arrow_helpers.go\<close>): the fields of the schema
  that is written in front of every page and the builders that accumulate its columns. The
  Arrow library is seen through the data type of a builder; \<^verbatim>\<open>array.NewRecord\<close> requires the
  arrays of the builders to have the types of the schema's fields.
\<close>

datatype arrow_type =
    Arrow_Uint8 | Arrow_Int8 | Arrow_Uint16 | Arrow_Int16 | Arrow_Uint32 | Arrow_Int32
  | Arrow_Uint64 | Arrow_Int64 | Arrow_Float32 | Arrow_Float64
  | Arrow_Binary | Arrow_String
  | Arrow_Struct "(string \<times> arrow_type \<times> bool) list"

record arrow_field =
  af_name :: string
  af_type :: arrow_type
  af_nullable :: bool

definition not_supported :: "'a res" where
  "not_supported = Err (Wrap ''register type'' (Sentinel ErrDataTypeNotSupported))"

fun ydbTypeIdToArrowBuilder :: "prim_type \<Rightarrow> arrow_type res" where
  "ydbTypeIdToArrowBuilder Type_BOOL = Ok Arrow_Uint8"
| "ydbTypeIdToArrowBuilder Type_INT8 = Ok Arrow_Int8"
| "ydbTypeIdToArrowBuilder Type_UINT8 = Ok Arrow_Uint8"
| "ydbTypeIdToArrowBuilder Type_INT16 = Ok Arrow_Int16"
| "ydbTypeIdToArrowBuilder Type_UINT16 = Ok Arrow_Uint16"
| "ydbTypeIdToArrowBuilder Type_INT32 = Ok Arrow_Int32"
| "ydbTypeIdToArrowBuilder Type_UINT32 = Ok Arrow_Uint32"
| "ydbTypeIdToArrowBuilder Type_INT64 = Ok Arrow_Int64"
| "ydbTypeIdToArrowBuilder Type_UINT64 = Ok Arrow_Uint64"
| "ydbTypeIdToArrowBuilder Type_FLOAT = Ok Arrow_Float32"
| "ydbTypeIdToArrowBuilder Type_DOUBLE = Ok Arrow_Float64"
| "ydbTypeIdToArrowBuilder Type_STRING = Ok Arrow_Binary"
| "ydbTypeIdToArrowBuilder Type_UTF8 = Ok Arrow_String"
| "ydbTypeIdToArrowBuilder Type_JSON = Ok Arrow_String"
| "ydbTypeIdToArrowBuilder Type_DATE = Ok Arrow_Uint16"
| "ydbTypeIdToArrowBuilder Type_DATETIME = Ok Arrow_Uint32"
| "ydbTypeIdToArrowBuilder Type_TIMESTAMP = Ok Arrow_Uint64"
| "ydbTypeIdToArrowBuilder Type_JSON_DOCUMENT = Ok Arrow_Binary"
| "ydbTypeIdToArrowBuilder _ = not_supported"

definition mk_field :: "string \<Rightarrow> arrow_type \<Rightarrow> arrow_field" where
  "mk_field n t = \<lparr>af_name = n, af_type = t, af_nullable = False\<rparr>"

fun ydbTypeIdToArrowField :: "prim_type \<Rightarrow> string \<Rightarrow> arrow_field res" where
  "ydbTypeIdToArrowField Type_BOOL n = Ok (mk_field n Arrow_Uint8)"
| "ydbTypeIdToArrowField Type_INT8 n = Ok (mk_field n Arrow_Int8)"
| "ydbTypeIdToArrowField Type_UINT8 n = Ok (mk_field n Arrow_Uint8)"
| "ydbTypeIdToArrowField Type_INT16 n = Ok (mk_field n Arrow_Int16)"
| "ydbTypeIdToArrowField Type_UINT16 n = Ok (mk_field n Arrow_Uint16)"
| "ydbTypeIdToArrowField Type_INT32 n = Ok (mk_field n Arrow_Int32)"
| "ydbTypeIdToArrowField Type_UINT32 n = Ok (mk_field n Arrow_Uint32)"
| "ydbTypeIdToArrowField Type_INT64 n = Ok (mk_field n Arrow_Int64)"
| "ydbTypeIdToArrowField Type_UINT64 n = Ok (mk_field n Arrow_Uint64)"
| "ydbTypeIdToArrowField Type_FLOAT n = Ok (mk_field n Arrow_Float32)"
| "ydbTypeIdToArrowField Type_DOUBLE n = Ok (mk_field n Arrow_Float64)"
| "ydbTypeIdToArrowField Type_STRING n = Ok (mk_field n Arrow_Binary)"
| "ydbTypeIdToArrowField Type_UTF8 n = Ok (mk_field n Arrow_String)"
| "ydbTypeIdToArrowField Type_JSON n = Ok (mk_field n Arrow_String)"
| "ydbTypeIdToArrowField Type_DATE n = Ok (mk_field n Arrow_Uint16)"
| "ydbTypeIdToArrowField Type_DATETIME n = Ok (mk_field n Arrow_Uint32)"
| "ydbTypeIdToArrowField Type_TIMESTAMP n = Ok (mk_field n Arrow_Uint64)"
| "ydbTypeIdToArrowField Type_JSON_DOCUMENT n = Ok (mk_field n Arrow_Binary)"
| "ydbTypeIdToArrowField _ n = not_supported"

definition unsupported_shape :: "'a res" where
  "unsupported_shape =
     Err (Wrap ''only primitive, optional, tagged and struct types are supported''
           (Sentinel ErrDataTypeNotSupported))"

text \<open>The members of a struct become nullable fields, in both mappings.\<close>

fun ydbTypeToArrowField :: "ydb_type \<Rightarrow> string \<Rightarrow> arrow_field res"
  and structFields :: "(string \<times> ydb_type) list \<Rightarrow> (string \<times> arrow_type \<times> bool) list res"
where
  "ydbTypeToArrowField (TypeId i) n =
     wrap_res ''primitive YDB type to arrow field'' (ydbTypeIdToArrowField i n)"
| "ydbTypeToArrowField (OptionalType t) n =
     wrap_res ''optional YDB type to arrow field'' (ydbTypeToArrowField t n)"
| "ydbTypeToArrowField (TaggedType tag t) n =
     wrap_res ''tagged YDB type to arrow field'' (ydbTypeToArrowField t n)"
| "ydbTypeToArrowField (StructType ms) n =
     bind_res (structFields ms) (\<lambda>fs.
       Ok \<lparr>af_name = n, af_type = Arrow_Struct fs, af_nullable = True\<rparr>)"
| "ydbTypeToArrowField _ n = unsupported_shape"
| "structFields [] = Ok []"
| "structFields ((n, t) # ms) =
     bind_res (wrap_res ''map YDB type to Arrow field for struct member'' (ydbTypeToArrowField t n)) (\<lambda>f.
     bind_res (structFields ms) (\<lambda>fs. Ok ((af_name f, af_type f, True) # fs)))"

fun ydbTypeToArrowBuilder :: "ydb_type \<Rightarrow> arrow_type res" where
  "ydbTypeToArrowBuilder (TypeId i) =
     wrap_res ''primitive YDB type to Arrow builder'' (ydbTypeIdToArrowBuilder i)"
| "ydbTypeToArrowBuilder (OptionalType t) =
     wrap_res ''optional YDB type to Arrow builder'' (ydbTypeToArrowBuilder t)"
| "ydbTypeToArrowBuilder (TaggedType tag t) =
     wrap_res ''tagged YDB type to Arrow builder'' (ydbTypeToArrowBuilder t)"
| "ydbTypeToArrowBuilder (StructType ms) =
     bind_res (structFields ms) (\<lambda>fs. Ok (Arrow_Struct fs))"
| "ydbTypeToArrowBuilder _ = unsupported_shape"

fun YdbTypesToArrowBuilders :: "ydb_type list \<Rightarrow> arrow_type list res" where
  "YdbTypesToArrowBuilders [] = Ok []"
| "YdbTypesToArrowBuilders (t # ts) =
     bind_res (ydbTypeToArrowBuilder t) (\<lambda>b.
     bind_res (YdbTypesToArrowBuilders ts) (\<lambda>bs. Ok (b # bs)))"

fun SelectWhatToArrowSchema :: "select_what \<Rightarrow> arrow_field list res" where
  "SelectWhatToArrowSchema [] = Ok []"
| "SelectWhatToArrowSchema (None # items) = Err (NewErr ''item is not a column'')"
| "SelectWhatToArrowSchema (Some c # items) =
     bind_res (ydbTypeToArrowField (col_type c) (col_name c)) (\<lambda>f.
     bind_res (SelectWhatToArrowSchema items) (\<lambda>fs. Ok (f # fs)))"

section \<open>Builders and schema agree\<close>

lemma prim_field_builder:
  "ydbTypeIdToArrowField i n = Ok f \<longleftrightarrow>
     (\<exists>b. ydbTypeIdToArrowBuilder i = Ok b \<and> f = mk_field n b)"
  by (cases i) (auto simp: not_supported_def)

lemma field_builder:
  "ydbTypeToArrowField t n = Ok f \<Longrightarrow> ydbTypeToArrowBuilder t = Ok (af_type f) \<and> af_name f = n"
  by (induction t arbitrary: f)
     (auto simp: res_simps prim_field_builder mk_field_def unsupported_shape_def)

lemma builder_field:
  "ydbTypeToArrowBuilder t = Ok b \<Longrightarrow> \<exists>f. ydbTypeToArrowField t n = Ok f"
  by (induction t) (auto simp: res_simps prim_field_builder unsupported_shape_def)

lemma field_outcome_not_panic [simp]:
  "ydbTypeToArrowField t n \<noteq> Panic m" "structFields ms \<noteq> Panic m"
proof (induction t n and ms arbitrary: m and m rule: ydbTypeToArrowField_structFields.induct)
  case (1 i n)
  then show ?case by (cases i) (auto simp: not_supported_def)
qed (auto simp: res_simps unsupported_shape_def)

lemma field_error:
  "ydbTypeToArrowField t n = Err e \<Longrightarrow> errors_is e ErrDataTypeNotSupported"
  "structFields ms = Err e \<Longrightarrow> errors_is e ErrDataTypeNotSupported"
proof (induction t n and ms arbitrary: e and e rule: ydbTypeToArrowField_structFields.induct)
  case (1 i n)
  then show ?case by (cases i) (auto simp: res_simps not_supported_def)
qed (auto simp: res_simps unsupported_shape_def)

lemma builder_error:
  "ydbTypeToArrowBuilder t = Err e \<Longrightarrow> errors_is e ErrDataTypeNotSupported"
  "ydbTypeToArrowBuilder t \<noteq> Panic m"
proof (induction t arbitrary: e m)
  case (TypeId i)
  { case 1 then show ?case by (cases i) (auto simp: res_simps not_supported_def) }
  { case 2 then show ?case by (cases i) (auto simp: res_simps not_supported_def) }
qed (auto simp: res_simps unsupported_shape_def dest: field_error)

text \<open>The schema of a page and its builders agree. For a list of requested columns the
  conversion to an Arrow schema and the conversion to builders either both succeed, with equal
  data types column by column and with the requested names in order, or both report a type that
  is not supported.\<close>

theorem schema_matches_builders:
  assumes "SelectWhatToYDBTypes what = Ok types"
  shows "(\<exists>fields. SelectWhatToArrowSchema what = Ok fields \<and>
            YdbTypesToArrowBuilders types = Ok (map af_type fields) \<and>
            map Some (map af_name fields) = map (map_option col_name) what) \<or>
         (\<exists>e e'. SelectWhatToArrowSchema what = Err e \<and> YdbTypesToArrowBuilders types = Err e' \<and>
            errors_is e ErrDataTypeNotSupported \<and> errors_is e' ErrDataTypeNotSupported)"
  using assms
proof (induction what arbitrary: types rule: SelectWhatToYDBTypes.induct)
  case (3 c items)
  then obtain ts where ts: "SelectWhatToYDBTypes items = Ok ts" "types = col_type c # ts"
    by (auto simp: res_simps)
  show ?case
  proof (cases "ydbTypeToArrowField (col_type c) (col_name c)")
    case (Ok f)
    from 3(1) [OF ts(1)] field_builder [OF Ok] Ok show ?thesis by (auto simp: ts(2))
  next
    case (Err e)
    then have "\<nexists>b. ydbTypeToArrowBuilder (col_type c) = Ok b"
      using builder_field [of "col_type c" _ "col_name c"] by auto
    then obtain e' where "ydbTypeToArrowBuilder (col_type c) = Err e'"
      using builder_error(2) by (metis res.exhaust)
    with Err show ?thesis using field_error(1) [OF Err] builder_error(1) by (auto simp: ts(2))
  qed simp
qed auto

theorem schema_matches_builders_witness:
  "SelectWhatToYDBTypes [Some \<lparr>col_name = ''a'', col_type = OptionalType (TypeId Type_UTF8)\<rparr>] =
     Ok [OptionalType (TypeId Type_UTF8)] \<and>
   YdbTypesToArrowBuilders [OptionalType (TypeId Type_UTF8)] = Ok [Arrow_String] \<and>
   ((\<exists>fields. SelectWhatToArrowSchema [Some \<lparr>col_name = ''a'', col_type = OptionalType (TypeId Type_UTF8)\<rparr>] = Ok fields \<and>
      YdbTypesToArrowBuilders [OptionalType (TypeId Type_UTF8)] = Ok (map af_type fields)))"
  using schema_matches_builders [of "[Some \<lparr>col_name = ''a'', col_type = OptionalType (TypeId Type_UTF8)\<rparr>]"
      "[OptionalType (TypeId Type_UTF8)]"] by auto

end
