(* ===== verification/ColumnarBuffers.thy ===== *)
theory ColumnarBuffers
  imports Sizes ArrowHelpers
begin

text \<open>
  The buffers that turn rows into columns (\<^verbatim>\<open>paging/columnar_buffer_*.go\<close>,
  \<^verbatim>\<open>paging/row_transformer.go\<close>). An Arrow builder is the list of the cells appended to it. An
  appender is what a type mapper supplies for a column: it turns the scanned value into one
  cell, or fails without appending.
\<close>

section \<open>Rows\<close>

record 'c transformer =
  acceptors :: "go_any list"
  appenders :: "(go_any \<Rightarrow> 'c res) list"
  wantedColumnIDs :: "nat list"

text \<open>
  The loop of \<^verbatim>\<open>AppendToArrowBuilders\<close> over the pairs \<open>(i, columnID)\<close>. The columns before a
  failing one keep their new cell.
\<close>

fun append_loop :: "'c transformer \<Rightarrow> nat \<Rightarrow> nat list \<Rightarrow> 'c list list \<Rightarrow> unit res \<times> 'c list list" where
  "append_loop rt i [] builders = (Ok (), builders)"
| "append_loop rt i (columnID # ids) builders =
     (if i < length (appenders rt) \<and> columnID < length (acceptors rt) \<and> i < length builders then
        (case (appenders rt ! i) (acceptors rt ! columnID) of
           Ok c \<Rightarrow> append_loop rt (Suc i) ids (builders[i := builders ! i @ [c]])
         | Err e \<Rightarrow> (Err (Wrap ''append acceptor to arrow builder'' e), builders)
         | Panic m \<Rightarrow> (Panic m, builders))
      else (Panic ''index out of range'', builders))"

definition column_ids :: "'c transformer \<Rightarrow> nat list" where
  "column_ids rt =
     (if wantedColumnIDs rt \<noteq> [] then wantedColumnIDs rt else [0..<length (acceptors rt)])"

definition AppendToArrowBuilders :: "'c transformer \<Rightarrow> 'c list list \<Rightarrow> unit res \<times> 'c list list" where
  "AppendToArrowBuilders rt builders = append_loop rt 0 (column_ids rt) builders"

section \<open>Buffers\<close>

datatype 'c buffer = Columns "'c list list" | RowCount nat

fun buffer_addRow :: "'c transformer \<Rightarrow> 'c buffer \<Rightarrow> unit res \<times> 'c buffer" where
  "buffer_addRow rt (Columns builders) =
     (if length builders \<noteq> length (acceptors rt) then
        (Err (NewErr ''expected another number of values in a row''), Columns builders)
      else
        (case AppendToArrowBuilders rt builders of
           (r, bs) \<Rightarrow> (wrap_res ''append values to arrow builders'' r, Columns bs)))"
| "buffer_addRow rt (RowCount n) =
     (if length (acceptors rt) \<noteq> 1 then (Err (NewErr ''expected 1 value''), RowCount n)
      else (Ok (), RowCount (Suc n)))"

fun TotalRows :: "'c buffer \<Rightarrow> nat" where
  "TotalRows (Columns builders) = length (builders ! 0)"
| "TotalRows (RowCount n) = n"

datatype page_format = ARROW_IPC_STREAMING | FORMAT_OTHER nat

record buffer_factory =
  bf_format :: page_format
  bf_types :: "ydb_type list"

definition MakeBuffer :: "buffer_factory \<Rightarrow> 'c buffer res" where
  "MakeBuffer cbf =
     (if bf_format cbf = ARROW_IPC_STREAMING then
        bind_res (wrap_res ''convert Select.What to arrow.Schema'' (YdbTypesToArrowBuilders (bf_types cbf)))
          (\<lambda>builders.
             if bf_types cbf = [] then Ok (RowCount 0)
             else Ok (Columns (map (\<lambda>b. []) builders)))
      else Err (NewErr ''unknown format''))"

definition NewColumnarBufferFactory :: "page_format \<Rightarrow> select_what \<Rightarrow> buffer_factory res" where
  "NewColumnarBufferFactory format what =
     bind_res (wrap_res ''convert Select.What to Ydb types'' (SelectWhatToYDBTypes what)) (\<lambda>types.
     bind_res (wrap_res ''convert Select.What to Arrow schema'' (SelectWhatToArrowSchema what)) (\<lambda>schema.
       Ok \<lparr>bf_format = format, bf_types = types\<rparr>))"

section \<open>The contract of a buffer\<close>

text \<open>
  What a sink relies on: a buffer holds a list of rows, a successful \<^verbatim>\<open>addRow\<close> appends the cells
  of the row, \<^verbatim>\<open>TotalRows\<close> counts them. \<open>cells rt\<close> are the cells a transformer gives.
\<close>

locale page_buffer =
  fixes fresh :: "'c buffer"
    and cells :: "'c transformer \<Rightarrow> 'c list"
    and holds :: "'c list list \<Rightarrow> 'c buffer \<Rightarrow> bool"
    and well_formed :: "'c transformer \<Rightarrow> bool"
  assumes fresh_holds: "holds [] fresh"
    and add_holds: "holds rows b \<Longrightarrow> well_formed rt \<Longrightarrow> buffer_addRow rt b = (Ok (), b') \<Longrightarrow>
      holds (rows @ [cells rt]) b'"
    and total_holds: "holds rows b \<Longrightarrow> TotalRows b = length rows"
begin

fun fill :: "'c transformer list \<Rightarrow> 'c buffer \<Rightarrow> 'c buffer res" where
  "fill [] b = Ok b"
| "fill (rt # rts) b =
     (case buffer_addRow rt b of
        (Ok _, b') \<Rightarrow> fill rts b'
      | (Err e, b') \<Rightarrow> Err e
      | (Panic m, b') \<Rightarrow> Panic m)"

lemma fill_holds:
  "holds rows b \<Longrightarrow> list_all well_formed rts \<Longrightarrow> fill rts b = Ok b' \<Longrightarrow>
     holds (rows @ map cells rts) b'"
proof (induction rts arbitrary: rows b)
  case (Cons rt rts)
  obtain r c where rc: "buffer_addRow rt b = (r, c)" by fastforce
  with Cons.prems have "r = Ok ()" "fill rts c = Ok b'" by (cases r; simp)+
  with Cons.IH [of "rows @ [cells rt]" c] add_holds [OF Cons.prems(1)] rc Cons.prems(2)
  show ?case by simp
qed simp

end

text \<open>The cells of the default buffer: the appender of each column on the value it wants.\<close>

fun res_value :: "'a res \<Rightarrow> 'a list" where
  "res_value (Ok x) = [x]"
| "res_value _ = []"

fun loop_cells :: "'c transformer \<Rightarrow> nat \<Rightarrow> nat list \<Rightarrow> 'c list" where
  "loop_cells rt i [] = []"
| "loop_cells rt i (columnID # ids) =
     res_value ((appenders rt ! i) (acceptors rt ! columnID)) @ loop_cells rt (Suc i) ids"

definition row_cells :: "'c transformer \<Rightarrow> 'c list" where
  "row_cells rt = loop_cells rt 0 (column_ids rt)"

text \<open>\<open>n\<close> columns hold the rows: all have their length, and column \<open>i\<close> has the \<open>i\<close>-th cells.\<close>

definition columns_hold :: "nat \<Rightarrow> 'c list list \<Rightarrow> 'c list list \<Rightarrow> bool" where
  "columns_hold n rows bs \<longleftrightarrow>
     length bs = n \<and> list_all (\<lambda>r. length r = n) rows \<and>
     (\<forall>i < n. bs ! i = map (\<lambda>r. r ! i) rows)"

lemma append_loop_Ok:
  assumes "append_loop rt i ids bs = (Ok (), bs')"
  shows "length (loop_cells rt i ids) = length ids \<and> length bs' = length bs \<and>
         i + length ids \<le> max i (length bs) \<and>
         (\<forall>j < length bs. bs' ! j =
            bs ! j @ (if i \<le> j \<and> j < i + length ids then [loop_cells rt i ids ! (j - i)] else []))"
  using assms
proof (induction rt i ids bs rule: append_loop.induct)
  case (2 rt i columnID ids builders)
  then have ok: "i < length (appenders rt)" "columnID < length (acceptors rt)" "i < length builders"
    by (auto split: if_splits)
  with 2(2) obtain c where c: "(appenders rt ! i) (acceptors rt ! columnID) = Ok c"
    by (auto split: res.splits)
  let ?bs = "builders[i := builders ! i @ [c]]"
  have "append_loop rt (Suc i) ids ?bs = (Ok (), bs')" using 2(2) ok c by simp
  with 2(1) ok c have ih: "length (loop_cells rt (Suc i) ids) = length ids" "length bs' = length builders"
    "Suc i + length ids \<le> max (Suc i) (length builders)"
    "\<forall>j < length builders. bs' ! j = ?bs ! j @
       (if Suc i \<le> j \<and> j < Suc i + length ids then [loop_cells rt (Suc i) ids ! (j - Suc i)] else [])"
    by auto
  have "bs' ! j = builders ! j @ (if i \<le> j \<and> j < i + length (columnID # ids)
      then [loop_cells rt i (columnID # ids) ! (j - i)] else [])" if "j < length builders" for j
    using ih(4) that c ok(3) by (cases "j = i") (auto simp: nth_list_update nth_Cons')
  with ih(1-3) c ok(3) show ?case by simp
qed simp

lemma columns_add:
  assumes "columns_hold n rows bs" and "length (column_ids rt) = n"
    and "AppendToArrowBuilders rt bs = (Ok (), bs')"
  shows "columns_hold n (rows @ [row_cells rt]) bs'"
  using append_loop_Ok [OF assms(3) [unfolded AppendToArrowBuilders_def]] assms(1,2)
  by (auto simp: columns_hold_def row_cells_def)

definition default_holds :: "nat \<Rightarrow> 'c list list \<Rightarrow> 'c buffer \<Rightarrow> bool" where
  "default_holds n rows b \<longleftrightarrow> (\<exists>bs. b = Columns bs \<and> columns_hold n rows bs)"

definition empty_holds :: "'c list list \<Rightarrow> 'c buffer \<Rightarrow> bool" where
  "empty_holds rows b \<longleftrightarrow> b = RowCount (length rows) \<and> list_all (\<lambda>r. r = []) rows"

interpretation default_buffer: page_buffer
  "Columns (replicate (Suc m) [])" row_cells "default_holds (Suc m)"
  "\<lambda>rt. length (column_ids rt) = Suc m"
  for m :: nat
proof unfold_locales
  fix rows :: "'c list list" and b b' and rt :: "'c transformer"
  assume h: "default_holds (Suc m) rows b" "length (column_ids rt) = Suc m" "buffer_addRow rt b = (Ok (), b')"
  then obtain bs bs' where "b = Columns bs" "columns_hold (Suc m) rows bs" "b' = Columns bs'"
    "AppendToArrowBuilders rt bs = (Ok (), bs')"
    by (auto simp: default_holds_def split: if_splits prod.splits)
  with columns_add [OF this(2) h(2) this(4)] show "default_holds (Suc m) (rows @ [row_cells rt]) b'"
    by (simp add: default_holds_def)
qed (auto simp: default_holds_def columns_hold_def nth_Cons')

interpretation empty_buffer: page_buffer "RowCount 0" "\<lambda>rt. []" empty_holds "\<lambda>rt. True"
  by unfold_locales (auto simp: empty_holds_def split: if_splits)

text \<open>A factory whose types are supported makes a fresh buffer of one of the two kinds.\<close>

lemma MakeBuffer_kinds:
  assumes "MakeBuffer cbf = Ok b"
  shows "b = (if bf_types cbf = [] then RowCount 0 else Columns (replicate (length (bf_types cbf)) []))"
proof -
  have len: "YdbTypesToArrowBuilders ts = Ok bs \<Longrightarrow> length bs = length ts" for ts bs
    by (induction ts arbitrary: bs) (auto simp: res_simps)
  show ?thesis
    using assms
    by (auto simp: MakeBuffer_def res_simps map_replicate_const dest: len split: if_splits)
qed

lemma NewColumnarBufferFactory_makes:
  assumes "NewColumnarBufferFactory ARROW_IPC_STREAMING what = Ok cbf"
  shows "\<exists>b. MakeBuffer cbf = Ok b"
proof -
  obtain types schema where *: "SelectWhatToYDBTypes what = Ok types" "SelectWhatToArrowSchema what = Ok schema"
    "cbf = \<lparr>bf_format = ARROW_IPC_STREAMING, bf_types = types\<rparr>"
    using assms by (auto simp: NewColumnarBufferFactory_def res_simps)
  have "SelectWhatToYDBTypes w = Ok ts \<Longrightarrow> SelectWhatToArrowSchema w = Ok sch \<Longrightarrow>
      \<exists>bs. YdbTypesToArrowBuilders ts = Ok bs" for w ts sch
    by (induction w arbitrary: ts sch rule: SelectWhatToYDBTypes.induct)
       (fastforce simp: res_simps dest: field_builder)+
  from this [OF *(1,2)] * show ?thesis
    by (auto simp: MakeBuffer_def)
qed

end
