(* ===== verification/Sinks.thy ===== *)
theory Sinks
  imports Traffic ColumnarBuffers
begin

text \<open>
  The sink of one data source connection (\<^verbatim>\<open>paging/sink.go\<close>). A send on the result queue or on
  the termination channel competes with the cancellation of the client's context; the flags
  \<open>delivered\<close> and \<open>notified\<close> say which branch the select took. The read limiter is shared by
  the sinks of a request and passed to every call. The queue is what was sent so far.
\<close>

section \<open>Operations\<close>

datatype sink_state = sinkOperational | sinkFailed | sinkFinished

record 'c read_result =
  rr_buffer :: "'c buffer option"
  rr_stats :: "traffic_stats option"
  rr_error :: "go_error option"
  rr_terminal :: bool

record 'c sink =
  currBuffer :: "'c buffer option"
  resultQueue :: "'c read_result list"
  terminateChan :: nat
  bufferFactory :: buffer_factory
  trafficTracker :: tracker
  sinkState :: sink_state

definition respondWith ::
  "bool \<Rightarrow> 'c buffer option \<Rightarrow> traffic_stats option \<Rightarrow> go_error option \<Rightarrow> bool \<Rightarrow> 'c sink \<Rightarrow> 'c sink" where
  "respondWith delivered buf stats err isTerminalMessage s =
     (if delivered then
        s\<lparr>resultQueue := resultQueue s @
           [\<lparr>rr_buffer = buf, rr_stats = stats, rr_error = err, rr_terminal = isTerminalMessage\<rparr>]\<rparr>
      else s)"

definition flush :: "bool \<Rightarrow> bool \<Rightarrow> bool \<Rightarrow> 'c sink \<Rightarrow> unit res \<times> 'c sink" where
  "flush delivered makeNewBuffer isTerminalMessage s =
     (case currBuffer s of
        None \<Rightarrow> (Panic ''nil pointer dereference'', s)
      | Some buf \<Rightarrow>
          if TotalRows buf = 0 then (Ok (), s)
          else
            (let stats = DumpStats (trafficTracker s) False;
                 s = respondWith delivered (currBuffer s) (Some stats) None isTerminalMessage s;
                 s = s\<lparr>currBuffer := None, trafficTracker := refreshCounters (trafficTracker s)\<rparr>
             in if makeNewBuffer then
                  (case MakeBuffer (bufferFactory s) of
                     Ok b \<Rightarrow> (Ok (), s\<lparr>currBuffer := Some b\<rparr>)
                   | Err e \<Rightarrow> (Err (Wrap ''make buffer'' e), s)
                   | Panic m \<Rightarrow> (Panic m, s))
                else (Ok (), s)))"

text \<open>The two calls of the tracker inside \<^verbatim>\<open>AddRow\<close>, and the flush between them.\<close>

definition sink_tryAddRow :: "go_any list \<Rightarrow> 'c sink \<Rightarrow> bool res \<times> 'c sink" where
  "sink_tryAddRow row s =
     (case tryAddRow (trafficTracker s) row of (r, tt) \<Rightarrow>
        (wrap_res ''add row to traffic tracker'' r, s\<lparr>trafficTracker := tt\<rparr>))"

definition make_room :: "bool \<Rightarrow> go_any list \<Rightarrow> 'c sink \<Rightarrow> unit res \<times> 'c sink" where
  "make_room delivered row s =
     (case sink_tryAddRow row s of
        (Err e, s) \<Rightarrow> (Err e, s)
      | (Panic m, s) \<Rightarrow> (Panic m, s)
      | (Ok True, s) \<Rightarrow> (Ok (), s)
      | (Ok False, s) \<Rightarrow>
          (case flush delivered True False s of
             (Err e, s) \<Rightarrow> (Err (Wrap ''flush'' e), s)
           | (Panic m, s) \<Rightarrow> (Panic m, s)
           | (Ok _, s) \<Rightarrow>
               (case sink_tryAddRow row s of
                  (Err e, s) \<Rightarrow> (Err e, s)
                | (Panic m, s) \<Rightarrow> (Panic m, s)
                | (Ok _, s) \<Rightarrow> (Ok (), s))))"

definition AddRow ::
  "bool \<Rightarrow> 'c transformer \<Rightarrow> read_limiter \<Rightarrow> 'c sink \<Rightarrow> unit res \<times> read_limiter \<times> 'c sink" where
  "AddRow delivered rt rl s =
     (if sinkState s \<noteq> sinkOperational then (Panic ''unexpected state'', rl, s)
      else
        (case limiter_addRow rl of
           (Err e, rl) \<Rightarrow> (Err (Wrap ''add row to read limiter'' e), rl, s)
         | (Panic m, rl) \<Rightarrow> (Panic m, rl, s)
         | (Ok _, rl) \<Rightarrow>
             (case make_room delivered (acceptors rt) s of
                (Err e, s) \<Rightarrow> (Err e, rl, s)
              | (Panic m, s) \<Rightarrow> (Panic m, rl, s)
              | (Ok _, s) \<Rightarrow>
                  (case currBuffer s of
                     None \<Rightarrow> (Panic ''nil pointer dereference'', rl, s)
                   | Some b \<Rightarrow>
                       (case buffer_addRow rt b of
                          (r, b) \<Rightarrow> (wrap_res ''add row to buffer'' r, rl, s\<lparr>currBuffer := Some b\<rparr>))))))"

definition Finish :: "bool \<Rightarrow> bool \<Rightarrow> 'c sink \<Rightarrow> unit res \<times> 'c sink" where
  "Finish delivered notified s =
     (if sinkState s = sinkFinished then (Panic ''unexpected state'', s)
      else
        (case (if sinkState s = sinkOperational then
                 (case flush delivered False True s of
                    (Ok _, s) \<Rightarrow> (Ok (), s\<lparr>sinkState := sinkFinished\<rparr>)
                  | (Err e, s) \<Rightarrow>
                      (Ok (), (respondWith delivered None None (Some (Wrap ''flush'' e)) True s)
                                \<lparr>sinkState := sinkFailed\<rparr>)
                  | (Panic m, s) \<Rightarrow> (Panic m, s))
               else (Ok (), s)) of
           (Ok _, s) \<Rightarrow> (Ok (), s\<lparr>terminateChan := terminateChan s + (if notified then 1 else 0)\<rparr>)
         | r \<Rightarrow> r))"

text \<open>A sink as \<^verbatim>\<open>MakeSinks\<close> creates it, and the loop that reads a connection into it.\<close>

definition new_sink :: "buffer_factory \<Rightarrow> u64 \<Rightarrow> u64 \<Rightarrow> 'c buffer \<Rightarrow> 'c sink" where
  "new_sink fac bytes_per_page rows_per_page buf =
     \<lparr>currBuffer = Some buf, resultQueue = [], terminateChan = 0, bufferFactory = fac,
      trafficTracker = newTrafficTracker bytes_per_page rows_per_page, sinkState = sinkOperational\<rparr>"

fun add_rows ::
  "'c transformer list \<Rightarrow> read_limiter \<Rightarrow> 'c sink \<Rightarrow> unit res \<times> read_limiter \<times> 'c sink" where
  "add_rows [] rl s = (Ok (), rl, s)"
| "add_rows (rt # rts) rl s =
     (case AddRow True rt rl s of
        (Ok _, rl, s) \<Rightarrow> add_rows rts rl s
      | r \<Rightarrow> r)"

section \<open>Arithmetic of pages\<close>

text \<open>A row of a page: its cells and the size charged for it.\<close>

type_synonym 'c charged_row = "'c list \<times> u64"

definition stats_of :: "'c charged_row list \<Rightarrow> traffic_stats" where
  "stats_of rows = \<lparr>st_rows = of_nat (length rows), st_bytes = sum_list (map snd rows)\<rparr>"

definition page_bytes :: "'c charged_row list \<Rightarrow> nat" where
  "page_bytes rows = sum_list (map (\<lambda>r. unat (snd r)) rows)"

definition within :: "u64 \<Rightarrow> u64 \<Rightarrow> 'c charged_row list \<Rightarrow> bool" where
  "within bpp rpp rows \<longleftrightarrow>
     (bpp \<noteq> 0 \<longrightarrow> page_bytes rows \<le> unat bpp) \<and> (rpp \<noteq> 0 \<longrightarrow> length rows \<le> unat rpp)"

text \<open>Limits for which no sum of a page wraps around.\<close>

definition sane_limits :: "u64 \<Rightarrow> u64 \<Rightarrow> bool" where
  "sane_limits bpp rpp \<longleftrightarrow> unat bpp < 2 ^ 63 \<and> unat rpp < 2 ^ 63"

lemma stats_of_snoc:
  "stats_of (rows @ [(c, b)]) =
     \<lparr>st_rows = st_rows (stats_of rows) + 1, st_bytes = st_bytes (stats_of rows) + b\<rparr>"
  by (simp add: stats_of_def add.commute)

lemma stats_of_Nil [simp]: "stats_of [] = \<lparr>st_rows = 0, st_bytes = 0\<rparr>"
  by (simp add: stats_of_def)

lemma unat_page_bytes: "page_bytes rows < 2 ^ 64 \<Longrightarrow> unat (st_bytes (stats_of rows)) = page_bytes rows"
proof (induction rows)
  case (Cons r rows)
  then have "unat (st_bytes (stats_of rows)) = page_bytes rows" by (simp add: page_bytes_def)
  with Cons.prems show ?case
    by (simp add: stats_of_def page_bytes_def unat_word_ariths)
qed (simp add: page_bytes_def)

lemma within_snoc:
  assumes "within bpp rpp rows" and "sane_limits bpp rpp"
    and "bpp = 0 \<or> b \<le> bpp"
    and "bpp = 0 \<or> st_bytes (stats_of rows) + b \<le> bpp"
    and "rpp = 0 \<or> st_rows (stats_of rows) + 1 \<le> rpp"
  shows "within bpp rpp (rows @ [(c, b)])"
proof -
  have "page_bytes (rows @ [(c, b)]) \<le> unat bpp" if "bpp \<noteq> 0"
  proof -
    have le: "page_bytes rows \<le> unat bpp" "unat b \<le> unat bpp" "unat bpp < 2 ^ 63"
      using assms that by (auto simp: within_def sane_limits_def word_le_nat_alt)
    then have "unat (st_bytes (stats_of rows)) = page_bytes rows" by (intro unat_page_bytes) simp
    moreover have "unat (st_bytes (stats_of rows) + b) \<le> unat bpp"
      using assms(4) that by (simp add: word_le_nat_alt)
    ultimately show ?thesis
      using le by (simp add: unat_word_ariths page_bytes_def)
  qed
  moreover have "length (rows @ [(c, b)]) \<le> unat rpp" if "rpp \<noteq> 0"
  proof -
    have le: "length rows \<le> unat rpp" "unat rpp < 2 ^ 63"
      using assms that by (auto simp: within_def sane_limits_def)
    have "unat (st_rows (stats_of rows) + 1) \<le> unat rpp"
      using assms(5) that by (simp add: word_le_nat_alt)
    then show ?thesis
      using le by (simp add: unat_word_ariths stats_of_def unat_of_nat)
  qed
  ultimately show ?thesis by (simp add: within_def)
qed

section \<open>What a sink has sent and what it keeps\<close>

context page_buffer
begin

definition same_limits :: "tracker \<Rightarrow> tracker \<Rightarrow> bool" where
  "same_limits tt tt' \<longleftrightarrow> bytesPerPage tt = bytesPerPage tt' \<and> rowsPerPage tt = rowsPerPage tt'"

text \<open>A message that carries a page: its rows, its exact statistics, no error.\<close>

definition carries :: "bool \<Rightarrow> 'c charged_row list \<Rightarrow> 'c read_result \<Rightarrow> bool" where
  "carries terminal page m \<longleftrightarrow>
     (\<exists>b. m = \<lparr>rr_buffer = Some b, rr_stats = Some (stats_of page), rr_error = None, rr_terminal = terminal\<rparr> \<and>
          holds (map fst page) b)"

definition sink_rel :: "'c sink \<Rightarrow> 'c charged_row list list \<Rightarrow> 'c charged_row list \<Rightarrow> bool" where
  "sink_rel s sent cur \<longleftrightarrow>
     sinkState s = sinkOperational \<and> MakeBuffer (bufferFactory s) = Ok fresh \<and>
     tracker_inv (trafficTracker s) \<and>
     sane_limits (bytesPerPage (trafficTracker s)) (rowsPerPage (trafficTracker s)) \<and>
     (\<exists>b. currBuffer s = Some b \<and> holds (map fst cur) b) \<and>
     list_all2 (carries False) sent (resultQueue s) \<and>
     DumpStats (trafficTracker s) False = stats_of cur \<and>
     DumpStats (trafficTracker s) True = stats_of (concat sent @ cur) \<and>
     list_all (\<lambda>p. p \<noteq> [] \<and> within (bytesPerPage (trafficTracker s)) (rowsPerPage (trafficTracker s)) p) sent \<and>
     within (bytesPerPage (trafficTracker s)) (rowsPerPage (trafficTracker s)) cur"

lemma new_sink_rel:
  assumes "MakeBuffer fac = Ok fresh" and "sane_limits bpp rpp"
  shows "sink_rel (new_sink fac bpp rpp fresh) [] []"
  using assms fresh_holds by (simp add: sink_rel_def new_sink_def within_def page_bytes_def)

text \<open>The tracker accepts a row: the current page grows by its size.\<close>

lemma sink_rel_charge:
  assumes rel: "sink_rel s sent cur"
    and tt: "tracker_inv tt'" "bytesPerPage tt' = bytesPerPage (trafficTracker s)"
      "rowsPerPage tt' = rowsPerPage (trafficTracker s)"
      "\<And>tot. DumpStats tt' tot = \<lparr>st_rows = st_rows (DumpStats (trafficTracker s) tot) + 1,
               st_bytes = st_bytes (DumpStats (trafficTracker s) tot) + b\<rparr>"
    and fit: "\<not> oversized (trafficTracker s) b" "fits (trafficTracker s) b"
    and buf: "holds (map fst cur @ [c]) buf"
  shows "sink_rel (s\<lparr>trafficTracker := tt', currBuffer := Some buf\<rparr>) sent (cur @ [(c, b)])"
proof -
  let ?tt = "trafficTracker s"
  have "within (bytesPerPage ?tt) (rowsPerPage ?tt) (cur @ [(c, b)])"
    using rel fit by (intro within_snoc) (auto simp: sink_rel_def fits_def oversized_def)
  moreover have "stats_of ((concat sent @ cur) @ [(c, b)]) = DumpStats tt' True"
    using rel tt(4) [of True] by (simp add: stats_of_snoc sink_rel_def del: append_assoc)
  moreover have "stats_of (cur @ [(c, b)]) = DumpStats tt' False"
    using rel tt(4) [of False] by (simp add: stats_of_snoc sink_rel_def)
  ultimately show ?thesis using rel tt buf by (simp add: sink_rel_def)
qed

lemma fits_fresh_page:
  assumes "\<not> oversized tt b" and "DumpStats tt False = \<lparr>st_rows = 0, st_bytes = 0\<rparr>"
  shows "fits tt b"
proof -
  have "rowsPerPage tt = 0 \<or> 1 \<le> rowsPerPage tt"
    by (auto simp: word_le_nat_alt Suc_le_eq unat_gt_0)
  with assms show ?thesis by (auto simp: fits_def oversized_def not_less)
qed

lemma flush_page:
  assumes rel: "sink_rel s sent cur" and "cur \<noteq> []"
  shows "\<exists>s'. flush True True False s = (Ok (), s') \<and> sink_rel s' (sent @ [cur]) [] \<and>
     trafficTracker s' = refreshCounters (trafficTracker s)"
proof -
  obtain b where b: "currBuffer s = Some b" "holds (map fst cur) b" using rel by (auto simp: sink_rel_def)
  have "TotalRows b \<noteq> 0" using total_holds [OF b(2)] assms(2) by simp
  with b rel have "flush True True False s =
      (Ok (), s\<lparr>resultQueue := resultQueue s @ [\<lparr>rr_buffer = Some b, rr_stats = Some (stats_of cur),
          rr_error = None, rr_terminal = False\<rparr>],
        currBuffer := Some fresh, trafficTracker := refreshCounters (trafficTracker s)\<rparr>)" (is "_ = (Ok (), ?s)")
    by (simp add: flush_def respondWith_def Let_def sink_rel_def)
  moreover have "sink_rel ?s (sent @ [cur]) []"
    using rel assms(2) b fresh_holds refresh_stats [of "trafficTracker s"] tracker_inv_refresh
    by (auto simp: sink_rel_def carries_def list_all2_appendI within_def page_bytes_def)
  ultimately show ?thesis by auto
qed

text \<open>A row that fits the current page.\<close>

lemma room_without_flush:
  assumes rel: "sink_rel s sent cur" and sp: "next_pattern (trafficTracker s) row sp" "estimate sp row = Ok b"
    and fit: "\<not> oversized (trafficTracker s) b" "fits (trafficTracker s) b"
  shows "\<exists>tt'. sink_tryAddRow row s = (Ok True, s\<lparr>trafficTracker := tt'\<rparr>) \<and> sizePattern tt' = Some sp \<and>
     same_limits tt' (trafficTracker s) \<and>
     (\<forall>c buf. holds (map fst cur @ [c]) buf \<longrightarrow>
        sink_rel (s\<lparr>trafficTracker := tt', currBuffer := Some buf\<rparr>) sent (cur @ [(c, b)]))"
proof -
  have "tracker_inv (trafficTracker s)" using rel by (simp add: sink_rel_def)
  from tryAddRow_charged(3) [OF this sp fit] obtain tt' where
    "tryAddRow (trafficTracker s) row = (Ok True, tt')" "tracker_inv tt'" "sizePattern tt' = Some sp"
    "bytesPerPage tt' = bytesPerPage (trafficTracker s)" "rowsPerPage tt' = rowsPerPage (trafficTracker s)"
    "\<And>tot. DumpStats tt' tot = \<lparr>st_rows = st_rows (DumpStats (trafficTracker s) tot) + 1,
        st_bytes = st_bytes (DumpStats (trafficTracker s) tot) + b\<rparr>"
    by blast
  with sink_rel_charge [OF rel _ _ _ _ fit] show ?thesis
    by (intro exI [of _ tt']) (simp add: sink_tryAddRow_def same_limits_def)
qed

lemma sink_rel_pattern: "sink_rel s sent cur \<Longrightarrow>
  sink_rel (s\<lparr>trafficTracker := (trafficTracker s)\<lparr>sizePattern := sp\<rparr>\<rparr>) sent cur"
  by (simp add: sink_rel_def)

text \<open>A row that does not fit: the page is sent, and the row fits the next page.\<close>

lemma room_after_flush:
  assumes rel: "sink_rel s sent cur" and sp: "next_pattern (trafficTracker s) row sp" "estimate sp row = Ok b"
    and "\<not> oversized (trafficTracker s) b" "\<not> fits (trafficTracker s) b"
  shows "\<exists>s' tt'. make_room True row s = (Ok (), s'\<lparr>trafficTracker := tt'\<rparr>) \<and> currBuffer s' = Some fresh \<and>
     sizePattern tt' = Some sp \<and> same_limits tt' (trafficTracker s) \<and>
     (\<forall>c buf. holds [c] buf \<longrightarrow>
        sink_rel (s'\<lparr>trafficTracker := tt', currBuffer := Some buf\<rparr>) (sent @ [cur]) [(c, b)])"
proof -
  let ?tt = "trafficTracker s"
  have inv: "tracker_inv ?tt" using rel by (simp add: sink_rel_def)
  note first = tryAddRow_charged(2) [OF inv sp assms(4,5)]
  let ?s = "s\<lparr>trafficTracker := ?tt\<lparr>sizePattern := Some sp\<rparr>\<rparr>"
  have "cur \<noteq> []" using fits_fresh_page [OF assms(4)] assms(5) rel by (auto simp: sink_rel_def)
  with flush_page [OF sink_rel_pattern [OF rel]] obtain s1 where
    s1: "flush True True False ?s = (Ok (), s1)" "sink_rel s1 (sent @ [cur]) []"
      "trafficTracker s1 = refreshCounters (?tt\<lparr>sizePattern := Some sp\<rparr>)" by fastforce
  have z: "DumpStats (trafficTracker s1) False = \<lparr>st_rows = 0, st_bytes = 0\<rparr>"
    using s1(2) by (simp add: sink_rel_def)
  have sp1: "next_pattern (trafficTracker s1) row sp" using s1(3) by (simp add: next_pattern_def)
  have ov: "\<not> oversized (trafficTracker s1) b" using assms(4) s1(3) by (simp add: oversized_def)
  obtain tt' where tt': "sink_tryAddRow row s1 = (Ok True, s1\<lparr>trafficTracker := tt'\<rparr>)"
    "sizePattern tt' = Some sp" "same_limits tt' (trafficTracker s1)"
    "\<And>c buf. holds [c] buf \<Longrightarrow>
        sink_rel (s1\<lparr>trafficTracker := tt', currBuffer := Some buf\<rparr>) (sent @ [cur]) [(c, b)]"
    using room_without_flush [OF s1(2) sp1 sp(2) ov fits_fresh_page [OF ov z]] by auto
  have "make_room True row s = (Ok (), s1\<lparr>trafficTracker := tt'\<rparr>)"
    using first s1(1) tt'(1) by (simp add: make_room_def sink_tryAddRow_def)
  moreover have "currBuffer s1 = Some fresh"
    using s1(1) rel \<open>cur \<noteq> []\<close> total_holds
    by (auto simp: flush_def Let_def respondWith_def sink_rel_def split: if_splits)
  moreover have "same_limits tt' (trafficTracker s)" using tt'(3) s1(3) by (simp add: same_limits_def)
  ultimately show ?thesis using tt'(2,4) by blast
qed

lemma AddRow_rel:
  assumes rel: "sink_rel s sent cur" and wf: "well_formed rt"
    and ok: "AddRow True rt rl s = (Ok (), rl', s')"
  shows "\<exists>sp b sent' cur'. next_pattern (trafficTracker s) (acceptors rt) sp \<and>
           estimate sp (acceptors rt) = Ok b \<and> sizePattern (trafficTracker s') = Some sp \<and>
           same_limits (trafficTracker s') (trafficTracker s) \<and>
           sink_rel s' sent' cur' \<and> cur' \<noteq> [] \<and> concat sent' @ cur' = (concat sent @ cur) @ [(cells rt, b)]"
proof -
  let ?tt = "trafficTracker s" and ?row = "acceptors rt"
  have op: "sinkState s = sinkOperational" and inv: "tracker_inv ?tt"
    using rel by (auto simp: sink_rel_def)
  obtain s1 buf buf' where s1: "make_room True ?row s = (Ok (), s1)" "currBuffer s1 = Some buf"
    "buffer_addRow rt buf = (Ok (), buf')" "s' = s1\<lparr>currBuffer := Some buf'\<rparr>"
    using ok op by (auto simp: AddRow_def split: prod.splits res.splits option.splits)
  have "\<exists>b. charge ?tt ?row = Ok b"
  proof (rule ccontr)
    assume "\<nexists>b. charge ?tt ?row = Ok b"
    with tryAddRow_uncharged [of ?tt ?row] s1(1) show False
      by (auto simp: make_room_def sink_tryAddRow_def split: prod.splits)
  qed
  then obtain b sp where sp: "next_pattern ?tt ?row sp" "estimate sp ?row = Ok b" by (auto simp: charge_iff)
  have ov: "\<not> oversized ?tt b"
    using tryAddRow_charged(1) [OF inv sp] s1(1) by (auto simp: make_room_def sink_tryAddRow_def)
  show ?thesis
  proof (cases "fits ?tt b")
    case True
    from room_without_flush [OF rel sp ov True] obtain tt' where
      tt': "sink_tryAddRow ?row s = (Ok True, s\<lparr>trafficTracker := tt'\<rparr>)" "sizePattern tt' = Some sp"
      "same_limits tt' ?tt" "\<And>c buf. holds (map fst cur @ [c]) buf \<Longrightarrow>
        sink_rel (s\<lparr>trafficTracker := tt', currBuffer := Some buf\<rparr>) sent (cur @ [(c, b)])" by blast
    then have s1': "s1 = s\<lparr>trafficTracker := tt'\<rparr>" using s1(1) by (simp add: make_room_def)
    then have "holds (map fst cur @ [cells rt]) buf'"
      using add_holds [OF _ wf s1(3)] rel s1(2) by (auto simp: sink_rel_def)
    from tt'(4) [OF this] show ?thesis
      using sp tt'(2,3) s1(4) s1'
      by (intro exI [of _ sp] exI [of _ b] exI [of _ sent] exI [of _ "cur @ [(cells rt, b)]"]) simp
  next
    case False
    from room_after_flush [OF rel sp ov False] obtain s2 tt' where
      s2: "make_room True ?row s = (Ok (), s2\<lparr>trafficTracker := tt'\<rparr>)" "currBuffer s2 = Some fresh"
      "sizePattern tt' = Some sp" "same_limits tt' ?tt"
      "\<And>c buf. holds [c] buf \<Longrightarrow>
        sink_rel (s2\<lparr>trafficTracker := tt', currBuffer := Some buf\<rparr>) (sent @ [cur]) [(c, b)]" by blast
    then have s1': "s1 = s2\<lparr>trafficTracker := tt'\<rparr>" "buf = fresh" using s1(1,2) by auto
    then have "holds [cells rt] buf'"
      using add_holds [OF fresh_holds wf] s1(3) by fastforce
    from s2(5) [OF this] show ?thesis
      using sp s2(3,4) s1(4) s1'
      by (intro exI [of _ sp] exI [of _ b] exI [of _ "sent @ [cur]"] exI [of _ "[(cells rt, b)]"]) simp
  qed
qed

lemma add_rows_rel:
  assumes "sink_rel s sent cur" and "add_rows rts rl s = (Ok (), rl', s')"
    and "\<And>rt. rt \<in> set rts \<Longrightarrow> well_formed rt \<and> map go_type (acceptors rt) = T \<and>
           row_size (acceptors rt) = Ok (price rt)"
    and "\<And>sp. sizePattern (trafficTracker s) = Some sp \<Longrightarrow>
           \<exists>first. newSizePattern first = Ok sp \<and> map go_type first = T"
    and "cur = [] \<Longrightarrow> sent = []"
  shows "\<exists>sent' cur'. sink_rel s' sent' cur' \<and> (cur' = [] \<longrightarrow> sent' = []) \<and>
           concat sent' @ cur' = (concat sent @ cur) @ map (\<lambda>rt. (cells rt, price rt)) rts \<and>
           same_limits (trafficTracker s') (trafficTracker s)"
  using assms
proof (induction rts arbitrary: rl s sent cur)
  case Nil
  then show ?case by (auto simp: same_limits_def)
next
  case (Cons rt rts)
  let ?row = "acceptors rt"
  have rt: "well_formed rt" "map go_type ?row = T" "row_size ?row = Ok (price rt)"
    using Cons.prems(3) by auto
  obtain rl1 s1 where s1: "AddRow True rt rl s = (Ok (), rl1, s1)" "add_rows rts rl1 s1 = (Ok (), rl', s')"
    using Cons.prems(2) by (auto split: prod.splits res.splits)
  from AddRow_rel [OF Cons.prems(1) rt(1) s1(1)] obtain sp b sent1 cur1 where
    a: "next_pattern (trafficTracker s) ?row sp" "estimate sp ?row = Ok b"
      "sizePattern (trafficTracker s1) = Some sp" "same_limits (trafficTracker s1) (trafficTracker s)"
      "sink_rel s1 sent1 cur1" "cur1 \<noteq> []" "concat sent1 @ cur1 = (concat sent @ cur) @ [(cells rt, b)]"
    by blast
  obtain first where first: "newSizePattern first = Ok sp" "map go_type first = T"
    using a(1) Cons.prems(4) rt(2) by (auto simp: next_pattern_def)
  then have "b = price rt" using estimate_row_size [OF first(1) _ rt(3)] a(2) rt(2) by simp
  moreover obtain sent2 cur2 where "sink_rel s' sent2 cur2" "cur2 = [] \<longrightarrow> sent2 = []"
    "concat sent2 @ cur2 = (concat sent1 @ cur1) @ map (\<lambda>rt. (cells rt, price rt)) rts"
    "same_limits (trafficTracker s') (trafficTracker s1)"
    using Cons.IH [OF a(5) s1(2)] Cons.prems(3) first a(3,6) by auto
  ultimately show ?case
    using a(4,7) by (intro exI [of _ sent2] exI [of _ cur2]) (simp add: same_limits_def)
qed

lemma Finish_rel:
  assumes rel: "sink_rel s sent cur"
  shows "\<exists>s'. Finish True True s = (Ok (), s') \<and> sinkState s' = sinkFinished \<and>
           terminateChan s' = Suc (terminateChan s) \<and>
           (if cur = [] then resultQueue s' = resultQueue s
            else \<exists>m. resultQueue s' = resultQueue s @ [m] \<and> carries True cur m) \<and>
           DumpStats (trafficTracker s') True = stats_of (concat sent @ cur)"
proof -
  obtain b where b: "currBuffer s = Some b" "holds (map fst cur) b" using rel by (auto simp: sink_rel_def)
  have tr: "TotalRows b = length cur" using total_holds [OF b(2)] by simp
  show ?thesis
  proof (cases "cur = []")
    case True
    with tr b rel show ?thesis
      by (simp add: Finish_def flush_def sink_rel_def)
  next
    case False
    with tr b rel show ?thesis
      using refresh_stats(2) [of "trafficTracker s"]
      by (auto simp: Finish_def flush_def respondWith_def Let_def sink_rel_def carries_def)
  qed
qed

text \<open>The whole life of a sink.\<close>

lemma sink_life:
  assumes "MakeBuffer fac = Ok fresh" and "sane_limits bpp rpp"
    and "\<And>rt. rt \<in> set rts \<Longrightarrow> well_formed rt \<and> map go_type (acceptors rt) = T \<and>
           row_size (acceptors rt) = Ok (price rt)"
    and "add_rows rts rl (new_sink fac bpp rpp fresh) = (Ok (), rl', s)"
  shows "\<exists>s' pages. Finish True True s = (Ok (), s') \<and> sinkState s' = sinkFinished \<and>
           concat pages = map (\<lambda>rt. (cells rt, price rt)) rts \<and>
           list_all (\<lambda>p. p \<noteq> [] \<and> within bpp rpp p) pages \<and>
           length (resultQueue s') = length pages \<and>
           (\<forall>i < length pages. carries (Suc i = length pages) (pages ! i) (resultQueue s' ! i)) \<and>
           DumpStats (trafficTracker s') True = stats_of (concat pages)"
proof -
  let ?s0 = "new_sink fac bpp rpp fresh"
  from add_rows_rel [OF new_sink_rel [OF assms(1,2)] assms(4) assms(3)] obtain sent cur where
    rel: "sink_rel s sent cur" and last: "cur = [] \<longrightarrow> sent = []" and rows: "concat sent @ cur = map (\<lambda>rt. (cells rt, price rt)) rts"
    and lim: "same_limits (trafficTracker s) (trafficTracker ?s0)"
    by (auto simp: new_sink_def)
  from Finish_rel [OF rel] obtain s' where fin: "Finish True True s = (Ok (), s')" "sinkState s' = sinkFinished"
    "if cur = [] then resultQueue s' = resultQueue s
     else \<exists>m. resultQueue s' = resultQueue s @ [m] \<and> carries True cur m"
    "DumpStats (trafficTracker s') True = stats_of (concat sent @ cur)" by blast
  have sent: "list_all2 (carries False) sent (resultQueue s)"
    "list_all (\<lambda>p. p \<noteq> [] \<and> within bpp rpp p) sent" "within bpp rpp cur"
    using rel lim by (auto simp: sink_rel_def same_limits_def new_sink_def)
  show ?thesis
  proof (cases "cur = []")
    case True
    then show ?thesis
      using fin last rows sent by (intro exI [of _ s'] exI [of _ "[]"]) auto
  next
    case False
    then obtain m where m: "resultQueue s' = resultQueue s @ [m]" "carries True cur m" using fin(3) by auto
    have "carries (Suc i = length (sent @ [cur])) ((sent @ [cur]) ! i) (resultQueue s' ! i)"
      if "i < length (sent @ [cur])" for i
      using that sent(1) m by (auto simp: nth_append list_all2_conv_all_nth)
    then show ?thesis
      using fin(1,2,4) sent m(1) rows False list_all2_lengthD [OF sent(1)]
      by (intro exI [of _ s'] exI [of _ "sent @ [cur]"]) simp
  qed
qed

end

section \<open>Properties\<close>

text \<open>The cells of a row and the content of a buffer, for a page of \<open>n\<close> requested columns.\<close>

definition page_cells :: "nat \<Rightarrow> 'c transformer \<Rightarrow> 'c list" where
  "page_cells n rt = (if n = 0 then [] else row_cells rt)"

definition holds_rows :: "nat \<Rightarrow> 'c list list \<Rightarrow> 'c buffer \<Rightarrow> bool" where
  "holds_rows n rows b = (if n = 0 then empty_holds rows b else default_holds n rows b)"

definition row_bytes :: "'c transformer \<Rightarrow> u64" where
  "row_bytes rt = (case row_size (acceptors rt) of Ok s \<Rightarrow> s | _ \<Rightarrow> 0)"

definition is_page :: "nat \<Rightarrow> bool \<Rightarrow> 'c charged_row list \<Rightarrow> 'c read_result \<Rightarrow> bool" where
  "is_page n terminal page m \<longleftrightarrow>
     (\<exists>b. m = \<lparr>rr_buffer = Some b, rr_stats = Some (stats_of page), rr_error = None, rr_terminal = terminal\<rparr> \<and>
          holds_rows n (map fst page) b)"

lemma is_page_carries:
  "is_page (Suc m) = default_buffer.carries m" "is_page 0 = empty_buffer.carries"
  by (simp_all add: fun_eq_iff is_page_def holds_rows_def default_buffer.carries_def empty_buffer.carries_def)

text \<open>C2: a sink delivers every row, in order, once. When all rows of a connection were added and
  the sink is finished, its messages are non-empty pages whose rows, in order, are exactly the
  rows added; every page respects both limits of the paging configuration; the statistics of
  each message are the number and the size of its rows; no message carries an error; the last
  message alone is terminal; and the totals of the tracker are those of all rows.\<close>

theorem sink_delivers_every_row:
  assumes "MakeBuffer fac = Ok b" and "sane_limits bpp rpp"
    and "\<And>rt. rt \<in> set rts \<Longrightarrow>
           (bf_types fac \<noteq> [] \<longrightarrow> length (column_ids rt) = length (bf_types fac)) \<and>
           map go_type (acceptors rt) = T \<and> (\<exists>s. row_size (acceptors rt) = Ok s)"
    and "add_rows rts rl (new_sink fac bpp rpp b) = (Ok (), rl', s)"
  shows "\<exists>s' pages. Finish True True s = (Ok (), s') \<and> sinkState s' = sinkFinished \<and>
           concat pages = map (\<lambda>rt. (page_cells (length (bf_types fac)) rt, row_bytes rt)) rts \<and>
           list_all (\<lambda>p. p \<noteq> [] \<and> within bpp rpp p) pages \<and>
           length (resultQueue s') = length pages \<and>
           (\<forall>i < length pages.
              is_page (length (bf_types fac)) (Suc i = length pages) (pages ! i) (resultQueue s' ! i)) \<and>
           DumpStats (trafficTracker s') True = stats_of (concat pages)"
proof (cases "length (bf_types fac)")
  case 0
  then have b: "b = RowCount 0" using MakeBuffer_kinds [OF assms(1)] by simp
  show ?thesis
    using empty_buffer.sink_life [OF assms(1) [unfolded b] assms(2) _ assms(4) [unfolded b],
        of T row_bytes] assms(3) 0
    by (fastforce simp: row_bytes_def page_cells_def is_page_carries)
next
  case (Suc m)
  then have b: "b = Columns (replicate (Suc m) [])" using MakeBuffer_kinds [OF assms(1)] by auto
  have "row_size (acceptors rt) = Ok (row_bytes rt)" if "rt \<in> set rts" for rt
    using assms(3) [OF that] by (auto simp: row_bytes_def)
  moreover have "bf_types fac \<noteq> []" using Suc by auto
  ultimately show ?thesis
    using default_buffer.sink_life [OF assms(1) [unfolded b] assms(2) _ assms(4) [unfolded b],
        of T row_bytes] assms(3) Suc
    by (simp add: page_cells_def is_page_carries)
qed

definition demo_factory :: buffer_factory where
  "demo_factory = \<lparr>bf_format = ARROW_IPC_STREAMING, bf_types = [TypeId Type_INT32]\<rparr>"

definition demo_row :: "nat \<Rightarrow> nat transformer" where
  "demo_row n = \<lparr>acceptors = [Ptr KInt32 (Bytes [])], appenders = [\<lambda>a. Ok n], wantedColumnIDs = []\<rparr>"

theorem sink_delivers_every_row_witness:
  "\<exists>rl' s s' pages.
     add_rows [demo_row 7, demo_row 8] readLimiterNoop (new_sink demo_factory 0 1 (Columns [[]])) = (Ok (), rl', s) \<and>
     Finish True True s = (Ok (), s') \<and> length (resultQueue s') = length pages \<and>
     concat pages = [([7 :: nat], 4), ([8], 4)] \<and> list_all (\<lambda>p. p \<noteq> [] \<and> within 0 1 p) pages"
proof -
  let ?r = "add_rows [demo_row 7, demo_row 8] readLimiterNoop (new_sink demo_factory 0 1 (Columns [[]]))"
  have "fst ?r = Ok ()" by code_simp
  then obtain rl' s where r: "?r = (Ok (), rl', s)" by (metis prod.collapse)
  have mk: "MakeBuffer demo_factory = Ok (Columns [[]])"
    by (simp add: MakeBuffer_def demo_factory_def)
  have lim: "sane_limits 0 1" by (simp add: sane_limits_def)
  have rows: "(bf_types demo_factory \<noteq> [] \<longrightarrow> length (column_ids rt) = length (bf_types demo_factory)) \<and>
      map go_type (acceptors rt) = [Some (1, KInt32)] \<and> (\<exists>s. row_size (acceptors rt) = Ok s)"
    if "rt \<in> set [demo_row 7, demo_row 8]" for rt
    using that by (auto simp: demo_row_def demo_factory_def column_ids_def row_size_def)
  from sink_delivers_every_row [OF mk lim rows r]
  obtain s' pages where "Finish True True s = (Ok (), s')" "length (resultQueue s') = length pages"
      "concat pages = map (\<lambda>rt. (page_cells (length (bf_types demo_factory)) rt, row_bytes rt)) [demo_row 7, demo_row 8]"
      "list_all (\<lambda>p. p \<noteq> [] \<and> within 0 1 p) pages"
    by blast
  moreover have "map (\<lambda>rt. (page_cells (length (bf_types demo_factory)) rt, row_bytes rt)) [demo_row 7, demo_row 8] =
      [([7], 4), ([8], 4)]"
    by (simp add: page_cells_def row_cells_def column_ids_def demo_factory_def demo_row_def
        row_bytes_def row_size_def measure_content_def)
  ultimately show ?thesis
    using r
    by - (rule exI [of _ rl'], rule exI [of _ s], rule exI [of _ s'], rule exI [of _ pages],
          simp del: add_rows.simps)
qed

end
