(* ===== verification/SinkFactory.thy ===== *)
theory SinkFactory
  imports Sinks
begin

text \<open>
  The factory of the sinks of one split (\<^verbatim>\<open>paging/sink_factory.go\<close>; \<^verbatim>\<open>doReadSplit\<close> makes one for
  every split of a request, with a read limiter of its own) and the interleavings of its sinks. One goroutine per connection adds rows to its sink and finishes
  it (a goroutine whose row failed returns without finishing); the termination handler counts
  the notifications and closes the result queue; the context may be cancelled at any time. The
  relation \<open>fstep\<close> has one rule per such action. The read limiter is shared by all sinks without
  synchronisation: a single connection sees the counter as it left it, one of several may see any value.
\<close>

section \<open>The factory\<close>

datatype factory_state = sinkFactoryIdle | sinkFactorySinksGenerated | sinkFactoryFailed | sinkFactoryFinished

record 'c sink_factory =
  sf_state :: factory_state
  sf_bufferFactory :: buffer_factory
  sf_bytesPerPage :: u64
  sf_rowsPerPage :: u64
  sf_readLimiter :: read_limiter
  sf_totalSinks :: nat
  sf_sinks :: "'c sink list"
  sf_stopped :: "bool list"
  sf_handlerRunning :: bool
  sf_terminatedSinks :: nat
  sf_closed :: bool
  sf_accepted :: nat

definition NewSinkFactory :: "buffer_factory \<Rightarrow> u64 \<Rightarrow> u64 \<Rightarrow> read_limiter \<Rightarrow> 'c sink_factory" where
  "NewSinkFactory fac bpp rpp rl =
     \<lparr>sf_state = sinkFactoryIdle, sf_bufferFactory = fac, sf_bytesPerPage = bpp, sf_rowsPerPage = rpp,
      sf_readLimiter = rl, sf_totalSinks = 0, sf_sinks = [], sf_stopped = [], sf_handlerRunning = False,
      sf_terminatedSinks = 0, sf_closed = False, sf_accepted = 0\<rparr>"

fun make_sinks :: "nat \<Rightarrow> 'c sink_factory \<Rightarrow> 'c sink list res" where
  "make_sinks 0 f = Ok []"
| "make_sinks (Suc n) f =
     bind_res (wrap_res ''make buffer'' (MakeBuffer (sf_bufferFactory f))) (\<lambda>buffer.
     bind_res (make_sinks n f) (\<lambda>sinks.
       Ok (new_sink (sf_bufferFactory f) (sf_bytesPerPage f) (sf_rowsPerPage f) buffer # sinks)))"

definition MakeSinks :: "nat \<Rightarrow> 'c sink_factory \<Rightarrow> unit res \<times> 'c sink_factory" where
  "MakeSinks params f =
     (if sf_state f \<noteq> sinkFactoryIdle then (Err (NewErr ''sink factory is already in use''), f)
      else
        (case make_sinks params f of
           Ok sinks \<Rightarrow>
             (Ok (), f\<lparr>sf_totalSinks := params, sf_sinks := sinks, sf_stopped := replicate params False,
                       sf_state := sinkFactorySinksGenerated, sf_handlerRunning := True\<rparr>)
         | Err e \<Rightarrow> (Err e, f\<lparr>sf_totalSinks := params, sf_state := sinkFactoryFailed\<rparr>)
         | Panic m \<Rightarrow> (Panic m, f)))"

definition FinalStats :: "'c sink_factory \<Rightarrow> traffic_stats" where
  "FinalStats f =
     fold (\<lambda>s acc. \<lparr>st_rows = st_rows acc + st_rows (DumpStats (trafficTracker s) True),
                    st_bytes = st_bytes acc + st_bytes (DumpStats (trafficTracker s) True)\<rparr>)
       (sf_sinks f) \<lparr>st_rows = 0, st_bytes = 0\<rparr>"

text \<open>One iteration of \<^verbatim>\<open>sinkTerminationHandler\<close> on a received notification.\<close>

definition handle_termination :: "'c sink_factory \<Rightarrow> 'c sink_factory" where
  "handle_termination f =
     (let terminated = sf_terminatedSinks f + 1
      in if terminated = sf_totalSinks f then
           f\<lparr>sf_terminatedSinks := terminated, sf_closed := True, sf_state := sinkFactoryFinished,
             sf_handlerRunning := False\<rparr>
         else f\<lparr>sf_terminatedSinks := terminated\<rparr>)"

definition notifications :: "'c sink_factory \<Rightarrow> nat" where
  "notifications f = sum_list (map terminateChan (sf_sinks f))"

text \<open>The limiter that a connection finds: while others are between their check and their increment the
  number of rows read may be anything (see \<open>race_step\<close> below).\<close>

definition limiter_seen :: "'c sink_factory \<Rightarrow> read_limiter \<Rightarrow> bool" where
  "limiter_seen f rl \<longleftrightarrow>
     (case sf_readLimiter f of
        readLimiterNoop \<Rightarrow> rl = readLimiterNoop
      | readLimiterRows rowsRead rowsLimit \<Rightarrow>
          \<exists>n. rl = readLimiterRows n rowsLimit \<and> (length (sf_sinks f) \<le> 1 \<longrightarrow> n = rowsRead))"

inductive fstep :: "'c sink_factory \<Rightarrow> 'c sink_factory \<Rightarrow> bool" where
  row_added:
    "i < length (sf_sinks f) \<Longrightarrow> \<not> sf_stopped f ! i \<Longrightarrow> limiter_seen f rl0 \<Longrightarrow>
     AddRow d rt rl0 (sf_sinks f ! i) = (Ok (), rl, s) \<Longrightarrow>
     fstep f (f\<lparr>sf_readLimiter := rl, sf_sinks := (sf_sinks f)[i := s], sf_accepted := sf_accepted f + 1\<rparr>)"
| row_failed:
    "i < length (sf_sinks f) \<Longrightarrow> \<not> sf_stopped f ! i \<Longrightarrow> limiter_seen f rl0 \<Longrightarrow>
     AddRow d rt rl0 (sf_sinks f ! i) = (Err e, rl, s) \<Longrightarrow>
     fstep f (f\<lparr>sf_readLimiter := rl, sf_sinks := (sf_sinks f)[i := s],
                sf_stopped := (sf_stopped f)[i := True]\<rparr>)"
| finished:
    "i < length (sf_sinks f) \<Longrightarrow> \<not> sf_stopped f ! i \<Longrightarrow>
     Finish d n (sf_sinks f ! i) = (Ok (), s) \<Longrightarrow>
     fstep f (f\<lparr>sf_sinks := (sf_sinks f)[i := s], sf_stopped := (sf_stopped f)[i := True]\<rparr>)"
| terminated:
    "sf_handlerRunning f \<Longrightarrow> sf_terminatedSinks f < notifications f \<Longrightarrow> fstep f (handle_termination f)"
| cancelled:
    "fstep f (f\<lparr>sf_handlerRunning := False\<rparr>)"

inductive_cases fstep_cases: "fstep f f'"

inductive freach :: "'c sink_factory \<Rightarrow> 'c sink_factory \<Rightarrow> bool" for f0 where
  start: "MakeSinks n f0 = (Ok (), f) \<Longrightarrow> freach f0 f"
| next_step: "freach f0 f \<Longrightarrow> fstep f f' \<Longrightarrow> freach f0 f'"

lemma NewSinkFactory_idle [simp]: "sf_state (NewSinkFactory fac bpp rpp rl) = sinkFactoryIdle"
  by (simp add: NewSinkFactory_def)

section \<open>Frames of the sink operations\<close>

lemma flush_frame:
  "flush d m t s = (r, s') \<Longrightarrow> sinkState s' = sinkState s \<and> terminateChan s' = terminateChan s"
  by (auto simp: flush_def respondWith_def Let_def split: option.splits if_splits res.splits)

lemma sink_tryAddRow_frame:
  "sink_tryAddRow row s = (r, s') \<Longrightarrow> sinkState s' = sinkState s \<and> terminateChan s' = terminateChan s"
  by (auto simp: sink_tryAddRow_def split: prod.splits)

lemma make_room_state:
  assumes 1: "sink_tryAddRow row s = (r1, s1)" and 2: "flush d True False s1 = (r2, s2)"
    and 3: "sink_tryAddRow row s2 = (r3, s3)"
  shows "snd (make_room d row s) \<in> {s1, s2, s3}"
proof (cases r1)
  case (Ok b)
  show ?thesis
  proof (cases b)
    case False
    then show ?thesis
      unfolding make_room_def 1 prod.case Ok
      by (cases r2; cases r3) (simp_all only: bool.case res.case snd_conv 2 3 prod.case insert_iff simp_thms)
  qed (simp add: make_room_def 1 Ok)
qed (simp_all add: make_room_def 1)

lemma make_room_frame:
  assumes "make_room d row s = (r, s')"
  shows "sinkState s' = sinkState s \<and> terminateChan s' = terminateChan s"
proof -
  obtain r1 s1 where 1: "sink_tryAddRow row s = (r1, s1)" by (cases "sink_tryAddRow row s")
  obtain r2 s2 where 2: "flush d True False s1 = (r2, s2)" by (cases "flush d True False s1")
  obtain r3 s3 where 3: "sink_tryAddRow row s2 = (r3, s3)" by (cases "sink_tryAddRow row s2")
  have "s' \<in> {s1, s2, s3}" using make_room_state [OF 1 2 3] assms by simp
  with sink_tryAddRow_frame [OF 1] flush_frame [OF 2] sink_tryAddRow_frame [OF 3] show ?thesis by auto
qed

lemma AddRow_frame:
  "AddRow d rt rl s = (r, rl', s') \<Longrightarrow> sinkState s' = sinkState s \<and> terminateChan s' = terminateChan s"
  by (auto simp: AddRow_def split: prod.splits res.splits option.splits if_splits dest!: make_room_frame)

lemma AddRow_limiter:
  assumes "AddRow d rt rl s = (r, rl', s')"
  shows "rl' = rl \<or> rl' = snd (limiter_addRow rl)"
    and "r = Ok () \<Longrightarrow> rl' = snd (limiter_addRow rl) \<and> fst (limiter_addRow rl) = Ok ()"
proof -
  obtain r0 rl0 where 0: "limiter_addRow rl = (r0, rl0)" by (cases "limiter_addRow rl")
  obtain r1 s1 where 1: "make_room d (acceptors rt) s = (r1, s1)" by (cases "make_room d (acceptors rt) s")
  have "(rl' = rl \<or> rl' = rl0) \<and> (r = Ok () \<longrightarrow> rl' = rl0 \<and> r0 = Ok ())"
    using assms unfolding AddRow_def 0 1 prod.case
    by (cases r0; cases r1; cases "currBuffer s1"; auto split: if_splits prod.splits)
  then show "rl' = rl \<or> rl' = snd (limiter_addRow rl)"
    and "r = Ok () \<Longrightarrow> rl' = snd (limiter_addRow rl) \<and> fst (limiter_addRow rl) = Ok ()"
    by (auto simp: 0)
qed

lemma flush_no_error: "flush d False t s \<noteq> (Err e, s')"
  by (auto simp: flush_def Let_def split: option.splits if_splits)

lemma Finish_effect:
  assumes "Finish d n s = (Ok (), s')" and "sinkState s \<noteq> sinkFailed"
  shows "sinkState s = sinkOperational \<and> sinkState s' = sinkFinished \<and>
         terminateChan s' = terminateChan s + (if n then 1 else 0)"
proof (cases "flush d False True s")
  case (Pair r t)
  with assms flush_no_error [of d True s] flush_frame [OF Pair] show ?thesis
    by (cases "sinkState s"; cases r) (auto simp: Finish_def)
qed

section \<open>Invariants of the interleavings\<close>

definition sink_terminates_once :: "'c sink \<Rightarrow> bool" where
  "sink_terminates_once s \<longleftrightarrow>
     sinkState s \<noteq> sinkFailed \<and> terminateChan s \<le> (if sinkState s = sinkFinished then 1 else 0)"

definition limiter_counts :: "nat \<Rightarrow> read_limiter \<Rightarrow> bool" where
  "limiter_counts n rl =
     (case rl of readLimiterNoop \<Rightarrow> True | readLimiterRows r l \<Rightarrow> n \<le> unat r \<and> r \<le> l)"

definition factory_inv :: "'c sink_factory \<Rightarrow> bool" where
  "factory_inv f \<longleftrightarrow>
     sf_totalSinks f = length (sf_sinks f) \<and>
     list_all sink_terminates_once (sf_sinks f) \<and>
     sf_terminatedSinks f \<le> notifications f \<and>
     (sf_closed f \<longrightarrow> 0 < sf_totalSinks f \<and> sf_totalSinks f \<le> notifications f) \<and>
     (length (sf_sinks f) \<le> 1 \<longrightarrow> limiter_counts (sf_accepted f) (sf_readLimiter f))"

lemma notifications_update:
  "i < length (sf_sinks f) \<Longrightarrow> terminateChan (sf_sinks f ! i) \<le> terminateChan s \<Longrightarrow>
     notifications f \<le> notifications (f\<lparr>sf_sinks := (sf_sinks f)[i := s]\<rparr>)"
  by (simp add: notifications_def map_update sum_list_update)

lemma notifications_other [simp]:
  "notifications (f\<lparr>sf_stopped := a\<rparr>) = notifications f"
  "notifications (f\<lparr>sf_readLimiter := b\<rparr>) = notifications f"
  "notifications (f\<lparr>sf_accepted := c\<rparr>) = notifications f"
  "notifications (f\<lparr>sf_handlerRunning := d\<rparr>) = notifications f"
  by (simp_all add: notifications_def)

lemma limiter_step:
  assumes "limiter_counts n rl"
  shows "limiter_counts n (snd (limiter_addRow rl))"
    and "fst (limiter_addRow rl) = Ok () \<Longrightarrow> limiter_counts (Suc n) (snd (limiter_addRow rl))"
proof -
  have "unat (r + 1) = Suc (unat r) \<and> r + 1 \<le> l" if "\<not> l \<le> r" for r l :: u64
  proof -
    from that have "unat r < unat l" by (simp add: word_le_nat_alt not_le)
    moreover have "unat l < 2 ^ 64" using unsigned_less [of l] by simp
    ultimately show ?thesis by (simp add: word_le_nat_alt unat_word_ariths)
  qed
  with assms show "limiter_counts n (snd (limiter_addRow rl))"
    and "fst (limiter_addRow rl) = Ok () \<Longrightarrow> limiter_counts (Suc n) (snd (limiter_addRow rl))"
    by (cases rl; auto simp: limiter_counts_def)+
qed

lemma make_sinks_new:
  "make_sinks n f = Ok sinks \<Longrightarrow>
     length sinks = n \<and> list_all sink_terminates_once sinks \<and> sum_list (map terminateChan sinks) = 0"
  by (induction n arbitrary: sinks) (auto simp: res_simps new_sink_def sink_terminates_once_def)

lemma factory_inv_start:
  assumes "MakeSinks n (NewSinkFactory fac bpp rpp (MakeReadLimiter lim)) = (Ok (), f)"
  shows "factory_inv f"
proof -
  let ?f0 = "NewSinkFactory fac bpp rpp (MakeReadLimiter lim)"
  obtain sinks where sinks: "make_sinks n ?f0 = Ok sinks"
    and f: "f = ?f0\<lparr>sf_totalSinks := n, sf_sinks := sinks, sf_stopped := replicate n False,
              sf_state := sinkFactorySinksGenerated, sf_handlerRunning := True\<rparr>"
    using assms by (auto simp: MakeSinks_def split: res.splits)
  have "limiter_counts 0 (MakeReadLimiter lim)" by (cases lim) (simp_all add: limiter_counts_def)
  with make_sinks_new [OF sinks] f show ?thesis
    by (simp add: factory_inv_def notifications_def NewSinkFactory_def)
qed

lemma factory_inv_sink:
  assumes "factory_inv f" and "i < length (sf_sinks f)" and "sink_terminates_once s"
    and "terminateChan (sf_sinks f ! i) \<le> terminateChan s"
  shows "(length (sf_sinks f) \<le> 1 \<Longrightarrow> limiter_counts m rl) \<Longrightarrow>
      factory_inv (f\<lparr>sf_readLimiter := rl, sf_sinks := (sf_sinks f)[i := s], sf_accepted := m\<rparr>)"
    and "(length (sf_sinks f) \<le> 1 \<Longrightarrow> limiter_counts (sf_accepted f) rl) \<Longrightarrow>
      factory_inv (f\<lparr>sf_readLimiter := rl, sf_sinks := (sf_sinks f)[i := s], sf_stopped := st\<rparr>)"
    and "factory_inv (f\<lparr>sf_sinks := (sf_sinks f)[i := s], sf_stopped := st\<rparr>)"
  using assms notifications_update [of i f s]
  by (auto simp: factory_inv_def list_all_length nth_list_update notifications_def)

lemma factory_inv_limiter:
  "factory_inv f \<Longrightarrow> limiter_seen f rl \<Longrightarrow> length (sf_sinks f) \<le> 1 \<Longrightarrow> limiter_counts (sf_accepted f) rl"
  by (auto simp: factory_inv_def limiter_seen_def split: read_limiter.splits)

lemma factory_inv_nth:
  "factory_inv f \<Longrightarrow> i < length (sf_sinks f) \<Longrightarrow> sink_terminates_once (sf_sinks f ! i)"
  by (simp add: factory_inv_def list_all_length)

lemma factory_inv_step: "fstep f f' \<Longrightarrow> factory_inv f \<Longrightarrow> factory_inv f'"
proof (induction rule: fstep.induct)
  case (row_added i f rl0 d rt rl s)
  have "limiter_counts (Suc (sf_accepted f)) rl" if "length (sf_sinks f) \<le> 1"
    using AddRow_limiter(2) [OF row_added(4)] limiter_step(2) [OF factory_inv_limiter [OF row_added(5,3) that]] by simp
  with factory_inv_sink(1) [of f i s _ rl] row_added AddRow_frame [OF row_added(4)]
    factory_inv_nth [OF row_added(5,1)]
  show ?case by (simp add: sink_terminates_once_def)
next
  case (row_failed i f rl0 d rt e rl s)
  have "limiter_counts (sf_accepted f) rl" if "length (sf_sinks f) \<le> 1"
    using AddRow_limiter(1) [OF row_failed(4)] limiter_step(1) [OF factory_inv_limiter [OF row_failed(5,3) that]]
      factory_inv_limiter [OF row_failed(5,3) that] by auto
  with factory_inv_sink(2) [of f i s rl "(sf_stopped f)[i := True]"] row_failed AddRow_frame [OF row_failed(4)]
    factory_inv_nth [OF row_failed(5,1)]
  show ?case by (simp add: sink_terminates_once_def)
next
  case (finished i f d n s)
  have once: "sink_terminates_once (sf_sinks f ! i)" by (rule factory_inv_nth [OF finished(4,1)])
  from Finish_effect [OF finished(3)] once
  have "sink_terminates_once s" "terminateChan (sf_sinks f ! i) \<le> terminateChan s"
    by (auto simp: sink_terminates_once_def)
  with factory_inv_sink(3) [of f i s "(sf_stopped f)[i := True]"] finished
  show ?case by simp
next
  case (terminated f)
  then show ?case
    by (auto simp: factory_inv_def handle_termination_def Let_def notifications_def)
next
  case (cancelled f)
  then show ?case by (auto simp: factory_inv_def)
qed

lemma factory_inv_reach:
  "freach (NewSinkFactory fac bpp rpp (MakeReadLimiter lim)) f \<Longrightarrow> factory_inv f"
  by (induction rule: freach.induct) (auto intro: factory_inv_start factory_inv_step)

lemma closed_all_finished:
  assumes "factory_inv f" and "sf_closed f"
  shows "list_all (\<lambda>s. sinkState s = sinkFinished) (sf_sinks f)"
proof -
  have "length xs \<le> sum_list (map terminateChan xs) \<Longrightarrow> list_all sink_terminates_once xs \<Longrightarrow>
      list_all (\<lambda>s. sinkState s = sinkFinished) xs" for xs :: "'a sink list"
  proof (induction xs)
    case (Cons x xs)
    have "list_all sink_terminates_once xs \<Longrightarrow> sum_list (map terminateChan xs) \<le> length xs" for xs :: "'a sink list"
      by (induction xs) (auto simp: sink_terminates_once_def split: if_splits)
    with Cons.prems have "sum_list (map terminateChan xs) \<le> length xs" by simp
    with Cons show ?case by (auto simp: sink_terminates_once_def split: if_splits)
  qed simp
  with assms show ?thesis by (auto simp: factory_inv_def notifications_def)
qed

section \<open>Properties\<close>

text \<open>C21: the result queue is closed only after every sink has finished, in every interleaving
  of the connections, of the termination handler and of a cancellation: the reader of the queue
  takes the closing for the end of the data, and a connection whose row failed never finishes.\<close>

theorem queue_closed_after_all_sinks:
  assumes "freach (NewSinkFactory fac bpp rpp (MakeReadLimiter lim)) f" and "sf_closed f"
  shows "sf_sinks f \<noteq> [] \<and> list_all (\<lambda>s. sinkState s = sinkFinished) (sf_sinks f)"
  using closed_all_finished [OF factory_inv_reach [OF assms(1)] assms(2)]
    factory_inv_reach [OF assms(1)] assms(2) by (auto simp: factory_inv_def)

text \<open>C22: the read limit of a split is never exceeded over one connection: when the split is read by
  a single sink, the number of rows that it has accepted is at most the configured limit, whatever
  rows fail, and however the termination handler and a cancellation interleave. (With several
  connections the limit can be exceeded, \<open>limiter_race_exceeds\<close>; every split has its own limit.)\<close>

theorem read_limit_respected:
  assumes "freach (NewSinkFactory fac bpp rpp (MakeReadLimiter (Some limit))) f" and "length (sf_sinks f) \<le> 1"
  shows "sf_accepted f \<le> unat limit"
proof -
  have "\<exists>r. sf_readLimiter f = readLimiterRows r limit"
    using assms(1)
  proof (induction rule: freach.induct)
    case (start n f)
    then show ?case by (auto simp: MakeSinks_def NewSinkFactory_def split: res.splits if_splits)
  next
    case (next_step f f')
    then obtain r where "sf_readLimiter f = readLimiterRows r limit" by blast
    with next_step(2) show ?case
      by (cases rule: fstep.cases)
         (auto simp: handle_termination_def limiter_seen_def Let_def dest!: AddRow_limiter(1) split: if_splits)
  qed
  with factory_inv_reach [OF assms(1)] assms(2) show ?thesis
    by (auto simp: factory_inv_def limiter_counts_def word_le_nat_alt)
qed

section \<open>The race of the read limiter\<close>

text \<open>
  \<^verbatim>\<open>readLimiterRows.addRow\<close> in the goroutines of several connections: the comparison with the limit and the
  load and the store of the increment are separate accesses to the shared counter. A goroutine that
  is refused returns its error and changes nothing.
\<close>

datatype limiter_pc = Outside | Checked | Loaded u64

record limiter_race =
  rc_rowsRead :: u64
  rc_accepted :: nat
  rc_pcs :: "limiter_pc list"

inductive race_step :: "u64 \<Rightarrow> limiter_race \<Rightarrow> limiter_race \<Rightarrow> bool" for rowsLimit where
  check: "i < length (rc_pcs s) \<Longrightarrow> rc_pcs s ! i = Outside \<Longrightarrow> \<not> rc_rowsRead s \<ge> rowsLimit \<Longrightarrow>
    race_step rowsLimit s (s\<lparr>rc_pcs := (rc_pcs s)[i := Checked]\<rparr>)"
| load: "i < length (rc_pcs s) \<Longrightarrow> rc_pcs s ! i = Checked \<Longrightarrow>
    race_step rowsLimit s (s\<lparr>rc_pcs := (rc_pcs s)[i := Loaded (rc_rowsRead s)]\<rparr>)"
| store: "i < length (rc_pcs s) \<Longrightarrow> rc_pcs s ! i = Loaded n \<Longrightarrow>
    race_step rowsLimit s
      (s\<lparr>rc_rowsRead := n + 1, rc_accepted := rc_accepted s + 1, rc_pcs := (rc_pcs s)[i := Outside]\<rparr>)"

definition race_start :: "nat \<Rightarrow> limiter_race" where
  "race_start n = \<lparr>rc_rowsRead = 0, rc_accepted = 0, rc_pcs = replicate n Outside\<rparr>"

text \<open>A single goroutine behaves as if \<^verbatim>\<open>addRow\<close> were one step.\<close>

definition race_inv :: "u64 \<Rightarrow> limiter_race \<Rightarrow> bool" where
  "race_inv rowsLimit s \<longleftrightarrow>
     unat (rc_rowsRead s) = rc_accepted s \<and> rc_rowsRead s \<le> rowsLimit \<and>
     (\<exists>pc. rc_pcs s = [pc] \<and> (pc \<noteq> Outside \<longrightarrow> rc_rowsRead s < rowsLimit) \<and> (\<forall>n. pc = Loaded n \<longrightarrow> n = rc_rowsRead s))"

lemma race_inv_step: "race_step rowsLimit s s' \<Longrightarrow> race_inv rowsLimit s \<Longrightarrow> race_inv rowsLimit s'"
proof (induction rule: race_step.induct)
  case (store i s n)
  then have n: "n = rc_rowsRead s" "n < rowsLimit" "unat n = rc_accepted s" "length (rc_pcs s) = 1" "i = 0"
    by (auto simp: race_inv_def)
  then have "unat n < unat rowsLimit" by (simp add: word_less_nat_alt)
  moreover have "unat rowsLimit < 2 ^ 64" using unsigned_less [of rowsLimit] by simp
  ultimately have "unat (n + 1) = Suc (unat n)" "n + 1 \<le> rowsLimit" by (simp_all add: word_le_nat_alt unat_word_ariths)
  with n show ?case by (cases "rc_pcs s") (simp_all add: race_inv_def)
qed (auto simp: race_inv_def not_le)

theorem limiter_single_goroutine: "(race_step rowsLimit)\<^sup>*\<^sup>* (race_start 1) s \<Longrightarrow> rc_accepted s \<le> unat rowsLimit"
proof -
  assume "(race_step rowsLimit)\<^sup>*\<^sup>* (race_start 1) s"
  then have "race_inv rowsLimit s"
  proof (induction rule: rtranclp_induct)
    case base
    show ?case by (simp add: race_inv_def race_start_def)
  qed (rule race_inv_step)
  then show ?thesis by (auto simp: race_inv_def word_le_nat_alt)
qed

text \<open>Two goroutines that both check before either increments read a row more than the limit allows.\<close>

theorem limiter_race_exceeds:
  "\<exists>s. (race_step 1)\<^sup>*\<^sup>* (race_start 2) s \<and> unat (1 :: u64) < rc_accepted s"
proof -
  let ?s = "\<lambda>r a p q. \<lparr>rc_rowsRead = r, rc_accepted = a, rc_pcs = [p, q]\<rparr>"
  have "race_step 1 (?s 0 0 Outside Outside) (?s 0 0 Checked Outside)"
    using race_step.check [of 0 "?s 0 0 Outside Outside" 1] by simp
  moreover have "race_step 1 (?s 0 0 Checked Outside) (?s 0 0 Checked Checked)"
    using race_step.check [of 1 "?s 0 0 Checked Outside" 1] by simp
  moreover have "race_step 1 (?s 0 0 Checked Checked) (?s 0 0 (Loaded 0) Checked)"
    using race_step.load [of 0 "?s 0 0 Checked Checked" 1] by simp
  moreover have "race_step 1 (?s 0 0 (Loaded 0) Checked) (?s 1 1 Outside Checked)"
    using race_step.store [of 0 "?s 0 0 (Loaded 0) Checked" 0 1] by simp
  moreover have "race_step 1 (?s 1 1 Outside Checked) (?s 1 1 Outside (Loaded 1))"
    using race_step.load [of 1 "?s 1 1 Outside Checked" 1] by simp
  moreover have "race_step 1 (?s 1 1 Outside (Loaded 1)) (?s 2 2 Outside Outside)"
    using race_step.store [of 1 "?s 1 1 Outside (Loaded 1)" 1 1] by (simp add: numeral_2_eq_2)
  ultimately have "(race_step 1)\<^sup>*\<^sup>* (?s 0 0 Outside Outside) (?s 2 2 Outside Outside)"
    by (meson converse_rtranclp_into_rtranclp rtranclp.rtrancl_refl)
  then show ?thesis by (intro exI [of _ "?s 2 2 Outside Outside"]) (simp add: race_start_def numeral_2_eq_2)
qed

text \<open>A request without connections is never answered. With no sinks the termination handler
  has nothing to count, and the result queue stays open in every reachable state.\<close>

theorem no_sinks_never_closed:
  assumes "freach (NewSinkFactory fac bpp rpp (MakeReadLimiter lim)) f" and "sf_sinks f = []"
  shows "\<not> sf_closed f"
  using factory_inv_reach [OF assms(1)] assms(2) by (auto simp: factory_inv_def)

section \<open>Witnesses\<close>

text \<open>One connection adds a row and finishes; the handler closes the queue.\<close>

definition demo_start :: "nat sink_factory" where
  "demo_start = NewSinkFactory demo_factory 0 1 (MakeReadLimiter (Some 5))"

definition demo_made :: "nat \<Rightarrow> nat sink_factory" where
  "demo_made n = snd (MakeSinks n demo_start)"

definition demo_added :: "nat sink_factory" where
  "demo_added =
     (case AddRow True (demo_row 7) (sf_readLimiter (demo_made 1)) (sf_sinks (demo_made 1) ! 0) of
        (r, rl, s) \<Rightarrow> (demo_made 1)\<lparr>sf_readLimiter := rl, sf_sinks := (sf_sinks (demo_made 1))[0 := s],
          sf_accepted := sf_accepted (demo_made 1) + 1\<rparr>)"

definition demo_finished :: "nat sink_factory" where
  "demo_finished =
     (case Finish True True (sf_sinks demo_added ! 0) of
        (r, s) \<Rightarrow> demo_added\<lparr>sf_sinks := (sf_sinks demo_added)[0 := s],
          sf_stopped := (sf_stopped demo_added)[0 := True]\<rparr>)"

definition demo_closed :: "nat sink_factory" where
  "demo_closed = handle_termination demo_finished"

lemma demo_MakeSinks: "MakeSinks n demo_start = (Ok (), demo_made n)" if "n \<in> {0, 1}"
proof -
  have "fst (MakeSinks 0 demo_start) = Ok ()" "fst (MakeSinks 1 demo_start) = Ok ()" by code_simp+
  with that show ?thesis by (auto simp: demo_made_def) (metis prod.collapse)+
qed

lemma demo_reach_added: "freach demo_start demo_added"
proof -
  have ok: "fst (AddRow True (demo_row 7) (sf_readLimiter (demo_made 1)) (sf_sinks (demo_made 1) ! 0)) = Ok ()"
    and len: "length (sf_sinks (demo_made 1)) = 1" and st: "\<not> sf_stopped (demo_made 1) ! 0" by code_simp+
  obtain rl s where row: "AddRow True (demo_row 7) (sf_readLimiter (demo_made 1)) (sf_sinks (demo_made 1) ! 0) = (Ok (), rl, s)"
    using ok by (metis prod.collapse)
  have "0 < length (sf_sinks (demo_made 1))" "limiter_seen (demo_made 1) (sf_readLimiter (demo_made 1))"
    using len by (simp_all add: limiter_seen_def split: read_limiter.splits)
  from row_added [OF this(1) st this(2) row] row have "fstep (demo_made 1) demo_added"
    by (simp add: demo_added_def)
  with start [OF demo_MakeSinks [of 1]] show ?thesis by (auto intro: next_step)
qed

lemma demo_reach_closed: "freach demo_start demo_closed"
proof -
  have ok: "fst (Finish True True (sf_sinks demo_added ! 0)) = Ok ()"
    and len: "length (sf_sinks demo_added) = 1" and st: "\<not> sf_stopped demo_added ! 0"
    and run: "sf_handlerRunning demo_finished" "sf_terminatedSinks demo_finished < notifications demo_finished"
    by code_simp+
  obtain s where fin: "Finish True True (sf_sinks demo_added ! 0) = (Ok (), s)"
    using ok by (metis prod.collapse)
  have "0 < length (sf_sinks demo_added)" using len by simp
  from finished [OF this st fin] fin have "fstep demo_added demo_finished"
    by (simp add: demo_finished_def)
  with demo_reach_added terminated [OF run] show ?thesis
    unfolding demo_closed_def by (blast intro: next_step)
qed

theorem queue_closed_after_all_sinks_witness:
  "sf_closed demo_closed \<and> list_all (\<lambda>s. sinkState s = sinkFinished) (sf_sinks demo_closed)"
proof -
  have "sf_closed demo_closed" by code_simp
  with queue_closed_after_all_sinks [OF demo_reach_closed [unfolded demo_start_def]] show ?thesis by simp
qed

theorem read_limit_respected_witness: "sf_accepted demo_added = 1 \<and> sf_accepted demo_added \<le> unat (5 :: u64)"
proof -
  have "sf_accepted demo_added = 1" "length (sf_sinks demo_added) \<le> 1" by code_simp+
  with read_limit_respected [OF demo_reach_added [unfolded demo_start_def]] show ?thesis by simp
qed

theorem no_sinks_never_closed_witness: "sf_sinks (demo_made 0) = [] \<and> \<not> sf_closed (demo_made 0)"
proof -
  have empty: "sf_sinks (demo_made 0) = []" by code_simp
  have "freach demo_start (demo_made 0)" using start [OF demo_MakeSinks [of 0]] by simp
  from no_sinks_never_closed [OF this [unfolded demo_start_def] empty] empty show ?thesis by simp
qed

end
