(* ===== verification/Streaming.thy ===== *)
theory Streaming
  imports SinkFactory
begin

text \<open>
  The two streamers that connect a data source to a gRPC stream (\<^verbatim>\<open>streaming/*.go\<close>) and the
  reading loop of a relational connection (\<^verbatim>\<open>rdbms/datasource.go\<close>). A streamer runs beside the
  goroutine of the data source; the relations below have one rule per action of either side,
  a select being a choice among the rules that are enabled. Serialisation of a page
  (\<open>encode\<close>) and of a split description (\<open>marshal\<close>) are parameters, as is the outcome of a
  send on the stream.
\<close>

section \<open>Reading one connection\<close>

text \<open>
  What a driver returns for a query: the outcome of \<^verbatim>\<open>MakeTransformer\<close>, the rows of each result set,
  each scanned or failed, and the error \<^verbatim>\<open>rows.Err()\<close> reports at the end. The context of the
  request is not cancelled during the read: every message of the sink is delivered.
\<close>

record 'c driver_rows =
  rows_transformer :: "unit res"
  result_sets :: "'c transformer res list list"
  rows_err :: "go_error option"

fun read_result_set ::
  "'c transformer res list \<Rightarrow> nat \<Rightarrow> read_limiter \<Rightarrow> 'c sink \<Rightarrow> nat res \<times> read_limiter \<times> 'c sink" where
  "read_result_set [] rowsRead rl s = (Ok rowsRead, rl, s)"
| "read_result_set (Ok rt # rows) rowsRead rl s =
     (case AddRow True rt rl s of
        (Ok _, rl, s) \<Rightarrow> read_result_set rows (Suc rowsRead) rl s
      | (Err e, rl, s) \<Rightarrow> (Err (Wrap ''add row to paging writer'' e), rl, s)
      | (Panic p, rl, s) \<Rightarrow> (Panic p, rl, s))"
| "read_result_set (Err e # rows) rowsRead rl s = (Err (Wrap ''rows scan'' e), rl, s)"
| "read_result_set (Panic p # rows) rowsRead rl s = (Panic p, rl, s)"

fun read_result_sets ::
  "'c transformer res list list \<Rightarrow> nat \<Rightarrow> read_limiter \<Rightarrow> 'c sink \<Rightarrow> nat res \<times> read_limiter \<times> 'c sink" where
  "read_result_sets [] rowsRead rl s = (Ok rowsRead, rl, s)"
| "read_result_sets (rows # sets) rowsRead rl s =
     (case read_result_set rows rowsRead rl s of
        (Ok n, rl, s) \<Rightarrow> read_result_sets sets n rl s
      | (Err e, rl, s) \<Rightarrow> (Err e, rl, s)
      | (Panic p, rl, s) \<Rightarrow> (Panic p, rl, s))"

definition doReadSplitSingleConn ::
  "'c driver_rows res \<Rightarrow> read_limiter \<Rightarrow> 'c sink \<Rightarrow> nat res \<times> read_limiter \<times> 'c sink" where
  "doReadSplitSingleConn query rl s =
     (case query of
        Err e \<Rightarrow> (Err (Wrap ''query'' e), rl, s)
      | Panic p \<Rightarrow> (Panic p, rl, s)
      | Ok rows \<Rightarrow>
          (case rows_transformer rows of
             Err e \<Rightarrow> (Err (Wrap ''make transformer'' e), rl, s)
           | Panic p \<Rightarrow> (Panic p, rl, s)
           | Ok _ \<Rightarrow>
               (case read_result_sets (result_sets rows) 0 rl s of
                  (Err e, rl, s) \<Rightarrow> (Err e, rl, s)
                | (Panic p, rl, s) \<Rightarrow> (Panic p, rl, s)
                | (Ok rowsRead, rl, s) \<Rightarrow>
                    (case rows_err rows of
                       Some e \<Rightarrow> (Err (Wrap ''rows error'' e), rl, s)
                     | None \<Rightarrow>
                         (case Finish True True s of
                            (Ok _, s) \<Rightarrow> (Ok rowsRead, rl, s)
                          | (Err e, s) \<Rightarrow> (Err e, rl, s)
                          | (Panic p, s) \<Rightarrow> (Panic p, rl, s))))))"

text \<open>The rows of successful scans, in order.\<close>

definition scanned :: "'c transformer res list list \<Rightarrow> 'c transformer list" where
  "scanned sets = concat (map (\<lambda>rows. concat (map res_value rows)) sets)"

lemma add_rows_append:
  "add_rows (xs @ ys) rl s =
     (case add_rows xs rl s of (Ok _, rl, s) \<Rightarrow> add_rows ys rl s | r \<Rightarrow> r)"
proof (induction xs arbitrary: rl s)
  case (Cons x xs)
  obtain r rl1 s1 where "AddRow True x rl s = (r, rl1, s1)" by (metis prod_cases3)
  with Cons show ?case by (cases r) simp_all
qed simp

lemma read_result_set_Ok:
  "read_result_set rows n rl s = (Ok k, rl', s') \<Longrightarrow>
     k = n + length rows \<and> add_rows (concat (map res_value rows)) rl s = (Ok (), rl', s') \<and>
     length (concat (map res_value rows)) = length rows"
proof (induction rows n rl s rule: read_result_set.induct)
  case (2 rt rows n rl s)
  obtain r rl1 s1 where a: "AddRow True rt rl s = (r, rl1, s1)" by (metis prod_cases3)
  with 2 show ?case by (cases r) auto
qed auto

lemma read_result_sets_Ok:
  "read_result_sets sets n rl s = (Ok k, rl', s') \<Longrightarrow>
     k = n + length (scanned sets) \<and> add_rows (scanned sets) rl s = (Ok (), rl', s') \<and>
     length (scanned sets) = length (concat sets)"
proof (induction sets arbitrary: n rl s)
  case (Cons rows sets)
  obtain r rl1 s1 where a: "read_result_set rows n rl s = (r, rl1, s1)" by (metis prod_cases3)
  with Cons.prems obtain m where "r = Ok m" "read_result_sets sets m rl1 s1 = (Ok k, rl', s')"
    by (cases r) auto
  with Cons.IH [of m rl1 s1] read_result_set_Ok [of rows n rl s m rl1 s1] a show ?case
    by (simp add: scanned_def add_rows_append)
qed (simp add: scanned_def)

lemma read_result_set_frame:
  "read_result_set rows n rl s = (r, rl', s') \<Longrightarrow>
     sinkState s' = sinkState s \<and> terminateChan s' = terminateChan s"
proof (induction rows n rl s rule: read_result_set.induct)
  case (2 rt rows n rl s)
  obtain q rl1 s1 where a: "AddRow True rt rl s = (q, rl1, s1)" by (metis prod_cases3)
  with 2 AddRow_frame [OF a] show ?case by (cases q) auto
qed auto

lemma read_result_sets_frame:
  "read_result_sets sets n rl s = (r, rl', s') \<Longrightarrow>
     sinkState s' = sinkState s \<and> terminateChan s' = terminateChan s"
proof (induction sets arbitrary: n rl s)
  case (Cons rows sets)
  obtain q rl1 s1 where a: "read_result_set rows n rl s = (q, rl1, s1)" by (metis prod_cases3)
  with Cons read_result_set_frame [OF a] show ?case by (cases q) auto
qed simp

lemma Finish_no_error: "Finish d n s \<noteq> (Err e, s')"
proof (cases "flush d False True s")
  case (Pair r t)
  with flush_no_error [of d True s] show ?thesis
    by (cases "sinkState s"; cases r) (auto simp: Finish_def)
qed

text \<open>C34: reading a connection reports success only for a complete read. On success the number of
  rows reported is the number of rows of all result sets, every one of them was scanned and
  handed to the sink in order, and the sink was then finished; on an error (of the query, of the
  transformer, of a scan, of the sink or of the rows) the sink is not finished, so that the result queue of the request is not closed for it.\<close>

theorem read_connection_complete:
  assumes "doReadSplitSingleConn query rl s = (r, rl', s')"
    and "sinkState s = sinkOperational" and "terminateChan s = 0"
  shows "case r of
           Ok n \<Rightarrow> \<exists>rows s1. query = Ok rows \<and> rows_transformer rows = Ok () \<and> rows_err rows = None \<and>
             n = length (concat (result_sets rows)) \<and> length (scanned (result_sets rows)) = n \<and>
             add_rows (scanned (result_sets rows)) rl s = (Ok (), rl', s1) \<and>
             Finish True True s1 = (Ok (), s') \<and> sinkState s' = sinkFinished
         | Err e \<Rightarrow> sinkState s' = sinkOperational \<and> terminateChan s' = 0
         | Panic p \<Rightarrow> True"
proof (cases "\<exists>rows. query = Ok rows \<and> rows_transformer rows = Ok ()")
  case True
  then obtain rows where Ok: "query = Ok rows" "rows_transformer rows = Ok ()" by blast
  obtain q rl1 s1 where a: "read_result_sets (result_sets rows) 0 rl s = (q, rl1, s1)" by (metis prod_cases3)
  note frame = read_result_sets_frame [OF a]
  show ?thesis
  proof (cases q)
    case q: (Ok n)
    obtain f s2 where fin: "Finish True True s1 = (f, s2)" by (cases "Finish True True s1")
    have "f \<noteq> Err e" for e using fin Finish_no_error [of True True s1] by auto
    then have f: "f = Ok () \<or> (\<exists>p. f = Panic p)" by (cases f) auto
    note sets = read_result_sets_Ok [OF a [unfolded q]]
    show ?thesis
    proof (cases "rows_err rows")
      case (Some e)
      with assms(1) have "r = Err (Wrap ''rows error'' e)" "s' = s1"
        by (simp_all add: doReadSplitSingleConn_def Ok a q)
      with frame assms(2,3) show ?thesis by simp
    next
      case None
      show ?thesis
      proof (cases "f = Ok ()")
        case True
        with assms(1) None have "r = Ok n" "s' = s2" "rl' = rl1"
          by (simp_all add: doReadSplitSingleConn_def Ok a q fin)
        moreover have "sinkState s2 = sinkFinished"
          using Finish_effect [OF fin [unfolded True]] frame assms(2) by simp
        ultimately show ?thesis
          using sets fin True None Ok by simp
      next
        case False
        with f assms(1) None obtain p where "r = Panic p"
          by (auto simp: doReadSplitSingleConn_def Ok a q fin)
        then show ?thesis by simp
      qed
    qed
  qed (use assms a Ok frame in \<open>auto simp: doReadSplitSingleConn_def\<close>)
next
  case False
  then show ?thesis using assms by (auto simp: doReadSplitSingleConn_def split: res.splits)
qed

definition demo_query :: "nat driver_rows res" where
  "demo_query = Ok \<lparr>rows_transformer = Ok (), result_sets = [[Ok (demo_row 7)], [Ok (demo_row 8)]], rows_err = None\<rparr>"

theorem read_connection_complete_witness:
  "\<exists>rl' s'. doReadSplitSingleConn demo_query readLimiterNoop (new_sink demo_factory 0 1 (Columns [[]])) = (Ok 2, rl', s') \<and>
     sinkState s' = sinkFinished"
proof -
  let ?s = "new_sink demo_factory 0 1 (Columns [[]]) :: nat sink"
  have "fst (doReadSplitSingleConn demo_query readLimiterNoop ?s) = Ok 2" by code_simp
  then obtain rl' s' where r: "doReadSplitSingleConn demo_query readLimiterNoop ?s = (Ok 2, rl', s')"
    by (metis prod.collapse)
  from read_connection_complete [OF r] have "sinkState s' = sinkFinished" by (auto simp: new_sink_def)
  with r show ?thesis by blast
qed

section \<open>ReadSplits: from the result queue to the stream\<close>

record response =
  resp_payload :: string
  resp_stats :: "traffic_stats option"
  resp_success :: bool

text \<open>
  \<^verbatim>\<open>sendResultToStream\<close> up to the send: the page is serialised, the statistics attached, and a
  terminal message marked as successful.
\<close>

definition makeResponse :: "('c buffer \<Rightarrow> string res) \<Rightarrow> 'c read_result \<Rightarrow> response res" where
  "makeResponse encode r =
     (case rr_buffer r of
        None \<Rightarrow> Panic ''nil pointer dereference''
      | Some b \<Rightarrow>
          bind_res (wrap_res ''buffer to response'' (encode b)) (\<lambda>bytes.
            Ok \<lparr>resp_payload = bytes, resp_stats = rr_stats r, resp_success = rr_terminal r\<rparr>))"

record 'c read_streamer =
  rs_queue :: "'c read_result list"
  rs_closed :: bool
  rs_errorChan :: "go_error option option"
  rs_produced :: "'c read_result list"
  rs_sent :: "response list"
  rs_outcome :: "unit res option"

definition rs_init :: "'c read_streamer" where
  "rs_init = \<lparr>rs_queue = [], rs_closed = False, rs_errorChan = None, rs_produced = [], rs_sent = [],
              rs_outcome = None\<rparr>"

text \<open>
  The producer side enqueues results, closes the queue and reports the outcome of
  \<^verbatim>\<open>ReadSplit\<close> on the error channel; the consumer side is the loop of \<^verbatim>\<open>writeDataToStream\<close>.
\<close>

inductive rs_step :: "('c buffer \<Rightarrow> string res) \<Rightarrow> 'c read_streamer \<Rightarrow> 'c read_streamer \<Rightarrow> bool"
  for encode where
  produce: "\<not> rs_closed s \<Longrightarrow>
     rs_step encode s (s\<lparr>rs_queue := rs_queue s @ [r], rs_produced := rs_produced s @ [r]\<rparr>)"
| close_queue: "rs_step encode s (s\<lparr>rs_closed := True\<rparr>)"
| report: "rs_step encode s (s\<lparr>rs_errorChan := Some e\<rparr>)"
| queue_closed:
    "rs_outcome s = None \<Longrightarrow> rs_queue s = [] \<Longrightarrow> rs_closed s \<Longrightarrow>
     rs_step encode s (s\<lparr>rs_outcome := Some (Ok ())\<rparr>)"
| result_error:
    "rs_outcome s = None \<Longrightarrow> rs_queue s = r # q \<Longrightarrow> rr_error r = Some e \<Longrightarrow>
     rs_step encode s (s\<lparr>rs_queue := q, rs_outcome := Some (Err (Wrap ''read result'' e))\<rparr>)"
| result_sent:
    "rs_outcome s = None \<Longrightarrow> rs_queue s = r # q \<Longrightarrow> rr_error r = None \<Longrightarrow>
     makeResponse encode r = Ok resp \<Longrightarrow>
     rs_step encode s (s\<lparr>rs_queue := q, rs_sent := rs_sent s @ [resp]\<rparr>)"
| result_not_encoded:
    "rs_outcome s = None \<Longrightarrow> rs_queue s = r # q \<Longrightarrow> rr_error r = None \<Longrightarrow>
     makeResponse encode r = Err e \<Longrightarrow>
     rs_step encode s (s\<lparr>rs_queue := q, rs_outcome := Some (Err (Wrap ''send buffer to stream'' e))\<rparr>)"
| send_failed:
    "rs_outcome s = None \<Longrightarrow> rs_queue s = r # q \<Longrightarrow> rr_error r = None \<Longrightarrow>
     rs_step encode s (s\<lparr>rs_queue := q,
       rs_outcome := Some (Err (Wrap ''send buffer to stream'' (Wrap ''stream send'' e)))\<rparr>)"
| read_error:
    "rs_outcome s = None \<Longrightarrow> rs_errorChan s = Some (Some e) \<Longrightarrow>
     rs_step encode s (s\<lparr>rs_errorChan := None, rs_outcome := Some (Err (Wrap ''error'' e))\<rparr>)"
| read_done:
    "rs_outcome s = None \<Longrightarrow> rs_errorChan s = Some None \<Longrightarrow>
     rs_step encode s (s\<lparr>rs_errorChan := None\<rparr>)"
| context_done:
    "rs_outcome s = None \<Longrightarrow> rs_step encode s (s\<lparr>rs_outcome := Some (Err e)\<rparr>)"

inductive rs_reach :: "('c buffer \<Rightarrow> string res) \<Rightarrow> 'c read_streamer \<Rightarrow> bool" for encode where
  rs_start: "rs_reach encode rs_init"
| rs_next: "rs_reach encode s \<Longrightarrow> rs_step encode s s' \<Longrightarrow> rs_reach encode s'"

text \<open>While the loop runs and after its success, the responses are those of the dequeued results.\<close>

definition rs_inv :: "('c buffer \<Rightarrow> string res) \<Rightarrow> 'c read_streamer \<Rightarrow> bool" where
  "rs_inv encode s \<longleftrightarrow>
     (rs_outcome s = None \<or> rs_outcome s = Some (Ok ()) \<longrightarrow>
        (\<exists>taken. rs_produced s = taken @ rs_queue s \<and>
           list_all2 (\<lambda>r resp. rr_error r = None \<and> makeResponse encode r = Ok resp) taken (rs_sent s))) \<and>
     (rs_outcome s = Some (Ok ()) \<longrightarrow> rs_closed s \<and> rs_queue s = [])"

lemma rs_inv_reach: "rs_reach encode s \<Longrightarrow> rs_inv encode s"
proof (induction rule: rs_reach.induct)
  case rs_start
  then show ?case by (simp add: rs_inv_def rs_init_def)
next
  case (rs_next s s')
  from rs_next(2) rs_next(3) show ?case
  proof (cases rule: rs_step.cases)
    case (result_sent r q resp)
    with rs_next(3) show ?thesis
      by (auto simp: rs_inv_def list_all2_appendI)
  qed (auto simp: rs_inv_def)
qed

text \<open>C35: ReadSplits ends successfully only after everything was sent. In every interleaving of
  the data source with the streaming loop, when the loop returns without an error the queue was
  closed, and the responses sent to the client are, in order and one for one, those of all the
  results the sinks produced, none of which carried an error.\<close>

theorem read_stream_complete:
  assumes "rs_reach encode s" and "rs_outcome s = Some (Ok ())"
  shows "rs_closed s \<and>
         list_all2 (\<lambda>r resp. rr_error r = None \<and> makeResponse encode r = Ok resp) (rs_produced s) (rs_sent s)"
  using rs_inv_reach [OF assms(1)] assms(2) by (auto simp: rs_inv_def)

theorem read_stream_complete_witness:
  "let s = (rs_init :: nat read_streamer)\<lparr>rs_closed := True, rs_outcome := Some (Ok ())\<rparr> in
   rs_closed s \<and> list_all2 (\<lambda>r resp. rr_error r = None \<and> makeResponse (\<lambda>b. Ok '''') r = Ok resp) (rs_produced s) (rs_sent s)"
proof -
  let ?c = "(rs_init :: nat read_streamer)\<lparr>rs_closed := True\<rparr>"
  have "rs_reach (\<lambda>b. Ok '''') ?c" by (rule rs_next [OF rs_start close_queue])
  then have "rs_reach (\<lambda>b. Ok '''') (?c\<lparr>rs_outcome := Some (Ok ())\<rparr>)"
    by (rule rs_next [OF _ queue_closed]) (simp_all add: rs_init_def)
  from read_stream_complete [OF this] show ?thesis by (simp add: Let_def)
qed

section \<open>ListSplits\<close>

text \<open>A split found by the data source: the SELECT it belongs to and its description, if any.\<close>

record ('q, 'd) list_split_result =
  lr_select :: 'q
  lr_description :: "'d option"

record 'q split_response =
  sr_select :: 'q
  sr_description :: string
  sr_id :: u64

definition sendResultToStream ::
  "('d \<Rightarrow> string res) \<Rightarrow> nat \<Rightarrow> ('q, 'd) list_split_result \<Rightarrow> 'q split_response res" where
  "sendResultToStream marshal splitCounter result =
     bind_res
       (case lr_description result of
          Some d \<Rightarrow> wrap_res ''marshal description to JSON'' (marshal d)
        | None \<Rightarrow> Ok '''')
       (\<lambda>description.
          Ok \<lparr>sr_select = lr_select result, sr_description = description, sr_id = of_nat splitCounter\<rparr>)"

record ('q, 'd) list_streamer =
  ls_pending :: "('q, 'd) list_split_result list"
  ls_final :: "go_error option"
  ls_returned :: bool
  ls_resultChan :: "('q, 'd) list_split_result list"
  ls_closed :: bool
  ls_errChan :: "go_error option option"
  ls_splitCounter :: nat
  ls_sent :: "'q split_response list"
  ls_outcome :: "unit res option"

definition ls_init :: "('q, 'd) list_split_result list \<Rightarrow> go_error option \<Rightarrow> ('q, 'd) list_streamer" where
  "ls_init results final =
     \<lparr>ls_pending = results, ls_final = final, ls_returned = False, ls_resultChan = [], ls_closed = False,
      ls_errChan = None, ls_splitCounter = 0, ls_sent = [], ls_outcome = None\<rparr>"

text \<open>
  The goroutine emits the splits into a channel of capacity 32, puts the outcome of
  \<^verbatim>\<open>ListSplits\<close> into the buffered error channel and then closes the result channel; the loop of
  \<^verbatim>\<open>Run\<close> selects among the result channel, the error channel and the context.
\<close>

inductive ls_step :: "('d \<Rightarrow> string res) \<Rightarrow> ('q, 'd) list_streamer \<Rightarrow> ('q, 'd) list_streamer \<Rightarrow> bool"
  for marshal where
  emit:
    "ls_pending s = x # xs \<Longrightarrow> length (ls_resultChan s) < 32 \<Longrightarrow>
     ls_step marshal s (s\<lparr>ls_pending := xs, ls_resultChan := ls_resultChan s @ [x]\<rparr>)"
| return_from_source:
    "ls_pending s = [] \<Longrightarrow> \<not> ls_returned s \<Longrightarrow>
     ls_step marshal s (s\<lparr>ls_returned := True, ls_errChan := Some (ls_final s)\<rparr>)"
| close_channel:
    "ls_returned s \<Longrightarrow> ls_step marshal s (s\<lparr>ls_closed := True\<rparr>)"
| all_responded:
    "ls_outcome s = None \<Longrightarrow> ls_resultChan s = [] \<Longrightarrow> ls_closed s \<Longrightarrow>
     ls_step marshal s (s\<lparr>ls_outcome := Some (Ok ())\<rparr>)"
| split_sent:
    "ls_outcome s = None \<Longrightarrow> ls_resultChan s = x # q \<Longrightarrow>
     sendResultToStream marshal (ls_splitCounter s) x = Ok resp \<Longrightarrow>
     ls_step marshal s (s\<lparr>ls_resultChan := q, ls_sent := ls_sent s @ [resp],
       ls_splitCounter := ls_splitCounter s + 1\<rparr>)"
| split_failed:
    "ls_outcome s = None \<Longrightarrow> ls_resultChan s = x # q \<Longrightarrow>
     ls_step marshal s (s\<lparr>ls_resultChan := q, ls_outcome := Some (Err (Wrap ''send result to stream'' e))\<rparr>)"
| list_error:
    "ls_outcome s = None \<Longrightarrow> ls_errChan s = Some (Some e) \<Longrightarrow>
     ls_step marshal s (s\<lparr>ls_errChan := None, ls_outcome := Some (Err e)\<rparr>)"
| list_done:
    "ls_outcome s = None \<Longrightarrow> ls_errChan s = Some None \<Longrightarrow>
     ls_step marshal s (s\<lparr>ls_errChan := None\<rparr>)"
| list_cancelled:
    "ls_outcome s = None \<Longrightarrow> ls_step marshal s (s\<lparr>ls_outcome := Some (Err e)\<rparr>)"

inductive ls_reach :: "('d \<Rightarrow> string res) \<Rightarrow> ('q, 'd) list_streamer \<Rightarrow> ('q, 'd) list_streamer \<Rightarrow> bool"
  for marshal s0 where
  ls_start: "ls_reach marshal s0 s0"
| ls_next: "ls_reach marshal s0 s \<Longrightarrow> ls_step marshal s s' \<Longrightarrow> ls_reach marshal s0 s'"

text \<open>The response for the split number \<open>i\<close>: its number, the SELECT and the serialised description, empty without one.\<close>

definition carries :: "('d \<Rightarrow> string res) \<Rightarrow> nat \<Rightarrow> ('q, 'd) list_split_result \<Rightarrow> 'q split_response \<Rightarrow> bool" where
  "carries marshal i x resp \<longleftrightarrow>
     sr_id resp = of_nat i \<and> sr_select resp = lr_select x \<and>
     (case lr_description x of None \<Rightarrow> sr_description resp = '''' | Some d \<Rightarrow> marshal d = Ok (sr_description resp))"

lemma sendResultToStream_carries: "sendResultToStream marshal i x = Ok resp \<Longrightarrow> carries marshal i x resp"
  by (auto simp: sendResultToStream_def carries_def res_simps split: option.splits)

definition all_carried :: "('d \<Rightarrow> string res) \<Rightarrow> ('q, 'd) list_split_result list \<Rightarrow> 'q split_response list \<Rightarrow> bool" where
  "all_carried marshal xs resps \<longleftrightarrow>
     length resps = length xs \<and> (\<forall>i < length xs. carries marshal i (xs ! i) (resps ! i))"

lemma all_carried_snoc:
  "all_carried marshal xs resps \<Longrightarrow> carries marshal (length resps) x resp \<Longrightarrow> all_carried marshal (xs @ [x]) (resps @ [resp])"
  by (auto simp: all_carried_def nth_append less_Suc_eq)

lemma drop_first: "drop n xs = x # ys \<Longrightarrow> take (Suc n) xs = take n xs @ [x] \<and> drop (Suc n) xs = ys"
  by (metis drop_Suc drop_eq_Nil2 drop_tl hd_drop_conv_nth leI list.discI list.sel(1) list.sel(3) take_Suc_conv_app_nth)

definition ls_inv :: "('d \<Rightarrow> string res) \<Rightarrow> ('q, 'd) list_split_result list \<Rightarrow> ('q, 'd) list_streamer \<Rightarrow> bool" where
  "ls_inv marshal results s \<longleftrightarrow>
     ls_splitCounter s = length (ls_sent s) \<and>
     (ls_returned s \<longrightarrow> ls_pending s = []) \<and> (ls_closed s \<longrightarrow> ls_returned s) \<and>
     all_carried marshal (take (length (ls_sent s)) results) (ls_sent s) \<and>
     (ls_outcome s = None \<or> ls_outcome s = Some (Ok ()) \<longrightarrow>
        drop (length (ls_sent s)) results = ls_resultChan s @ ls_pending s) \<and>
     (ls_outcome s = Some (Ok ()) \<longrightarrow> ls_closed s \<and> ls_resultChan s = [])"

lemma ls_inv_reach: "ls_reach marshal (ls_init results final) s \<Longrightarrow> ls_inv marshal results s"
proof (induction rule: ls_reach.induct)
  case ls_start
  then show ?case by (auto simp: ls_inv_def ls_init_def all_carried_def)
next
  case (ls_next s s')
  from ls_next(2) ls_next(3) show ?case
  proof (cases rule: ls_step.cases)
    case (split_sent x q resp)
    with ls_next(3) have "drop (length (ls_sent s)) results = x # q @ ls_pending s" by (simp add: ls_inv_def)
    note rest = drop_first [OF this]
    have "carries marshal (length (ls_sent s)) x resp"
      using sendResultToStream_carries [OF split_sent(4)] ls_next(3) by (simp add: ls_inv_def)
    with all_carried_snoc [of marshal "take (length (ls_sent s)) results"] rest split_sent ls_next(3) show ?thesis
      by (simp add: ls_inv_def)
  qed (auto simp: ls_inv_def)
qed

lemma ls_inv_answers:
  assumes "ls_inv marshal results s"
  shows "length (ls_sent s) \<le> length results \<and> (ls_outcome s = Some (Ok ()) \<longrightarrow> length (ls_sent s) = length results) \<and>
    (\<forall>i < length (ls_sent s). carries marshal i (results ! i) (ls_sent s ! i))"
proof -
  let ?n = "length (ls_sent s)"
  from assms have c: "all_carried marshal (take ?n results) (ls_sent s)"
    and "ls_outcome s = Some (Ok ()) \<longrightarrow> drop ?n results = []" by (auto simp: ls_inv_def)
  moreover from c have "?n \<le> length results" by (simp add: all_carried_def min_def split: if_splits)
  ultimately show ?thesis by (auto simp: all_carried_def)
qed

text \<open>C36: the splits that a data source lists are answered one by one. In every reachable state of the
  streamer the responses sent so far belong to the first splits of the list, in order and without gaps: the response
  for split number \<open>i\<close> carries the number \<open>i\<close>, the SELECT of the split and its serialised description. When the call
  succeeds, every listed split was answered.\<close>

theorem list_splits_numbered_and_complete:
  assumes "ls_reach marshal (ls_init results final) s"
  shows "length (ls_sent s) \<le> length results \<and>
         (\<forall>i < length (ls_sent s). carries marshal i (results ! i) (ls_sent s ! i)) \<and>
         (ls_outcome s = Some (Ok ()) \<longrightarrow> length (ls_sent s) = length results)"
  using ls_inv_answers [OF ls_inv_reach [OF assms]] by blast

text \<open>An error of the data source can be lost. There is an interleaving in which
  \<^verbatim>\<open>ListSplits\<close> of the data source fails and yet the streamer reports success: the error channel and
  the closed result channel are both ready, and the select takes the latter.\<close>

theorem list_splits_error_lost:
  "\<exists>s. ls_reach marshal (ls_init [] (Some e)) s \<and> ls_errChan s = Some (Some e) \<and> ls_outcome s = Some (Ok ())"
proof -
  let ?s0 = "ls_init [] (Some e)"
  let ?s1 = "?s0\<lparr>ls_returned := True, ls_errChan := Some (Some e)\<rparr>"
  let ?s2 = "?s1\<lparr>ls_closed := True\<rparr>"
  have "ls_step marshal ?s0 ?s1" using return_from_source [of ?s0 marshal] by (simp add: ls_init_def)
  moreover have "ls_step marshal ?s1 ?s2" by (rule close_channel) simp
  moreover have "ls_step marshal ?s2 (?s2\<lparr>ls_outcome := Some (Ok ())\<rparr>)"
    by (rule all_responded) (simp_all add: ls_init_def)
  ultimately have "ls_reach marshal ?s0 (?s2\<lparr>ls_outcome := Some (Ok ())\<rparr>)"
    by (blast intro: ls_start ls_next)
  then show ?thesis by (rule exI [rotated, where x = "?s2\<lparr>ls_outcome := Some (Ok ())\<rparr>", OF conjI]) simp
qed

definition demo_listed :: "(string, string) list_split_result" where
  "demo_listed = \<lparr>lr_select = ''q'', lr_description = Some ''tablet''\<rparr>"

definition demo_answered :: "(string, string) list_streamer" where
  "demo_answered = (ls_init [demo_listed] None)\<lparr>ls_pending := [], ls_splitCounter := 1,
     ls_sent := [\<lparr>sr_select = ''q'', sr_description = ''tablet'', sr_id = 0\<rparr>]\<rparr>"

lemma demo_answered_reached: "ls_reach Ok (ls_init [demo_listed] None) demo_answered"
proof -
  let ?s0 = "ls_init [demo_listed] None" and ?resp = "\<lparr>sr_select = ''q'', sr_description = ''tablet'', sr_id = 0\<rparr>"
  let ?s1 = "?s0\<lparr>ls_pending := [], ls_resultChan := [demo_listed]\<rparr>"
  have "ls_step Ok ?s0 ?s1" using emit [of ?s0 demo_listed "[]" Ok] by (simp add: ls_init_def)
  moreover have "sendResultToStream Ok 0 demo_listed = Ok ?resp" by (simp add: sendResultToStream_def demo_listed_def)
  then have "ls_step Ok ?s1 demo_answered"
    using split_sent [of ?s1 demo_listed "[]" Ok ?resp] by (simp add: ls_init_def demo_answered_def)
  ultimately show ?thesis by (blast intro: ls_start ls_next)
qed

theorem list_splits_numbered_and_complete_witness:
  "length (ls_sent demo_answered) = 1 \<and> carries Ok 0 demo_listed (ls_sent demo_answered ! 0)"
  using list_splits_numbered_and_complete [OF demo_answered_reached] by (simp add: demo_answered_def)

end
