(* ===== verification/ApiErrors.thy ===== *)
theory ApiErrors
  imports SqlModel
begin

text \<open>
  The translation of Go errors into API errors (\<^verbatim>\<open>src/common/errors.go\<close>). What the drivers tell
  about an error (\<^verbatim>\<open>errors.As\<close> with their types, their predicates and code constants) is the
  record \<open>drivers\<close>, a parameter; the order in which Go iterates over the map of status names is
  part of it. The two regular expressions of the file are spelled out.
\<close>

section \<open>Statuses and API errors\<close>

datatype status_code =
    STATUS_CODE_UNSPECIFIED | SUCCESS | BAD_REQUEST | UNAUTHORIZED | INTERNAL_ERROR | UNAVAILABLE
  | OVERLOADED | NOT_FOUND | UNSUPPORTED | TIMEOUT | STATUS_OTHER nat

record api_error =
  api_status :: status_code
  api_message :: string

definition NewSuccess :: api_error where
  "NewSuccess = \<lparr>api_status = SUCCESS, api_message = ''succeeded''\<rparr>"

fun IsSuccess :: "api_error option \<Rightarrow> bool res" where
  "IsSuccess None = Ok True"
| "IsSuccess (Some e) =
     (if api_status e = STATUS_CODE_UNSPECIFIED then Panic ''status uninitialized''
      else Ok (api_status e = SUCCESS))"

record drivers =
  as_ch_exception :: "go_error \<Rightarrow> (int \<times> string) option"
  ch_auth_failed :: int
  as_pg_error :: "go_error \<Rightarrow> (string \<times> string) option"
  pg_invalid_password :: string
  pg_invalid_authorization :: string
  as_mssql_error :: "go_error \<Rightarrow> string option"
  my_dbaccess_denied :: nat
  my_access_denied :: nat
  my_password_no_match :: nat
  my_bad_db :: nat
  is_ydb_error :: "go_error \<Rightarrow> bool"
  status_names :: "status_code list"
  is_operation_error :: "go_error \<Rightarrow> status_code \<Rightarrow> bool"
  is_resource_exhausted :: "go_error \<Rightarrow> bool"
  is_certificate_error :: "go_error \<Rightarrow> bool"
  mongo_is_timeout :: "go_error \<Rightarrow> bool"
  mongo_server_error :: "go_error \<Rightarrow> (int \<Rightarrow> bool) option"
  is_redis_nil :: "go_error \<Rightarrow> bool"

definition mk_error :: "status_code \<Rightarrow> string \<Rightarrow> api_error option res" where
  "mk_error st msg = Ok (Some \<lparr>api_status = st, api_message = msg\<rparr>)"

section \<open>One translator per data source\<close>

definition newAPIErrorFromClickHouseError :: "drivers \<Rightarrow> go_error \<Rightarrow> api_error option res" where
  "newAPIErrorFromClickHouseError D err =
     (case as_ch_exception D err of
        Some (code, msg) \<Rightarrow> mk_error (if code = ch_auth_failed D then UNAUTHORIZED else INTERNAL_ERROR) msg
      | None \<Rightarrow> Ok None)"

definition newAPIErrorFromPostgreSQLError :: "drivers \<Rightarrow> go_error \<Rightarrow> api_error option res" where
  "newAPIErrorFromPostgreSQLError D err =
     (case as_pg_error D err of
        Some (code, msg) \<Rightarrow>
          mk_error (if code = pg_invalid_password D \<or> code = pg_invalid_authorization D
                    then UNAUTHORIZED else INTERNAL_ERROR) msg
      | None \<Rightarrow> Ok None)"

text \<open>\<^verbatim>\<open>strconv.ParseUint(s, 10, 16)\<close> of a non-empty string of digits.\<close>

definition parse_uint16 :: "string \<Rightarrow> nat option" where
  "parse_uint16 s = (if read_dec 0 s < 2 ^ 16 then Some (read_dec 0 s) else None)"

text \<open>The leftmost match of \<^verbatim>\<open>ORA-(\d+):\<close>, its digits.\<close>

fun oracle_match :: "string \<Rightarrow> string option" where
  "oracle_match [] = None"
| "oracle_match (c # s) =
     (let rest = drop 4 (c # s); digits = takeWhile is_digit rest
      in if has_prefix (c # s) ''ORA-'' \<and> digits \<noteq> [] \<and> has_prefix (dropWhile is_digit rest) '':''
         then Some digits else oracle_match s)"

definition newAPIErrorFromOracleError :: "drivers \<Rightarrow> go_error \<Rightarrow> api_error option res" where
  "newAPIErrorFromOracleError D err =
     (case oracle_match (error_text err) of
        None \<Rightarrow> Ok None
      | Some digits \<Rightarrow>
          (case parse_uint16 digits of
             None \<Rightarrow> Panic ''API error from Oracle error''
           | Some code \<Rightarrow>
               mk_error (if code = 1017 then UNAUTHORIZED
                         else if code = 12514 then NOT_FOUND else INTERNAL_ERROR) (error_text err)))"

definition newAPIErrorFromMsSQLServer :: "drivers \<Rightarrow> go_error \<Rightarrow> api_error option res" where
  "newAPIErrorFromMsSQLServer D err =
     (case as_mssql_error D err of
        Some msg \<Rightarrow>
          mk_error (if str_contains msg ''Login failed'' then UNAUTHORIZED else INTERNAL_ERROR) (error_text err)
      | None \<Rightarrow> Ok None)"

text \<open>The leftmost match of \<^verbatim>\<open>\d+\<close>.\<close>

definition mysql_match :: "string \<Rightarrow> string" where
  "mysql_match s = takeWhile is_digit (dropWhile (\<lambda>c. \<not> is_digit c) s)"

definition newAPIErrorFromMySQLError :: "drivers \<Rightarrow> go_error \<Rightarrow> api_error option res" where
  "newAPIErrorFromMySQLError D err =
     (let errorText = error_text err; m = mysql_match errorText
      in case (if m \<noteq> '''' then parse_uint16 m else Some 0) of
           None \<Rightarrow> Panic ''value out of range''
         | Some code \<Rightarrow>
             mk_error (if code = my_dbaccess_denied D \<or> code = my_access_denied D \<or> code = my_password_no_match D
                       then UNAUTHORIZED
                       else if code = my_bad_db D then NOT_FOUND else INTERNAL_ERROR) errorText)"

fun ydb_status_loop :: "drivers \<Rightarrow> go_error \<Rightarrow> status_code list \<Rightarrow> api_error option res" where
  "ydb_status_loop D err [] = Ok None"
| "ydb_status_loop D err (st # sts) =
     (if is_operation_error D err st then mk_error st (error_text err)
      else if is_resource_exhausted D err then mk_error OVERLOADED (error_text err)
      else ydb_status_loop D err sts)"

definition newAPIErrorFromYdbError :: "drivers \<Rightarrow> go_error \<Rightarrow> api_error option res" where
  "newAPIErrorFromYdbError D err =
     (if is_ydb_error D err then ydb_status_loop D err (status_names D) else Ok None)"

definition newAPIErrorFromTLSError :: "drivers \<Rightarrow> go_error \<Rightarrow> api_error option res" where
  "newAPIErrorFromTLSError D err =
     (if is_certificate_error D err then mk_error UNAVAILABLE (error_text err) else Ok None)"

definition newAPIErrorFromMongoDbError :: "drivers \<Rightarrow> go_error \<Rightarrow> api_error option res" where
  "newAPIErrorFromMongoDbError D err =
     mk_error
       (if mongo_is_timeout D err then TIMEOUT
        else (case mongo_server_error D err of
                Some has_code \<Rightarrow>
                  if has_code 7 then NOT_FOUND
                  else if has_code 13 \<or> has_code 18 then UNAUTHORIZED
                  else INTERNAL_ERROR
              | None \<Rightarrow> STATUS_CODE_UNSPECIFIED))
       (error_text err)"

definition newAPIErrorFromRedisError :: "drivers \<Rightarrow> go_error \<Rightarrow> api_error option res" where
  "newAPIErrorFromRedisError D err =
     mk_error
       (if is_redis_nil D err then NOT_FOUND
        else if str_contains (error_text err) ''NOAUTH'' \<or> str_contains (error_text err) ''WRONGPASS'' then UNAUTHORIZED
        else if str_contains (error_text err) ''LOADING'' then UNAVAILABLE
        else INTERNAL_ERROR)
       (error_text err)"

definition newAPIErrorFromOpenSearchError :: "drivers \<Rightarrow> go_error \<Rightarrow> api_error option res" where
  "newAPIErrorFromOpenSearchError D err =
     (let errMsg = error_text err
      in mk_error
           (if str_contains errMsg ''connection refused'' \<or> str_contains errMsg ''no such host'' then UNAVAILABLE
            else if str_contains errMsg ''401 Unauthorized'' then UNAUTHORIZED
            else if str_contains errMsg ''index_not_found_exception'' then NOT_FOUND
            else if str_contains errMsg ''parsing_exception'' \<or> str_contains errMsg ''illegal_argument_exception''
            then BAD_REQUEST
            else if str_contains errMsg ''cluster_block_exception'' then UNAVAILABLE
            else INTERNAL_ERROR)
           errMsg)"

text \<open>The switch of \<^verbatim>\<open>newAPIErrorFromConnectorError\<close>, in its order.\<close>

definition connector_cases :: "(sentinel \<times> status_code) list" where
  "connector_cases =
     [(ErrTableDoesNotExist, NOT_FOUND),
      (ErrReadLimitExceeded, BAD_REQUEST),
      (ErrInvalidRequest, BAD_REQUEST),
      (ErrDataSourceNotSupported, UNSUPPORTED),
      (ErrDataTypeNotSupported, UNSUPPORTED),
      (ErrDataTypeMismatch, UNSUPPORTED),
      (ErrValueOutOfTypeBounds, UNSUPPORTED),
      (ErrUnimplementedTypedValue, UNSUPPORTED),
      (ErrUnimplementedExpression, UNSUPPORTED),
      (ErrUnimplementedOperation, UNSUPPORTED),
      (ErrUnimplementedPredicateType, UNSUPPORTED),
      (ErrUnimplementedArithmeticalExpression, UNSUPPORTED),
      (ErrEmptyTableName, BAD_REQUEST),
      (ErrPageSizeExceeded, INTERNAL_ERROR),
      (ErrUnsupportedExpression, UNSUPPORTED)]"

fun switch_is :: "go_error \<Rightarrow> (sentinel \<times> status_code) list \<Rightarrow> status_code" where
  "switch_is err [] = INTERNAL_ERROR"
| "switch_is err ((s, st) # cs) = (if errors_is err s then st else switch_is err cs)"

definition newAPIErrorFromConnectorError :: "go_error \<Rightarrow> api_error" where
  "newAPIErrorFromConnectorError err =
     \<lparr>api_status = switch_is err connector_cases, api_message = error_text err\<rparr>"

fun datasource_error :: "drivers \<Rightarrow> go_error \<Rightarrow> data_source_kind \<Rightarrow> api_error option res" where
  "datasource_error D err KIND_UNSPECIFIED = Ok None"
| "datasource_error D err CLICKHOUSE = newAPIErrorFromClickHouseError D err"
| "datasource_error D err POSTGRESQL = newAPIErrorFromPostgreSQLError D err"
| "datasource_error D err GREENPLUM = newAPIErrorFromPostgreSQLError D err"
| "datasource_error D err MYSQL = newAPIErrorFromMySQLError D err"
| "datasource_error D err YDB = newAPIErrorFromYdbError D err"
| "datasource_error D err ORACLE = newAPIErrorFromOracleError D err"
| "datasource_error D err MS_SQL_SERVER = newAPIErrorFromMsSQLServer D err"
| "datasource_error D err LOGGING = newAPIErrorFromYdbError D err"
| "datasource_error D err MONGO_DB = newAPIErrorFromMongoDbError D err"
| "datasource_error D err REDIS = newAPIErrorFromRedisError D err"
| "datasource_error D err OPENSEARCH = newAPIErrorFromOpenSearchError D err"
| "datasource_error D err kind = Panic ''Unexpected data source kind''"

definition NewAPIErrorFromStdError :: "drivers \<Rightarrow> go_error option \<Rightarrow> data_source_kind \<Rightarrow> api_error res" where
  "NewAPIErrorFromStdError D err kind =
     (case err of
        None \<Rightarrow> Panic ''nil error''
      | Some err \<Rightarrow>
          bind_res (datasource_error D err kind) (\<lambda>a.
            case a of
              Some a \<Rightarrow> Ok a
            | None \<Rightarrow>
                bind_res (newAPIErrorFromTLSError D err) (\<lambda>t.
                  case t of Some t \<Rightarrow> Ok t | None \<Rightarrow> Ok (newAPIErrorFromConnectorError err))))"

definition NewSTDErrorFromAPIError :: "api_error option \<Rightarrow> go_error option res" where
  "NewSTDErrorFromAPIError apiErr =
     bind_res (IsSuccess apiErr) (\<lambda>ok.
       if ok then Ok None
       else (case apiErr of Some e \<Rightarrow> Ok (Some (NewErr (api_message e))) | None \<Rightarrow> Ok None))"

text \<open>A nil \<^verbatim>\<open>TError\<close> of a response is dereferenced.\<close>

fun AllStreamResponsesSuccessfull :: "api_error option list \<Rightarrow> bool res" where
  "AllStreamResponsesSuccessfull [] = Ok True"
| "AllStreamResponsesSuccessfull (None # rs) = Panic ''nil pointer dereference''"
| "AllStreamResponsesSuccessfull (Some e # rs) =
     (if api_status e \<noteq> SUCCESS then Ok False else AllStreamResponsesSuccessfull rs)"

section \<open>Lemmas\<close>



lemma switch_is_status:
  "switch_is err connector_cases \<in> {NOT_FOUND, BAD_REQUEST, UNSUPPORTED, INTERNAL_ERROR}"
  by (simp add: connector_cases_def)

lemma ydb_status_loop_cases:
  "ydb_status_loop D err sts = Ok (Some a) \<Longrightarrow>
     is_operation_error D err (api_status a) \<or> api_status a = OVERLOADED"
  by (induction sts) (auto simp: mk_error_def split: if_splits)

lemma ydb_status_loop_no_err: "\<exists>x. ydb_status_loop D err sts = Ok x"
  by (induction sts) (auto simp: mk_error_def)

lemmas translator_defs =
  newAPIErrorFromClickHouseError_def newAPIErrorFromPostgreSQLError_def newAPIErrorFromMySQLError_def
  newAPIErrorFromYdbError_def newAPIErrorFromOracleError_def newAPIErrorFromMsSQLServer_def
  newAPIErrorFromMongoDbError_def newAPIErrorFromRedisError_def newAPIErrorFromOpenSearchError_def
  newAPIErrorFromTLSError_def newAPIErrorFromConnectorError_def

section \<open>Properties\<close>









text \<open>An error is never reported as a success. For every data source but MongoDB, the status
  made from an error is neither SUCCESS nor unspecified, so that the client recognises the failure
  (given that the YDB driver does not classify an error as an operation of one of these two
  statuses).\<close>

theorem api_error_is_failure:
  assumes "NewAPIErrorFromStdError D (Some err) kind = Ok a" and "kind \<noteq> MONGO_DB"
    and "\<not> is_operation_error D err SUCCESS" and "\<not> is_operation_error D err STATUS_CODE_UNSPECIFIED"
  shows "IsSuccess (Some a) = Ok False"
proof -
  have conn: "switch_is err connector_cases \<notin> {SUCCESS, STATUS_CODE_UNSPECIFIED}"
    using switch_is_status [of err] by auto
  have "api_status a \<notin> {SUCCESS, STATUS_CODE_UNSPECIFIED}"
  proof (cases "datasource_error D err kind")
    case (Ok x)
    show ?thesis
    proof (cases x)
      case None
      with Ok assms(1) conn show ?thesis
        by (auto simp: NewAPIErrorFromStdError_def newAPIErrorFromTLSError_def
            newAPIErrorFromConnectorError_def mk_error_def split: if_splits)
    next
      case (Some b)
      with Ok assms(1) have [simp]: "b = a" by (simp add: NewAPIErrorFromStdError_def)
      from Ok Some assms(2-4) show ?thesis
        by (cases kind)
           (auto simp: translator_defs mk_error_def Let_def split: option.splits if_splits
              dest!: ydb_status_loop_cases)
    qed
  qed (use assms(1) in \<open>simp_all add: NewAPIErrorFromStdError_def\<close>)
  then show ?thesis by auto
qed

text \<open>An error of MongoDB that is neither a timeout nor a server error gets no status at all,
  and the function that tests an API error for success panics on it.\<close>

theorem mongo_error_without_status:
  assumes "\<not> mongo_is_timeout D err" and "mongo_server_error D err = None"
  shows "\<exists>a. NewAPIErrorFromStdError D (Some err) MONGO_DB = Ok a \<and>
             (\<exists>m. IsSuccess (Some a) = Panic m)"
  using assms by (simp add: NewAPIErrorFromStdError_def newAPIErrorFromMongoDbError_def mk_error_def)

text \<open>For MySQL the classification of the connector's own errors is lost: the translator of
  MySQL claims every error, so that a missing table, reported as NOT_FOUND for the other relational
  sources, is an internal error; and a text whose first number exceeds 16 bits makes it panic.\<close>

theorem mysql_translator_shadows:
  assumes "0 \<notin> {my_dbaccess_denied D, my_access_denied D, my_password_no_match D, my_bad_db D}"
  shows "NewAPIErrorFromStdError D (Some (Sentinel ErrTableDoesNotExist)) MYSQL =
           Ok \<lparr>api_status = INTERNAL_ERROR, api_message = ''table does not exist''\<rparr> \<and>
         NewAPIErrorFromStdError D (Some (NewErr ''table 100000 is broken'')) MYSQL = Panic ''value out of range''"
  using assms
  by (auto simp: NewAPIErrorFromStdError_def newAPIErrorFromMySQLError_def mysql_match_def is_digit_def
      mk_error_def parse_uint16_def digit_val_def Let_def)

section \<open>Witnesses\<close>

definition demo_drivers :: drivers where
  "demo_drivers =
     \<lparr>as_ch_exception = (\<lambda>e. None), ch_auth_failed = 516, as_pg_error = (\<lambda>e. None),
      pg_invalid_password = ''28P01'', pg_invalid_authorization = ''28000'', as_mssql_error = (\<lambda>e. None),
      my_dbaccess_denied = 1044, my_access_denied = 1045, my_password_no_match = 1133, my_bad_db = 1049,
      is_ydb_error = (\<lambda>e. False), status_names = [SUCCESS, BAD_REQUEST],
      is_operation_error = (\<lambda>e s. False), is_resource_exhausted = (\<lambda>e. False),
      is_certificate_error = (\<lambda>e. False), mongo_is_timeout = (\<lambda>e. False),
      mongo_server_error = (\<lambda>e. None), is_redis_nil = (\<lambda>e. False)\<rparr>"


theorem api_error_is_failure_witness:
  "IsSuccess (Some \<lparr>api_status = INTERNAL_ERROR, api_message = ''boom''\<rparr>) = Ok False"
  using api_error_is_failure [of demo_drivers "NewErr ''boom''" CLICKHOUSE
      "\<lparr>api_status = INTERNAL_ERROR, api_message = ''boom''\<rparr>"]
  by (simp add: demo_drivers_def NewAPIErrorFromStdError_def newAPIErrorFromClickHouseError_def
      newAPIErrorFromTLSError_def newAPIErrorFromConnectorError_def connector_cases_def)

theorem mongo_error_without_status_witness:
  "\<exists>a. NewAPIErrorFromStdError demo_drivers (Some (NewErr ''boom'')) MONGO_DB = Ok a \<and>
       (\<exists>m. IsSuccess (Some a) = Panic m)"
  using mongo_error_without_status [of demo_drivers "NewErr ''boom''"] by (simp add: demo_drivers_def)

theorem mysql_translator_shadows_witness:
  "NewAPIErrorFromStdError demo_drivers (Some (Sentinel ErrTableDoesNotExist)) MYSQL =
     Ok \<lparr>api_status = INTERNAL_ERROR, api_message = ''table does not exist''\<rparr>"
  using mysql_translator_shadows [of demo_drivers] by (simp add: demo_drivers_def)

end
