(* ===== verification/GoTime.thy ===== *)
theory GoTime
  imports GoErrors "HOL-Library.Log_Nat"
begin

text \<open>
  Times and their YDB counterparts (\<^verbatim>\<open>src/common/time.go\<close>). A \<^verbatim>\<open>time.Time\<close> is its Unix second, the
  nanosecond within it and the offset of its location; \<^verbatim>\<open>Date\<close> and \<^verbatim>\<open>Clock\<close> follow the decomposition
  of the standard library into cycles of 400, 100, 4 and 1 years. \<^verbatim>\<open>float64\<close> is a rational
  rounded to 53 significant bits, to nearest with ties to even, which is exact in the range the
  source uses (no subnormal, no infinity).
\<close>

section \<open>time.Time\<close>

record go_time =
  unix_sec :: int
  nano :: nat
  zone :: int

definition wf_time :: "go_time \<Rightarrow> bool" where
  "wf_time t \<longleftrightarrow> - (2 ^ 61) \<le> unix_sec t \<and> unix_sec t < 2 ^ 61 \<and> nano t < 1000000000 \<and>
     - 86400 \<le> zone t \<and> zone t \<le> 86400"

definition UTC :: "go_time \<Rightarrow> go_time" where
  "UTC t = t\<lparr>zone := 0\<rparr>"

definition wall_sec :: "go_time \<Rightarrow> int" where
  "wall_sec t = unix_sec t + zone t"

definition Before :: "go_time \<Rightarrow> go_time \<Rightarrow> bool" where
  "Before t u \<longleftrightarrow> unix_sec t < unix_sec u \<or> unix_sec t = unix_sec u \<and> nano t < nano u"

definition After :: "go_time \<Rightarrow> go_time \<Rightarrow> bool" where
  "After t u = Before u t"

text \<open>Days before each month of a year that is not a leap year.\<close>

definition daysBefore :: "int list" where
  "daysBefore = [0, 31, 59, 90, 120, 151, 181, 212, 243, 273, 304, 334, 365]"

definition isLeap :: "int \<Rightarrow> bool" where
  "isLeap y \<longleftrightarrow> y mod 4 = 0 \<and> (y mod 100 \<noteq> 0 \<or> y mod 400 = 0)"

text \<open>Year and day of the year of a day counted from the first of January of year 1.\<close>

definition year_yday :: "int \<Rightarrow> int \<times> int" where
  "year_yday d0 =
     (let n400 = d0 div 146097; d1 = d0 - 146097 * n400;
          n100 = d1 div 36524 - d1 div 36524 div 4; d2 = d1 - 36524 * n100;
          n4 = d2 div 1461; d3 = d2 - 1461 * n4;
          n1 = d3 div 365 - d3 div 365 div 4; d4 = d3 - 365 * n1
      in (1 + 400 * n400 + 100 * n100 + 4 * n4 + n1, d4))"

definition month_day :: "bool \<Rightarrow> int \<Rightarrow> int \<times> int" where
  "month_day leap yday =
     (if leap \<and> yday = 59 then (2, 29)
      else
        (let day = (if leap \<and> 59 < yday then yday - 1 else yday);
             month = day div 31;
             finish = daysBefore ! nat (month + 1)
         in if finish \<le> day then (month + 2, day - finish + 1)
            else (month + 1, day - daysBefore ! nat month + 1)))"

definition Date :: "go_time \<Rightarrow> int \<times> int \<times> int" where
  "Date t =
     (let (year, yday) = year_yday (wall_sec t div 86400 + 719162)
      in (year, month_day (isLeap year) yday))"

definition Clock :: "go_time \<Rightarrow> int \<times> int \<times> int" where
  "Clock t = (let s = wall_sec t mod 86400 in (s div 3600, s mod 3600 div 60, s mod 60))"

section \<open>Dates are civil dates\<close>

text \<open>Days from the first of January of year 1 to the first of January of year \<open>y\<close>.\<close>

definition days_before_year :: "int \<Rightarrow> int" where
  "days_before_year y = 365 * (y - 1) + (y - 1) div 4 - (y - 1) div 100 + (y - 1) div 400"

definition days_before_month :: "bool \<Rightarrow> int \<Rightarrow> int" where
  "days_before_month leap m = daysBefore ! nat (m - 1) + (if leap \<and> 2 < m then 1 else 0)"

text \<open>One step of the decomposition: four years (centuries) of \<open>n\<close> days and a leap day at the end.\<close>

lemma quarter_step:
  fixes x n :: int
  assumes "0 < n" and "0 \<le> x" and "x \<le> 4 * n"
  defines "b \<equiv> x div n - x div n div 4"
  shows "0 \<le> b \<and> b \<le> 3 \<and> 0 \<le> x - n * b \<and> x - n * b \<le> n \<and> (b < 3 \<longrightarrow> x - n * b < n)"
proof -
  define q where "q = x div n"
  have q: "0 \<le> q" "q \<le> 4"
    using assms(1-3) zdiv_mono1 [of x "4 * n" n] by (simp_all add: q_def pos_imp_zdiv_nonneg_iff)
  have r: "0 \<le> x - n * q" "x - n * q < n"
    using assms(1) by (simp_all add: q_def minus_mult_div_eq_mod)
  show ?thesis
  proof (cases "q = 4")
    case True
    then have "b = 3" "x = 4 * n" using r assms(1,3) by (simp_all add: b_def q_def)
    then show ?thesis using assms(1) by simp
  next
    case False
    then have "b = q" "q \<le> 3" using q by (simp_all add: b_def flip: q_def)
    then show ?thesis using q r by auto
  qed
qed

lemma step_bounds:
  fixes x n :: int
  assumes "0 < n"
  shows "0 \<le> x - n * (x div n) \<and> x - n * (x div n) < n"
  using assms by (simp add: minus_mult_div_eq_mod)

lemma year_yday_correct:
  assumes "year_yday d = (y, yd)"
  shows "d = days_before_year y + yd \<and> 0 \<le> yd \<and> yd < (if isLeap y then 366 else 365)"
proof -
  define a where "a = d div 146097"
  define d1 where "d1 = d - 146097 * a"
  define b where "b = d1 div 36524 - d1 div 36524 div 4"
  define d2 where "d2 = d1 - 36524 * b"
  define c where "c = d2 div 1461"
  define d3 where "d3 = d2 - 1461 * c"
  define e where "e = d3 div 365 - d3 div 365 div 4"
  have y: "y = 1 + 400 * a + 100 * b + 4 * c + e" and yd: "yd = d3 - 365 * e"
    using assms by (simp_all add: year_yday_def Let_def a_def d1_def b_def d2_def c_def d3_def e_def)
  have d1: "0 \<le> d1" "d1 < 146097"
    using step_bounds [of 146097 d] by (simp_all add: d1_def a_def)
  have b: "0 \<le> b" "b \<le> 3" "0 \<le> d2" "d2 \<le> 36524" "b < 3 \<Longrightarrow> d2 < 36524"
    using quarter_step [of 36524 d1] d1 by (auto simp: b_def d2_def)
  have d3: "0 \<le> d3" "d3 \<le> 1460"
    using step_bounds [of 1461 d2] by (simp_all add: d3_def c_def)
  have c: "0 \<le> c" "c \<le> 24"
    using b(3,4) d3 by (simp_all add: c_def pos_imp_zdiv_nonneg_iff)
  have c24: "c = 24 \<Longrightarrow> b < 3 \<Longrightarrow> d3 < 1460" using b(5) by (simp add: d3_def)
  have e: "0 \<le> e" "e \<le> 3" "0 \<le> yd" "yd \<le> 365" "e < 3 \<Longrightarrow> yd < 365"
    using quarter_step [of 365 d3] d3 by (auto simp: e_def yd)
  have e': "c = 24 \<Longrightarrow> b < 3 \<Longrightarrow> yd < 365" using c24 e yd by (cases "e = 3") auto
  have div4: "(y - 1) div 4 = 100 * a + 25 * b + c" using e(1,2) unfolding y by linarith
  have div100: "(y - 1) div 100 = 4 * a + b" using c e(1,2) unfolding y by linarith
  have div400: "(y - 1) div 400 = a" using b(1,2) c e(1,2) unfolding y by linarith
  have "d = 146097 * a + 36524 * b + 1461 * c + 365 * e + yd"
    unfolding yd d3_def d2_def d1_def by simp
  then have 1: "d = days_before_year y + yd"
    by (simp only: days_before_year_def div4 div100 div400) (simp add: y)
  have leap: "isLeap y" if "yd = 365"
  proof -
    have e3: "e = 3" using e(2,5) that by linarith
    then have y': "y = 400 * a + 100 * b + 4 * (c + 1)" unfolding y by simp
    have "y mod 4 = 0" unfolding y' by presburger
    moreover have "y mod 400 = 0" if "c = 24"
    proof -
      have "b = 3" using e' \<open>yd = 365\<close> that b(2) by linarith
      with that have "y = 400 * (a + 1)" unfolding y' by simp
      then show ?thesis by simp
    qed
    moreover have "y mod 100 \<noteq> 0" if "c \<noteq> 24"
    proof -
      have "y = 4 * (c + 1) + 100 * (4 * a + b)" unfolding y' by simp
      then have "y mod 100 = 4 * (c + 1) mod 100" by (metis mod_mult_self2)
      with c that show ?thesis by simp
    qed
    ultimately show ?thesis by (cases "c = 24") (auto simp: isLeap_def)
  qed
  with 1 e(3,4) show ?thesis by (cases "yd = 365") auto
qed

definition month_day_ok :: "bool \<Rightarrow> int \<Rightarrow> bool" where
  "month_day_ok leap yd =
     (case month_day leap yd of (m, d) \<Rightarrow>
        1 \<le> m \<and> m \<le> 12 \<and> 1 \<le> d \<and> d \<le> 31 \<and> yd = days_before_month leap m + d - 1)"

lemma month_day_table: "list_all (month_day_ok True) [0..365]" "list_all (month_day_ok False) [0..364]"
  by code_simp+

lemma month_day_correct:
  assumes "month_day leap yd = (m, d)" and "0 \<le> yd" and "yd < (if leap then 366 else 365)"
  shows "1 \<le> m \<and> m \<le> 12 \<and> 1 \<le> d \<and> d \<le> 31 \<and> yd = days_before_month leap m + d - 1"
proof -
  have "month_day_ok leap yd"
    using month_day_table assms(2,3) by (cases leap) (auto simp: list_all_iff)
  with assms(1) show ?thesis by (simp add: month_day_ok_def)
qed

lemma Date_correct:
  assumes "Date t = (y, m, d)"
  shows "1 \<le> m \<and> m \<le> 12 \<and> 1 \<le> d \<and> d \<le> 31 \<and>
         wall_sec t div 86400 = days_before_year y + days_before_month (isLeap y) m + d - 1 - 719162"
proof -
  obtain yd where yy: "year_yday (wall_sec t div 86400 + 719162) = (y, yd)" and md: "month_day (isLeap y) yd = (m, d)"
    using assms by (auto simp: Date_def Let_def split: prod.splits)
  from year_yday_correct [OF yy] month_day_correct [OF md] show ?thesis by auto
qed

lemma Clock_bounds:
  assumes "Clock t = (h, mi, s)"
  shows "0 \<le> h \<and> h < 24 \<and> 0 \<le> mi \<and> mi < 60 \<and> 0 \<le> s \<and> s < 60 \<and>
         wall_sec t mod 86400 = 3600 * h + 60 * mi + s"
proof -
  define x where "x = wall_sec t mod 86400"
  define r where "r = x mod 3600"
  have eqs: "h = x div 3600" "mi = r div 60" "s = r mod 60"
    using assms by (simp_all add: Clock_def Let_def x_def r_def mod_mod_cancel)
  have x: "x = 3600 * h + r" "r = 60 * mi + s" by (simp_all add: eqs r_def)
  have "0 \<le> x" "x < 86400" "0 \<le> r" "r < 3600" "0 \<le> s" "s < 60" by (simp_all add: x_def r_def eqs)
  with x show ?thesis unfolding x_def [symmetric] by linarith
qed

section \<open>float64\<close>

definition round_half_even :: "rat \<Rightarrow> int" where
  "round_half_even x =
     (let f = \<lfloor>x\<rfloor>; r = x - of_int f
      in if r < 1 / 2 then f else if 1 / 2 < r then f + 1 else if even f then f else f + 1)"

text \<open>The binary exponent of a positive number: \<open>2 powi log2_floor x \<le> x < 2 powi (log2_floor x + 1)\<close>.\<close>

definition log2_floor :: "rat \<Rightarrow> int" where
  "log2_floor x =
     (if 1 \<le> x then int (floorlog 2 (nat \<lfloor>x\<rfloor>)) - 1 else - int (floorlog 2 (nat (\<lceil>1 / x\<rceil> - 1))))"

text \<open>The \<^verbatim>\<open>float64\<close> nearest to a non-negative number below \<open>2 ^ 53\<close>.\<close>

definition f64 :: "rat \<Rightarrow> rat" where
  "f64 x = (if x = 0 then 0
            else let scale = 2 ^ nat (52 - log2_floor x) in of_int (round_half_even (x * scale)) / scale)"

lemma round_half_even_error: "\<bar>of_int (round_half_even x) - x\<bar> \<le> 1 / 2"
proof -
  have "0 \<le> x - of_int \<lfloor>x\<rfloor>" "x - of_int \<lfloor>x\<rfloor> < 1" by (simp_all, linarith)
  then show ?thesis by (auto simp: round_half_even_def Let_def abs_le_iff)
qed

lemma round_half_even_ge: "of_int m \<le> x \<Longrightarrow> m \<le> round_half_even x"
proof -
  assume "of_int m \<le> x"
  then have "m \<le> \<lfloor>x\<rfloor>" by (simp add: le_floor_iff)
  then show ?thesis by (auto simp: round_half_even_def Let_def)
qed

lemma log2_floor_le:
  assumes "0 < x"
  shows "(if 0 \<le> log2_floor x then 2 ^ nat (log2_floor x) else 1 / 2 ^ nat (- log2_floor x)) \<le> x"
proof (cases "1 \<le> x")
  case True
  define n where "n = nat \<lfloor>x\<rfloor>"
  have n: "0 < n" "of_nat n \<le> x" using True by (simp_all add: n_def)
  have "2 ^ (floorlog 2 n - 1) \<le> n" using floorlog_bounds [OF n(1)] by simp
  then have "(2 :: rat) ^ (floorlog 2 n - 1) \<le> of_nat n" by (metis of_nat_le_iff of_nat_numeral of_nat_power)
  with n(2) have "(2 :: rat) ^ (floorlog 2 n - 1) \<le> x" by (rule order.trans [rotated])
  moreover have "floorlog 2 n > 0" using n(1) by (simp add: floorlog_def)
  then have "log2_floor x = int (floorlog 2 n - 1)" using True by (simp add: log2_floor_def n_def)
  ultimately show ?thesis by simp
next
  case False
  define n where "n = nat (\<lceil>1 / x\<rceil> - 1)"
  have "1 < 1 / x" using False assms by simp
  then have "2 \<le> \<lceil>1 / x\<rceil>" by linarith
  then have "int n = \<lceil>1 / x\<rceil> - 1" unfolding n_def by (intro nat_0_le) linarith
  with \<open>2 \<le> \<lceil>1 / x\<rceil>\<close> have "0 < n" and "int n = \<lceil>1 / x\<rceil> - 1" by linarith+
  then have "0 < n" and "(of_nat n :: rat) = of_int \<lceil>1 / x\<rceil> - 1"
    by (metis of_int_1 of_int_diff of_int_of_nat_eq)+
  with le_of_int_ceiling [of "1 / x"] have n: "0 < n" "1 / x \<le> of_nat n + 1" by linarith+
  have "n < 2 ^ floorlog 2 n" using floorlog_bounds [OF n(1)] by simp
  then have "n + 1 \<le> 2 ^ floorlog 2 n" by simp
  then have "(of_nat (n + 1) :: rat) \<le> 2 ^ floorlog 2 n"
    by (metis of_nat_le_iff of_nat_numeral of_nat_power)
  with n(2) have "1 / x \<le> 2 ^ floorlog 2 n" by simp
  with assms have "1 / 2 ^ floorlog 2 n \<le> x" by (simp add: field_simps)
  moreover have "floorlog 2 n > 0" using n(1) by (simp add: floorlog_def)
  ultimately show ?thesis using False by (simp add: log2_floor_def n_def)
qed

lemma f64_error:
  assumes "0 \<le> x" and "x < 2 ^ 53"
  shows "f64 x \<le> x * (1 + 1 / 2 ^ 53)"
proof (cases "x = 0")
  case False
  with assms have pos: "0 < x" by simp
  define e where "e = log2_floor x"
  define scale :: rat where "scale = 2 ^ nat (52 - e)"
  have le: "(if 0 \<le> e then 2 ^ nat e else 1 / 2 ^ nat (- e)) \<le> x"
    using log2_floor_le [OF pos] unfolding e_def .
  have "e \<le> 52"
  proof (rule ccontr)
    assume "\<not> e \<le> 52"
    then have "(2 :: rat) ^ 53 \<le> 2 ^ nat e" by (intro power_increasing) auto
    with le assms(2) \<open>\<not> e \<le> 52\<close> show False by simp
  qed
  then have small: "1 / scale \<le> x / 2 ^ 52"
  proof (cases "0 \<le> e")
    case True
    with \<open>e \<le> 52\<close> have "scale * 2 ^ nat e = 2 ^ 52"
      by (simp add: scale_def flip: power_add nat_add_distrib)
    moreover have "scale * 2 ^ nat e \<le> scale * x" using le True by (simp add: scale_def)
    ultimately show ?thesis by (simp add: field_simps scale_def)
  next
    case False
    then have "nat (52 - e) = 52 + nat (- e)" by simp
    then have "scale = 2 ^ 52 * 2 ^ nat (- e)" unfolding scale_def by (simp only: power_add)
    with le False show ?thesis by (simp add: field_simps)
  qed
  have "f64 x = of_int (round_half_even (x * scale)) / scale"
    using False by (simp add: f64_def e_def scale_def Let_def)
  moreover have "of_int (round_half_even (x * scale)) \<le> x * scale + 1 / 2"
    using round_half_even_error [of "x * scale"] by linarith
  then have "of_int (round_half_even (x * scale)) / scale \<le> x + 1 / scale / 2"
    by (simp add: scale_def field_simps)
  ultimately have "f64 x \<le> x + 1 / scale / 2" by simp
  also have "1 / scale / 2 \<le> x / 2 ^ 52 / 2" using small by (rule divide_right_mono) simp
  finally have "f64 x \<le> x + x / 2 ^ 52 / 2" by simp
  then show ?thesis by (simp add: algebra_simps)
qed (simp add: f64_def)

lemma f64_ge:
  assumes "of_nat n \<le> x"
  shows "of_nat n \<le> f64 x"
proof (cases "x = 0")
  case False
  define scale :: "nat" where "scale = 2 ^ nat (52 - log2_floor x)"
  have scale: "0 < scale" by (simp add: scale_def)
  have "of_int (int (n * scale)) \<le> x * of_nat scale" using assms by (simp add: mult_right_mono)
  then have "int (n * scale) \<le> round_half_even (x * of_nat scale)" by (rule round_half_even_ge)
  then have "(of_int (int (n * scale)) :: rat) \<le> of_int (round_half_even (x * of_nat scale))"
    by (simp only: of_int_le_iff)
  then have "of_nat n \<le> (of_int (round_half_even (x * of_nat scale)) :: rat) / of_nat scale"
    using scale by (simp add: field_simps)
  then show ?thesis using False by (simp add: f64_def scale_def Let_def)
qed (use assms in \<open>simp add: f64_def\<close>)

section \<open>YDB dates and times\<close>

definition minYDBTime :: go_time where
  "minYDBTime = \<lparr>unix_sec = 0, nano = 0, zone = 0\<rparr>"

definition maxYDBTime :: go_time where
  "maxYDBTime = \<lparr>unix_sec = 4291747200, nano = 0, zone = 0\<rparr>"

text \<open>\<^verbatim>\<open>t.Sub(u)\<close> in nanoseconds, saturated at the bounds of \<^verbatim>\<open>int64\<close>.\<close>

definition Sub :: "go_time \<Rightarrow> go_time \<Rightarrow> int" where
  "Sub t u =
     max (- (2 ^ 63)) (min (2 ^ 63 - 1) ((unix_sec t - unix_sec u) * 1000000000 + int (nano t) - int (nano u)))"

definition Hours :: "nat \<Rightarrow> rat" where
  "Hours d = f64 (f64 (of_nat (d div 3600000000000)) +
                  f64 (f64 (of_nat (d mod 3600000000000)) / 3600000000000))"

definition out_of_bounds :: "'a res" where
  "out_of_bounds = Err (Wrap ''convert to YDB Date'' (Sentinel ErrValueOutOfTypeBounds))"

definition TimeToYDBDate :: "go_time \<Rightarrow> u16 res" where
  "TimeToYDBDate t =
     (if Before t minYDBTime \<or> After t maxYDBTime then out_of_bounds
      else let days = f64 (Hours (nat (Sub t minYDBTime)) / 24) in Ok (word_of_int \<lfloor>days\<rfloor>))"

definition TimeToYDBDatetime :: "go_time \<Rightarrow> u32 res" where
  "TimeToYDBDatetime t =
     (if Before t minYDBTime \<or> After t maxYDBTime then out_of_bounds
      else Ok (word_of_int (unix_sec t)))"

text \<open>\<^verbatim>\<open>UnixMicro\<close>\<close>

definition UnixMicro :: "go_time \<Rightarrow> int" where
  "UnixMicro t = unix_sec t * 1000000 + int (nano t) div 1000"

definition TimeToYDBTimestamp :: "go_time \<Rightarrow> u64 res" where
  "TimeToYDBTimestamp t =
     (if Before t minYDBTime \<or> After t maxYDBTime then out_of_bounds
      else Ok (word_of_int (UnixMicro t)))"

section \<open>Exactness of the conversions\<close>

lemma f64_nat: "f64 (of_nat n) = of_nat n"
proof -
  have "round_half_even (of_int z) = z" for z by (simp add: round_half_even_def)
  from this [of "int (n * 2 ^ k)" for k]
  have "round_half_even (of_nat n * 2 ^ k) = int (n * 2 ^ k)" for k by simp
  then show ?thesis by (simp add: f64_def Let_def)
qed

lemma uint_of_nat_small: "n < 2 ^ LENGTH('a) \<Longrightarrow> uint (word_of_nat n :: 'a::len word) = int n"
  by (simp add: unsigned_of_nat take_bit_nat_eq_self)

definition in_ydb_range :: "go_time \<Rightarrow> bool" where
  "in_ydb_range t \<longleftrightarrow> nano t < 1000000000 \<and> \<not> Before t minYDBTime \<and> \<not> After t maxYDBTime"

lemma in_ydb_range_sec:
  assumes "in_ydb_range t"
  shows "0 \<le> unix_sec t" and "unix_sec t \<le> 4291747200" and "unix_sec t = 4291747200 \<Longrightarrow> nano t = 0"
  using assms by (auto simp: in_ydb_range_def Before_def After_def minYDBTime_def maxYDBTime_def)

text \<open>
  The date of a time with microsecond precision. The quotient of nanoseconds by the hour, the sum
  and the division by 24 are each rounded; at this precision the errors together are smaller than
  the distance to the next midnight.
\<close>

lemma days_bound:
  assumes d: "d = (86400 * D + r) * 1000000000 + n" and "r < 86400" and "n \<le> 999999000" and "D \<le> 49673"
  shows "of_nat D \<le> f64 (Hours d / 24) \<and> f64 (Hours d / 24) < of_nat D + 1"
proof -
  define h where "h = d div 3600000000000"
  define m where "m = d mod 3600000000000"
  define q :: rat where "q = of_nat m / 3600000000000"
  have hm: "d = 3600000000000 * h + m" by (simp add: h_def m_def)
  have m: "m < 3600000000000" by (simp add: m_def)
  have "3600000000000 * (24 * D) \<le> d" using d by simp
  from div_le_mono [OF this, of 3600000000000] have ge: "24 * D \<le> h" by (simp add: h_def)
  have "d = 86400000000000 * D + 1000000000 * r + n" using d by simp
  then have "3600000000000 * h + m + 1000 \<le> 86400000000000 * (D + 1)"
    using hm assms(2,3) by simp
  then have "(of_nat (3600000000000 * h + m + 1000) :: rat) \<le> of_nat (86400000000000 * (D + 1))"
    by (rule of_nat_mono)
  then have le: "of_nat h + q \<le> 24 * (of_nat D + 1) - 1 / 3600000000" by (simp add: q_def field_simps)
  have q: "0 \<le> q" "q < 1" using m by (simp_all add: q_def field_simps)
  have hours: "Hours d = f64 (of_nat h + f64 q)" by (simp only: Hours_def f64_nat h_def m_def q_def)
  have D: "(of_nat D :: rat) \<le> 49673" using assms(4) by (metis of_nat_le_iff of_nat_numeral)
  have fq: "0 \<le> f64 q" "f64 q \<le> q + 1 / 2 ^ 53"
    using f64_ge [of 0 q] f64_error [of q] q by (simp_all add: algebra_simps)
  have "(of_nat (24 * D) :: rat) \<le> of_nat h" using ge by (simp only: of_nat_le_iff)
  then have s0: "of_nat (24 * D) \<le> of_nat h + f64 q" using fq(1) by linarith
  have s: "of_nat (24 * D) \<le> Hours d" unfolding hours using s0 by (rule f64_ge)
  have small: "of_nat h + f64 q < 2 ^ 53" using le fq D by simp
  have "Hours d \<le> (of_nat h + f64 q) * (1 + 1 / 2 ^ 53)"
    unfolding hours using fq(1) small by (intro f64_error) simp_all
  also have "\<dots> \<le> (24 * (of_nat D + 1) - 1 / 3600000000 + 1 / 2 ^ 53) * (1 + 1 / 2 ^ 53)"
    using le fq(2) by (intro mult_right_mono) simp_all
  finally have upper: "Hours d \<le> (24 * (of_nat D + 1) - 1 / 3600000000 + 1 / 2 ^ 53) * (1 + 1 / 2 ^ 53)" .
  have "of_nat D \<le> f64 (Hours d / 24)" using s by (intro f64_ge) simp
  moreover have "f64 (Hours d / 24) \<le> Hours d / 24 * (1 + 1 / 2 ^ 53)"
    using s upper D by (intro f64_error) simp_all
  moreover have "Hours d / 24 * (1 + 1 / 2 ^ 53)
      \<le> (24 * (of_nat D + 1) - 1 / 3600000000 + 1 / 2 ^ 53) * (1 + 1 / 2 ^ 53) / 24 * (1 + 1 / 2 ^ 53)"
    using upper by (intro mult_right_mono divide_right_mono) simp_all
  moreover have "(24 * (of_nat D + 1) - 1 / 3600000000 + 1 / 2 ^ 53) * (1 + 1 / 2 ^ 53) / 24 * (1 + 1 / 2 ^ 53)
      < (of_nat D + 1 :: rat)"
    using D by (simp add: field_simps)
  ultimately show ?thesis by linarith
qed

text \<open>C40: a time within the bounds of YDB that has at most microsecond precision becomes the number
  of days since the epoch, without loss and without wrap-around at 16 bits.\<close>

theorem ydb_date_exact:
  assumes "in_ydb_range t" and "1000 dvd nano t"
  shows "\<exists>d. TimeToYDBDate t = Ok d \<and> uint d = unix_sec t div 86400"
proof -
  define s where "s = nat (unix_sec t)"
  have sec: "unix_sec t = int s" "s \<le> 4291747200" "s = 4291747200 \<Longrightarrow> nano t = 0"
    using in_ydb_range_sec [OF assms(1)] by (auto simp: s_def)
  define D where "D = s div 86400"
  have n: "nano t \<le> 999999000" using assms by (auto simp: in_ydb_range_def elim!: dvdE)
  have D: "D \<le> 49673" using sec(2) by (simp add: D_def div_le_mono)
  have "Sub t minYDBTime = int (s * 1000000000 + nano t)"
    using sec n by (simp add: Sub_def minYDBTime_def)
  then have sub: "nat (Sub t minYDBTime) = (86400 * D + s mod 86400) * 1000000000 + nano t"
    by (simp add: D_def)
  have "\<lfloor>f64 (Hours (nat (Sub t minYDBTime)) / 24)\<rfloor> = int D"
    using days_bound [OF sub _ n D] by (simp add: floor_eq_iff)
  then have "TimeToYDBDate t = Ok (word_of_nat D)"
    using assms(1) by (simp add: TimeToYDBDate_def in_ydb_range_def Let_def)
  moreover have "uint (word_of_nat D :: u16) = int D" using D by (intro uint_of_nat_small) simp
  moreover have "int D = unix_sec t div 86400" by (simp add: sec(1) D_def zdiv_int)
  ultimately show ?thesis by auto
qed

text \<open>Seconds and microseconds since the epoch are exact for every time within the bounds of YDB
  (a timestamp drops what is below a microsecond), and every time outside of them is refused by
  all three conversions with the error that the appenders turn into NULL.\<close>

theorem ydb_datetime_timestamp_exact:
  assumes "nano t < 1000000000"
  shows "if in_ydb_range t
         then (\<exists>s us. TimeToYDBDatetime t = Ok s \<and> uint s = unix_sec t \<and>
                 TimeToYDBTimestamp t = Ok us \<and> uint us = (unix_sec t * 1000000000 + int (nano t)) div 1000)
         else (\<exists>e. errors_is e ErrValueOutOfTypeBounds \<and> TimeToYDBDate t = Err e \<and>
                 TimeToYDBDatetime t = Err e \<and> TimeToYDBTimestamp t = Err e)"
proof (cases "in_ydb_range t")
  case True
  define s where "s = nat (unix_sec t)"
  have s: "unix_sec t = int s" "s \<le> 4291747200"
    using in_ydb_range_sec [OF True] by (auto simp: s_def)
  define us where "us = s * 1000000 + nano t div 1000"
  have micro: "UnixMicro t = int us" by (simp add: UnixMicro_def us_def s(1) zdiv_int)
  have "us < 2 ^ LENGTH(64)" using s(2) assms by (simp add: us_def)
  then have "uint (word_of_nat us :: u64) = int us" by (rule uint_of_nat_small)
  moreover have "uint (word_of_nat s :: u32) = int s" using s(2) by (intro uint_of_nat_small) simp
  moreover have "int us = (unix_sec t * 1000000000 + int (nano t)) div 1000"
    using div_mult_self3 [of 1000 "int (nano t)" "int s * 1000000"]
    by (simp add: us_def s(1) zdiv_int algebra_simps)
  moreover have "TimeToYDBTimestamp t = Ok (word_of_nat us)" "TimeToYDBDatetime t = Ok (word_of_nat s)"
    using True by (simp_all add: TimeToYDBTimestamp_def TimeToYDBDatetime_def in_ydb_range_def micro s(1))
  ultimately show ?thesis using True s(1) by simp
next
  case False
  then show ?thesis
    using assms by (auto simp: in_ydb_range_def TimeToYDBDate_def TimeToYDBDatetime_def
        TimeToYDBTimestamp_def out_of_bounds_def)
qed

theorem ydb_datetime_timestamp_exact_witness:
  "TimeToYDBTimestamp \<lparr>unix_sec = 4291747200, nano = 1, zone = 0\<rparr> =
     Err (Wrap ''convert to YDB Date'' (Sentinel ErrValueOutOfTypeBounds))"
  using ydb_datetime_timestamp_exact [of "\<lparr>unix_sec = 4291747200, nano = 1, zone = 0\<rparr>"]
  by (simp add: in_ydb_range_def TimeToYDBTimestamp_def Before_def After_def minYDBTime_def maxYDBTime_def
      out_of_bounds_def)

theorem ydb_date_exact_witness:
  "\<exists>d. TimeToYDBDate \<lparr>unix_sec = 86399, nano = 999999000, zone = 0\<rparr> = Ok d \<and> uint d = 0"
  using ydb_date_exact [of "\<lparr>unix_sec = 86399, nano = 999999000, zone = 0\<rparr>"]
  by (simp add: in_ydb_range_def Before_def After_def minYDBTime_def maxYDBTime_def)

lemma floorlog_unique: "2 ^ k \<le> n \<Longrightarrow> n < 2 ^ Suc k \<Longrightarrow> floorlog 2 n = Suc k"
  by (intro antisym floorlog_leI floorlog_geI) simp_all

lemma f64_q: "f64 (3599999999999 / 3600000000000) = 4503599627369245 / 4503599627370496"
proof -
  have "floorlog 2 1 = Suc 0" by (rule floorlog_unique) simp_all
  moreover have "\<lceil>3600000000000 / 3599999999999 :: rat\<rceil> = 2" by (simp add: ceiling_eq_iff)
  ultimately have "log2_floor (3599999999999 / 3600000000000) = - 1" by (simp add: log2_floor_def)
  moreover have "\<lfloor>3958241859992500488372224 / 439453125 :: rat\<rfloor> = 9007199254738490" by (simp add: floor_eq_iff)
  ultimately show ?thesis by (simp add: f64_def round_half_even_def Let_def)
qed

lemma f64_s: "f64 (5368867216577934654237 / 4503599627370496) = 1192128"
proof -
  have "floorlog 2 1192127 = Suc 20" by (rule floorlog_unique) simp_all
  moreover have "\<lfloor>5368867216577934654237 / 4503599627370496 :: rat\<rfloor> = 1192127" by (simp add: floor_eq_iff)
  ultimately have "log2_floor (5368867216577934654237 / 4503599627370496) = 20" by (simp add: log2_floor_def)
  moreover have "\<lfloor>5368867216577934654237 / 1048576 :: rat\<rfloor> = 5120150772645887" by (simp add: floor_eq_iff)
  ultimately show ?thesis by (simp add: f64_def round_half_even_def Let_def)
qed

text \<open>With nanosecond precision the conversion to a date is wrong: the last nanosecond of a day of
  the year 2105 becomes the following day, because the number of hours is rounded to a \<^verbatim>\<open>float64\<close>.\<close>

theorem ydb_date_rounds_up:
  "TimeToYDBDate \<lparr>unix_sec = 4291660799, nano = 999999999, zone = 0\<rparr> = Ok 49672 \<and>
   4291660799 div 86400 = (49671 :: int)"
proof -
  have "f64 1192127 = 1192127" "f64 3599999999999 = 3599999999999" "f64 49672 = 49672"
    using f64_nat [of 1192127] f64_nat [of 3599999999999] f64_nat [of 49672] by simp_all
  then have "Hours 4291660799999999999 = 1192128" and "f64 49672 = 49672"
    by (simp_all add: Hours_def f64_q f64_s)
  then show ?thesis by (simp add: TimeToYDBDate_def Sub_def Before_def After_def minYDBTime_def maxYDBTime_def)
qed

end
