(* ===== verification/Conversion.thy ===== *)
theory Conversion
  imports GoTime
begin

text \<open>
  The converters of dates and times to strings (\<^verbatim>\<open>src/app/server/conversion\<close>): the default ones, which
  call \<^verbatim>\<open>time.Time.Format\<close>, and the unsafe ones, which write digits into a buffer with the copies of
  \<^verbatim>\<open>strconv.formatBits\<close> (\<^verbatim>\<open>itoa.go\<close>) and of a fast nanosecond formatter (\<^verbatim>\<open>strftime.go\<close>). The main result
  is that both collections produce the same strings.

  A digit buffer is filled from its end: \<open>put\<close> prepends to what is written and panics, as the index
  expression does, when the 65 bytes of the array are exhausted. The two variants of the loop for
  32-bit and 64-bit hosts are selected by the argument \<open>host32bit\<close>.
\<close>

unbundle bit_operations_syntax

section \<open>strconv.formatBits\<close>

definition smallsString :: string where
  "smallsString = ''00010203040506070809'' @ ''10111213141516171819'' @ ''20212223242526272829'' @
     ''30313233343536373839'' @ ''40414243444546474849'' @ ''50515253545556575859'' @
     ''60616263646566676869'' @ ''70717273747576777879'' @ ''80818283848586878889'' @ ''90919293949596979899''"

definition digits :: string where
  "digits = ''0123456789abcdefghijklmnopqrstuvwxyz''"

definition put :: "string \<Rightarrow> string \<Rightarrow> string res" where
  "put w acc = (if length w + length acc \<le> 65 then Ok (w @ acc) else Panic ''index out of range'')"

text \<open>Two digits of \<open>us mod 100\<close>.\<close>

definition two_digits :: "nat \<Rightarrow> string" where
  "two_digits us = (let is = us mod 100 * 2 in [smallsString ! is, smallsString ! (is + 1)])"

fun hundreds :: "nat \<Rightarrow> string \<Rightarrow> (nat \<times> string) res" where
  "hundreds us acc =
     (if us < 100 then Ok (us, acc)
      else bind_res (put (two_digits us) acc) (\<lambda>acc'. hundreds (us div 100) acc'))"

declare hundreds.simps [simp del]

text \<open>The four iterations of the inner loop of the 32-bit variant.\<close>

fun inner32 :: "nat \<Rightarrow> nat \<Rightarrow> string \<Rightarrow> (nat \<times> string) res" where
  "inner32 0 us acc = Ok (us, acc)"
| "inner32 (Suc j) us acc =
     bind_res (put (two_digits us) acc) (\<lambda>acc'. inner32 j (us div 100) acc')"

function outer32 :: "nat \<Rightarrow> string \<Rightarrow> (nat \<times> string) res" where
  "outer32 u acc =
     (if u < 1000000000 then Ok (u, acc)
      else
        bind_res (inner32 4 (u - u div 1000000000 * 1000000000) acc) (\<lambda>(us, acc1).
        bind_res (put [smallsString ! (us * 2 + 1)] acc1) (\<lambda>acc2.
          outer32 (u div 1000000000) acc2)))"
  by pat_completeness auto
termination by (relation "measure fst") auto

declare outer32.simps [simp del]

fun isPowerOfTwo :: "nat \<Rightarrow> bool" where
  "isPowerOfTwo x = (x AND (x - 1) = 0)"

fun TrailingZeros :: "nat \<Rightarrow> nat" where
  "TrailingZeros x = (if x = 0 then 64 else if odd x then 0 else Suc (TrailingZeros (x div 2)))"

declare TrailingZeros.simps [simp del]

function shift_loop :: "nat \<Rightarrow> nat \<Rightarrow> nat \<Rightarrow> string \<Rightarrow> string res" where
  "shift_loop b shift u acc =
     (if 65 \<le> length acc then Panic ''index out of range''
      else if b \<le> u then shift_loop b shift (drop_bit shift u) ((digits ! (u AND (b - 1))) # acc)
      else put [digits ! u] acc)"
  by pat_completeness auto
termination by (relation "measure (\<lambda>(b, shift, u, acc). 65 - length acc)") auto

function div_loop :: "nat \<Rightarrow> nat \<Rightarrow> string \<Rightarrow> string res" where
  "div_loop b u acc =
     (if 65 \<le> length acc then Panic ''index out of range''
      else if b \<le> u then div_loop b (u div b) ((digits ! (u - u div b * b)) # acc)
      else put [digits ! u] acc)"
  by pat_completeness auto
termination by (relation "measure (\<lambda>(b, u, acc). 65 - length acc)") auto

declare shift_loop.simps [simp del] div_loop.simps [simp del]

definition decimal :: "bool \<Rightarrow> nat \<Rightarrow> string res" where
  "decimal host32bit u =
     bind_res (if host32bit then outer32 u [] else Ok (u, [])) (\<lambda>(u1, acc1).
     bind_res (hundreds u1 acc1) (\<lambda>(us, acc2).
     bind_res (put [smallsString ! (us * 2 + 1)] acc2) (\<lambda>acc3.
       if 10 \<le> us then put [smallsString ! (us * 2)] acc3 else Ok acc3)))"

definition formatBits :: "bool \<Rightarrow> string \<Rightarrow> u64 \<Rightarrow> nat \<Rightarrow> bool \<Rightarrow> bool \<Rightarrow> (string \<times> string) res" where
  "formatBits host32bit dst u0 base neg append_dst =
     (if base < 2 \<or> length digits < base then Panic ''strconv: illegal AppendInt/FormatInt base''
      else
        let u = unat (if neg then - u0 else u0)
        in bind_res
             (if base = 10 then decimal host32bit u
              else if isPowerOfTwo base then shift_loop base (TrailingZeros base) u []
              else div_loop base u [])
             (\<lambda>a. bind_res (if neg then put ''-'' a else Ok a)
               (\<lambda>a'. Ok (if append_dst then (dst @ a', []) else ([], a')))))"

section \<open>Numerals\<close>

text \<open>The specification: the numeral of \<open>n\<close> in base \<open>b\<close>.\<close>

fun radix :: "nat \<Rightarrow> nat \<Rightarrow> string" where
  "radix b n = (if b < 2 \<or> n < b then [digits ! n] else radix b (n div b) @ [digits ! (n mod b)])"

declare radix.simps [simp del]

lemma smalls_table:
  "list_all (\<lambda>k. smallsString ! (k * 2) = digit_char (k div 10) \<and>
                 smallsString ! (k * 2 + 1) = digit_char (k mod 10)) [0..<100]"
  by code_simp

lemma smalls_lookup:
  "k < 100 \<Longrightarrow> smallsString ! (k * 2) = digit_char (k div 10)"
  "k < 100 \<Longrightarrow> smallsString ! (k * 2 + 1) = digit_char (k mod 10)"
  using smalls_table by (auto simp: list_all_iff)

lemma digits_table: "list_all (\<lambda>k. digits ! k = digit_char k) [0..<10]"
  by code_simp

lemma digits_lookup: "k < 10 \<Longrightarrow> digits ! k = digit_char k"
  using digits_table by (auto simp: list_all_iff)

lemma two_digits_eq: "two_digits n = [digit_char (n mod 100 div 10), digit_char (n mod 10)]"
proof -
  have "n mod 100 mod 10 = n mod 10" by (simp add: mod_mod_cancel)
  then show ?thesis using smalls_lookup [of "n mod 100"] by (simp add: two_digits_def Let_def)
qed

lemma dec_small: "n < 10 \<Longrightarrow> dec n = [digit_char n]"
  by (simp add: dec.simps)

lemma dec_two: "10 \<le> n \<Longrightarrow> n < 100 \<Longrightarrow> dec n = [digit_char (n div 10), digit_char (n mod 10)]"
  by (simp add: dec.simps [of n] dec_small)

text \<open>The last \<open>k\<close> decimal digits, with leading zeros.\<close>

fun last_digits :: "nat \<Rightarrow> nat \<Rightarrow> string" where
  "last_digits 0 n = []"
| "last_digits (Suc k) n = last_digits k (n div 10) @ [digit_char (n mod 10)]"

lemma length_last_digits [simp]: "length (last_digits k n) = k"
  by (induction k arbitrary: n) auto

lemma dec_split: "10 ^ k \<le> n \<Longrightarrow> dec n = dec (n div 10 ^ k) @ last_digits k n"
proof (induction k arbitrary: n)
  case (Suc k)
  have "10 \<le> n" using Suc.prems by (rule order.trans [rotated]) simp
  moreover have "10 ^ k \<le> n div 10" using div_le_mono [OF Suc.prems, of 10] by simp
  moreover have "n div 10 div 10 ^ k = n div 10 ^ Suc k" by (simp add: div_mult2_eq)
  ultimately show ?case using Suc.IH [of "n div 10"] by (simp add: dec.simps [of n])
qed simp

lemma two_digits_last: "two_digits n = last_digits 2 n"
proof -
  have "n div 10 mod 10 = n mod 100 div 10" using mod_mult2_eq [of n 10 10] by simp
  then show ?thesis by (simp add: two_digits_eq numeral_2_eq_2)
qed

lemma last_digits_add: "last_digits (j + k) n = last_digits j (n div 10 ^ k) @ last_digits k n"
proof (induction k arbitrary: n)
  case (Suc k)
  then show ?case by (simp add: div_mult2_eq)
qed simp

lemma last_digits_mod: "k \<le> m \<Longrightarrow> last_digits k (n mod 10 ^ m) = last_digits k n"
proof (induction k arbitrary: n m)
  case (Suc k)
  then obtain m' where m: "m = Suc m'" "k \<le> m'" by (cases m) auto
  have "n mod 10 ^ m div 10 = n div 10 mod 10 ^ m'"
    using mod_mult2_eq [of n 10 "10 ^ m'"] by (simp add: m)
  moreover have "n mod 10 ^ m mod 10 = n mod 10" by (simp add: m mod_mod_cancel)
  ultimately show ?case using Suc.IH [OF m(2)] by simp
qed simp

lemma radix_dec: "radix 10 n = dec n"
proof (induction n rule: dec.induct)
  case (1 n)
  then show ?case
    by (cases "n < 10") (simp_all add: radix.simps [of 10 n] dec.simps [of n] digits_lookup)
qed

section \<open>The loops write numerals\<close>

lemma put_Ok [simp]: "length w + length acc \<le> 65 \<Longrightarrow> put w acc = Ok (w @ acc)"
  by (simp add: put_def)

lemma hundreds_correct:
  assumes "us < 100 ^ Suc k" and "length acc + 2 * k \<le> 65"
  shows "\<exists>us' acc'. hundreds us acc = Ok (us', acc') \<and> us' < 100 \<and> dec us' @ acc' = dec us @ acc \<and>
                   length acc' \<le> length acc + 2 * k"
  using assms
proof (induction k arbitrary: us acc)
  case 0
  then show ?case by (simp add: hundreds.simps [of us])
next
  case (Suc k)
  show ?case
  proof (cases "us < 100")
    case False
    have "us div 100 < 100 ^ Suc k" using Suc.prems(1) by (simp add: div_less_iff_less_mult mult.commute)
    from Suc.IH [OF this, of "two_digits us @ acc"] Suc.prems(2)
    obtain us' acc' where "hundreds (us div 100) (two_digits us @ acc) = Ok (us', acc')" "us' < 100"
      "dec us' @ acc' = dec (us div 100) @ two_digits us @ acc" "length acc' \<le> length acc + 2 * Suc k"
      by (auto simp: two_digits_last)
    moreover have "dec us = dec (us div 100) @ two_digits us"
      using dec_split [of 2 us] False by (simp add: two_digits_last)
    ultimately show ?thesis
      using False Suc.prems(2) by (simp add: hundreds.simps [of us] two_digits_last)
  qed (simp add: hundreds.simps [of us])
qed

lemma inner32_correct:
  "length acc + 2 * j \<le> 65 \<Longrightarrow> inner32 j us acc = Ok (us div 100 ^ j, last_digits (2 * j) us @ acc)"
proof (induction j arbitrary: us acc)
  case (Suc j)
  have "last_digits (2 * Suc j) us = last_digits (2 * j) (us div 100) @ last_digits 2 us"
    using last_digits_add [of "2 * j" 2 us] by simp
  with Suc show ?case by (simp add: two_digits_last div_mult2_eq)
qed simp

lemma outer32_correct:
  assumes "u < 1000000000 ^ Suc k" and "length acc + 9 * k \<le> 65"
  shows "\<exists>u' acc'. outer32 u acc = Ok (u', acc') \<and> u' < 1000000000 \<and> dec u' @ acc' = dec u @ acc \<and>
                  length acc' \<le> length acc + 9 * k"
  using assms
proof (induction k arbitrary: u acc)
  case 0
  then show ?case by (simp add: outer32.simps [of u])
next
  case (Suc k)
  show ?case
  proof (cases "u < 1000000000")
    case False
    define r where "r = u mod 1000000000"
    have r: "u - u div 1000000000 * 1000000000 = r" by (simp add: r_def minus_div_mult_eq_mod)
    have top: "r div 100 ^ 4 < 10" using mod_less_divisor [of 1000000000 u] by (simp add: r_def div_less_iff_less_mult)
    have "last_digits 9 u = last_digits 9 r" using last_digits_mod [of 9 9 u] by (simp add: r_def)
    also have "\<dots> = [digit_char (r div 100 ^ 4)] @ last_digits 8 r"
      using last_digits_add [of 1 8 r] top by simp
    finally have nine: "last_digits 9 u = digit_char (r div 100 ^ 4) # last_digits 8 r" by simp
    have step: "outer32 u acc = outer32 (u div 1000000000) (last_digits 9 u @ acc)"
      using False Suc.prems(2) inner32_correct [of acc 4 r] smalls_lookup(2) [of "r div 100 ^ 4"] top
      by (simp add: outer32.simps [of u] r nine)
    have "u div 1000000000 < 1000000000 ^ Suc k"
      using Suc.prems(1) by (simp add: div_less_iff_less_mult mult.commute)
    from Suc.IH [OF this, of "last_digits 9 u @ acc"] Suc.prems(2)
    obtain u' acc' where "outer32 u acc = Ok (u', acc')" "u' < 1000000000"
      "dec u' @ acc' = dec (u div 1000000000) @ last_digits 9 u @ acc" "length acc' \<le> length acc + 9 * Suc k"
      by (auto simp: step)
    moreover have "dec u = dec (u div 1000000000) @ last_digits 9 u" using dec_split [of 9 u] False by simp
    ultimately show ?thesis by simp
  qed (simp add: outer32.simps [of u])
qed

lemma decimal_correct:
  assumes "u < 2 ^ 64"
  shows "decimal host32bit u = Ok (dec u)"
proof -
  obtain u1 acc1 where 1: "(if host32bit then outer32 u [] else Ok (u, [])) = Ok (u1, acc1)"
    "u1 < 2 ^ 64" "dec u1 @ acc1 = dec u" "length acc1 \<le> 18"
  proof (cases host32bit)
    case True
    have "u < 1000000000 ^ Suc 2" using assms by simp
    from outer32_correct [OF this, of "[]"] show ?thesis using True that by fastforce
  qed (use assms that in auto)
  have "u1 < 100 ^ Suc 9" using 1(2) by simp
  from hundreds_correct [OF this, of acc1] 1(4)
  obtain us acc2 where 2: "hundreds u1 acc1 = Ok (us, acc2)" "us < 100" "dec us @ acc2 = dec u" "length acc2 \<le> 36"
    using 1(3) by auto
  have "bind_res (put [smallsString ! (us * 2 + 1)] acc2) (\<lambda>acc3.
       if 10 \<le> us then put [smallsString ! (us * 2)] acc3 else Ok acc3) = Ok (dec us @ acc2)"
    using 2(2,4) smalls_lookup [of us] dec_two [of us] dec_small [of us] by auto
  with 1(1) 2 show ?thesis by (simp add: decimal_def)
qed

lemma div_loop_correct:
  assumes "2 \<le> b" and "u < b ^ k" and "length acc + k \<le> 65" and "0 < k"
  shows "div_loop b u acc = Ok (radix b u @ acc)"
  using assms(2-4)
proof (induction k arbitrary: u acc)
  case (Suc k)
  show ?case
  proof (cases "u < b")
    case True
    then show ?thesis using assms(1) Suc.prems by (simp add: div_loop.simps [of b u] radix.simps [of b u])
  next
    case False
    have "u div b < b ^ k" using Suc.prems(1) assms(1) by (simp add: div_less_iff_less_mult mult.commute)
    moreover have "0 < k" using calculation False assms(1) by (cases k) (auto simp: div_eq_0_iff)
    ultimately have "div_loop b (u div b) ((digits ! (u mod b)) # acc) = Ok (radix b (u div b) @ (digits ! (u mod b)) # acc)"
      using Suc.IH [of "u div b"] Suc.prems(2) by simp
    then show ?thesis
      using False assms(1) Suc.prems(2) by (simp add: div_loop.simps [of b u] radix.simps [of b u] minus_div_mult_eq_mod)
  qed
qed simp

lemma shift_loop_div_loop: "shift_loop (2 ^ s) s u acc = div_loop (2 ^ s) u acc"
proof (induction "2 ^ s :: nat" u acc rule: div_loop.induct)
  case (1 u acc)
  have "u AND (2 ^ s - 1) = u - u div 2 ^ s * 2 ^ s"
    using take_bit_eq_mask [of s u] by (simp add: take_bit_eq_mod mask_eq_exp_minus_1 minus_div_mult_eq_mod)
  with 1 show ?case
    by (simp add: shift_loop.simps [of "2 ^ s" s u] div_loop.simps [of "2 ^ s" u] drop_bit_eq_div)
qed

lemma power_bases: "list_all (\<lambda>b. isPowerOfTwo b \<longrightarrow> b = 2 ^ TrailingZeros b) [2..<37]"
  by code_simp

lemma power_base:
  assumes "2 \<le> b" and "b \<le> 36" and "isPowerOfTwo b"
  shows "2 ^ TrailingZeros b = b"
proof -
  have "b \<in> set [2..<37]" using assms(1,2) unfolding set_upt atLeastLessThan_iff by linarith
  with power_bases assms(3) show ?thesis unfolding list_all_iff by metis
qed

lemma radix_length: "2 \<le> b \<Longrightarrow> m < b ^ k \<Longrightarrow> 0 < k \<Longrightarrow> length (radix b m) \<le> k"
proof (induction k arbitrary: m)
  case (Suc k)
  show ?case
  proof (cases "m < b")
    case False
    then have "m div b < b ^ k" using Suc.prems by (simp add: div_less_iff_less_mult mult.commute)
    moreover have "0 < k" using calculation False Suc.prems(1) by (cases k) (auto simp: div_eq_0_iff)
    ultimately show ?thesis using Suc False by (simp add: radix.simps [of b m])
  qed (simp add: radix.simps [of b m])
qed simp

lemma formatBits_numeral_dec: "formatBits host32bit dst u 10 False True = Ok (dst @ dec (unat u), [])"
proof -
  have "unat u < 2 ^ 64" using unsigned_less [of u] by simp
  then show ?thesis by (simp add: formatBits_def digits_def decimal_correct)
qed

text \<open>\<^verbatim>\<open>formatBits\<close> writes the numeral of its argument in every base from 2 to 36, in both the
  32-bit and the 64-bit variant, without ever leaving its 65-byte buffer; a negative argument gives
  a minus sign and the numeral of its two's complement negation.\<close>

theorem formatBits_numeral:
  assumes "2 \<le> base" and "base \<le> 36"
  shows "formatBits host32bit dst u base neg True =
           Ok (dst @ (if neg then ''-'' @ radix base (unat (- u)) else radix base (unat u)), [])"
proof -
  define n where "n = unat (if neg then - u else u)"
  have n64: "n < 2 ^ 64" using unsigned_less [of "if neg then - u else u"] by (simp add: n_def)
  also have "(2 :: nat) ^ 64 \<le> base ^ 64" using assms(1) by (rule power_mono) simp
  finally have div: "div_loop base n [] = Ok (radix base n)" using div_loop_correct [of base n 64 "[]"] assms(1) by simp
  have a: "(if base = 10 then decimal host32bit n
            else if isPowerOfTwo base then shift_loop base (TrailingZeros base) n []
            else div_loop base n []) = Ok (radix base n)"
  proof (cases "base \<noteq> 10 \<and> isPowerOfTwo base")
    case True
    with assms power_base have "2 ^ TrailingZeros base = base" by blast
    with shift_loop_div_loop [of "TrailingZeros base" n "[]"]
    have "shift_loop base (TrailingZeros base) n [] = div_loop base n []" by simp
    with True div show ?thesis by simp
  qed (use div decimal_correct [OF n64] in \<open>auto simp: radix_dec simp del: isPowerOfTwo.simps\<close>)
  have "length (radix base n) \<le> 64"
    using radix_length [of base n 64] n64 assms(1) power_mono [of 2 base 64] by simp
  then have sign: "(if neg then put ''-'' (radix base n) else Ok (radix base n)) =
      Ok (if neg then ''-'' @ radix base n else radix base n)" by simp
  have "\<not> (base < 2 \<or> length digits < base)" using assms by (simp add: digits_def)
  then have "formatBits host32bit dst u base neg True =
      bind_res (if neg then put ''-'' (radix base n) else Ok (radix base n)) (\<lambda>a'. Ok (dst @ a', []))"
    unfolding formatBits_def Let_def n_def [symmetric] a by simp
  then show ?thesis unfolding sign by (simp add: n_def)
qed

theorem formatBits_numeral_witness:
  "formatBits False ''x='' 255 16 False True = Ok (''x=ff'', []) \<and>
   formatBits True ''x='' (- 2024) 10 True True = Ok (''x=-2024'', [])"
proof
  have "radix 16 255 = ''ff''" by (simp add: radix.simps digits_def)
  then show "formatBits False ''x='' 255 16 False True = Ok (''x=ff'', [])"
    using formatBits_numeral [of 16 False "''x=''" 255 False] by simp
  have "radix 10 2024 = ''2024''" by (simp add: radix.simps digits_def)
  then show "formatBits True ''x='' (- 2024) 10 True True = Ok (''x=-2024'', [])"
    using formatBits_numeral [of 10 True "''x=''" "- 2024" True] by simp
qed

section \<open>time.Time.Format\<close>

text \<open>\<^verbatim>\<open>appendInt(b, x, width)\<close> of package \<^verbatim>\<open>time\<close>, and the fraction \<^verbatim>\<open>.999999999\<close> of a layout.\<close>

definition pad :: "nat \<Rightarrow> string \<Rightarrow> string" where
  "pad w s = replicate (w - length s) CHR ''0'' @ s"

definition appendInt :: "int \<Rightarrow> nat \<Rightarrow> string" where
  "appendInt x w = (if x < 0 then ''-'' else '''') @ pad w (dec (nat \<bar>x\<bar>))"

definition strip_zeros :: "string \<Rightarrow> string" where
  "strip_zeros s = rev (dropWhile (\<lambda>c. c = CHR ''0'') (rev s))"

definition fraction9 :: "nat \<Rightarrow> string" where
  "fraction9 ns = (let f = strip_zeros (pad 9 (dec ns)) in if f = [] then [] else CHR ''.'' # f)"

definition format_date :: "go_time \<Rightarrow> string" where
  "format_date t = (case Date t of (y, m, d) \<Rightarrow> appendInt y 4 @ ''-'' @ appendInt m 2 @ ''-'' @ appendInt d 2)"

definition format_clock :: "go_time \<Rightarrow> string" where
  "format_clock t = (case Clock t of (h, mi, s) \<Rightarrow> appendInt h 2 @ '':'' @ appendInt mi 2 @ '':'' @ appendInt s 2)"

section \<open>The default converters\<close>

definition dateToStringConverter :: "go_time \<Rightarrow> string res" where
  "dateToStringConverter t = Ok (format_date t)"

definition datetimeToStringConverter :: "go_time \<Rightarrow> string res" where
  "datetimeToStringConverter t = Ok (format_date (UTC t) @ ''T'' @ format_clock (UTC t) @ ''Z'')"

definition timestampToStringConverterUTC :: "go_time \<Rightarrow> string res" where
  "timestampToStringConverterUTC t =
     Ok (format_date (UTC t) @ ''T'' @ format_clock (UTC t) @ fraction9 (nano t) @ ''Z'')"

definition timestampToStringConverterNaive :: "go_time \<Rightarrow> string res" where
  "timestampToStringConverterNaive t =
     Ok (format_date t @ ''T'' @ format_clock t @ fraction9 (nano t))"

definition dateConverter :: "go_time \<Rightarrow> u16 res" where
  "dateConverter t = wrap_res ''convert time to YDB Date'' (TimeToYDBDate t)"

definition datetimeConverter :: "go_time \<Rightarrow> u32 res" where
  "datetimeConverter t = wrap_res ''convert time to YDB Datetime'' (TimeToYDBDatetime t)"

definition timestampConverter :: "go_time \<Rightarrow> u64 res" where
  "timestampConverter t = wrap_res ''convert time to YDB Timestamp'' (TimeToYDBTimestamp t)"

section \<open>The unsafe converters\<close>

definition absInt :: "int \<Rightarrow> int" where
  "absInt x = (if x < 0 then - x else x)"

text \<open>\<^verbatim>\<open>buf, _ = formatBits(buf, uint64(x), 10, false, true)\<close>\<close>

definition put_number :: "bool \<Rightarrow> string \<Rightarrow> int \<Rightarrow> string res" where
  "put_number host32bit buf x =
     bind_res (formatBits host32bit buf (word_of_int x) 10 False True) (\<lambda>(d, s). Ok d)"

text \<open>A separator, a leading zero below ten, the number: the block of each field but the year.\<close>

definition put_field :: "bool \<Rightarrow> string \<Rightarrow> string \<Rightarrow> int \<Rightarrow> string res" where
  "put_field host32bit buf sep x =
     put_number host32bit (buf @ sep @ (if x < 10 then ''0'' else '''')) x"

definition put_year :: "bool \<Rightarrow> int \<Rightarrow> string res" where
  "put_year host32bit year =
     (let buf = (if year < 0 then ''-'' else '''');
          absYear = absInt year
      in put_number host32bit
           (buf @ (if absYear < 10 then ''000'' else if absYear < 100 then ''00''
                   else if absYear < 1000 then ''0'' else ''''))
           absYear)"

definition dateToStringConverterUnsafe :: "bool \<Rightarrow> go_time \<Rightarrow> string res" where
  "dateToStringConverterUnsafe host32bit t =
     (case Date t of (year, month, day) \<Rightarrow>
        bind_res (put_year host32bit year) (\<lambda>buf.
        bind_res (put_field host32bit buf ''-'' month) (\<lambda>buf.
          put_field host32bit buf ''-'' day)))"

definition tab :: string where
  "tab = ''00010203040506070809'' @ ''10111213141516171819'' @ ''20212223242526272829'' @
     ''30313233343536373839'' @ ''40414243444546474849'' @ ''50515253545556575859'' @
     ''60616263646566676869'' @ ''70717273747576777879'' @ ''80818283848586878889'' @ ''90919293949596979899''"

text \<open>The loop that looks for the last byte that is not a zero; \<open>i + 1\<close> is the number of bytes kept.\<close>

fun kept_bytes :: "string \<Rightarrow> nat \<Rightarrow> nat" where
  "kept_bytes tmp 0 = 0"
| "kept_bytes tmp (Suc i) = (if tmp ! i \<noteq> CHR ''0'' then Suc i else kept_bytes tmp i)"

definition formatNanoseconds :: "string \<Rightarrow> nat \<Rightarrow> string" where
  "formatNanoseconds buf ns =
     (let b = ns mod 100 * 2; t8 = tab ! (b + 1); t7 = tab ! b; ns = ns div 100;
          b = ns mod 100 * 2; t6 = tab ! (b + 1); t5 = tab ! b; ns = ns div 100;
          b = ns mod 100 * 2; t4 = tab ! (b + 1); t3 = tab ! b; ns = ns div 100;
          b = ns mod 100 * 2; t2 = tab ! (b + 1); t1 = tab ! b;
          t0 = char_of ((ns div 100 + 48) mod (256 :: nat));
          tmp = [t0, t1, t2, t3, t4, t5, t6, t7, t8]
      in buf @ take (kept_bytes tmp 9) tmp)"

definition timestampToStringConverterUTCUnsafe :: "bool \<Rightarrow> go_time \<Rightarrow> string res" where
  "timestampToStringConverterUTCUnsafe host32bit src =
     (let utc = UTC src in
      case Date utc of (year, month, day) \<Rightarrow>
      case Clock utc of (hour, minutes, seconds) \<Rightarrow>
        bind_res (put_year host32bit year) (\<lambda>buf.
        bind_res (put_field host32bit buf ''-'' month) (\<lambda>buf.
        bind_res (put_field host32bit buf ''-'' day) (\<lambda>buf.
        bind_res (put_field host32bit buf ''T'' hour) (\<lambda>buf.
        bind_res (put_field host32bit buf '':'' minutes) (\<lambda>buf.
        bind_res (put_field host32bit buf '':'' seconds) (\<lambda>buf.
          Ok ((if 0 < nano utc then formatNanoseconds (buf @ ''.'') (nano utc) else buf) @ ''Z''))))))))"

section \<open>Both collections agree\<close>

lemma bind_res_Ok: "bind_res m Ok = m"
  by (cases m) auto

lemma put_number_dec:
  assumes "0 \<le> x" and "x < 2 ^ 64"
  shows "put_number host32bit buf x = Ok (buf @ dec (nat x))"
proof -
  have "unat (word_of_int x :: u64) = nat x"
    using assms by (simp add: unat_eq_nat_uint uint_word_of_int take_bit_eq_mod)
  then show ?thesis
    using formatBits_numeral_dec [of host32bit buf "word_of_int x"] by (simp add: put_number_def)
qed

lemma tab_smalls: "tab = smallsString"
  by (simp add: tab_def smallsString_def)

lemma take_kept_bytes: "n \<le> length s \<Longrightarrow> take (kept_bytes s n) s = strip_zeros (take n s)"
proof (induction n)
  case (Suc n)
  have "take (Suc n) s = take n s @ [s ! n]" using Suc.prems by (simp add: take_Suc_conv_app_nth)
  with Suc show ?case by (simp add: strip_zeros_def)
qed (simp add: strip_zeros_def)

lemma digit_char_0 [simp]: "digit_char 0 = CHR ''0''"
  by code_simp

lemma last_digits_zero: "last_digits k 0 = replicate k CHR ''0''"
  by (induction k) (simp_all add: replicate_append_same)

lemma pad_dec: "n < 10 ^ k \<Longrightarrow> 0 < k \<Longrightarrow> pad k (dec n) = last_digits k n"
proof (induction k arbitrary: n)
  case (Suc k)
  show ?case
  proof (cases "n < 10")
    case True
    then show ?thesis by (simp add: pad_def dec_small last_digits_zero)
  next
    case False
    then have "n div 10 < 10 ^ k" "0 < k" using Suc.prems by (cases k; auto)+
    with Suc.IH [of "n div 10"] False show ?thesis by (simp add: pad_def dec.simps [of n])
  qed
qed simp

lemma last_digits_all_zero: "n < 10 ^ k \<Longrightarrow> list_all (\<lambda>c. c = CHR ''0'') (last_digits k n) \<Longrightarrow> n = 0"
proof (induction k arbitrary: n)
  case (Suc k)
  have zero: "digit_char (n mod 10) = CHR ''0''" and "n div 10 = 0"
    using Suc.prems Suc.IH [of "n div 10"] by auto
  have "digit_val (digit_char (n mod 10)) = n mod 10" by simp
  with zero have "n mod 10 = 0" by (simp add: digit_val_def)
  with \<open>n div 10 = 0\<close> show ?case by (metis div_mult_mod_eq mult_zero_left add_0)
qed simp

lemma strip_zeros_Nil: "strip_zeros s = [] \<longleftrightarrow> list_all (\<lambda>c. c = CHR ''0'') s"
  by (auto simp: strip_zeros_def dropWhile_eq_Nil_conv list_all_iff)

lemma formatNanoseconds_eq:
  assumes "ns < 1000000000"
  shows "formatNanoseconds buf ns = buf @ strip_zeros (last_digits 9 ns)"
proof -
  define n1 where "n1 = ns div 100"
  define n2 where "n2 = n1 div 100"
  define n3 where "n3 = n2 div 100"
  have pair: "[tab ! (n mod 100 * 2), tab ! (n mod 100 * 2 + 1)] = last_digits 2 n" for n
    by (simp add: tab_smalls two_digits_def Let_def flip: two_digits_last)
  have n: "n1 < 10000000" "n2 < 100000" "n3 < 1000"
    using assms by (simp_all add: n1_def n2_def n3_def div_less_iff_less_mult)
  then have "n3 div 100 < 10" by (simp add: div_less_iff_less_mult)
  then have top: "char_of ((n3 div 100 + 48) mod (256 :: nat)) = digit_char (n3 div 100)"
    "last_digits 1 (n3 div 100) = [digit_char (n3 div 100)]"
    by (simp_all add: digit_char_def add.commute)
  have three: "last_digits 3 n3 = last_digits 1 (n3 div 100) @ last_digits 2 n3"
    using last_digits_add [of 1 2 n3] by (simp add: numeral_3_eq_3 del: last_digits.simps)
  have "last_digits 9 ns =
      digit_char (n3 div 100) # last_digits 2 n3 @ last_digits 2 n2 @ last_digits 2 n1 @ last_digits 2 ns"
    using last_digits_add [of 7 2 ns] last_digits_add [of 5 2 n1] last_digits_add [of 3 2 n2]
      three top(2) by (simp add: n1_def n2_def n3_def)
  then have tmp: "[char_of ((n3 div 100 + 48) mod (256 :: nat)), tab ! (n3 mod 100 * 2), tab ! (n3 mod 100 * 2 + 1),
      tab ! (n2 mod 100 * 2), tab ! (n2 mod 100 * 2 + 1), tab ! (n1 mod 100 * 2), tab ! (n1 mod 100 * 2 + 1),
      tab ! (ns mod 100 * 2), tab ! (ns mod 100 * 2 + 1)] = last_digits 9 ns"
    using pair [of n3] pair [of n2] pair [of n1] pair [of ns] unfolding top(1) by (metis append_Cons append_Nil)
  show ?thesis
    using take_kept_bytes [of 9 "last_digits 9 ns"]
    unfolding formatNanoseconds_def Let_def n1_def [symmetric] n2_def [symmetric] n3_def [symmetric] tmp
    by simp
qed

lemma fraction9_eq:
  assumes "ns < 1000000000"
  shows "fraction9 ns = (if 0 < ns then CHR ''.'' # strip_zeros (last_digits 9 ns) else [])"
proof -
  have p: "pad 9 (dec ns) = last_digits 9 ns" using assms by (intro pad_dec) simp_all
  have "strip_zeros (last_digits 9 ns) = [] \<longleftrightarrow> ns = 0"
    using last_digits_all_zero [of ns 9] assms
    by (auto simp: strip_zeros_Nil last_digits_zero list_all_iff)
  then show ?thesis by (simp add: fraction9_def Let_def p)
qed

lemma put_field_eq:
  assumes "0 \<le> x" and "x < 100"
  shows "put_field host32bit buf sep x = Ok (buf @ sep @ appendInt x 2)"
proof -
  have "length (dec (nat x)) = (if x < 10 then 1 else 2)"
    using assms dec_small [of "nat x"] dec_two [of "nat x"] by auto
  then have "appendInt x 2 = (if x < 10 then ''0'' else '''') @ dec (nat x)"
    using assms by (simp add: appendInt_def pad_def)
  then show ?thesis
    using assms put_number_dec [of x host32bit] by (simp add: put_field_def)
qed

lemma length_dec:
  "n < 10 \<Longrightarrow> length (dec n) = 1"
  "10 \<le> n \<Longrightarrow> n < 100 \<Longrightarrow> length (dec n) = 2"
  "100 \<le> n \<Longrightarrow> n < 1000 \<Longrightarrow> length (dec n) = 3"
  "1000 \<le> n \<Longrightarrow> 4 \<le> length (dec n)"
proof -
  show "n < 10 \<Longrightarrow> length (dec n) = 1" by (simp add: dec_small)
  show "10 \<le> n \<Longrightarrow> n < 100 \<Longrightarrow> length (dec n) = 2" by (simp add: dec_two)
  show "100 \<le> n \<Longrightarrow> n < 1000 \<Longrightarrow> length (dec n) = 3"
    using dec_split [of 2 n] by (simp add: dec_small div_less_iff_less_mult)
  show "1000 \<le> n \<Longrightarrow> 4 \<le> length (dec n)"
    using dec_split [of 3 n] dec_nonempty [of "n div 1000"] by (cases "dec (n div 1000)") auto
qed

lemma put_year_eq:
  assumes "\<bar>year\<bar> < 2 ^ 64"
  shows "put_year host32bit year = Ok (appendInt year 4)"
proof -
  define n where "n = nat \<bar>year\<bar>"
  have small: "int n < 2 ^ 64" using assms by (simp add: n_def)
  have abs: "absInt year = int n" by (simp add: absInt_def n_def)
  have "put_year host32bit year =
      Ok ((if year < 0 then ''-'' else '''') @
          (if n < 10 then ''000'' else if n < 100 then ''00'' else if n < 1000 then ''0'' else '''') @ dec n)"
    using small put_number_dec [of "int n" host32bit] by (simp add: put_year_def Let_def abs)
  moreover have "(if n < 10 then ''000'' else if n < 100 then ''00'' else if n < 1000 then ''0'' else '''') @ dec n =
      pad 4 (dec n)"
    by (cases "n < 10"; cases "n < 100"; cases "n < 1000")
       (simp_all add: pad_def length_dec numeral_2_eq_2 numeral_3_eq_3)
  ultimately show ?thesis by (simp add: appendInt_def n_def)
qed

lemma Date_year_bound:
  assumes "Date t = (y, m, d)" and "wf_time t"
  shows "\<bar>y\<bar> < 2 ^ 64"
proof -
  define w where "w = wall_sec t div 86400"
  have w: "- 4611686018427387904 \<le> w" "w \<le> 4611686018427387904"
    using assms(2) by (auto simp: w_def wall_sec_def wf_time_def)
  define f where "f = (y - 1) div 4 - (y - 1) div 100 + (y - 1) div 400"
  have f: "\<bar>f\<bar> \<le> \<bar>y\<bar> + 3" unfolding f_def by linarith
  from Date_correct [OF assms(1)]
  have eq: "w = 365 * (y - 1) + f + days_before_month (isLeap y) m + d - 1 - 719162"
    and d: "1 \<le> d" "d \<le> 31" and m: "1 \<le> m" "m \<le> 12"
    by (simp_all add: w_def days_before_year_def f_def)
  have "list_all (\<lambda>k. 0 \<le> daysBefore ! k \<and> daysBefore ! k \<le> 365) [0..<12]" by code_simp
  with m have "0 \<le> daysBefore ! nat (m - 1)" "daysBefore ! nat (m - 1) \<le> 365" by (auto simp: list_all_iff)
  then have "0 \<le> days_before_month (isLeap y) m" "days_before_month (isLeap y) m \<le> 366"
    by (simp_all add: days_before_month_def)
  moreover have "f \<le> \<bar>y\<bar> + 3" "- \<bar>y\<bar> - 3 \<le> f" using f by (simp_all add: abs_le_iff)
  ultimately have b: "365 * (y - 1) - \<bar>y\<bar> - 719166 \<le> w" "w \<le> 365 * (y - 1) + \<bar>y\<bar> - 718700"
    using eq d by linarith+
  have "y < 18446744073709551616 \<and> - y < 18446744073709551616"
  proof (cases "0 \<le> y")
    case True
    with b w show ?thesis by simp
  next
    case False
    with b w show ?thesis by simp
  qed
  then show ?thesis by (simp add: abs_less_iff)
qed

lemma unsafe_agree:
  assumes "wf_time t"
  shows "dateToStringConverterUnsafe host32bit t = dateToStringConverter t \<and>
         timestampToStringConverterUTCUnsafe host32bit t = timestampToStringConverterUTC t"
proof
  have date: "bind_res (put_year host32bit y) (\<lambda>buf. bind_res (put_field host32bit buf ''-'' m)
      (\<lambda>buf. bind_res (put_field host32bit buf ''-'' d) k)) = k (format_date u)"
    if "Date u = (y, m, d)" "wf_time u" for u y m d and k :: "string \<Rightarrow> 'a res"
    using Date_year_bound [OF that] Date_correct [OF that(1)] put_year_eq [of y] put_field_eq [of m] put_field_eq [of d]
    by (simp add: format_date_def that(1))
  obtain y m d where "Date t = (y, m, d)" by (cases "Date t")
  with date [OF this assms, of Ok]
  show "dateToStringConverterUnsafe host32bit t = dateToStringConverter t"
    by (simp add: dateToStringConverterUnsafe_def dateToStringConverter_def bind_res_Ok)
  let ?u = "UTC t"
  have u: "wf_time ?u" "nano ?u = nano t" "nano t < 1000000000" using assms by (simp_all add: UTC_def wf_time_def)
  obtain y m d where D: "Date ?u = (y, m, d)" by (cases "Date ?u")
  obtain h mi s where C: "Clock ?u = (h, mi, s)" by (cases "Clock ?u")
  show "timestampToStringConverterUTCUnsafe host32bit t = timestampToStringConverterUTC t"
    using Clock_bounds [OF C] put_field_eq [of h] put_field_eq [of mi] put_field_eq [of s] u(2,3)
    by (simp add: timestampToStringConverterUTCUnsafe_def timestampToStringConverterUTC_def Let_def D C
        date [OF D u(1)] format_clock_def fraction9_eq formatNanoseconds_eq)
qed

text \<open>C39: the fast converters are equivalent to the default ones. For every time in the range of the
  standard library, the unsafe converters write the same date and the same timestamp as
  \<^verbatim>\<open>time.Time.Format\<close>, for years of any length and sign and for every fraction of a second, on 32-bit
  and on 64-bit hosts.\<close>

theorem unsafe_converters_agree:
  assumes "wf_time t"
  shows "dateToStringConverterUnsafe host32bit t = dateToStringConverter t \<and>
         timestampToStringConverterUTCUnsafe host32bit t = timestampToStringConverterUTC t"
  using assms by (rule unsafe_agree)

lemma digit_chars:
  "digit_char (Suc 0) = CHR ''1''" "digit_char 2 = CHR ''2''" "digit_char 3 = CHR ''3''" "digit_char 4 = CHR ''4''"
  "digit_char 5 = CHR ''5''" "digit_char 6 = CHR ''6''" "digit_char 7 = CHR ''7''" "digit_char 8 = CHR ''8''"
  "digit_char 9 = CHR ''9''"
  by code_simp+

definition demo_time :: go_time where
  "demo_time = \<lparr>unix_sec = 1709209845, nano = 120000000, zone = 0\<rparr>"

theorem unsafe_converters_agree_witness:
  "timestampToStringConverterUTCUnsafe False demo_time = Ok ''2024-02-29T12:30:45.12Z''"
proof -
  have "year_yday 738944 = (2024, 59)" "month_day (isLeap 2024) 59 = (2, 29)" by code_simp+
  then have "Date demo_time = (2024, 2, 29)" "Clock demo_time = (12, 30, 45)" "UTC demo_time = demo_time"
    by (simp_all add: demo_time_def Date_def Clock_def UTC_def wall_sec_def)
  then have "timestampToStringConverterUTC demo_time = Ok ''2024-02-29T12:30:45.12Z''"
    by (simp add: timestampToStringConverterUTC_def format_date_def format_clock_def appendInt_def pad_def
        dec.simps fraction9_def strip_zeros_def digit_chars demo_time_def)
  moreover have "wf_time demo_time" by (simp add: demo_time_def wf_time_def)
  ultimately show ?thesis using unsafe_converters_agree [of demo_time False] by simp
qed

end
