(* ===== verification/GoRegexp.thy ===== *)
theory GoRegexp
  imports Prelude
begin

text \<open>
  The part of package \<^verbatim>\<open>regexp\<close> that the type mappers use: expressions over character classes, greedy
  repetitions of a class, optional parts, captures and the end of the text. A match is found as the
  package documents it: leftmost first, and among the matches at one position the one a backtracking
  engine finds first. \<open>run r s\<close> lists the matches of \<open>r\<close> that begin at the start of \<open>s\<close> in that order,
  each with its length and its captures.
\<close>

datatype rx =
    Eps
  | Cls "char \<Rightarrow> bool"
  | Rep nat "char \<Rightarrow> bool"
  | Seq rx rx
  | Maybe rx
  | Cap nat rx
  | EndText

fun run :: "rx \<Rightarrow> string \<Rightarrow> (nat \<times> (nat \<times> string) list) list" where
  "run Eps s = [(0, [])]"
| "run (Cls P) s = (case s of c # t \<Rightarrow> if P c then [(1, [])] else [] | [] \<Rightarrow> [])"
| "run (Rep k P) s = map (\<lambda>n. (n, [])) (rev [k..<Suc (length (takeWhile P s))])"
| "run (Seq a b) s =
     concat (map (\<lambda>(n, cs). map (\<lambda>(m, ds). (n + m, cs @ ds)) (run b (drop n s))) (run a s))"
| "run (Maybe a) s = run a s @ [(0, [])]"
| "run (Cap i a) s = map (\<lambda>(n, cs). (n, (i, take n s) # cs)) (run a s)"
| "run EndText s = (if s = [] then [(0, [])] else [])"

text \<open>\<^verbatim>\<open>FindStringSubmatch\<close>: the captures of the first match; \<^verbatim>\<open>MatchString\<close>.\<close>

fun find_submatch :: "rx \<Rightarrow> string \<Rightarrow> (nat \<times> string) list option" where
  "find_submatch r s =
     (case run r s of
        (n, cs) # _ \<Rightarrow> Some cs
      | [] \<Rightarrow> (case s of [] \<Rightarrow> None | c # t \<Rightarrow> find_submatch r t))"

declare find_submatch.simps [simp del]

definition match_string :: "rx \<Rightarrow> string \<Rightarrow> bool" where
  "match_string r s = (find_submatch r s \<noteq> None)"

text \<open>\<^verbatim>\<open>matches[i]\<close>: an unset group is the empty string.\<close>

definition submatch :: "(nat \<times> string) list \<Rightarrow> nat \<Rightarrow> string" where
  "submatch cs i = (case map_of cs i of Some t \<Rightarrow> t | None \<Rightarrow> '''')"

fun lit :: "string \<Rightarrow> rx" where
  "lit [] = Eps"
| "lit (c # t) = Seq (Cls (\<lambda>x. x = c)) (lit t)"

definition rx_any :: "char \<Rightarrow> bool" where
  "rx_any c \<longleftrightarrow> of_char c \<noteq> (10 :: nat)"

definition rx_word :: "char \<Rightarrow> bool" where
  "rx_word c \<longleftrightarrow> is_digit c \<or> c = CHR ''_'' \<or> (65 \<le> (of_char c :: nat) \<and> (of_char c :: nat) \<le> 90) \<or>
     (97 \<le> (of_char c :: nat) \<and> (of_char c :: nat) \<le> 122)"

section \<open>Literals\<close>

lemma run_lit: "run (lit p) s = (if has_prefix s p then [(length p, [])] else [])"
proof (induction p arbitrary: s)
  case (Cons c p)
  then show ?case by (cases s) auto
qed simp

text \<open>A match of a sequence that starts with a literal starts with that literal.\<close>

lemma run_lit_Seq:
  "run (Seq (lit p) r) s =
     (if has_prefix s p then map (\<lambda>(m, ds). (length p + m, ds)) (run r (drop (length p) s)) else [])"
  by (auto simp: run_lit)

lemma match_string_Cons:
  "match_string r (c # s) \<longleftrightarrow> run r (c # s) \<noteq> [] \<or> match_string r s"
  by (auto simp: match_string_def find_submatch.simps [of r "c # s"] split: list.splits)

lemma match_string_Nil: "match_string r [] \<longleftrightarrow> run r [] \<noteq> []"
  by (auto simp: match_string_def find_submatch.simps [of r "[]"] split: list.splits)

text \<open>An expression \<open>p(q)?\<close> with a literal \<open>p\<close> matches where the literal occurs.\<close>

lemma match_lit_Maybe: "match_string (Seq (lit p) (Maybe q)) s \<longleftrightarrow> str_contains s p"
proof (induction s)
  case Nil
  then show ?case by (cases p) (simp_all add: match_string_Nil)
next
  case (Cons c s)
  have "run (Seq (lit p) (Maybe q)) (c # s) \<noteq> [] \<longleftrightarrow> has_prefix (c # s) p"
    unfolding run_lit_Seq by simp
  with Cons show ?case by (simp add: match_string_Cons del: run.simps)
qed

end
