(* ===== verification/TypeMappers.thy ===== *)
theory TypeMappers
  imports ArrowHelpers GoRegexp
begin

text \<open>
  From the types of a data source to YDB types: \<^verbatim>\<open>SQLTypeToYDBColumn\<close> of the six relational type
  mappers (\<^verbatim>\<open>src/app/server/datasource/rdbms/*/type_mapper.go\<close>), the schema builder that collects the
  columns of a table (\<^verbatim>\<open>utils/schema_builder.go\<close>), and the two schema providers on top of it. The
  interface between a type mapper and its clients is the locale \<open>type_mapper\<close>.
\<close>

section \<open>The type mappers\<close>

definition unsupported_type :: "'a res" where
  "unsupported_type = Err (Wrap ''convert type'' (Sentinel ErrDataTypeNotSupported))"

abbreviation prim :: "prim_type \<Rightarrow> ydb_type res" where
  "prim i \<equiv> Ok (MakePrimitiveType i)"

definition mk_column :: "string \<Rightarrow> ydb_type \<Rightarrow> column" where
  "mk_column n t = \<lparr>col_name = n, col_type = t\<rparr>"

lemma mk_column_simps [simp]: "col_name (mk_column n t) = n" "col_type (mk_column n t) = t"
  by (simp_all add: mk_column_def)

subsection \<open>ClickHouse\<close>

definition isFixedString :: rx where
  "isFixedString = Seq (lit ''FixedString('') (Seq (Rep 1 is_digit) (lit '')''))"

definition zone_char :: "char \<Rightarrow> bool" where
  "zone_char c \<longleftrightarrow> rx_word c \<or> c = CHR '','' \<or> c = CHR ''/''"

definition isDateTime :: rx where
  "isDateTime = Seq (lit ''DateTime'')
     (Maybe (Cap 1 (Seq (lit ''('') (Seq (lit [CHR 0x27]) (Seq (Rep 1 zone_char) (lit [CHR 0x27, CHR '')'']))))))"

definition isDateTime64 :: rx where
  "isDateTime64 = Seq (lit ''DateTime64('') (Seq (Cls is_digit)
     (Seq (Maybe (Cap 1 (Seq (lit [CHR '','', CHR '' '', CHR 0x27]) (Seq (Rep 1 zone_char) (lit [CHR 0x27])))))
        (lit '')'')))"

definition isNullable :: rx where
  "isNullable = Seq (lit ''Nullable('') (Seq (Cap 1 (Rep 1 rx_any)) (lit '')''))"

definition isArray :: rx where
  "isArray = Seq (lit ''Array('') (Seq (Cap 1 (Rep 1 rx_any)) (lit '')''))"

text \<open>\<^verbatim>\<open>if matches := re.FindStringSubmatch(typeName); len(matches) > 0 { flag = true; typeName = matches[1] }\<close>\<close>

definition strip :: "rx \<Rightarrow> string \<Rightarrow> bool \<times> string" where
  "strip r typeName =
     (case find_submatch r typeName of Some cs \<Rightarrow> (True, submatch cs 1) | None \<Rightarrow> (False, typeName))"

definition ch_fixed_types :: "(string \<times> prim_type) list" where
  "ch_fixed_types =
     [(''Bool'', Type_BOOL), (''Int8'', Type_INT8), (''UInt8'', Type_UINT8), (''Int16'', Type_INT16),
      (''UInt16'', Type_UINT16), (''Int32'', Type_INT32), (''UInt32'', Type_UINT32),
      (''Int64'', Type_INT64), (''UInt64'', Type_UINT64), (''Float32'', Type_FLOAT), (''Float64'', Type_DOUBLE)]"

text \<open>The switch: the type, and whether the value range forces the column to be nullable.\<close>

definition ch_switch :: "string \<Rightarrow> date_time_format \<Rightarrow> (ydb_type \<times> bool) res" where
  "ch_switch typeName fmt =
     (let dated = (\<lambda>i. bind_res (MakeYdbDateTimeType i fmt) (\<lambda>t. Ok (t, fmt = YQL_FORMAT)))
      in case map_of ch_fixed_types typeName of
           Some i \<Rightarrow> Ok (MakePrimitiveType i, False)
         | None \<Rightarrow>
             if typeName = ''String'' \<or> match_string isFixedString typeName then Ok (MakePrimitiveType Type_STRING, False)
             else if typeName = ''Date'' \<or> typeName = ''Date32'' then dated Type_DATE
             else if match_string isDateTime64 typeName then dated Type_TIMESTAMP
             else if match_string isDateTime typeName then dated Type_DATETIME
             else unsupported_type)"

definition ch_SQLTypeToYDBColumn :: "string \<Rightarrow> string \<Rightarrow> date_time_format \<Rightarrow> column res" where
  "ch_SQLTypeToYDBColumn columnName typeName0 fmt =
     (let (nullable, typeName) = strip isNullable typeName0;
          (arrayContainer, typeName) = strip isArray typeName
      in if arrayContainer then
           (let (innerNullable, typeName) = strip isNullable typeName
            in if nullable then
                 Err (Wrap ''convert type (nullable array is not supported)'' (Sentinel ErrDataTypeNotSupported))
               else if innerNullable then
                 Err (Wrap ''convert type (array with nullable elements is not supported)'' (Sentinel ErrDataTypeNotSupported))
               else Err (Wrap ''convert type (array is not supported)'' (Sentinel ErrDataTypeNotSupported)))
         else
           bind_res (ch_switch typeName fmt) (\<lambda>(ydbType, wide).
             Ok (mk_column columnName (if nullable \<or> wide then MakeOptionalType ydbType else ydbType))))"

subsection \<open>PostgreSQL\<close>

definition pg_types :: "(string \<times> prim_type) list" where
  "pg_types =
     [(''boolean'', Type_BOOL), (''bool'', Type_BOOL),
      (''smallint'', Type_INT16), (''int2'', Type_INT16), (''smallserial'', Type_INT16), (''serial2'', Type_INT16),
      (''integer'', Type_INT32), (''int'', Type_INT32), (''int4'', Type_INT32), (''serial'', Type_INT32),
      (''serial4'', Type_INT32),
      (''bigint'', Type_INT64), (''int8'', Type_INT64), (''bigserial'', Type_INT64), (''serial8'', Type_INT64),
      (''real'', Type_FLOAT), (''float4'', Type_FLOAT),
      (''double precision'', Type_DOUBLE), (''float8'', Type_DOUBLE),
      (''bytea'', Type_STRING), (''uuid'', Type_STRING),
      (''character'', Type_UTF8), (''character varying'', Type_UTF8), (''text'', Type_UTF8),
      (''json'', Type_JSON)]"

definition pg_switch :: "string \<Rightarrow> date_time_format \<Rightarrow> ydb_type res" where
  "pg_switch typeName fmt =
     (case map_of pg_types typeName of
        Some i \<Rightarrow> prim i
      | None \<Rightarrow>
          if typeName = ''date'' then wrap_res ''convert type'' (MakeYdbDateTimeType Type_DATE fmt)
          else if typeName = ''timestamp without time zone'' then
            wrap_res ''convert type'' (MakeYdbDateTimeType Type_TIMESTAMP fmt)
          else unsupported_type)"

definition pg_SQLTypeToYDBColumn :: "string \<Rightarrow> string \<Rightarrow> date_time_format \<Rightarrow> column res" where
  "pg_SQLTypeToYDBColumn columnName typeName fmt =
     bind_res (pg_switch typeName fmt) (\<lambda>t. Ok (mk_column columnName (MakeOptionalType t)))"

subsection \<open>MS SQL Server\<close>

definition ms_types :: "(string \<times> prim_type) list" where
  "ms_types =
     [(''bit'', Type_BOOL), (''tinyint'', Type_INT8), (''smallint'', Type_INT16), (''int'', Type_INT32),
      (''bigint'', Type_INT64), (''real'', Type_FLOAT), (''float'', Type_DOUBLE),
      (''binary'', Type_STRING), (''varbinary'', Type_STRING), (''image'', Type_STRING),
      (''char'', Type_UTF8), (''varchar'', Type_UTF8), (''text'', Type_UTF8), (''nchar'', Type_UTF8),
      (''nvarchar'', Type_UTF8), (''ntext'', Type_UTF8)]"

definition ms_switch :: "string \<Rightarrow> date_time_format \<Rightarrow> ydb_type res" where
  "ms_switch typeName fmt =
     (case map_of ms_types typeName of
        Some i \<Rightarrow> prim i
      | None \<Rightarrow>
          if typeName = ''date'' then wrap_res ''make YDB date time type'' (MakeYdbDateTimeType Type_DATE fmt)
          else if typeName = ''smalldatetime'' then
            wrap_res ''make YDB date time type'' (MakeYdbDateTimeType Type_DATETIME fmt)
          else if typeName = ''datetime'' \<or> typeName = ''datetime2'' then
            wrap_res ''make YDB date time type'' (MakeYdbDateTimeType Type_TIMESTAMP fmt)
          else unsupported_type)"

definition ms_SQLTypeToYDBColumn :: "string \<Rightarrow> string \<Rightarrow> date_time_format \<Rightarrow> column res" where
  "ms_SQLTypeToYDBColumn columnName typeName fmt =
     bind_res (ms_switch typeName fmt) (\<lambda>t. Ok (mk_column columnName (MakeOptionalType t)))"

subsection \<open>MySQL\<close>

text \<open>\<^verbatim>\<open>(?P<type>.*)(:?\((?P<size>\d+)\))\<close>: the groups are 1 (type), 2, 3 (size).\<close>

definition reType :: rx where
  "reType = Seq (Cap 1 (Rep 0 rx_any))
     (Cap 2 (Seq (Maybe (lit '':'')) (Seq (lit ''('') (Seq (Cap 3 (Rep 1 is_digit)) (lit '')'')))))"

text \<open>\<^verbatim>\<open>strconv.ParseUint(s, 10, 64)\<close> on the digits of a match.\<close>

definition parse_uint64 :: "string \<Rightarrow> nat res" where
  "parse_uint64 s =
     (if read_dec 0 s < 2 ^ 64 then Ok (read_dec 0 s) else Err (NewErr ''value out of range''))"

definition my_switch :: "string \<Rightarrow> nat \<Rightarrow> bool \<Rightarrow> date_time_format \<Rightarrow> ydb_type res" where
  "my_switch typeName typeSize is_unsigned fmt =
     (if typeName \<in> {''int'', ''mediumint''} then prim (if is_unsigned then Type_UINT32 else Type_INT32)
      else if typeName = ''bigint'' then prim (if is_unsigned then Type_UINT64 else Type_INT64)
      else if typeName = ''float'' then prim Type_FLOAT
      else if typeName = ''double'' then prim Type_DOUBLE
      else if typeName = ''tinyint'' then
        prim (if typeSize = 1 then Type_BOOL else if is_unsigned then Type_UINT8 else Type_INT8)
      else if typeName = ''smallint'' then prim (if is_unsigned then Type_UINT16 else Type_INT16)
      else if typeName \<in> {''longblob'', ''blob'', ''mediumblob'', ''tinyblob''} then prim Type_STRING
      else if typeName \<in> {''varchar'', ''char''} then prim Type_UTF8
      else if typeName \<in> {''binary'', ''varbinary''} then prim Type_STRING
      else if typeName \<in> {''text'', ''longtext'', ''tinytext'', ''mediumtext''} then prim Type_STRING
      else if typeName = ''date'' then wrap_res ''make YDB date/time type'' (MakeYdbDateTimeType Type_DATE fmt)
      else if typeName \<in> {''datetime'', ''timestamp''} then
        wrap_res ''make YDB date/time type'' (MakeYdbDateTimeType Type_TIMESTAMP fmt)
      else if typeName = ''json'' then prim Type_JSON
      else unsupported_type)"

text \<open>The name and the size of a type: \<^verbatim>\<open>int(11) unsigned\<close> is \<^verbatim>\<open>int\<close> of size 11.\<close>

definition my_type_name :: "string \<Rightarrow> (string \<times> nat) res" where
  "my_type_name columnType =
     (case find_submatch reType columnType of
        Some cs \<Rightarrow> bind_res (wrap_res ''parse uint'' (parse_uint64 (submatch cs 3))) (\<lambda>n. Ok (submatch cs 1, n))
      | None \<Rightarrow> Ok (takeWhile (\<lambda>c. c \<noteq> CHR '' '') columnType, 0))"

definition my_SQLTypeToYDBColumn :: "string \<Rightarrow> string \<Rightarrow> date_time_format \<Rightarrow> column res" where
  "my_SQLTypeToYDBColumn columnName columnType fmt =
     bind_res (my_type_name columnType) (\<lambda>(typeName, typeSize).
       bind_res (my_switch typeName typeSize (str_contains columnType ''unsigned'') fmt)
         (\<lambda>t. Ok (mk_column columnName (MakeOptionalType t))))"

subsection \<open>Oracle\<close>

definition isTimestamp :: rx where
  "isTimestamp = Seq (lit ''TIMESTAMP('') (Seq (Cap 1 (Rep 1 rx_any)) (Seq (lit '')'') EndText))"

definition isTimestampWTZ :: rx where
  "isTimestampWTZ = Seq (lit ''TIMESTAMP('') (Seq (Cap 1 (Rep 1 rx_any)) (Seq (lit '') WITH TIME ZONE'') EndText))"

definition isTimestampWLTZ :: rx where
  "isTimestampWLTZ =
     Seq (lit ''TIMESTAMP('') (Seq (Cap 1 (Rep 1 rx_any)) (Seq (lit '') WITH LOCAL TIME ZONE'') EndText))"

definition ora_types :: "(string \<times> prim_type) list" where
  "ora_types =
     [(''NUMBER'', Type_INT64), (''BINARY_DOUBLE'', Type_DOUBLE),
      (''NCHAR'', Type_UTF8), (''CHAR'', Type_UTF8), (''VARCHAR'', Type_UTF8), (''VARCHAR2'', Type_UTF8),
      (''NVARCHAR'', Type_UTF8), (''NVARCHAR2'', Type_UTF8), (''CLOB'', Type_UTF8), (''NCLOB'', Type_UTF8),
      (''LONG'', Type_UTF8), (''ROWID'', Type_UTF8), (''UROWID'', Type_UTF8),
      (''RAW'', Type_STRING), (''LONG RAW'', Type_STRING), (''BLOB'', Type_STRING), (''JSON'', Type_JSON)]"

definition ora_switch :: "string \<Rightarrow> date_time_format \<Rightarrow> ydb_type res" where
  "ora_switch typeName fmt =
     (case map_of ora_types typeName of
        Some i \<Rightarrow> prim i
      | None \<Rightarrow>
          if typeName = ''DATE'' then wrap_res ''convert type'' (MakeYdbDateTimeType Type_DATETIME fmt)
          else if match_string isTimestamp typeName \<or> match_string isTimestampWTZ typeName \<or>
                  match_string isTimestampWLTZ typeName then
            wrap_res ''convert type'' (MakeYdbDateTimeType Type_TIMESTAMP fmt)
          else unsupported_type)"

definition ora_SQLTypeToYDBColumn :: "string \<Rightarrow> string \<Rightarrow> date_time_format \<Rightarrow> column res" where
  "ora_SQLTypeToYDBColumn columnName typeName fmt =
     bind_res (ora_switch typeName fmt) (\<lambda>t. Ok (mk_column columnName (MakeOptionalType t)))"

subsection \<open>YDB\<close>

definition isOptional :: rx where
  "isOptional = Seq (lit ''Optional<'') (Seq (Cap 1 (Rep 1 rx_word)) (Seq (lit ''>'') EndText))"

definition ydb_types :: "(string \<times> prim_type) list" where
  "ydb_types =
     [(''Bool'', Type_BOOL), (''Int8'', Type_INT8), (''Uint8'', Type_UINT8), (''Int16'', Type_INT16),
      (''Uint16'', Type_UINT16), (''Int32'', Type_INT32), (''Uint32'', Type_UINT32), (''Int64'', Type_INT64),
      (''Uint64'', Type_UINT64), (''Float'', Type_FLOAT), (''Double'', Type_DOUBLE), (''String'', Type_STRING),
      (''Utf8'', Type_UTF8), (''Json'', Type_JSON), (''Date'', Type_DATE), (''Datetime'', Type_DATETIME),
      (''Timestamp'', Type_TIMESTAMP), (''JsonDocument'', Type_JSON)]"

definition makePrimitiveTypeFromString :: "string \<Rightarrow> ydb_type res" where
  "makePrimitiveTypeFromString typeName =
     (case map_of ydb_types typeName of Some i \<Rightarrow> prim i | None \<Rightarrow> unsupported_type)"

definition ydb_SQLTypeToYDBColumn :: "string \<Rightarrow> string \<Rightarrow> date_time_format \<Rightarrow> column res" where
  "ydb_SQLTypeToYDBColumn columnName typeName0 fmt =
     (let (optional, typeName) = strip isOptional typeName0
      in bind_res (wrap_res ''make type'' (makePrimitiveTypeFromString typeName)) (\<lambda>t.
           Ok (mk_column columnName (if optional then MakeOptionalType t else t))))"

text \<open>The names of primitive types in queries.\<close>

fun primitiveYqlTypeName :: "prim_type \<Rightarrow> string res" where
  "primitiveYqlTypeName Type_BOOL = Ok ''Bool''"
| "primitiveYqlTypeName Type_INT8 = Ok ''Int8''"
| "primitiveYqlTypeName Type_UINT8 = Ok ''Uint8''"
| "primitiveYqlTypeName Type_INT16 = Ok ''Int16''"
| "primitiveYqlTypeName Type_UINT16 = Ok ''Uint16''"
| "primitiveYqlTypeName Type_INT32 = Ok ''Int32''"
| "primitiveYqlTypeName Type_UINT32 = Ok ''Uint32''"
| "primitiveYqlTypeName Type_INT64 = Ok ''Int64''"
| "primitiveYqlTypeName Type_UINT64 = Ok ''Uint64''"
| "primitiveYqlTypeName Type_FLOAT = Ok ''Float''"
| "primitiveYqlTypeName Type_DOUBLE = Ok ''Double''"
| "primitiveYqlTypeName Type_STRING = Ok ''String''"
| "primitiveYqlTypeName Type_UTF8 = Ok ''Utf8''"
| "primitiveYqlTypeName Type_TIMESTAMP = Ok ''Timestamp''"
| "primitiveYqlTypeName _ = Err (NewErr ''unexpected primitive type id'')"

section \<open>The schema builder\<close>

record schema_item =
  columnName :: string
  columnType :: string
  ydbColumn :: "column option"

type_synonym mapper = "string \<Rightarrow> string \<Rightarrow> date_time_format \<Rightarrow> column res"

record schema_builder =
  typeMapper :: mapper
  typeMappingSettings :: date_time_format
  items :: "schema_item list"

definition NewSchemaBuilder :: "mapper \<Rightarrow> date_time_format \<Rightarrow> schema_builder" where
  "NewSchemaBuilder m fmt = \<lparr>typeMapper = m, typeMappingSettings = fmt, items = []\<rparr>"

definition AddColumn :: "string \<Rightarrow> string \<Rightarrow> schema_builder \<Rightarrow> unit res \<times> schema_builder" where
  "AddColumn name type sb =
     (let add = (\<lambda>c. (Ok (), sb\<lparr>items := items sb @ [\<lparr>columnName = name, columnType = type, ydbColumn = c\<rparr>]\<rparr>))
      in case typeMapper sb name type (typeMappingSettings sb) of
           Ok c \<Rightarrow> add (Some c)
         | Err e \<Rightarrow> if errors_is e ErrDataTypeNotSupported then add None
                   else (Err (Wrap ''sql type to ydb column'' e), sb)
         | Panic m \<Rightarrow> (Panic m, sb))"

text \<open>The columns of the schema; the columns left out are only logged.\<close>

definition Build :: "schema_builder \<Rightarrow> column list res" where
  "Build sb =
     (if items sb = [] then Err (Sentinel ErrTableDoesNotExist)
      else Ok (List.map_filter ydbColumn (items sb)))"

text \<open>
  The loops of the schema providers. A row of the metadata query is what \<^verbatim>\<open>Scan\<close> gives: an error, or
  two pointers, nil for a NULL, which the loop dereferences.
\<close>

fun add_rows_loop :: "(string option \<times> string option) res list \<Rightarrow> schema_builder \<Rightarrow> unit res \<times> schema_builder" where
  "add_rows_loop [] sb = (Ok (), sb)"
| "add_rows_loop (row # rows) sb =
     (case row of
        Err e \<Rightarrow> (Err (Wrap ''rows scan'' e), sb)
      | Panic m \<Rightarrow> (Panic m, sb)
      | Ok (Some n, Some t) \<Rightarrow>
          (case AddColumn n t sb of
             (Ok _, sb') \<Rightarrow> add_rows_loop rows sb'
           | (Err e, sb') \<Rightarrow> (Err (Wrap ''add column to schema builder'' e), sb')
           | (Panic m, sb') \<Rightarrow> (Panic m, sb'))
      | Ok _ \<Rightarrow> (Panic ''nil pointer dereference'', sb))"

record metadata_rows =
  md_rows :: "(string option \<times> string option) res list"
  md_err :: "go_error option"

definition GetSchema :: "mapper \<Rightarrow> date_time_format \<Rightarrow> metadata_rows res \<Rightarrow> column list res" where
  "GetSchema m fmt query =
     (case query of
        Err e \<Rightarrow> Err (Wrap ''query builder error'' e)
      | Panic p \<Rightarrow> Panic p
      | Ok rows \<Rightarrow>
          (case add_rows_loop (md_rows rows) (NewSchemaBuilder m fmt) of
             (Err e, _) \<Rightarrow> Err e
           | (Panic p, _) \<Rightarrow> Panic p
           | (Ok _, sb) \<Rightarrow>
               (case md_err rows of
                  Some e \<Rightarrow> Err (Wrap ''rows iteration'' e)
                | None \<Rightarrow> wrap_res ''build schema for table'' (Build sb))))"

text \<open>The provider of YDB takes the columns from the description of the table.\<close>

definition ydb_GetSchema :: "date_time_format \<Rightarrow> (string \<times> string) list res \<Rightarrow> column list res" where
  "ydb_GetSchema fmt desc =
     bind_res (wrap_res ''get table description'' desc) (\<lambda>columns.
       case add_rows_loop (map (\<lambda>(n, t). Ok (Some n, Some t)) columns)
              (NewSchemaBuilder ydb_SQLTypeToYDBColumn fmt) of
         (Err e, _) \<Rightarrow> Err e
       | (Panic p, _) \<Rightarrow> Panic p
       | (Ok _, sb) \<Rightarrow> wrap_res ''build schema'' (Build sb))"

section \<open>The contract of a type mapper\<close>

text \<open>
  What the schema builder and the readers of its schemas rely on: a column keeps its name, its type
  has an Arrow builder, and a mapper never panics.
\<close>

locale type_mapper =
  fixes mapper :: "string \<Rightarrow> string \<Rightarrow> date_time_format \<Rightarrow> column res"
  assumes keeps_name: "mapper n t fmt = Ok c \<Longrightarrow> col_name c = n"
    and has_builder: "mapper n t fmt = Ok c \<Longrightarrow> \<exists>b. ydbTypeToArrowBuilder (col_type c) = Ok b"
    and no_panic: "mapper n t fmt \<noteq> Panic m"
begin

definition supported :: "date_time_format \<Rightarrow> (string \<times> string) list \<Rightarrow> column list" where
  "supported fmt cols =
     List.map_filter (\<lambda>(n, t). case mapper n t fmt of Ok c \<Rightarrow> Some c | _ \<Rightarrow> None) cols"

lemma AddColumn_cases:
  assumes "typeMapper sb = mapper" and "AddColumn n t sb = (r, sb')"
  shows "typeMapper sb' = mapper \<and> typeMappingSettings sb' = typeMappingSettings sb \<and>
    (case r of
       Ok _ \<Rightarrow> (\<exists>i. items sb' = items sb @ [i] \<and> columnName i = n \<and> columnType i = t \<and>
                 ydbColumn i = (case mapper n t (typeMappingSettings sb) of Ok c \<Rightarrow> Some c | _ \<Rightarrow> None))
     | Err e \<Rightarrow> sb' = sb \<and> \<not> errors_is e ErrDataTypeNotSupported
     | Panic p \<Rightarrow> False)"
  using assms no_panic [of n t "typeMappingSettings sb"]
  by (auto simp: AddColumn_def Let_def split: res.splits if_splits)

lemma add_rows_loop_Ok:
  assumes "typeMapper sb = mapper" and "add_rows_loop (map (\<lambda>(n, t). Ok (Some n, Some t)) cols) sb = (Ok u, sb')"
  shows "length (items sb') = length (items sb) + length cols \<and>
         List.map_filter ydbColumn (items sb') =
           List.map_filter ydbColumn (items sb) @ supported (typeMappingSettings sb) cols"
  using assms
proof (induction cols arbitrary: sb)
  case (Cons c cols)
  obtain n t where c [simp]: "c = (n, t)" by (cases c)
  obtain r sb1 where a: "AddColumn n t sb = (r, sb1)" by (cases "AddColumn n t sb")
  with Cons.prems(2) have r: "r = Ok ()" and rest: "add_rows_loop (map (\<lambda>(n, t). Ok (Some n, Some t)) cols) sb1 = (Ok u, sb')"
    by (auto split: res.splits)
  from AddColumn_cases [OF Cons.prems(1) a] r
  obtain i where "typeMapper sb1 = mapper" "typeMappingSettings sb1 = typeMappingSettings sb"
    "items sb1 = items sb @ [i]" "ydbColumn i = (case mapper n t (typeMappingSettings sb) of Ok c \<Rightarrow> Some c | _ \<Rightarrow> None)"
    by auto
  with Cons.IH [OF _ rest] show ?case
    by (simp add: supported_def map_filter_def split: res.splits)
qed (simp add: supported_def map_filter_def)

text \<open>Every schema that was built can be turned into an Arrow schema and into builders.\<close>

lemma supported_readable: "\<exists>bs. YdbTypesToArrowBuilders (map col_type (supported fmt cols)) = Ok bs"
proof (induction cols)
  case (Cons c cols)
  obtain n t where c: "c = (n, t)" by (cases c)
  from Cons obtain bs where "YdbTypesToArrowBuilders (map col_type (supported fmt cols)) = Ok bs" by blast
  moreover have "\<exists>b. ydbTypeToArrowBuilder (col_type k) = Ok b" if "mapper n t fmt = Ok k" for k
    using has_builder that by blast
  ultimately show ?case by (fastforce simp: supported_def map_filter_def c split: res.splits)
qed (simp add: supported_def map_filter_def)

lemma supported_names: "subseq (map col_name (supported fmt cols)) (map fst cols)"
proof (induction cols)
  case (Cons c cols)
  obtain n t where c: "c = (n, t)" by (cases c)
  from Cons show ?case
    by (auto simp: supported_def map_filter_def c keeps_name split: res.splits)
qed (simp add: supported_def map_filter_def)

lemma GetSchema_readable:
  assumes "GetSchema mapper fmt (Ok \<lparr>md_rows = map (\<lambda>(n, t). Ok (Some n, Some t)) cols, md_err = None\<rparr>) = Ok schema"
  shows "cols \<noteq> [] \<and> schema = supported fmt cols \<and> subseq (map col_name schema) (map fst cols) \<and>
         (\<exists>bs. YdbTypesToArrowBuilders (map col_type schema) = Ok bs)"
proof -
  let ?sb = "NewSchemaBuilder mapper fmt"
  obtain r sb where loop: "add_rows_loop (map (\<lambda>(n, t). Ok (Some n, Some t)) cols) ?sb = (r, sb)"
    by (cases "add_rows_loop (map (\<lambda>(n, t). Ok (Some n, Some t)) cols) ?sb")
  from assms loop have r: "r = Ok ()" and b: "Build sb = Ok schema"
    by (auto simp: GetSchema_def split: res.splits)
  have "typeMapper ?sb = mapper" by (simp add: NewSchemaBuilder_def)
  from add_rows_loop_Ok [OF this loop [unfolded r]] b
  have "cols \<noteq> []" "schema = supported fmt cols"
    by (auto simp: NewSchemaBuilder_def Build_def map_filter_def split: if_splits)
  then show ?thesis using supported_names supported_readable by simp
qed

end

text \<open>A mapper that fails for no other reason than an unsupported type, given a known date format.\<close>

locale total_type_mapper = type_mapper +
  assumes only_unsupported:
    "fmt \<noteq> DATE_TIME_FORMAT_UNSPECIFIED \<Longrightarrow> mapper n t fmt = Err e \<Longrightarrow> errors_is e ErrDataTypeNotSupported"
begin

lemma AddColumn_total:
  "typeMapper sb = mapper \<Longrightarrow> typeMappingSettings sb \<noteq> DATE_TIME_FORMAT_UNSPECIFIED \<Longrightarrow>
     \<exists>sb'. AddColumn n t sb = (Ok (), sb') \<and> typeMapper sb' = mapper \<and>
           typeMappingSettings sb' = typeMappingSettings sb"
  using no_panic [of n t "typeMappingSettings sb"] only_unsupported [of "typeMappingSettings sb" n t]
  by (auto simp: AddColumn_def Let_def split: res.splits)

lemma add_rows_loop_total:
  "typeMapper sb = mapper \<Longrightarrow> typeMappingSettings sb \<noteq> DATE_TIME_FORMAT_UNSPECIFIED \<Longrightarrow>
     \<exists>sb'. add_rows_loop (map (\<lambda>(n, t). Ok (Some n, Some t)) cols) sb = (Ok (), sb')"
proof (induction cols arbitrary: sb)
  case (Cons c cols)
  then obtain n t sb1 where "c = (n, t)" "AddColumn n t sb = (Ok (), sb1)" "typeMapper sb1 = mapper"
    "typeMappingSettings sb1 = typeMappingSettings sb"
    using AddColumn_total [of sb "fst c" "snd c"] by (cases c) auto
  with Cons.IH [of sb1] Cons.prems(2) show ?case by simp
qed simp

lemma GetSchema_total:
  assumes "fmt \<noteq> DATE_TIME_FORMAT_UNSPECIFIED" and "cols \<noteq> []"
  shows "GetSchema mapper fmt (Ok \<lparr>md_rows = map (\<lambda>(n, t). Ok (Some n, Some t)) cols, md_err = None\<rparr>) =
           Ok (supported fmt cols)"
proof -
  let ?sb = "NewSchemaBuilder mapper fmt"
  have sb: "typeMapper ?sb = mapper" "typeMappingSettings ?sb = fmt" "items ?sb = []"
    by (simp_all add: NewSchemaBuilder_def)
  from add_rows_loop_total [of ?sb cols] sb assms(1)
  obtain sb' where loop: "add_rows_loop (map (\<lambda>(n, t). Ok (Some n, Some t)) cols) ?sb = (Ok (), sb')" by auto
  from add_rows_loop_Ok [OF sb(1) loop] sb assms(2)
  show ?thesis by (auto simp: GetSchema_def loop Build_def map_filter_def)
qed

end

section \<open>The mappers keep the contract\<close>

definition buildable :: "ydb_type \<Rightarrow> bool" where
  "buildable t \<longleftrightarrow> (\<exists>b. ydbTypeToArrowBuilder t = Ok b)"

lemma buildable_Optional [simp]: "buildable (OptionalType t) = buildable t"
  by (simp add: buildable_def)

lemma buildable_prim [simp]:
  "buildable (TypeId i) \<longleftrightarrow> i \<noteq> Type_UNSPECIFIED \<and> (\<forall>n. i \<noteq> Type_OTHER n)"
  by (cases i) (simp_all add: buildable_def not_supported_def)

lemma MakeYdbDateTimeType_cases:
  "MakeYdbDateTimeType i fmt = Ok t \<Longrightarrow> t = TypeId i \<or> t = TypeId Type_UTF8"
  "MakeYdbDateTimeType i fmt \<noteq> Panic m"
  "fmt \<noteq> DATE_TIME_FORMAT_UNSPECIFIED \<Longrightarrow> MakeYdbDateTimeType i fmt \<noteq> Err e"
  by (cases fmt; simp)+

text \<open>A table of types names no unspecified one.\<close>

definition table_ok :: "(string \<times> prim_type) list \<Rightarrow> bool" where
  "table_ok tbl = list_all (\<lambda>(n, i). buildable (TypeId i)) tbl"

lemma table_ok_lookup: "table_ok tbl \<Longrightarrow> map_of tbl n = Some i \<Longrightarrow> buildable (TypeId i)"
  by (auto simp: table_ok_def list_all_iff dest!: map_of_SomeD simp del: buildable_prim)

lemma tables_ok:
  "table_ok ch_fixed_types" "table_ok pg_types" "table_ok ms_types" "table_ok ora_types" "table_ok ydb_types"
  by (simp_all add: table_ok_def ch_fixed_types_def pg_types_def ms_types_def ora_types_def ydb_types_def)

lemma ch_switch_cases:
  "ch_switch n fmt = Ok (t, w) \<Longrightarrow> buildable t"
  "ch_switch n fmt \<noteq> Panic m"
  "fmt \<noteq> DATE_TIME_FORMAT_UNSPECIFIED \<Longrightarrow> ch_switch n fmt = Err e \<Longrightarrow> errors_is e ErrDataTypeNotSupported"
  using table_ok_lookup [OF tables_ok(1), of n]
  by (auto simp: ch_switch_def Let_def unsupported_type_def res_simps MakeYdbDateTimeType_cases
      dest!: MakeYdbDateTimeType_cases(1) split: option.splits if_splits)

text \<open>A switch is sound when its branches are.\<close>

definition sound :: "ydb_type res \<Rightarrow> bool" where
  "sound r \<longleftrightarrow> (\<forall>t. r = Ok t \<longrightarrow> buildable t) \<and> (\<forall>m. r \<noteq> Panic m)"

lemma sound_leaves:
  "sound (Ok (TypeId i)) \<longleftrightarrow> i \<noteq> Type_UNSPECIFIED \<and> (\<forall>n. i \<noteq> Type_OTHER n)"
  "sound unsupported_type"
  "i \<noteq> Type_UNSPECIFIED \<and> (\<forall>n. i \<noteq> Type_OTHER n) \<Longrightarrow> sound (wrap_res p (MakeYdbDateTimeType i fmt))"
  by (auto simp: sound_def unsupported_type_def MakeYdbDateTimeType_cases dest!: MakeYdbDateTimeType_cases(1))

lemma sound_if: "sound a \<Longrightarrow> sound b \<Longrightarrow> sound (if c then a else b)"
  by simp

lemma my_switch_cases: "sound (my_switch n k u fmt)"
  unfolding my_switch_def by (intro sound_if) (simp_all add: sound_leaves)

text \<open>PostgreSQL, MS SQL Server and Oracle: a switch whose result is wrapped into an optional.\<close>

lemma optional_mapper:
  assumes "\<And>t fmt y. switch t fmt = Ok y \<Longrightarrow> buildable y"
    and "\<And>t fmt m. switch t fmt \<noteq> Panic m"
    and "\<And>t fmt e. fmt \<noteq> DATE_TIME_FORMAT_UNSPECIFIED \<Longrightarrow> switch t fmt = Err e \<Longrightarrow> errors_is e ErrDataTypeNotSupported"
    and "\<And>n t fmt. mapper n t fmt = bind_res (switch t fmt) (\<lambda>y. Ok (mk_column n (MakeOptionalType y)))"
  shows "total_type_mapper mapper"
  using assms(1,2) by unfold_locales (auto simp: assms(3,4) res_simps simp flip: buildable_def)

lemma switch_builds:
  "pg_switch t fmt = Ok y \<Longrightarrow> buildable y"
  "ms_switch t fmt = Ok y \<Longrightarrow> buildable y"
  "ora_switch t fmt = Ok y \<Longrightarrow> buildable y"
  using table_ok_lookup [OF tables_ok(2), of t] table_ok_lookup [OF tables_ok(3), of t]
    table_ok_lookup [OF tables_ok(4), of t]
  by (auto simp: pg_switch_def ms_switch_def ora_switch_def unsupported_type_def
      dest!: MakeYdbDateTimeType_cases(1) split: option.splits if_splits)

lemma switch_errors:
  "pg_switch t fmt \<noteq> Panic m" "ms_switch t fmt \<noteq> Panic m" "ora_switch t fmt \<noteq> Panic m"
  "fmt \<noteq> DATE_TIME_FORMAT_UNSPECIFIED \<Longrightarrow> pg_switch t fmt = Err e \<Longrightarrow> errors_is e ErrDataTypeNotSupported"
  "fmt \<noteq> DATE_TIME_FORMAT_UNSPECIFIED \<Longrightarrow> ms_switch t fmt = Err e \<Longrightarrow> errors_is e ErrDataTypeNotSupported"
  "fmt \<noteq> DATE_TIME_FORMAT_UNSPECIFIED \<Longrightarrow> ora_switch t fmt = Err e \<Longrightarrow> errors_is e ErrDataTypeNotSupported"
  by (auto simp: pg_switch_def ms_switch_def ora_switch_def unsupported_type_def MakeYdbDateTimeType_cases res_simps
      split: option.splits if_splits)

interpretation pg_mapper: total_type_mapper pg_SQLTypeToYDBColumn
  by (rule optional_mapper [of pg_switch]) (simp_all add: switch_builds switch_errors pg_SQLTypeToYDBColumn_def)

interpretation ms_mapper: total_type_mapper ms_SQLTypeToYDBColumn
  by (rule optional_mapper [of ms_switch]) (simp_all add: switch_builds switch_errors ms_SQLTypeToYDBColumn_def)

interpretation ora_mapper: total_type_mapper ora_SQLTypeToYDBColumn
  by (rule optional_mapper [of ora_switch]) (simp_all add: switch_builds switch_errors ora_SQLTypeToYDBColumn_def)

interpretation ch_mapper: total_type_mapper ch_SQLTypeToYDBColumn
  using ch_switch_cases
  by unfold_locales
     (auto simp: ch_SQLTypeToYDBColumn_def Let_def res_simps simp flip: buildable_def split: prod.splits if_splits)

interpretation ydb_mapper: total_type_mapper ydb_SQLTypeToYDBColumn
  using table_ok_lookup [OF tables_ok(5)]
  by unfold_locales
     (auto simp: ydb_SQLTypeToYDBColumn_def makePrimitiveTypeFromString_def unsupported_type_def Let_def res_simps
        simp flip: buildable_def split: prod.splits if_splits option.splits)

text \<open>MySQL: the size of a type may not fit 64 bits, which is an error of its own.\<close>

interpretation my_mapper: type_mapper my_SQLTypeToYDBColumn
  using my_switch_cases
  by unfold_locales
     (auto simp: sound_def my_SQLTypeToYDBColumn_def my_type_name_def parse_uint64_def res_simps simp flip: buildable_def
        split: prod.splits if_splits option.splits)

section \<open>Properties\<close>

text \<open>C38: DescribeTable returns schemas that can be read. For each of the six relational data sources,
  the schema built from the rows of the metadata query has the columns of the table whose types
  are supported, in the order of the table and under their own names, and the Arrow builders of
  the read path exist for all of them.\<close>

theorem described_schema_readable:
  assumes "mapper \<in> {ch_SQLTypeToYDBColumn, pg_SQLTypeToYDBColumn, ms_SQLTypeToYDBColumn,
                     my_SQLTypeToYDBColumn, ora_SQLTypeToYDBColumn, ydb_SQLTypeToYDBColumn}"
    and "GetSchema mapper fmt (Ok \<lparr>md_rows = map (\<lambda>(n, t). Ok (Some n, Some t)) cols, md_err = None\<rparr>) = Ok schema"
  shows "cols \<noteq> [] \<and>
         schema = List.map_filter (\<lambda>(n, t). case mapper n t fmt of Ok c \<Rightarrow> Some c | _ \<Rightarrow> None) cols \<and>
         subseq (map col_name schema) (map fst cols) \<and>
         (\<exists>builders. YdbTypesToArrowBuilders (map col_type schema) = Ok builders)"
proof -
  have "type_mapper mapper"
    using assms(1) ch_mapper.type_mapper_axioms pg_mapper.type_mapper_axioms ms_mapper.type_mapper_axioms
      my_mapper.type_mapper_axioms ora_mapper.type_mapper_axioms ydb_mapper.type_mapper_axioms by auto
  note tm = this
  show ?thesis
    using type_mapper.GetSchema_readable [OF tm assms(2)] unfolding type_mapper.supported_def [OF tm] .
qed

text \<open>A column of an unsupported type never makes DescribeTable fail. With a date format that is
  set, five of the six mappers describe every table that has a column (possibly by an empty
  schema), and a table with no rows in the metadata is reported as missing.\<close>

theorem describe_never_fails_on_types:
  assumes "mapper \<in> {ch_SQLTypeToYDBColumn, pg_SQLTypeToYDBColumn, ms_SQLTypeToYDBColumn,
                     ora_SQLTypeToYDBColumn, ydb_SQLTypeToYDBColumn}"
    and "fmt \<noteq> DATE_TIME_FORMAT_UNSPECIFIED"
  shows "if cols = []
         then \<exists>e. errors_is e ErrTableDoesNotExist \<and>
                GetSchema mapper fmt (Ok \<lparr>md_rows = [], md_err = None\<rparr>) = Err e
         else \<exists>schema. GetSchema mapper fmt
                (Ok \<lparr>md_rows = map (\<lambda>(n, t). Ok (Some n, Some t)) cols, md_err = None\<rparr>) = Ok schema"
proof (cases "cols = []")
  case True
  then show ?thesis by (simp add: GetSchema_def Build_def NewSchemaBuilder_def)
next
  case False
  have "total_type_mapper mapper"
    using assms(1) ch_mapper.total_type_mapper_axioms pg_mapper.total_type_mapper_axioms
      ms_mapper.total_type_mapper_axioms ora_mapper.total_type_mapper_axioms ydb_mapper.total_type_mapper_axioms by auto
  from total_type_mapper.GetSchema_total [OF this assms(2) False] False show ?thesis by simp
qed

text \<open>The names of primitive types in YDB queries and the parser of type names are inverse to
  each other: what \<^verbatim>\<open>primitiveYqlTypeName\<close> prints, \<^verbatim>\<open>makePrimitiveTypeFromString\<close> reads back.\<close>

theorem yql_type_name_roundtrip:
  "primitiveYqlTypeName i = Ok name \<Longrightarrow> makePrimitiveTypeFromString name = Ok (TypeId i)"
  by (cases i; clarsimp; code_simp)

text \<open>A composite ClickHouse type whose name contains \<^verbatim>\<open>DateTime\<close> is described as a date and time,
  because the expression is not anchored: a tuple of a date and a number becomes a \<^verbatim>\<open>Datetime\<close>
  column instead of being left out of the schema.\<close>

theorem clickhouse_composite_described:
  "ch_SQLTypeToYDBColumn ''c'' ''Tuple(DateTime, Int32)'' YQL_FORMAT =
     Ok \<lparr>col_name = ''c'', col_type = OptionalType (TypeId Type_DATETIME)\<rparr>"
  by code_simp

text \<open>A ClickHouse column \<^verbatim>\<open>DateTime64\<close> whose time zone has a character other than letters, digits,
  underscores, commas and slashes is described as \<^verbatim>\<open>Datetime\<close>, so that its fractions of a second
  are lost.\<close>

theorem clickhouse_zone_loses_precision:
  "ch_SQLTypeToYDBColumn ''c'' ([CHR ''D''] @ ''ateTime64(6, '' @ [CHR 0x27] @ ''America/Port-au-Prince'' @ [CHR 0x27] @ '')'')
     YQL_FORMAT = Ok \<lparr>col_name = ''c'', col_type = OptionalType (TypeId Type_DATETIME)\<rparr>"
  by code_simp

theorem described_schema_readable_witness:
  "\<exists>builders. YdbTypesToArrowBuilders [OptionalType (TypeId Type_INT32)] = Ok builders"
proof -
  have "GetSchema pg_SQLTypeToYDBColumn YQL_FORMAT
      (Ok \<lparr>md_rows = map (\<lambda>(n, t). Ok (Some n, Some t)) [(''a'', ''int4''), (''b'', ''point'')], md_err = None\<rparr>) =
      Ok [\<lparr>col_name = ''a'', col_type = OptionalType (TypeId Type_INT32)\<rparr>]"
    by code_simp
  from described_schema_readable [OF _ this] show ?thesis by simp
qed

theorem describe_never_fails_on_types_witness:
  "\<exists>schema. GetSchema ch_SQLTypeToYDBColumn STRING_FORMAT
     (Ok \<lparr>md_rows = [Ok (Some ''a'', Some ''Array(Int8)'')], md_err = None\<rparr>) = Ok schema"
  using describe_never_fails_on_types [of ch_SQLTypeToYDBColumn STRING_FORMAT "[(''a'', ''Array(Int8)'')]"] by simp

theorem yql_type_name_roundtrip_witness: "makePrimitiveTypeFromString ''Timestamp'' = Ok (TypeId Type_TIMESTAMP)"
  using yql_type_name_roundtrip [of Type_TIMESTAMP "''Timestamp''"] by simp

end
