(* ===== verification/Appenders.thy ===== *)
theory Appenders
  imports ArrowHelpers Conversion
begin

text \<open>
  From scanned values to Arrow cells (\<^verbatim>\<open>src/app/server/utils/arrow_builder.go\<close> and the collections of
  \<^verbatim>\<open>src/app/server/conversion\<close>). A driver scans a row into acceptors; the appender of a column converts
  the value of its acceptor and appends it to the Arrow builder of the column. The generic Go functions
  take the types of input, output and builder as type parameters; here a converter is a value with
  its input and output kinds, and the type assertions that Go leaves to run time are explicit panics.
  The bits of floating-point values are not interpreted.
\<close>

section \<open>Values and acceptors\<close>

datatype go_kind =
    KBool | KInt8 | KInt16 | KInt32 | KInt64 | KUint8 | KUint16 | KUint32 | KUint64
  | KFloat32 | KFloat64 | KString | KBytes | KTime | KUuid

datatype go_value =
    VBool bool
  | VInt8 "8 word" | VInt16 "16 word" | VInt32 "32 word" | VInt64 "64 word"
  | VUint8 "8 word" | VUint16 "16 word" | VUint32 "32 word" | VUint64 "64 word"
  | VFloat32 "32 word" | VFloat64 "64 word"
  | VString string | VBytes string
  | VTime go_time
  | VUuid string

fun kind_of :: "go_value \<Rightarrow> go_kind" where
  "kind_of (VBool b) = KBool"
| "kind_of (VInt8 w) = KInt8" | "kind_of (VInt16 w) = KInt16" | "kind_of (VInt32 w) = KInt32" | "kind_of (VInt64 w) = KInt64"
| "kind_of (VUint8 w) = KUint8" | "kind_of (VUint16 w) = KUint16" | "kind_of (VUint32 w) = KUint32" | "kind_of (VUint64 w) = KUint64"
| "kind_of (VFloat32 w) = KFloat32" | "kind_of (VFloat64 w) = KFloat64"
| "kind_of (VString s) = KString" | "kind_of (VBytes s) = KBytes"
| "kind_of (VTime t) = KTime"
| "kind_of (VUuid s) = KUuid"

text \<open>
  An acceptor is a pointer to a value (\<^verbatim>\<open>new(T)\<close>), a pointer to a pointer (\<^verbatim>\<open>new(*T)\<close>), or one of the
  boxes of \<^verbatim>\<open>pgtype\<close> with their flag \<^verbatim>\<open>Valid\<close>.
\<close>

datatype acceptor =
    Ptr go_value
  | PtrPtr go_kind "go_value option"
  | PgBox go_value bool

fun zero_value :: "go_kind \<Rightarrow> go_value" where
  "zero_value KBool = VBool False"
| "zero_value KInt8 = VInt8 0" | "zero_value KInt16 = VInt16 0" | "zero_value KInt32 = VInt32 0" | "zero_value KInt64 = VInt64 0"
| "zero_value KUint8 = VUint8 0" | "zero_value KUint16 = VUint16 0" | "zero_value KUint32 = VUint32 0" | "zero_value KUint64 = VUint64 0"
| "zero_value KFloat32 = VFloat32 0" | "zero_value KFloat64 = VFloat64 0"
| "zero_value KString = VString []" | "zero_value KBytes = VBytes []"
| "zero_value KTime = VTime \<lparr>unix_sec = - 62135596800, nano = 0, zone = 0\<rparr>"
| "zero_value KUuid = VUuid ''00000000-0000-0000-0000-000000000000''"

lemma kind_of_zero_value [simp]: "kind_of (zero_value k) = k"
  by (cases k) simp_all

section \<open>Converters\<close>

datatype converter =
    Noop go_kind
  | BoolConv
  | StringToBytes
  | BytesToString
  | DateConv
  | DateToString
  | DatetimeConv
  | DatetimeToString
  | TimestampConv
  | TimestampToString bool
  | Saturated go_time go_time converter

fun conv_in :: "converter \<Rightarrow> go_kind" where
  "conv_in (Noop k) = k"
| "conv_in BoolConv = KBool"
| "conv_in StringToBytes = KString"
| "conv_in BytesToString = KBytes"
| "conv_in (Saturated lo hi c) = conv_in c"
| "conv_in _ = KTime"

fun conv_out :: "converter \<Rightarrow> go_kind" where
  "conv_out (Noop k) = k"
| "conv_out BoolConv = KUint8"
| "conv_out StringToBytes = KBytes"
| "conv_out BytesToString = KString"
| "conv_out DateConv = KUint16"
| "conv_out DatetimeConv = KUint32"
| "conv_out TimestampConv = KUint64"
| "conv_out (Saturated lo hi c) = conv_out c"
| "conv_out _ = KString"

text \<open>The configuration of the conversions, and the width of \<^verbatim>\<open>uint\<close> on the host.\<close>

record conversion_config =
  useUnsafeConverters :: bool
  host_32bit :: bool

definition saturateDateTime :: "go_time \<Rightarrow> go_time \<Rightarrow> go_time \<Rightarrow> go_time" where
  "saturateDateTime t minValue maxValue =
     (let t1 = (if Before t minValue then minValue else t) in if After t1 maxValue then maxValue else t1)"

definition res_map :: "('a \<Rightarrow> 'b) \<Rightarrow> 'a res \<Rightarrow> 'b res" where
  "res_map f r = bind_res r (\<lambda>x. Ok (f x))"

fun boolConverter :: "bool \<Rightarrow> 8 word" where
  "boolConverter b = (if b then 1 else 0)"

text \<open>\<^verbatim>\<open>Convert\<close> of the converter that the configured collection holds.\<close>

definition ill_typed :: "'a res" where
  "ill_typed = Panic ''ill-typed conversion''"

definition on_time :: "go_value \<Rightarrow> (go_time \<Rightarrow> go_value res) \<Rightarrow> go_value res" where
  "on_time v f = (case v of VTime t \<Rightarrow> f t | _ \<Rightarrow> ill_typed)"

primrec Convert :: "conversion_config \<Rightarrow> converter \<Rightarrow> go_value \<Rightarrow> go_value res" where
  "Convert cfg (Noop k) v = Ok v"
| "Convert cfg BoolConv v = (case v of VBool b \<Rightarrow> Ok (VUint8 (boolConverter b)) | _ \<Rightarrow> ill_typed)"
| "Convert cfg StringToBytes v = (case v of VString s \<Rightarrow> Ok (VBytes s) | _ \<Rightarrow> ill_typed)"
| "Convert cfg BytesToString v = (case v of VBytes s \<Rightarrow> Ok (VString s) | _ \<Rightarrow> ill_typed)"
| "Convert cfg DateConv v = on_time v (\<lambda>t. res_map VUint16 (dateConverter t))"
| "Convert cfg DateToString v = on_time v (\<lambda>t.
     res_map VString (if useUnsafeConverters cfg then dateToStringConverterUnsafe (host_32bit cfg) t
                      else dateToStringConverter t))"
| "Convert cfg DatetimeConv v = on_time v (\<lambda>t. res_map VUint32 (datetimeConverter t))"
| "Convert cfg DatetimeToString v = on_time v (\<lambda>t. res_map VString (datetimeToStringConverter t))"
| "Convert cfg TimestampConv v = on_time v (\<lambda>t. res_map VUint64 (timestampConverter t))"
| "Convert cfg (TimestampToString utc) v = on_time v (\<lambda>t.
     res_map VString
       (if \<not> utc then timestampToStringConverterNaive t
        else if useUnsafeConverters cfg then timestampToStringConverterUTCUnsafe (host_32bit cfg) t
        else timestampToStringConverterUTC t))"
| "Convert cfg (Saturated lo hi c) v = on_time v (\<lambda>t. Convert cfg c (VTime (saturateDateTime t lo hi)))"

text \<open>A saturation writes the saturated time through the pointer it is given; the other converters only read.\<close>

primrec after_Convert :: "converter \<Rightarrow> go_value \<Rightarrow> go_value" where
  "after_Convert (Noop k) v = v"
| "after_Convert BoolConv v = v"
| "after_Convert StringToBytes v = v"
| "after_Convert BytesToString v = v"
| "after_Convert DateConv v = v"
| "after_Convert DateToString v = v"
| "after_Convert DatetimeConv v = v"
| "after_Convert DatetimeToString v = v"
| "after_Convert TimestampConv v = v"
| "after_Convert (TimestampToString utc) v = v"
| "after_Convert (Saturated lo hi c) v =
     (case v of VTime t \<Rightarrow> after_Convert c (VTime (saturateDateTime t lo hi)) | _ \<Rightarrow> v)"

lemma on_time_VTime [simp]: "on_time (VTime t) f = f t"
  by (simp add: on_time_def)

section \<open>Appenders\<close>

text \<open>
  \<^verbatim>\<open>MakeAppender\<close>, \<^verbatim>\<open>MakeAppenderNullable\<close>, the closures over \<^verbatim>\<open>appendValuePtrToArrowBuilder\<close> of
  PostgreSQL, and the closures that append byte slices and UUIDs to a binary builder.
\<close>

datatype appender =
    MakeAppender converter arrow_type
  | MakeAppenderNullable converter arrow_type
  | PgAppender converter arrow_type
  | BytesAppender
  | UuidAppender

fun appender_builder :: "appender \<Rightarrow> arrow_type" where
  "appender_builder (MakeAppender c ab) = ab"
| "appender_builder (MakeAppenderNullable c ab) = ab"
| "appender_builder (PgAppender c ab) = ab"
| "appender_builder BytesAppender = Arrow_Binary"
| "appender_builder UuidAppender = Arrow_Binary"

datatype cell = Null | Cell go_value

text \<open>The part after the type assertion on the acceptor, common to both generic functions.\<close>

definition append_converted :: "conversion_config \<Rightarrow> converter \<Rightarrow> arrow_type \<Rightarrow> go_value \<Rightarrow> arrow_type \<Rightarrow> cell res" where
  "append_converted cfg c ab v builder =
     (case Convert cfg c v of
        Ok out \<Rightarrow> if builder = ab then Ok (Cell out) else Panic ''interface conversion''
      | Err e \<Rightarrow> if errors_is e ErrValueOutOfTypeBounds then Ok Null else Err (Wrap ''convert value'' e)
      | Panic m \<Rightarrow> Panic m)"

definition AppendValueToArrowBuilder ::
    "conversion_config \<Rightarrow> converter \<Rightarrow> arrow_type \<Rightarrow> acceptor \<Rightarrow> arrow_type \<Rightarrow> (cell \<times> acceptor) res" where
  "AppendValueToArrowBuilder cfg c ab acceptor builder =
     (case acceptor of
        Ptr v \<Rightarrow> if kind_of v = conv_in c then res_map (\<lambda>x. (x, Ptr (after_Convert c v))) (append_converted cfg c ab v builder)
                else Panic ''interface conversion''
      | _ \<Rightarrow> Panic ''interface conversion'')"

text \<open>The nullable variant resets the pointer of the acceptor after a value was appended.\<close>

definition AppendValueToArrowBuilderNullable ::
    "conversion_config \<Rightarrow> converter \<Rightarrow> arrow_type \<Rightarrow> acceptor \<Rightarrow> arrow_type \<Rightarrow> (cell \<times> acceptor) res" where
  "AppendValueToArrowBuilderNullable cfg c ab acceptor builder =
     (case acceptor of
        PtrPtr k p \<Rightarrow>
          if k \<noteq> conv_in c then Panic ''interface conversion''
          else (case p of
                  None \<Rightarrow> Ok (Null, PtrPtr k None)
                | Some v \<Rightarrow> res_map (\<lambda>x. (x, PtrPtr k (if x = Null then Some (after_Convert c v) else None)))
                             (append_converted cfg c ab v builder))
      | _ \<Rightarrow> Panic ''interface conversion'')"

definition append_raw :: "go_kind \<Rightarrow> (go_value \<Rightarrow> go_value) \<Rightarrow> acceptor \<Rightarrow> arrow_type \<Rightarrow> (cell \<times> acceptor) res" where
  "append_raw kind f acceptor builder =
     (case acceptor of
        PtrPtr k p \<Rightarrow>
          if k \<noteq> kind \<or> builder \<noteq> Arrow_Binary then Panic ''interface conversion''
          else Ok (case p of Some v \<Rightarrow> Cell (f v) | None \<Rightarrow> Null, acceptor)
      | _ \<Rightarrow> Panic ''interface conversion'')"

fun uuid_bytes :: "go_value \<Rightarrow> go_value" where
  "uuid_bytes (VUuid s) = VBytes s"
| "uuid_bytes v = v"

fun run_appender :: "conversion_config \<Rightarrow> appender \<Rightarrow> acceptor \<Rightarrow> arrow_type \<Rightarrow> (cell \<times> acceptor) res" where
  "run_appender cfg (MakeAppender c ab) a b = AppendValueToArrowBuilder cfg c ab a b"
| "run_appender cfg (MakeAppenderNullable c ab) a b = AppendValueToArrowBuilderNullable cfg c ab a b"
| "run_appender cfg (PgAppender c ab) a b =
     (case a of
        PgBox v valid \<Rightarrow>
          if kind_of v \<noteq> conv_in c then Panic ''interface conversion''
          else if \<not> valid then Ok (Null, a)
          else res_map (\<lambda>(x, _). (x, PgBox (after_Convert c v) valid)) (AppendValueToArrowBuilder cfg c ab (Ptr v) b)
      | _ \<Rightarrow> Panic ''interface conversion'')"
| "run_appender cfg BytesAppender a b = append_raw KBytes (\<lambda>v. v) a b"
| "run_appender cfg UuidAppender a b = append_raw KUuid uuid_bytes a b"

section \<open>Typing\<close>

fun arrow_kind :: "arrow_type \<Rightarrow> go_kind option" where
  "arrow_kind Arrow_Uint8 = Some KUint8" | "arrow_kind Arrow_Int8 = Some KInt8"
| "arrow_kind Arrow_Uint16 = Some KUint16" | "arrow_kind Arrow_Int16 = Some KInt16"
| "arrow_kind Arrow_Uint32 = Some KUint32" | "arrow_kind Arrow_Int32 = Some KInt32"
| "arrow_kind Arrow_Uint64 = Some KUint64" | "arrow_kind Arrow_Int64 = Some KInt64"
| "arrow_kind Arrow_Float32 = Some KFloat32" | "arrow_kind Arrow_Float64 = Some KFloat64"
| "arrow_kind Arrow_Binary = Some KBytes" | "arrow_kind Arrow_String = Some KString"
| "arrow_kind (Arrow_Struct fs) = None"

text \<open>What a driver may scan into an acceptor: a value of its kind, with times the library can hold.\<close>

definition value_ok :: "go_value \<Rightarrow> bool" where
  "value_ok v \<longleftrightarrow> (\<forall>t. v = VTime t \<longrightarrow> wf_time t)"

fun scanned_into :: "acceptor \<Rightarrow> acceptor \<Rightarrow> bool" where
  "scanned_into (Ptr z) (Ptr v) = (kind_of v = kind_of z \<and> value_ok v)"
| "scanned_into (PtrPtr k z) (PtrPtr k' p) = (k' = k \<and> (\<forall>v. p = Some v \<longrightarrow> kind_of v = k \<and> value_ok v))"
| "scanned_into (PgBox z w) (PgBox v valid) = (kind_of v = kind_of z \<and> value_ok v)"
| "scanned_into _ _ = False"

text \<open>Converters as the sources build them: a saturation wraps a conversion to a string.\<close>

fun conv_ok :: "converter \<Rightarrow> bool" where
  "conv_ok (Saturated lo hi c) =
     (wf_time lo \<and> wf_time hi \<and> (case c of Saturated _ _ _ \<Rightarrow> False | _ \<Rightarrow> conv_in c = KTime))"
| "conv_ok _ = True"

definition converter_fits :: "converter \<Rightarrow> arrow_type \<Rightarrow> bool" where
  "converter_fits c ab \<longleftrightarrow> conv_ok c \<and> arrow_kind ab = Some (conv_out c)"

text \<open>An acceptor and an appender that belong together, for a builder of type \<open>b\<close>.\<close>

fun entry_fits :: "acceptor \<times> appender \<Rightarrow> arrow_type \<Rightarrow> bool" where
  "entry_fits (Ptr z, MakeAppender c ab) b = (kind_of z = conv_in c \<and> converter_fits c ab \<and> ab = b)"
| "entry_fits (PtrPtr k z, MakeAppenderNullable c ab) b = (k = conv_in c \<and> converter_fits c ab \<and> ab = b)"
| "entry_fits (PgBox z w, PgAppender c ab) b = (kind_of z = conv_in c \<and> converter_fits c ab \<and> ab = b)"
| "entry_fits (PtrPtr k z, BytesAppender) b = (k = KBytes \<and> b = Arrow_Binary)"
| "entry_fits (PtrPtr k z, UuidAppender) b = (k = KUuid \<and> b = Arrow_Binary)"
| "entry_fits _ b = False"

lemma res_map_simps [simp]:
  "res_map f (Ok x) = Ok (f x)" "res_map f (Err e) = Err e" "res_map f (Panic m) = Panic m"
  by (simp_all add: res_map_def)

lemma res_map_Ok_iff: "res_map f r = Ok y \<longleftrightarrow> (\<exists>x. r = Ok x \<and> y = f x)"
  by (cases r) auto

text \<open>With a well-formed time both collections write a string.\<close>

lemma unsafe_date_Ok:
  "wf_time t \<Longrightarrow> dateToStringConverterUnsafe h t = Ok (format_date t)"
  "wf_time t \<Longrightarrow> timestampToStringConverterUTCUnsafe h t =
     Ok (format_date (UTC t) @ ''T'' @ format_clock (UTC t) @ fraction9 (nano t) @ ''Z'')"
  using unsafe_agree [of t h] by (simp_all add: dateToStringConverter_def timestampToStringConverterUTC_def)

text \<open>A conversion of a value of the right kind gives a value of the output kind or an error that says
  that the value is out of bounds; only the three conversions to numbers can fail.\<close>

fun conv_partial :: "converter \<Rightarrow> bool" where
  "conv_partial DateConv = True"
| "conv_partial DatetimeConv = True"
| "conv_partial TimestampConv = True"
| "conv_partial (Saturated lo hi c) = conv_partial c"
| "conv_partial _ = False"

definition conv_result :: "converter \<Rightarrow> go_value res \<Rightarrow> bool" where
  "conv_result c r \<longleftrightarrow>
     (case r of
        Ok v \<Rightarrow> kind_of v = conv_out c
      | Err e \<Rightarrow> conv_partial c \<and> errors_is e ErrValueOutOfTypeBounds
      | Panic m \<Rightarrow> False)"

lemma ydb_time_results:
  "(\<exists>d. TimeToYDBDate t = Ok d) \<or> (\<exists>e. TimeToYDBDate t = Err e \<and> errors_is e ErrValueOutOfTypeBounds)"
  "(\<exists>d. TimeToYDBDatetime t = Ok d) \<or> (\<exists>e. TimeToYDBDatetime t = Err e \<and> errors_is e ErrValueOutOfTypeBounds)"
  "(\<exists>d. TimeToYDBTimestamp t = Ok d) \<or> (\<exists>e. TimeToYDBTimestamp t = Err e \<and> errors_is e ErrValueOutOfTypeBounds)"
  by (auto simp: TimeToYDBDate_def TimeToYDBDatetime_def TimeToYDBTimestamp_def out_of_bounds_def Let_def)

lemma Convert_time:
  assumes "wf_time t" and "conv_in c = KTime" and "\<nexists>lo hi c'. c = Saturated lo hi c'"
  shows "conv_result c (Convert cfg c (VTime t))"
proof (cases c)
  case (TimestampToString utc)
  then show ?thesis
    using assms(1) by (simp add: conv_result_def unsafe_date_Ok timestampToStringConverterUTC_def
        timestampToStringConverterNaive_def)
qed (use assms ydb_time_results [of t] in \<open>auto simp: conv_result_def dateConverter_def datetimeConverter_def
      timestampConverter_def dateToStringConverter_def datetimeToStringConverter_def unsafe_date_Ok\<close>)

lemma wf_saturate: "wf_time t \<Longrightarrow> wf_time lo \<Longrightarrow> wf_time hi \<Longrightarrow> wf_time (saturateDateTime t lo hi)"
  by (simp add: saturateDateTime_def Let_def)

lemma Convert_typed:
  assumes "conv_ok c" and "kind_of v = conv_in c" and "value_ok v"
  shows "conv_result c (Convert cfg c v)"
proof (cases "conv_in c = KTime")
  case True
  then obtain t where v: "v = VTime t" "wf_time t" using assms(2,3) by (cases v) (auto simp: value_ok_def)
  show ?thesis
  proof (cases "\<exists>lo hi c'. c = Saturated lo hi c'")
    case True
    then obtain lo hi c' where c: "c = Saturated lo hi c'" by blast
    with assms(1) have c': "wf_time lo" "wf_time hi" "conv_in c' = KTime" "\<nexists>lo hi d. c' = Saturated lo hi d"
      by (cases c'; simp)+
    from Convert_time [OF wf_saturate [OF v(2) c'(1,2)] c'(3,4), of cfg]
    show ?thesis by (simp add: c v conv_result_def split: res.splits)
  qed (use Convert_time [OF v(2) True] v(1) in simp)
next
  case False
  then show ?thesis
    using assms by (cases c; cases v) (auto simp: conv_result_def split: converter.splits)
qed

text \<open>An appender never panics on what its acceptor can hold: the value lands in the builder, or a
  NULL does, and a NULL only for a nil pointer, an invalid box or a value out of bounds.\<close>

definition appended :: "acceptor \<times> appender \<Rightarrow> (cell \<times> acceptor) res \<Rightarrow> bool" where
  "appended e r \<longleftrightarrow>
     (\<exists>x a'. r = Ok (x, a') \<and>
        (case x of Cell v \<Rightarrow> arrow_kind (appender_builder (snd e)) = Some (kind_of v) | Null \<Rightarrow> True))"

lemma append_converted_typed:
  assumes "converter_fits c ab" and "kind_of v = conv_in c" and "value_ok v"
  shows "\<exists>x. append_converted cfg c ab v ab = Ok x \<and>
             (case x of Cell w \<Rightarrow> arrow_kind ab = Some (kind_of w) | Null \<Rightarrow> conv_partial c)"
  using Convert_typed [of c v cfg] assms
  by (auto simp: append_converted_def converter_fits_def conv_result_def split: res.splits)

lemma run_appender_typed:
  assumes "entry_fits (z, app) b" and "scanned_into z a"
  shows "appended (z, app) (run_appender cfg app a b)"
proof (cases app)
  case (MakeAppender c ab)
  with assms obtain v where "a = Ptr v" "kind_of v = conv_in c" "value_ok v" "converter_fits c ab" "ab = b"
    by (cases z; cases a) auto
  with append_converted_typed [of c ab v cfg] show ?thesis
    by (auto simp: MakeAppender appended_def AppendValueToArrowBuilder_def split: cell.splits)
next
  case (MakeAppenderNullable c ab)
  with assms obtain p where "a = PtrPtr (conv_in c) p" "\<forall>v. p = Some v \<longrightarrow> kind_of v = conv_in c \<and> value_ok v"
    "converter_fits c ab" "ab = b"
    by (cases z; cases a) auto
  with append_converted_typed [of c ab _ cfg] show ?thesis
    by (cases p) (fastforce simp: MakeAppenderNullable appended_def AppendValueToArrowBuilderNullable_def split: cell.splits)+
next
  case (PgAppender c ab)
  with assms obtain v valid where "a = PgBox v valid" "kind_of v = conv_in c" "value_ok v" "converter_fits c ab" "ab = b"
    by (cases z; cases a) auto
  with append_converted_typed [of c ab v cfg] show ?thesis
    by (auto simp: PgAppender appended_def AppendValueToArrowBuilder_def split: cell.splits)
next
  case BytesAppender
  with assms obtain p where "a = PtrPtr KBytes p" "\<forall>v. p = Some v \<longrightarrow> kind_of v = KBytes" "b = Arrow_Binary"
    by (cases z; cases a) auto
  then show ?thesis by (auto simp: BytesAppender appended_def append_raw_def split: option.splits)
next
  case UuidAppender
  with assms obtain p where p: "a = PtrPtr KUuid p" "\<forall>v. p = Some v \<longrightarrow> kind_of v = KUuid" "b = Arrow_Binary"
    by (cases z; cases a) auto
  have "kind_of v = KUuid \<Longrightarrow> kind_of (uuid_bytes v) = KBytes" for v by (cases v) auto
  with p show ?thesis by (auto simp: UuidAppender appended_def append_raw_def split: option.splits)
qed

end
