(* ===== verification/Transformers.thy ===== *)
theory Transformers
  imports TypeMappers Appenders
begin

text \<open>
  The read side of the type mappers: for each column of a result the acceptor that the driver scans
  into and the appender that moves it to Arrow (\<^verbatim>\<open>transformerFromSQLTypes\<close>, \<^verbatim>\<open>transformerFromOIDs\<close> and
  the functions they call, in \<^verbatim>\<open>src/app/server/datasource/rdbms/*/type_mapper.go\<close> and
  \<^verbatim>\<open>clickhouse/acceptor_appender*.go\<close>). The theorems connect them with the write side: a column that
  DescribeTable offers can be read without a type assertion failing.
\<close>

section \<open>Entries of a transformer\<close>

type_synonym entry = "acceptor \<times> appender"

definition plain :: "converter \<Rightarrow> arrow_type \<Rightarrow> entry" where
  "plain c ab = (Ptr (zero_value (conv_in c)), MakeAppender c ab)"

definition nullable :: "converter \<Rightarrow> arrow_type \<Rightarrow> entry" where
  "nullable c ab = (PtrPtr (conv_in c) None, MakeAppenderNullable c ab)"

definition boxed :: "converter \<Rightarrow> arrow_type \<Rightarrow> entry" where
  "boxed c ab = (PgBox (zero_value (conv_in c)) False, PgAppender c ab)"

definition raw_bytes :: entry where
  "raw_bytes = (PtrPtr KBytes None, BytesAppender)"

text \<open>The inner switch on the primitive type of the column.\<close>

definition by_ydb_type :: "ydb_type res \<Rightarrow> (prim_type \<times> entry) list \<Rightarrow> entry res" where
  "by_ydb_type ydbType tbl =
     bind_res ydbType (\<lambda>t.
     bind_res (wrap_res ''ydb type to ydb primitive type id'' (YdbTypeToYdbPrimitiveTypeID t)) (\<lambda>i.
       case map_of tbl i of
         Some e \<Rightarrow> Ok e
       | None \<Rightarrow> Err (Wrap ''unexpected ydb type'' (Sentinel ErrDataTypeNotSupported))))"

text \<open>The loop over the columns; \<^verbatim>\<open>ydbTypes[i]\<close> is evaluated by the branches that need it.\<close>

fun transform :: "('t \<Rightarrow> ydb_type res \<Rightarrow> entry res) \<Rightarrow> 't list \<Rightarrow> ydb_type list \<Rightarrow> entry list res" where
  "transform f [] ys = Ok []"
| "transform f (t # ts) ys =
     bind_res (f t (case ys of y # _ \<Rightarrow> Ok y | [] \<Rightarrow> Panic ''index out of range'')) (\<lambda>e.
     bind_res (transform f ts (tl ys)) (\<lambda>es. Ok (e # es)))"

section \<open>ClickHouse\<close>

definition minClickHouseDate :: go_time where
  "minClickHouseDate = \<lparr>unix_sec = 0, nano = 0, zone = 0\<rparr>"

definition maxClickHouseDate :: go_time where
  "maxClickHouseDate = \<lparr>unix_sec = 5662224000, nano = 0, zone = 0\<rparr>"

definition minClickHouseDate32 :: go_time where
  "minClickHouseDate32 = \<lparr>unix_sec = - 2208988800, nano = 0, zone = 0\<rparr>"

definition maxClickHouseDate32 :: go_time where
  "maxClickHouseDate32 = \<lparr>unix_sec = 10413705600, nano = 0, zone = 0\<rparr>"

definition minClickHouseDatetime :: go_time where
  "minClickHouseDatetime = \<lparr>unix_sec = 0, nano = 0, zone = 0\<rparr>"

definition maxClickHouseDatetime :: go_time where
  "maxClickHouseDatetime = \<lparr>unix_sec = 4294967295, nano = 0, zone = 0\<rparr>"

definition minClickHouseDatetime64 :: go_time where
  "minClickHouseDatetime64 = \<lparr>unix_sec = - 2208988800, nano = 0, zone = 0\<rparr>"

definition maxClickHouseDatetime64 :: go_time where
  "maxClickHouseDatetime64 = \<lparr>unix_sec = 10413791999, nano = 99999999, zone = 0\<rparr>"

lemmas ch_bounds =
  minClickHouseDate_def maxClickHouseDate_def minClickHouseDate32_def maxClickHouseDate32_def
  minClickHouseDatetime_def maxClickHouseDatetime_def minClickHouseDatetime64_def maxClickHouseDatetime64_def

definition ch_converters :: "(string \<times> converter \<times> arrow_type) list" where
  "ch_converters =
     [(''Bool'', BoolConv, Arrow_Uint8), (''Int8'', Noop KInt8, Arrow_Int8), (''Int16'', Noop KInt16, Arrow_Int16),
      (''Int32'', Noop KInt32, Arrow_Int32), (''Int64'', Noop KInt64, Arrow_Int64),
      (''UInt8'', Noop KUint8, Arrow_Uint8), (''UInt16'', Noop KUint16, Arrow_Uint16),
      (''UInt32'', Noop KUint32, Arrow_Uint32), (''UInt64'', Noop KUint64, Arrow_Uint64),
      (''Float32'', Noop KFloat32, Arrow_Float32), (''Float64'', Noop KFloat64, Arrow_Float64)]"

text \<open>The two functions of the source differ in the constructor of the entry only.\<close>

definition ch_entry :: "(converter \<Rightarrow> arrow_type \<Rightarrow> entry) \<Rightarrow> string \<Rightarrow> ydb_type \<Rightarrow> entry res" where
  "ch_entry mk typeName ydbType =
     (case map_of ch_converters typeName of
        Some (c, ab) \<Rightarrow> Ok (mk c ab)
      | None \<Rightarrow>
          if typeName = ''String'' \<or> match_string isFixedString typeName then Ok (mk StringToBytes Arrow_Binary)
          else if typeName = ''Date'' then
            by_ydb_type (Ok ydbType)
              [(Type_UTF8, mk (Saturated minClickHouseDate maxClickHouseDate DateToString) Arrow_String),
               (Type_DATE, mk DateConv Arrow_Uint16)]
          else if typeName = ''Date32'' then
            by_ydb_type (Ok ydbType)
              [(Type_UTF8, mk (Saturated minClickHouseDate32 maxClickHouseDate32 DateToString) Arrow_String),
               (Type_DATE, mk DateConv Arrow_Uint16)]
          else if match_string isDateTime64 typeName then
            by_ydb_type (Ok ydbType)
              [(Type_UTF8, mk (Saturated minClickHouseDatetime64 maxClickHouseDatetime64 (TimestampToString True)) Arrow_String),
               (Type_TIMESTAMP, mk TimestampConv Arrow_Uint64)]
          else if match_string isDateTime typeName then
            by_ydb_type (Ok ydbType)
              [(Type_UTF8, mk (Saturated minClickHouseDatetime maxClickHouseDatetime DatetimeToString) Arrow_String),
               (Type_DATETIME, mk DatetimeConv Arrow_Uint32)]
          else Err (NewErr ''unknown type''))"

definition addAcceptorAppenderFromSQLTypeName :: "string \<Rightarrow> ydb_type \<Rightarrow> entry res" where
  "addAcceptorAppenderFromSQLTypeName = ch_entry plain"

definition addAcceptorAppenderFromSQLTypeNameNullable :: "string \<Rightarrow> ydb_type \<Rightarrow> entry res" where
  "addAcceptorAppenderFromSQLTypeNameNullable = ch_entry nullable"

definition ch_column :: "string \<Rightarrow> ydb_type res \<Rightarrow> entry res" where
  "ch_column typeName0 ydbType =
     bind_res ydbType (\<lambda>t.
       let (is_nullable, typeName) = strip isNullable typeName0
       in if is_nullable then wrap_res ''nullable'' (addAcceptorAppenderFromSQLTypeNameNullable typeName t)
          else wrap_res ''nonnullable'' (addAcceptorAppenderFromSQLTypeName typeName t))"

definition ch_transformerFromSQLTypes :: "string list \<Rightarrow> ydb_type list \<Rightarrow> entry list res" where
  "ch_transformerFromSQLTypes = transform ch_column"

section \<open>YDB\<close>

definition ydb_converters :: "(string \<times> converter \<times> arrow_type) list" where
  "ydb_converters =
     [(''Bool'', BoolConv, Arrow_Uint8), (''Int8'', Noop KInt8, Arrow_Int8), (''Int16'', Noop KInt16, Arrow_Int16),
      (''Int32'', Noop KInt32, Arrow_Int32), (''Int64'', Noop KInt64, Arrow_Int64),
      (''Uint8'', Noop KUint8, Arrow_Uint8), (''Uint16'', Noop KUint16, Arrow_Uint16),
      (''Uint32'', Noop KUint32, Arrow_Uint32), (''Uint64'', Noop KUint64, Arrow_Uint64),
      (''Float'', Noop KFloat32, Arrow_Float32), (''Double'', Noop KFloat64, Arrow_Float64),
      (''String'', Noop KBytes, Arrow_Binary), (''Utf8'', Noop KString, Arrow_String),
      (''Json'', Noop KString, Arrow_String), (''JsonDocument'', Noop KString, Arrow_String)]"

definition makeAcceptorAppenderCheckOptional :: "bool \<Rightarrow> converter \<Rightarrow> arrow_type \<Rightarrow> entry" where
  "makeAcceptorAppenderCheckOptional optional c ab = (if optional then nullable c ab else plain c ab)"

definition makeAcceptorAppender :: "string \<Rightarrow> prim_type \<Rightarrow> bool \<Rightarrow> entry res" where
  "makeAcceptorAppender typeName ydbTypeID optional =
     (let mk = makeAcceptorAppenderCheckOptional optional;
          mismatch = Err (Wrap ''unexpected ydb type id'' (Sentinel ErrDataTypeNotSupported))
      in case map_of ydb_converters typeName of
           Some (c, ab) \<Rightarrow> Ok (mk c ab)
         | None \<Rightarrow>
             if typeName = ''Date'' then
               (if ydbTypeID = Type_DATE then Ok (mk DateConv Arrow_Uint16)
                else if ydbTypeID = Type_UTF8 then Ok (mk DateToString Arrow_String) else mismatch)
             else if typeName = ''Datetime'' then
               (if ydbTypeID = Type_DATETIME then Ok (mk DatetimeConv Arrow_Uint32) else mismatch)
             else if typeName = ''Timestamp'' then
               (if ydbTypeID = Type_TIMESTAMP then Ok (mk TimestampConv Arrow_Uint64) else mismatch)
             else Err (NewErr ''unknown type''))"

definition ydb_column :: "string \<Rightarrow> ydb_type res \<Rightarrow> entry res" where
  "ydb_column typeName0 ydbType =
     (let (optional, typeName) = strip isOptional typeName0
      in bind_res ydbType (\<lambda>t.
         bind_res (wrap_res ''ydb type to ydb primitive type id'' (YdbTypeToYdbPrimitiveTypeID t)) (\<lambda>i.
           wrap_res ''make transformer'' (makeAcceptorAppender typeName i optional))))"

definition ydb_transformerFromSQLTypes :: "string list \<Rightarrow> ydb_type list \<Rightarrow> entry list res" where
  "ydb_transformerFromSQLTypes = transform ydb_column"

section \<open>MS SQL Server\<close>

definition ms_converters :: "(string \<times> converter \<times> arrow_type) list" where
  "ms_converters =
     [(''BIT'', BoolConv, Arrow_Uint8), (''TINYINT'', Noop KInt8, Arrow_Int8), (''SMALLINT'', Noop KInt16, Arrow_Int16),
      (''INT'', Noop KInt32, Arrow_Int32), (''BIGINT'', Noop KInt64, Arrow_Int64),
      (''REAL'', Noop KFloat32, Arrow_Float32), (''FLOAT'', Noop KFloat64, Arrow_Float64),
      (''CHAR'', Noop KString, Arrow_String), (''VARCHAR'', Noop KString, Arrow_String),
      (''TEXT'', Noop KString, Arrow_String), (''NCHAR'', Noop KString, Arrow_String),
      (''NVARCHAR'', Noop KString, Arrow_String), (''NTEXT'', Noop KString, Arrow_String)]"

definition ms_column :: "string \<Rightarrow> ydb_type res \<Rightarrow> entry res" where
  "ms_column typeName ydbType =
     (case map_of ms_converters typeName of
        Some (c, ab) \<Rightarrow> Ok (nullable c ab)
      | None \<Rightarrow>
          if typeName \<in> {''BINARY'', ''VARBINARY'', ''IMAGE''} then Ok raw_bytes
          else if typeName = ''DATE'' then
            by_ydb_type ydbType [(Type_UTF8, nullable DateToString Arrow_String), (Type_DATE, nullable DateConv Arrow_Uint16)]
          else if typeName = ''SMALLDATETIME'' then
            by_ydb_type ydbType
              [(Type_UTF8, nullable DatetimeToString Arrow_String), (Type_DATETIME, nullable DatetimeConv Arrow_Uint32)]
          else if typeName \<in> {''DATETIME'', ''DATETIME2''} then
            by_ydb_type ydbType
              [(Type_UTF8, nullable (TimestampToString True) Arrow_String),
               (Type_TIMESTAMP, nullable TimestampConv Arrow_Uint64)]
          else unsupported_type)"

definition ms_transformerFromSQLTypes :: "string list \<Rightarrow> ydb_type list \<Rightarrow> entry list res" where
  "ms_transformerFromSQLTypes = transform ms_column"

section \<open>PostgreSQL\<close>

text \<open>The object identifiers that \<^verbatim>\<open>pgtype\<close> names.\<close>

datatype pg_oid =
    BoolOID | Int2OID | Int4OID | Int8OID | Float4OID | Float8OID | TextOID | BPCharOID | VarcharOID
  | JSONOID | ByteaOID | DateOID | TimestampOID | UUIDOID | OtherOID nat

fun pg_column :: "pg_oid \<Rightarrow> ydb_type res \<Rightarrow> entry res" where
  "pg_column BoolOID y = Ok (boxed BoolConv Arrow_Uint8)"
| "pg_column Int2OID y = Ok (boxed (Noop KInt16) Arrow_Int16)"
| "pg_column Int4OID y = Ok (boxed (Noop KInt32) Arrow_Int32)"
| "pg_column Int8OID y = Ok (boxed (Noop KInt64) Arrow_Int64)"
| "pg_column Float4OID y = Ok (boxed (Noop KFloat32) Arrow_Float32)"
| "pg_column Float8OID y = Ok (boxed (Noop KFloat64) Arrow_Float64)"
| "pg_column TextOID y = Ok (boxed (Noop KString) Arrow_String)"
| "pg_column BPCharOID y = Ok (boxed (Noop KString) Arrow_String)"
| "pg_column VarcharOID y = Ok (boxed (Noop KString) Arrow_String)"
| "pg_column JSONOID y = Ok (boxed (Noop KString) Arrow_String)"
| "pg_column ByteaOID y = Ok raw_bytes"
| "pg_column DateOID y =
     by_ydb_type y [(Type_UTF8, boxed DateToString Arrow_String), (Type_DATE, boxed DateConv Arrow_Uint16)]"
| "pg_column TimestampOID y =
     by_ydb_type y [(Type_UTF8, boxed (TimestampToString True) Arrow_String), (Type_TIMESTAMP, boxed TimestampConv Arrow_Uint64)]"
| "pg_column UUIDOID y = Ok (PtrPtr KUuid None, UuidAppender)"
| "pg_column (OtherOID n) y = Err (Wrap ''convert type OID'' (Sentinel ErrDataTypeNotSupported))"

definition transformerFromOIDs :: "pg_oid list \<Rightarrow> ydb_type list \<Rightarrow> entry list res" where
  "transformerFromOIDs = transform pg_column"

section \<open>MySQL\<close>

text \<open>The type codes of the protocol.\<close>

datatype mysql_type =
    MYSQL_TYPE_INT24 | MYSQL_TYPE_LONG | MYSQL_TYPE_LONGLONG | MYSQL_TYPE_FLOAT | MYSQL_TYPE_DOUBLE | MYSQL_TYPE_TINY
  | MYSQL_TYPE_SHORT | MYSQL_TYPE_LONG_BLOB | MYSQL_TYPE_BLOB | MYSQL_TYPE_MEDIUM_BLOB | MYSQL_TYPE_TINY_BLOB
  | MYSQL_TYPE_VARCHAR | MYSQL_TYPE_STRING | MYSQL_TYPE_VAR_STRING | MYSQL_TYPE_DATE
  | MYSQL_TYPE_DATETIME | MYSQL_TYPE_DATETIME2 | MYSQL_TYPE_TIMESTAMP | MYSQL_TYPE_TIMESTAMP2 | MYSQL_TYPE_JSON
  | MYSQL_TYPE_OTHER nat

definition type_mismatch :: "entry option \<Rightarrow> entry res" where
  "type_mismatch e = (case e of Some x \<Rightarrow> Ok x | None \<Rightarrow> Err (Wrap ''type mismatch'' (Sentinel ErrDataTypeNotSupported)))"

fun my_switch_type :: "mysql_type \<Rightarrow> prim_type \<Rightarrow> entry res" where
  "my_switch_type MYSQL_TYPE_FLOAT i = Ok (nullable (Noop KFloat32) Arrow_Float32)"
| "my_switch_type MYSQL_TYPE_DOUBLE i = Ok (nullable (Noop KFloat64) Arrow_Float64)"
| "my_switch_type MYSQL_TYPE_JSON i = Ok (nullable (Noop KString) Arrow_String)"
| "my_switch_type MYSQL_TYPE_LONGLONG i =
     type_mismatch (map_of [(Type_UINT64, nullable (Noop KUint64) Arrow_Uint64), (Type_INT64, nullable (Noop KInt64) Arrow_Int64)] i)"
| "my_switch_type MYSQL_TYPE_TINY i =
     type_mismatch (map_of [(Type_BOOL, nullable BoolConv Arrow_Uint8), (Type_UINT8, nullable (Noop KUint8) Arrow_Uint8),
       (Type_INT8, nullable (Noop KInt8) Arrow_Int8)] i)"
| "my_switch_type MYSQL_TYPE_SHORT i =
     type_mismatch (map_of [(Type_UINT16, nullable (Noop KUint16) Arrow_Uint16), (Type_INT16, nullable (Noop KInt16) Arrow_Int16)] i)"
| "my_switch_type MYSQL_TYPE_DATE i =
     type_mismatch (map_of [(Type_UTF8, nullable DateToString Arrow_String), (Type_DATE, nullable DateConv Arrow_Uint16)] i)"
| "my_switch_type (MYSQL_TYPE_OTHER n) i = Err (Wrap ''unexpected mysql type'' (Sentinel ErrDataTypeNotSupported))"
| "my_switch_type t i =
     (if t \<in> {MYSQL_TYPE_INT24, MYSQL_TYPE_LONG} then
        type_mismatch (map_of [(Type_UINT32, nullable (Noop KUint32) Arrow_Uint32), (Type_INT32, nullable (Noop KInt32) Arrow_Int32)] i)
      else if t \<in> {MYSQL_TYPE_LONG_BLOB, MYSQL_TYPE_BLOB, MYSQL_TYPE_MEDIUM_BLOB, MYSQL_TYPE_TINY_BLOB} then
        Ok (nullable (Noop KBytes) Arrow_Binary)
      else if t \<in> {MYSQL_TYPE_VARCHAR, MYSQL_TYPE_STRING, MYSQL_TYPE_VAR_STRING} then
        type_mismatch (map_of [(Type_UTF8, nullable (Noop KString) Arrow_String), (Type_STRING, nullable StringToBytes Arrow_Binary)] i)
      else
        type_mismatch (map_of [(Type_UTF8,
            nullable (TimestampToString (t \<in> {MYSQL_TYPE_TIMESTAMP, MYSQL_TYPE_TIMESTAMP2})) Arrow_String),
          (Type_TIMESTAMP, nullable TimestampConv Arrow_Uint64)] i))"

definition addAcceptorAppender :: "mysql_type \<Rightarrow> ydb_type res \<Rightarrow> entry res" where
  "addAcceptorAppender mySQLType ydbType =
     bind_res ydbType (\<lambda>t.
     bind_res (wrap_res ''ydb type to ydb primitive type id'' (YdbTypeToYdbPrimitiveTypeID t)) (\<lambda>i.
       my_switch_type mySQLType i))"

definition my_transformerFromSQLTypes :: "mysql_type list \<Rightarrow> ydb_type list \<Rightarrow> entry list res" where
  "my_transformerFromSQLTypes = transform (\<lambda>t y. wrap_res ''add acceptor appender'' (addAcceptorAppender t y))"

section \<open>Oracle\<close>

definition ora_converters :: "(string \<times> converter \<times> arrow_type) list" where
  "ora_converters =
     [(''NUMBER'', Noop KInt64, Arrow_Int64),
      (''NCHAR'', Noop KString, Arrow_String), (''CHAR'', Noop KString, Arrow_String),
      (''LongVarChar'', Noop KString, Arrow_String), (''LONG'', Noop KString, Arrow_String),
      (''ROWID'', Noop KString, Arrow_String), (''UROWID'', Noop KString, Arrow_String),
      (''RAW'', Noop KBytes, Arrow_Binary), (''LongRaw'', Noop KBytes, Arrow_Binary),
      (''IBDouble'', Noop KFloat64, Arrow_Float64)]"

definition ora_column :: "string \<Rightarrow> ydb_type res \<Rightarrow> entry res" where
  "ora_column typeName ydbType =
     (case map_of ora_converters typeName of
        Some (c, ab) \<Rightarrow> Ok (nullable c ab)
      | None \<Rightarrow>
          if typeName = ''OCIBlobLocator'' then
            bind_res ydbType (\<lambda>t.
            bind_res (wrap_res ''ydb type to ydb primitive type id'' (YdbTypeToYdbPrimitiveTypeID t)) (\<lambda>i.
              Ok (if i = Type_JSON then nullable BytesToString Arrow_String else nullable (Noop KBytes) Arrow_Binary)))
          else if typeName = ''DATE'' then
            by_ydb_type ydbType
              [(Type_UTF8, nullable DatetimeToString Arrow_String), (Type_DATETIME, nullable DatetimeConv Arrow_Uint32)]
          else if typeName \<in> {''TimeStampDTY'', ''TimeStampTZ_DTY'', ''TimeStampLTZ_DTY''} then
            by_ydb_type ydbType
              [(Type_UTF8, nullable (TimestampToString True) Arrow_String),
               (Type_TIMESTAMP, nullable TimestampConv Arrow_Uint64)]
          else unsupported_type)"

definition ora_transformerFromSQLTypes :: "string list \<Rightarrow> ydb_type list \<Rightarrow> entry list res" where
  "ora_transformerFromSQLTypes = transform ora_column"

section \<open>Described columns can be read\<close>

text \<open>The bounds of ClickHouse as civil dates.\<close>

lemma ch_bounds_dates:
  "Date minClickHouseDate = (1970, 1, 1)" "Date maxClickHouseDate = (2149, 6, 6)"
  "Date minClickHouseDate32 = (1900, 1, 1)" "Date maxClickHouseDate32 = (2299, 12, 31)"
  "Date maxClickHouseDatetime = (2106, 2, 7)" "Clock maxClickHouseDatetime = (6, 28, 15)"
  by code_simp+

text \<open>
  A column of type \<open>t\<close> is readable through an entry: the Arrow builder of \<open>t\<close> exists, and whatever the
  driver scans into the acceptor, the appender adds a cell of the builder's kind or a NULL to it.
\<close>

definition readable :: "conversion_config \<Rightarrow> entry res \<Rightarrow> ydb_type \<Rightarrow> bool" where
  "readable cfg r t \<longleftrightarrow>
     (\<exists>z app b. r = Ok (z, app) \<and> ydbTypeToArrowBuilder t = Ok b \<and>
        (\<forall>a. scanned_into z a \<longrightarrow>
           (\<exists>x a'. run_appender cfg app a b = Ok (x, a') \<and>
              (case x of Cell v \<Rightarrow> arrow_kind b = Some (kind_of v) | Null \<Rightarrow> True))))"

lemma entry_fits_builder: "entry_fits (z, app) b \<Longrightarrow> appender_builder app = b"
  by (cases z; cases app) auto

lemma readableI:
  assumes "r = Ok e" and "ydbTypeToArrowBuilder t = Ok b" and "entry_fits e b"
  shows "readable cfg r t"
proof -
  obtain z app where e: "e = (z, app)" by (cases e)
  have fit: "entry_fits (z, app) b" and b: "appender_builder app = b"
    using assms(3) entry_fits_builder [of z app b] by (simp_all add: e)
  have "\<exists>x a'. run_appender cfg app a b = Ok (x, a') \<and>
      (case x of Cell v \<Rightarrow> arrow_kind b = Some (kind_of v) | Null \<Rightarrow> True)" if "scanned_into z a" for a
    using run_appender_typed [OF fit that, of cfg] unfolding appended_def snd_conv b .
  with assms(1,2) show ?thesis unfolding readable_def e by blast
qed

lemma entries_fit [simp]:
  "entry_fits (plain c ab) b \<longleftrightarrow> converter_fits c ab \<and> ab = b"
  "entry_fits (nullable c ab) b \<longleftrightarrow> converter_fits c ab \<and> ab = b"
  "entry_fits (boxed c ab) b \<longleftrightarrow> converter_fits c ab \<and> ab = b"
  "entry_fits raw_bytes b \<longleftrightarrow> b = Arrow_Binary"
  by (auto simp: plain_def nullable_def boxed_def raw_bytes_def)

lemma converters_fit [simp]:
  "converter_fits (Noop k) ab \<longleftrightarrow> arrow_kind ab = Some k"
  "converter_fits BoolConv ab \<longleftrightarrow> arrow_kind ab = Some KUint8"
  "converter_fits StringToBytes ab \<longleftrightarrow> arrow_kind ab = Some KBytes"
  "converter_fits BytesToString ab \<longleftrightarrow> arrow_kind ab = Some KString"
  "converter_fits DateConv ab \<longleftrightarrow> arrow_kind ab = Some KUint16"
  "converter_fits DateToString ab \<longleftrightarrow> arrow_kind ab = Some KString"
  "converter_fits DatetimeConv ab \<longleftrightarrow> arrow_kind ab = Some KUint32"
  "converter_fits DatetimeToString ab \<longleftrightarrow> arrow_kind ab = Some KString"
  "converter_fits TimestampConv ab \<longleftrightarrow> arrow_kind ab = Some KUint64"
  "converter_fits (TimestampToString u) ab \<longleftrightarrow> arrow_kind ab = Some KString"
  by (auto simp: converter_fits_def)

lemma saturated_fit [simp]:
  "converter_fits (Saturated minClickHouseDate maxClickHouseDate DateToString) Arrow_String"
  "converter_fits (Saturated minClickHouseDate32 maxClickHouseDate32 DateToString) Arrow_String"
  "converter_fits (Saturated minClickHouseDatetime maxClickHouseDatetime DatetimeToString) Arrow_String"
  "converter_fits (Saturated minClickHouseDatetime64 maxClickHouseDatetime64 (TimestampToString True)) Arrow_String"
  by (simp_all add: converter_fits_def ch_bounds wf_time_def)

lemma builder_prim: "ydbTypeToArrowBuilder (TypeId i) = Ok b \<longleftrightarrow> ydbTypeIdToArrowBuilder i = Ok b"
  "ydbTypeToArrowBuilder (OptionalType t) = Ok b \<longleftrightarrow> ydbTypeToArrowBuilder t = Ok b"
  by simp_all

lemma prim_id_Optional [simp]:
  "YdbTypeToYdbPrimitiveTypeID (OptionalType (TypeId i)) = Ok i" by simp

text \<open>A table of described types and a table of converters that agree on every name.\<close>

definition tables_agree :: "(string \<times> prim_type) list \<Rightarrow> (string \<times> converter \<times> arrow_type) list \<Rightarrow> bool" where
  "tables_agree tys cs =
     list_all (\<lambda>(n, i). case map_of cs n of
        Some (c, ab) \<Rightarrow> ydbTypeIdToArrowBuilder i = Ok ab \<and> arrow_kind ab = Some (conv_out c) \<and> conv_ok c
      | None \<Rightarrow> False) tys"

lemma tables_agree_lookup:
  "tables_agree tys cs \<Longrightarrow> map_of tys n = Some i \<Longrightarrow>
     \<exists>c ab. map_of cs n = Some (c, ab) \<and> ydbTypeIdToArrowBuilder i = Ok ab \<and> converter_fits c ab"
  by (fastforce simp: tables_agree_def list_all_iff converter_fits_def dest: map_of_SomeD split: option.splits)

lemma ch_tables_agree: "tables_agree ch_fixed_types ch_converters"
  by code_simp

lemma ch_tables_keys: "map_of ch_fixed_types n = None \<longleftrightarrow> map_of ch_converters n = None"
  by (auto simp: map_of_eq_None_iff ch_fixed_types_def ch_converters_def)

lemma ch_unsupported:
  assumes "map_of ch_fixed_types n = None" and "\<not> (n = ''String'' \<or> match_string isFixedString n)" and "n \<noteq> ''Date''"
    and "n \<noteq> ''Date32''" and "\<not> match_string isDateTime64 n" and "\<not> match_string isDateTime n"
  shows "ch_switch n fmt = unsupported_type"
  using assms by (simp add: ch_switch_def)

text \<open>What is known of the entry for a described type: it is made from a converter that fits the builder,
  and one that can refuse a value only if the column is nullable because of its value range.\<close>

definition ch_entry_for :: "(converter \<Rightarrow> arrow_type \<Rightarrow> entry) \<Rightarrow> (ydb_type \<Rightarrow> entry res) \<Rightarrow> ydb_type \<Rightarrow> bool \<Rightarrow> bool" where
  "ch_entry_for mk r t wide \<longleftrightarrow>
     (\<exists>c ab. r t = Ok (mk c ab) \<and> r (OptionalType t) = Ok (mk c ab) \<and> ydbTypeToArrowBuilder t = Ok ab \<and>
        converter_fits c ab \<and> (conv_partial c \<longrightarrow> wide))"

lemma by_ydb_type_time:
  assumes "\<And>t. r t = by_ydb_type (Ok t) [(Type_UTF8, mk c Arrow_String), (j, mk d ab)]"
    and "bind_res (MakeYdbDateTimeType j fmt) (\<lambda>t. Ok (t, fmt = YQL_FORMAT)) = Ok (t, wide)"
    and "converter_fits c Arrow_String" and "\<not> conv_partial c" and "converter_fits d ab"
    and "ydbTypeIdToArrowBuilder j = Ok ab" and "j \<noteq> Type_UTF8"
  shows "ch_entry_for mk r t wide"
  using assms(2-) by (cases fmt) (auto simp: ch_entry_for_def by_ydb_type_def assms(1))

lemma ch_entry_described:
  assumes "ch_switch typeName fmt = Ok (t, wide)"
  shows "ch_entry_for mk (ch_entry mk typeName) t wide"
proof (cases "map_of ch_fixed_types typeName")
  case (Some i)
  with assms have "t = TypeId i" by (auto simp: ch_switch_def)
  moreover obtain c ab where c: "map_of ch_converters typeName = Some (c, ab)"
    and "ydbTypeIdToArrowBuilder i = Ok ab" "converter_fits c ab"
    using tables_agree_lookup [OF ch_tables_agree Some] by blast
  moreover have "list_all (\<lambda>(n, c, ab). \<not> conv_partial c) ch_converters" by code_simp
  then have "\<not> conv_partial c" using map_of_SomeD [OF c] by (auto simp: list_all_iff)
  moreover have "ch_entry mk typeName x = Ok (mk c ab)" for x by (simp add: ch_entry_def c)
  ultimately show ?thesis by (auto simp: ch_entry_for_def)
next
  case None
  then have none: "map_of ch_converters typeName = None" by (simp add: ch_tables_keys)
  show ?thesis
  proof (cases "typeName = ''String'' \<or> match_string isFixedString typeName")
    case True
    with assms None have "t = TypeId Type_STRING" by (auto simp: ch_switch_def)
    moreover from True none have "ch_entry mk typeName x = Ok (mk StringToBytes Arrow_Binary)" for x
      by (auto simp: ch_entry_def)
    ultimately show ?thesis
      unfolding ch_entry_for_def by (intro exI [of _ StringToBytes] exI [of _ Arrow_Binary]) simp
  next
    case False
    note rest = assms [unfolded ch_switch_def Let_def None option.case if_not_P [OF False]]
      ch_entry_def [of mk typeName, unfolded none option.case if_not_P [OF False]]
    consider "typeName = ''Date''" | "typeName = ''Date32''"
      | "typeName \<noteq> ''Date''" "typeName \<noteq> ''Date32''" "match_string isDateTime64 typeName"
      | "typeName \<noteq> ''Date''" "typeName \<noteq> ''Date32''" "\<not> match_string isDateTime64 typeName" "match_string isDateTime typeName"
      using assms ch_unsupported [OF None False, of fmt] by (auto simp: unsupported_type_def)
    then show ?thesis
      by cases (rule by_ydb_type_time, use rest in \<open>simp add: res_simps; fail\<close>, use rest in \<open>simp; fail\<close>, simp_all)+
  qed
qed

text \<open>The check of one pair of a type name and the primitive type it is described by.\<close>

definition fits_prim :: "entry res \<Rightarrow> prim_type \<Rightarrow> bool" where
  "fits_prim r i =
     (case r of
        Ok e \<Rightarrow> (case ydbTypeIdToArrowBuilder i of Ok b \<Rightarrow> entry_fits e b | _ \<Rightarrow> False)
      | _ \<Rightarrow> False)"

lemma fits_prim_readable:
  "fits_prim r i \<Longrightarrow> t = TypeId i \<or> t = OptionalType (TypeId i) \<Longrightarrow> readable cfg r t"
  by (auto simp: fits_prim_def intro!: readableI split: res.splits)

lemma fits_prim_wrap: "fits_prim (wrap_res p r) i = fits_prim r i"
  by (cases r) (simp_all add: fits_prim_def)

lemma ydb_pairs_fit:
  "list_all (\<lambda>(n, i). fits_prim (makeAcceptorAppender n i True) i \<and> fits_prim (makeAcceptorAppender n i False) i) ydb_types"
  by code_simp

lemma ydb_column_readable:
  assumes "ydb_SQLTypeToYDBColumn n typeName fmt = Ok c"
  shows "readable cfg (ydb_column typeName (Ok (col_type c))) (col_type c)"
proof -
  obtain opt name where st: "strip isOptional typeName = (opt, name)" by (cases "strip isOptional typeName")
  from assms obtain i where i: "map_of ydb_types name = Some i"
    and t: "col_type c = (if opt then OptionalType (TypeId i) else TypeId i)"
    by (auto simp: ydb_SQLTypeToYDBColumn_def st makePrimitiveTypeFromString_def unsupported_type_def res_simps
        split: option.splits)
  have "fits_prim (makeAcceptorAppender name i opt) i"
    using ydb_pairs_fit map_of_SomeD [OF i] by (cases opt) (auto simp: list_all_iff)
  moreover have "ydb_column typeName (Ok (col_type c)) = wrap_res ''make transformer'' (makeAcceptorAppender name i opt)"
    by (cases opt) (simp_all add: ydb_column_def st t)
  ultimately have "fits_prim (ydb_column typeName (Ok (col_type c))) i" by (simp add: fits_prim_wrap)
  then show ?thesis by (rule fits_prim_readable) (simp add: t)
qed

text \<open>The entry of a described ClickHouse column: it is nullable exactly if the type name says so, and
  its converter can refuse a value only if the column is optional.\<close>

lemma ch_column_entry:
  assumes "ch_SQLTypeToYDBColumn n typeName fmt = Ok c"
  obtains nul d b where "ch_column typeName (Ok (col_type c)) = Ok ((if nul then nullable else plain) d b)"
    and "ydbTypeToArrowBuilder (col_type c) = Ok b" and "converter_fits d b"
    and "nul \<or> conv_partial d \<Longrightarrow> \<exists>t. col_type c = OptionalType t"
proof -
  obtain nul name where st: "strip isNullable typeName = (nul, name)" by (cases "strip isNullable typeName")
  obtain arr inner where sa: "strip isArray name = (arr, inner)" by (cases "strip isArray name")
  have arr: "\<not> arr" using assms by (auto simp: ch_SQLTypeToYDBColumn_def st sa split: prod.splits if_splits)
  then have inner: "inner = name" using sa by (auto simp: strip_def split: option.splits)
  from assms arr obtain t wide where sw: "ch_switch name fmt = Ok (t, wide)"
    and c: "col_type c = (if nul \<or> wide then OptionalType t else t)"
    by (auto simp: ch_SQLTypeToYDBColumn_def st sa inner res_simps)
  let ?mk = "if nul then nullable else plain"
  obtain d b where e: "ch_entry ?mk name t = Ok (?mk d b)" "ch_entry ?mk name (OptionalType t) = Ok (?mk d b)"
    "ydbTypeToArrowBuilder t = Ok b" "converter_fits d b" "conv_partial d \<longrightarrow> wide"
    using ch_entry_described [OF sw, of ?mk] by (auto simp: ch_entry_for_def)
  have "ch_column typeName (Ok (col_type c)) = Ok (?mk d b)"
    using e(1,2) by (cases nul) (auto simp: ch_column_def st c addAcceptorAppenderFromSQLTypeName_def
        addAcceptorAppenderFromSQLTypeNameNullable_def)
  moreover have "ydbTypeToArrowBuilder (col_type c) = Ok b" using e(3) by (simp add: c)
  moreover have "\<exists>t. col_type c = OptionalType t" if "nul \<or> conv_partial d" using that e(5) by (auto simp: c)
  ultimately show ?thesis using that e(4) by blast
qed

lemma ch_column_readable:
  assumes "ch_SQLTypeToYDBColumn n typeName fmt = Ok c"
  shows "readable cfg (ch_column typeName (Ok (col_type c))) (col_type c)"
  using assms
proof (rule ch_column_entry)
  fix nul d b
  assume "ch_column typeName (Ok (col_type c)) = Ok ((if nul then nullable else plain) d b)"
    and "ydbTypeToArrowBuilder (col_type c) = Ok b" and "converter_fits d b"
  then show ?thesis by (auto intro!: readableI)
qed

text \<open>A plain appender writes a NULL only if its converter can refuse a value.\<close>

lemma plain_null_partial:
  assumes "converter_fits d b" and "plain d b = (z, app)" and "scanned_into z a"
    and "run_appender cfg app a b = Ok (Null, a')"
  shows "conv_partial d"
proof -
  from assms obtain v where v: "a = Ptr v" "kind_of v = conv_in d" "value_ok v" and "app = MakeAppender d b"
    by (cases a) (auto simp: plain_def)
  with assms(4) have "append_converted cfg d b v b = Ok Null"
    by (auto simp: AppendValueToArrowBuilder_def res_map_Ok_iff)
  with append_converted_typed [OF assms(1) v(2,3), of cfg] show ?thesis by simp
qed

text \<open>C7: what ClickHouse and YDB describe, they can read. For every type name that DescribeTable maps to
  a YDB type, under either date format, the reader that the connector builds for a result column
  of this type puts every value the driver can scan into the Arrow builder of the described
  type: no type assertion fails and no conversion errs, on either collection of converters.\<close>

theorem described_columns_readable:
  "(ch_SQLTypeToYDBColumn n typeName fmt = Ok c \<longrightarrow>
      readable cfg (ch_column typeName (Ok (col_type c))) (col_type c)) \<and>
   (ydb_SQLTypeToYDBColumn n typeName fmt = Ok c \<longrightarrow>
      readable cfg (ydb_column typeName (Ok (col_type c))) (col_type c))"
  using ch_column_readable ydb_column_readable by blast

theorem described_columns_readable_witness:
  "\<forall>cfg. readable cfg (ch_column ''Nullable(DateTime)'' (Ok (OptionalType (TypeId Type_UTF8)))) (OptionalType (TypeId Type_UTF8))"
proof
  fix cfg
  have "ch_SQLTypeToYDBColumn ''d'' ''Nullable(DateTime)'' STRING_FORMAT =
      Ok \<lparr>col_name = ''d'', col_type = OptionalType (TypeId Type_UTF8)\<rparr>" by code_simp
  with described_columns_readable [of "''d''" "''Nullable(DateTime)''" STRING_FORMAT
      "\<lparr>col_name = ''d'', col_type = OptionalType (TypeId Type_UTF8)\<rparr>" cfg]
  show "readable cfg (ch_column ''Nullable(DateTime)'' (Ok (OptionalType (TypeId Type_UTF8)))) (OptionalType (TypeId Type_UTF8))"
    by simp
qed

text \<open>C30: ClickHouse columns that are not nullable stay so. When the reader of a described column writes a
  NULL into its Arrow builder (for a nil pointer, or for a date outside the bounds of YDB), the
  described type is Optional: a column that is described as mandatory never receives a NULL.\<close>

theorem clickhouse_nulls_are_optional:
  assumes "ch_SQLTypeToYDBColumn n typeName fmt = Ok c" and "ch_column typeName (Ok (col_type c)) = Ok (z, app)"
    and "ydbTypeToArrowBuilder (col_type c) = Ok b" and "scanned_into z a"
    and "run_appender cfg app a b = Ok (Null, a')"
  shows "\<exists>t. col_type c = OptionalType t"
  using assms(1)
proof (rule ch_column_entry)
  fix nul d b'
  assume e: "ch_column typeName (Ok (col_type c)) = Ok ((if nul then nullable else plain) d b')"
    and "ydbTypeToArrowBuilder (col_type c) = Ok b'" and fits: "converter_fits d b'"
    and opt: "nul \<or> conv_partial d \<Longrightarrow> \<exists>t. col_type c = OptionalType t"
  with assms(3) have "b' = b" by simp
  then have "nul \<or> plain d b = (z, app) \<and> converter_fits d b" using e assms(2) fits by (cases nul) simp_all
  then have "nul \<or> conv_partial d" using plain_null_partial assms(4,5) by blast
  then show ?thesis by (rule opt)
qed

theorem clickhouse_nulls_are_optional_witness:
  "ch_SQLTypeToYDBColumn ''d'' ''Date'' YQL_FORMAT = Ok \<lparr>col_name = ''d'', col_type = OptionalType (TypeId Type_DATE)\<rparr> \<and>
   ch_column ''Date'' (Ok (OptionalType (TypeId Type_DATE))) = Ok (plain DateConv Arrow_Uint16) \<and>
   run_appender \<lparr>useUnsafeConverters = False, host_32bit = False\<rparr> (MakeAppender DateConv Arrow_Uint16) (Ptr (VTime \<lparr>unix_sec = - 1, nano = 0, zone = 0\<rparr>)) Arrow_Uint16 =
     Ok (Null, Ptr (VTime \<lparr>unix_sec = - 1, nano = 0, zone = 0\<rparr>)) \<and>
   (\<exists>t. OptionalType (TypeId Type_DATE) = OptionalType t)"
proof -
  let ?c = "\<lparr>col_name = ''d'', col_type = OptionalType (TypeId Type_DATE)\<rparr>"
  let ?a = "Ptr (VTime \<lparr>unix_sec = - 1, nano = 0, zone = 0\<rparr>)"
  have 1: "ch_SQLTypeToYDBColumn ''d'' ''Date'' YQL_FORMAT = Ok ?c"
    and 2: "ch_column ''Date'' (Ok (OptionalType (TypeId Type_DATE))) = Ok (plain DateConv Arrow_Uint16)"
    and 3: "ydbTypeToArrowBuilder (OptionalType (TypeId Type_DATE)) = Ok Arrow_Uint16"
    by code_simp+
  have 4: "TimeToYDBDate \<lparr>unix_sec = - 1, nano = 0, zone = 0\<rparr> = out_of_bounds" by code_simp
  then have 5: "run_appender \<lparr>useUnsafeConverters = False, host_32bit = False\<rparr> (MakeAppender DateConv Arrow_Uint16) ?a Arrow_Uint16 = Ok (Null, ?a)"
    by (simp add: AppendValueToArrowBuilder_def append_converted_def dateConverter_def out_of_bounds_def)
  have "scanned_into (Ptr (zero_value KTime)) ?a" by (simp add: value_ok_def wf_time_def)
  with clickhouse_nulls_are_optional [of "''d''" "''Date''" YQL_FORMAT ?c "Ptr (zero_value KTime)"
      "MakeAppender DateConv Arrow_Uint16" Arrow_Uint16 ?a "\<lparr>useUnsafeConverters = False, host_32bit = False\<rparr>" ?a] 1 2 3 5
  show ?thesis by (simp add: plain_def)
qed

section \<open>Sources whose drivers rename types\<close>

text \<open>
  MS SQL Server, PostgreSQL, MySQL and Oracle report the types of a result in other terms than their
  metadata. The four predicates state what the drivers and servers document: upper-case names, the
  object identifiers of the built-in types, the type codes of the protocol, and the names that the
  comment in the Oracle mapper lists.
\<close>

definition upper :: "char \<Rightarrow> char" where
  "upper c = (if 97 \<le> (of_char c :: nat) \<and> (of_char c :: nat) \<le> 122 then char_of ((of_char c :: nat) - 32) else c)"

definition ms_driver_name :: "string \<Rightarrow> string \<Rightarrow> bool" where
  "ms_driver_name t d \<longleftrightarrow> d = map upper t"

definition pg_type_oid :: "string \<Rightarrow> pg_oid \<Rightarrow> bool" where
  "pg_type_oid t oid \<longleftrightarrow> (t, oid) \<in> set
     [(''boolean'', BoolOID), (''bool'', BoolOID), (''smallint'', Int2OID), (''int2'', Int2OID),
      (''smallserial'', Int2OID), (''serial2'', Int2OID), (''integer'', Int4OID), (''int'', Int4OID),
      (''int4'', Int4OID), (''serial'', Int4OID), (''serial4'', Int4OID), (''bigint'', Int8OID), (''int8'', Int8OID),
      (''bigserial'', Int8OID), (''serial8'', Int8OID), (''real'', Float4OID), (''float4'', Float4OID),
      (''double precision'', Float8OID), (''float8'', Float8OID), (''bytea'', ByteaOID), (''uuid'', UUIDOID),
      (''character'', BPCharOID), (''character varying'', VarcharOID), (''text'', TextOID), (''json'', JSONOID),
      (''date'', DateOID), (''timestamp without time zone'', TimestampOID)]"

definition my_type_code :: "string \<Rightarrow> mysql_type \<Rightarrow> bool" where
  "my_type_code t code \<longleftrightarrow> (t, code) \<in> set
     [(''int'', MYSQL_TYPE_LONG), (''mediumint'', MYSQL_TYPE_INT24), (''bigint'', MYSQL_TYPE_LONGLONG),
      (''float'', MYSQL_TYPE_FLOAT), (''double'', MYSQL_TYPE_DOUBLE), (''tinyint'', MYSQL_TYPE_TINY),
      (''smallint'', MYSQL_TYPE_SHORT), (''longblob'', MYSQL_TYPE_BLOB), (''blob'', MYSQL_TYPE_BLOB),
      (''mediumblob'', MYSQL_TYPE_BLOB), (''tinyblob'', MYSQL_TYPE_BLOB), (''varchar'', MYSQL_TYPE_VAR_STRING),
      (''char'', MYSQL_TYPE_STRING), (''binary'', MYSQL_TYPE_STRING), (''varbinary'', MYSQL_TYPE_VAR_STRING),
      (''text'', MYSQL_TYPE_BLOB), (''longtext'', MYSQL_TYPE_BLOB), (''tinytext'', MYSQL_TYPE_BLOB),
      (''mediumtext'', MYSQL_TYPE_BLOB), (''date'', MYSQL_TYPE_DATE), (''datetime'', MYSQL_TYPE_DATETIME),
      (''timestamp'', MYSQL_TYPE_TIMESTAMP), (''json'', MYSQL_TYPE_JSON)]"

definition ora_names :: "(string \<times> string) list" where
  "ora_names =
     [(''NUMBER'', ''NUMBER''), (''BINARY_DOUBLE'', ''IBDouble''), (''NCHAR'', ''NCHAR''), (''CHAR'', ''CHAR''),
      (''VARCHAR'', ''NCHAR''), (''VARCHAR2'', ''NCHAR''), (''NVARCHAR'', ''NCHAR''), (''NVARCHAR2'', ''NCHAR''),
      (''VARCHAR'', ''CHAR''), (''VARCHAR2'', ''CHAR''), (''NVARCHAR'', ''CHAR''), (''NVARCHAR2'', ''CHAR''),
      (''CLOB'', ''LongVarChar''), (''NCLOB'', ''LongVarChar''), (''LONG'', ''LONG''), (''ROWID'', ''ROWID''),
      (''UROWID'', ''UROWID''), (''RAW'', ''RAW''), (''LONG RAW'', ''LongRaw''), (''BLOB'', ''OCIBlobLocator''),
      (''JSON'', ''OCIBlobLocator''), (''DATE'', ''DATE'')]"

definition ora_driver_name :: "string \<Rightarrow> string \<Rightarrow> bool" where
  "ora_driver_name t d \<longleftrightarrow> (t, d) \<in> set ora_names \<or>
     t \<notin> fst ` set ora_names \<and> d \<in> {''TimeStampDTY'', ''TimeStampTZ_DTY'', ''TimeStampLTZ_DTY''}"

text \<open>The pairs of a name and a type that a switch can produce.\<close>

abbreviation dated :: "string \<Rightarrow> prim_type \<Rightarrow> (string \<times> prim_type) list" where
  "dated n i \<equiv> [(n, i), (n, Type_UTF8)]"

definition ms_pairs :: "(string \<times> prim_type) list" where
  "ms_pairs = ms_types @ dated ''date'' Type_DATE @ dated ''smalldatetime'' Type_DATETIME @
     dated ''datetime'' Type_TIMESTAMP @ dated ''datetime2'' Type_TIMESTAMP"

definition pg_pairs :: "(string \<times> prim_type) list" where
  "pg_pairs = pg_types @ dated ''date'' Type_DATE @ dated ''timestamp without time zone'' Type_TIMESTAMP"

definition my_pairs :: "(string \<times> prim_type) list" where
  "my_pairs =
     [(''int'', Type_UINT32), (''int'', Type_INT32), (''mediumint'', Type_UINT32), (''mediumint'', Type_INT32),
      (''bigint'', Type_UINT64), (''bigint'', Type_INT64), (''float'', Type_FLOAT), (''double'', Type_DOUBLE),
      (''tinyint'', Type_BOOL), (''tinyint'', Type_UINT8), (''tinyint'', Type_INT8),
      (''smallint'', Type_UINT16), (''smallint'', Type_INT16), (''longblob'', Type_STRING), (''blob'', Type_STRING),
      (''mediumblob'', Type_STRING), (''tinyblob'', Type_STRING), (''varchar'', Type_UTF8), (''char'', Type_UTF8),
      (''binary'', Type_STRING), (''varbinary'', Type_STRING), (''text'', Type_STRING), (''longtext'', Type_STRING),
      (''tinytext'', Type_STRING), (''mediumtext'', Type_STRING), (''json'', Type_JSON)] @
     dated ''date'' Type_DATE @ dated ''datetime'' Type_TIMESTAMP @ dated ''timestamp'' Type_TIMESTAMP"

definition produces :: "(string \<times> prim_type) list \<Rightarrow> string \<Rightarrow> ydb_type res \<Rightarrow> bool" where
  "produces pairs n r \<longleftrightarrow> (\<forall>t. r = Ok t \<longrightarrow> (\<exists>i. t = TypeId i \<and> (n, i) \<in> set pairs))"

lemma produces_leaves:
  "(n, i) \<in> set pairs \<Longrightarrow> produces pairs n (Ok (TypeId i))"
  "produces pairs n unsupported_type"
  "(n, i) \<in> set pairs \<Longrightarrow> (n, Type_UTF8) \<in> set pairs \<Longrightarrow> produces pairs n (wrap_res p (MakeYdbDateTimeType i fmt))"
  by (auto simp: produces_def unsupported_type_def dest!: MakeYdbDateTimeType_cases(1))

lemma produces_if: "(c \<Longrightarrow> produces ps n a) \<Longrightarrow> (\<not> c \<Longrightarrow> produces ps n b) \<Longrightarrow> produces ps n (if c then a else b)"
  by simp

lemma produces_table:
  "set tbl \<subseteq> set pairs \<Longrightarrow> produces pairs n r \<Longrightarrow>
     produces pairs n (case map_of tbl n of Some i \<Rightarrow> Ok (MakePrimitiveType i) | None \<Rightarrow> r)"
  by (auto simp: produces_def dest!: map_of_SomeD split: option.splits)

lemma switch_produces:
  "produces ms_pairs t (ms_switch t fmt)" "produces pg_pairs t (pg_switch t fmt)"
  "produces my_pairs t (my_switch t sz u fmt)"
proof -
  show "produces ms_pairs t (ms_switch t fmt)"
    unfolding ms_switch_def
    by (intro produces_table produces_if) (auto simp: ms_pairs_def intro!: produces_leaves)
  show "produces pg_pairs t (pg_switch t fmt)"
    unfolding pg_switch_def
    by (intro produces_table produces_if) (auto simp: pg_pairs_def intro!: produces_leaves)
  show "produces my_pairs t (my_switch t sz u fmt)"
    unfolding my_switch_def
    by (intro produces_if; (elim insertE emptyE)?; (intro produces_leaves)?)
       (auto simp: my_pairs_def intro!: produces_leaves(1) split: if_splits)
qed

abbreviation opt_prim :: "prim_type \<Rightarrow> ydb_type res" where
  "opt_prim i \<equiv> Ok (OptionalType (TypeId i))"

lemma ms_pairs_fit: "list_all (\<lambda>(n, i). fits_prim (ms_column (map upper n) (opt_prim i)) i) ms_pairs"
  by code_simp

lemma pg_pairs_fit:
  "list_all (\<lambda>(n, i). list_all (\<lambda>oid. pg_type_oid n oid \<longrightarrow> fits_prim (pg_column oid (opt_prim i)) i)
     [BoolOID, Int2OID, Int4OID, Int8OID, Float4OID, Float8OID, TextOID, BPCharOID, VarcharOID, JSONOID, ByteaOID,
      DateOID, TimestampOID, UUIDOID]) pg_pairs"
  by code_simp

lemma my_pairs_fit:
  "list_all (\<lambda>(n, i). list_all (\<lambda>code. my_type_code n code \<longrightarrow> fits_prim (addAcceptorAppender code (opt_prim i)) i)
     [MYSQL_TYPE_LONG, MYSQL_TYPE_INT24, MYSQL_TYPE_LONGLONG, MYSQL_TYPE_FLOAT, MYSQL_TYPE_DOUBLE, MYSQL_TYPE_TINY,
      MYSQL_TYPE_SHORT, MYSQL_TYPE_BLOB, MYSQL_TYPE_VAR_STRING, MYSQL_TYPE_STRING, MYSQL_TYPE_DATE,
      MYSQL_TYPE_DATETIME, MYSQL_TYPE_TIMESTAMP, MYSQL_TYPE_JSON]) my_pairs"
  by code_simp

lemma ora_pairs_fit:
  "list_all (\<lambda>(n, i). list_all (\<lambda>(m, d). n = m \<longrightarrow> fits_prim (ora_column d (opt_prim i)) i) ora_names)
     (ora_types @ dated ''DATE'' Type_DATETIME)"
  by code_simp

lemma ora_timestamps_fit:
  "list_all (\<lambda>d. fits_prim (ora_column d (opt_prim Type_TIMESTAMP)) Type_TIMESTAMP \<and>
                 fits_prim (ora_column d (opt_prim Type_UTF8)) Type_UTF8)
     [''TimeStampDTY'', ''TimeStampTZ_DTY'', ''TimeStampLTZ_DTY'']"
  by code_simp

lemma readable_optional: "fits_prim r i \<Longrightarrow> readable cfg r (OptionalType (TypeId i))"
  by (rule fits_prim_readable) simp_all

lemma ms_column_readable:
  assumes "ms_SQLTypeToYDBColumn n t fmt = Ok c" and "ms_driver_name t d"
  shows "readable cfg (ms_column d (Ok (col_type c))) (col_type c)"
proof -
  from assms(1) obtain y where y: "ms_switch t fmt = Ok y" "col_type c = OptionalType y"
    by (auto simp: ms_SQLTypeToYDBColumn_def res_simps)
  with switch_produces(1) [of t fmt] obtain i where i: "y = TypeId i" "(t, i) \<in> set ms_pairs"
    by (auto simp: produces_def)
  with ms_pairs_fit assms(2) have "fits_prim (ms_column d (opt_prim i)) i"
    by (auto simp: list_all_iff ms_driver_name_def)
  then show ?thesis unfolding y(2) i(1) by (rule readable_optional)
qed

lemma pg_column_readable:
  assumes "pg_SQLTypeToYDBColumn n t fmt = Ok c" and "pg_type_oid t oid"
  shows "readable cfg (pg_column oid (Ok (col_type c))) (col_type c)"
proof -
  from assms(1) obtain y where y: "pg_switch t fmt = Ok y" "col_type c = OptionalType y"
    by (auto simp: pg_SQLTypeToYDBColumn_def res_simps)
  with switch_produces(2) [of t fmt] obtain i where i: "y = TypeId i" "(t, i) \<in> set pg_pairs"
    by (auto simp: produces_def)
  have "oid \<in> set [BoolOID, Int2OID, Int4OID, Int8OID, Float4OID, Float8OID, TextOID, BPCharOID, VarcharOID, JSONOID,
      ByteaOID, DateOID, TimestampOID, UUIDOID]"
    using assms(2) by (cases oid) (auto simp: pg_type_oid_def)
  with pg_pairs_fit i(2) assms(2) have "fits_prim (pg_column oid (opt_prim i)) i"
    unfolding list_all_iff by blast
  then show ?thesis unfolding y(2) i(1) by (rule readable_optional)
qed

lemma my_column_readable:
  assumes "my_SQLTypeToYDBColumn n t fmt = Ok c" and "my_type_name t = Ok (name, sz)" and "my_type_code name code"
  shows "readable cfg (addAcceptorAppender code (Ok (col_type c))) (col_type c)"
proof -
  let ?u = "str_contains t ''unsigned''"
  from assms(1,2) obtain y where y: "my_switch name sz ?u fmt = Ok y" "col_type c = OptionalType y"
    by (auto simp: my_SQLTypeToYDBColumn_def res_simps)
  with switch_produces(3) [of name sz ?u fmt] obtain i where i: "y = TypeId i" "(name, i) \<in> set my_pairs"
    by (auto simp: produces_def)
  have "code \<in> set [MYSQL_TYPE_LONG, MYSQL_TYPE_INT24, MYSQL_TYPE_LONGLONG, MYSQL_TYPE_FLOAT, MYSQL_TYPE_DOUBLE,
      MYSQL_TYPE_TINY, MYSQL_TYPE_SHORT, MYSQL_TYPE_BLOB, MYSQL_TYPE_VAR_STRING, MYSQL_TYPE_STRING, MYSQL_TYPE_DATE,
      MYSQL_TYPE_DATETIME, MYSQL_TYPE_TIMESTAMP, MYSQL_TYPE_JSON]"
    using assms(3) by (cases code) (auto simp: my_type_code_def)
  with my_pairs_fit i(2) assms(3) have "fits_prim (addAcceptorAppender code (opt_prim i)) i"
    unfolding list_all_iff by blast
  then show ?thesis unfolding y(2) i(1) by (rule readable_optional)
qed

lemma ora_column_readable:
  assumes "ora_SQLTypeToYDBColumn n t fmt = Ok c" and "ora_driver_name t d"
  shows "readable cfg (ora_column d (Ok (col_type c))) (col_type c)"
proof -
  from assms(1) obtain y where y: "ora_switch t fmt = Ok y" "col_type c = OptionalType y"
    by (auto simp: ora_SQLTypeToYDBColumn_def res_simps)
  let ?stamp = "(y = TypeId Type_TIMESTAMP \<or> y = TypeId Type_UTF8) \<and> map_of ora_types t = None \<and> t \<noteq> ''DATE''"
  consider i where "y = TypeId i" "(t, i) \<in> set (ora_types @ dated ''DATE'' Type_DATETIME)" | ?stamp
    using y(1)
    by (auto simp: ora_switch_def unsupported_type_def dest!: MakeYdbDateTimeType_cases(1) map_of_SomeD
        split: option.splits if_splits)
  then obtain i where i: "y = TypeId i" and "fits_prim (ora_column d (opt_prim i)) i"
  proof cases
    case (1 i)
    have named: "fst ` set (ora_types @ dated ''DATE'' Type_DATETIME) \<subseteq> fst ` set ora_names"
      by (simp add: ora_types_def ora_names_def)
    with 1(2) assms(2) have "(t, d) \<in> set ora_names" by (force simp: ora_driver_name_def)
    with ora_pairs_fit 1(2) have "fits_prim (ora_column d (opt_prim i)) i" unfolding list_all_iff by blast
    with 1(1) that show ?thesis by blast
  next
    case 2
    then have "t \<notin> fst ` set ora_types" "t \<noteq> ''DATE''" by (auto simp: map_of_eq_None_iff)
    moreover have "fst ` set ora_names \<subseteq> insert ''DATE'' (fst ` set ora_types)"
      by (simp add: ora_types_def ora_names_def)
    ultimately have "d \<in> set [''TimeStampDTY'', ''TimeStampTZ_DTY'', ''TimeStampLTZ_DTY'']"
      using assms(2) unfolding ora_driver_name_def by force
    with ora_timestamps_fit 2 that show ?thesis unfolding list_all_iff by blast
  qed
  then show ?thesis unfolding y(2) i using readable_optional by blast
qed

text \<open>C8: the same for the sources whose drivers rename types. Given the driver names of MS SQL Server and
  Oracle, the object identifiers of PostgreSQL and the type codes of MySQL as they are documented,
  a column that was described can be read: its values reach the Arrow builder of the described
  type without a failing type assertion and without an error.\<close>

theorem renamed_columns_readable:
  "(ms_SQLTypeToYDBColumn n t fmt = Ok c \<and> ms_driver_name t name \<longrightarrow>
      readable cfg (ms_column name (Ok (col_type c))) (col_type c)) \<and>
   (pg_SQLTypeToYDBColumn n t fmt = Ok c \<and> pg_type_oid t oid \<longrightarrow>
      readable cfg (pg_column oid (Ok (col_type c))) (col_type c)) \<and>
   (my_SQLTypeToYDBColumn n t fmt = Ok c \<and> my_type_name t = Ok (base, sz) \<and> my_type_code base code \<longrightarrow>
      readable cfg (addAcceptorAppender code (Ok (col_type c))) (col_type c)) \<and>
   (ora_SQLTypeToYDBColumn n t fmt = Ok c \<and> ora_driver_name t name \<longrightarrow>
      readable cfg (ora_column name (Ok (col_type c))) (col_type c))"
  by (intro conjI impI; elim conjE)
     (erule (1) ms_column_readable pg_column_readable ora_column_readable | erule (2) my_column_readable)+

theorem renamed_columns_readable_witness:
  "\<forall>cfg. readable cfg (pg_column TimestampOID (opt_prim Type_UTF8)) (OptionalType (TypeId Type_UTF8))"
proof
  fix cfg
  let ?t = "''timestamp without time zone''" and ?c = "\<lparr>col_name = ''f'', col_type = OptionalType (TypeId Type_UTF8)\<rparr>"
  have "pg_SQLTypeToYDBColumn ''f'' ?t STRING_FORMAT = Ok ?c" "pg_type_oid ?t TimestampOID" by code_simp+
  with renamed_columns_readable [of "''f''" ?t STRING_FORMAT ?c "[]" cfg TimestampOID]
  show "readable cfg (pg_column TimestampOID (opt_prim Type_UTF8)) (OptionalType (TypeId Type_UTF8))" by simp
qed

end
