(* ===== verification/Durations.thy ===== *)
theory Durations
  imports GoTime
begin

text \<open>
  Durations of the configuration (\<^verbatim>\<open>src/common/duration.go\<close>). \<^verbatim>\<open>time.ParseDuration\<close> is translated from the
  standard library: a sign and a sequence of decimal numbers with units, summed in an unsigned 64-bit
  integer of nanoseconds, with its overflow checks and the floating-point product for the
  fraction.
\<close>

section \<open>time.ParseDuration\<close>

definition digit :: "char \<Rightarrow> int" where
  "digit c = int (digit_val c)"

text \<open>\<^verbatim>\<open>leadingInt\<close>: the number at the front, or an error if it exceeds \<open>2 ^ 63\<close>.\<close>

fun leadingInt :: "int \<Rightarrow> string \<Rightarrow> (int \<times> string) option" where
  "leadingInt x [] = Some (x, [])"
| "leadingInt x (c # s) =
     (if \<not> is_digit c then Some (x, c # s)
      else if x > 2 ^ 63 div 10 then None
      else let y = x * 10 + digit c in if y > 2 ^ 63 then None else leadingInt y s)"

text \<open>\<^verbatim>\<open>leadingFraction\<close>: digits beyond the precision are skipped.\<close>

fun leadingFraction :: "bool \<Rightarrow> int \<Rightarrow> int \<Rightarrow> string \<Rightarrow> int \<times> int \<times> string" where
  "leadingFraction overflow x scale [] = (x, scale, [])"
| "leadingFraction overflow x scale (c # s) =
     (if \<not> is_digit c then (x, scale, c # s)
      else if overflow \<or> x > (2 ^ 63 - 1) div 10 then leadingFraction True x scale s
      else let y = x * 10 + digit c
           in if y > 2 ^ 63 then leadingFraction True x scale s else leadingFraction False y (scale * 10) s)"

text \<open>A \<^verbatim>\<open>float64\<close> of any positive size below infinity.\<close>

definition float64 :: "rat \<Rightarrow> rat" where
  "float64 x =
     (if log2_floor x \<le> 52 then f64 x
      else let ulp = 2 ^ nat (log2_floor x - 52) in of_int (round_half_even (x / ulp)) * ulp)"

definition unitMap :: "(string \<times> int) list" where
  "unitMap =
     [(''ns'', 1), (''us'', 1000), ([CHR 0xC2, CHR 0xB5, CHR ''s''], 1000), ([CHR 0xCE, CHR 0xBC, CHR ''s''], 1000),
      (''ms'', 1000000), (''s'', 1000000000), (''m'', 60000000000), (''h'', 3600000000000)]"

definition number_char :: "char \<Rightarrow> bool" where
  "number_char c \<longleftrightarrow> c = CHR ''.'' \<or> is_digit c"

text \<open>The number of one item: integer part, fraction and its scale, the rest of the text.\<close>

definition parse_number :: "string \<Rightarrow> (int \<times> int \<times> int \<times> string) option" where
  "parse_number s =
     (if s = [] \<or> \<not> number_char (hd s) then None
      else case leadingInt 0 s of
        None \<Rightarrow> None
      | Some (v, s1) \<Rightarrow>
          (let pre = length s \<noteq> length s1;
               dot = (s1 \<noteq> [] \<and> hd s1 = CHR ''.'');
               (f, scale, s2) = (if dot then leadingFraction False 0 1 (tl s1) else (0, 1, s1));
               post = (dot \<and> length (tl s1) \<noteq> length s2)
           in if \<not> pre \<and> \<not> post then None else Some (v, f, scale, s2)))"

text \<open>One item with its unit; the value is an unsigned integer of 64 bits that does not wrap.\<close>

definition parse_item :: "string \<Rightarrow> (int \<times> string) option" where
  "parse_item s =
     (case parse_number s of
        None \<Rightarrow> None
      | Some (v, f, scale, s2) \<Rightarrow>
          (let u = takeWhile (\<lambda>c. \<not> number_char c) s2;
               rest = dropWhile (\<lambda>c. \<not> number_char c) s2
           in if u = [] then None
              else case map_of unitMap u of
                None \<Rightarrow> None
              | Some unit \<Rightarrow>
                  if v > 2 ^ 63 div unit then None
                  else
                    (let v = v * unit;
                         v = (if f > 0 then v + \<lfloor>float64 (float64 (of_int f) * float64 (of_int unit / of_int scale))\<rfloor>
                              else v)
                     in if v > 2 ^ 63 then None else Some (v, rest))))"

lemma leadingInt_length: "leadingInt x s = Some (v, r) \<Longrightarrow> length r \<le> length s"
  by (induction x s rule: leadingInt.induct) (auto simp: Let_def split: if_splits)

lemma leadingFraction_length: "leadingFraction b x k s = (f, k', r) \<Longrightarrow> length r \<le> length s"
  by (induction b x k s rule: leadingFraction.induct) (auto simp: Let_def split: if_splits)

lemma parse_number_length: "parse_number s = Some (v, f, k, r) \<Longrightarrow> length r \<le> length s"
  by (cases s) (auto simp: parse_number_def Let_def split: option.splits if_splits prod.splits
      dest!: leadingInt_length leadingFraction_length)

lemma parse_item_shorter: "parse_item s = Some (v, r) \<Longrightarrow> length r < length s"
proof -
  assume "parse_item s = Some (v, r)"
  then obtain w f k s2 where n: "parse_number s = Some (w, f, k, s2)" and
    u: "takeWhile (\<lambda>c. \<not> number_char c) s2 \<noteq> []" and r: "r = dropWhile (\<lambda>c. \<not> number_char c) s2"
    by (auto simp: parse_item_def Let_def split: option.splits if_splits)
  have "length s2 = length (takeWhile (\<lambda>c. \<not> number_char c) s2) + length r"
    unfolding r by (metis length_append takeWhile_dropWhile_id)
  with u have "length r < length s2" by simp
  with parse_number_length [OF n] show ?thesis by simp
qed

text \<open>The loop over the items; the sum is kept in 64 bits.\<close>

function parse_items :: "int \<Rightarrow> string \<Rightarrow> int option" where
  "parse_items d s =
     (if s = [] then Some d
      else case parse_item s of
        None \<Rightarrow> None
      | Some (v, rest) \<Rightarrow>
          (let d = (d + v) mod 2 ^ 64 in if d > 2 ^ 63 then None else parse_items d rest))"
  by pat_completeness auto

termination
  by (relation "measure (\<lambda>(d, s). length s)") (auto dest: parse_item_shorter)

declare parse_items.simps [simp del]

definition ParseDuration :: "string \<Rightarrow> int res" where
  "ParseDuration orig =
     (let signed = (orig \<noteq> [] \<and> (hd orig = CHR ''-'' \<or> hd orig = CHR ''+''));
          neg = (signed \<and> hd orig = CHR ''-'');
          s = (if signed then tl orig else orig);
          invalid = Err (NewErr (''time: invalid duration '' @ orig))
      in if s = ''0'' then Ok 0
         else if s = [] then invalid
         else case parse_items 0 s of
           None \<Rightarrow> invalid
         | Some d \<Rightarrow> if neg then Ok (- d) else if d > 2 ^ 63 - 1 then invalid else Ok d)"

section \<open>Durations of the connector\<close>

text \<open>The error is formatted with \<^verbatim>\<open>%v\<close>: its text is kept, the chain is not.\<close>

definition DurationFromString :: "string \<Rightarrow> int res" where
  "DurationFromString src =
     (case ParseDuration src of
        Ok out \<Rightarrow> Ok out
      | Err e \<Rightarrow> Err (NewErr (''parse duration: '' @ error_text e))
      | Panic m \<Rightarrow> Panic m)"

definition MustDurationFromString :: "string \<Rightarrow> int res" where
  "MustDurationFromString src =
     (case DurationFromString src of Ok out \<Rightarrow> Ok out | Err e \<Rightarrow> Panic (error_text e) | Panic m \<Rightarrow> Panic m)"

definition valid_duration :: "string \<Rightarrow> bool" where
  "valid_duration src \<longleftrightarrow> (\<exists>d. DurationFromString src = Ok d)"

lemma DurationFromString_no_panic [simp]: "DurationFromString src \<noteq> Panic m"
  by (auto simp: DurationFromString_def ParseDuration_def Let_def split: res.splits option.splits if_splits)

lemma MustDurationFromString_iff: "MustDurationFromString src = Ok d \<longleftrightarrow> DurationFromString src = Ok d"
  by (auto simp: MustDurationFromString_def split: res.splits)

lemma must_valid_duration: "(\<exists>d. MustDurationFromString src = Ok d) \<longleftrightarrow> valid_duration src"
  by (simp add: MustDurationFromString_iff valid_duration_def)

text \<open>The literals of the default configuration.\<close>

lemma default_durations [simp]:
  "DurationFromString ''5s'' = Ok 5000000000"
  "DurationFromString ''500ms'' = Ok 500000000"
  "DurationFromString ''10s'' = Ok 10000000000"
  "DurationFromString ''1m'' = Ok 60000000000"
  by code_simp+

lemma empty_duration [simp]: "\<not> valid_duration ''''"
  by (simp add: valid_duration_def DurationFromString_def ParseDuration_def)

section \<open>Numbers with a unit\<close>

lemma read_dec_ge: "m \<le> read_dec m ds"
proof (induction ds arbitrary: m)
  case (Cons c ds)
  have "m \<le> 10 * m + digit_val c" by simp
  also have "\<dots> \<le> read_dec (10 * m + digit_val c) ds" by (rule Cons.IH)
  finally show ?case by simp
qed simp

lemma leadingInt_digits:
  assumes "list_all is_digit ds" and "int (read_dec m ds) \<le> 2 ^ 63" and "r = [] \<or> \<not> is_digit (hd r)"
  shows "leadingInt (int m) (ds @ r) = Some (int (read_dec m ds), r)"
  using assms(1,2)
proof (induction ds arbitrary: m)
  case Nil
  with assms(3) show ?case by (cases r) auto
next
  case (Cons c ds)
  let ?y = "10 * m + digit_val c"
  have "int ?y \<le> int (read_dec ?y ds)" using read_dec_ge [of ?y ds] by simp
  with Cons.prems have "int ?y \<le> 2 ^ 63" by simp
  then have "\<not> 2 ^ 63 div 10 < int m" "\<not> 2 ^ 63 < int ?y" by simp_all
  moreover have "int m * 10 + digit c = int ?y" by (simp add: digit_def)
  ultimately have "leadingInt (int m) ((c # ds) @ r) = leadingInt (int ?y) (ds @ r)"
    using Cons.prems(1) by (simp only: append_Cons leadingInt.simps Let_def) simp
  also have "\<dots> = Some (int (read_dec ?y ds), r)" using Cons.prems by (intro Cons.IH) simp_all
  finally show ?case by simp
qed

lemma units_not_numbers:
  assumes "map_of unitMap u = Some k"
  shows "u \<noteq> []" "list_all (\<lambda>c. \<not> number_char c) u" "1 \<le> k" "k \<le> 3600000000000"
proof -
  have "list_all (\<lambda>(u, k). u \<noteq> [] \<and> list_all (\<lambda>c. \<not> number_char c) u \<and> 1 \<le> k \<and> k \<le> 3600000000000) unitMap"
    by code_simp
  with map_of_SomeD [OF assms] show "u \<noteq> []" "list_all (\<lambda>c. \<not> number_char c) u" "1 \<le> k" "k \<le> 3600000000000"
    by (auto simp: list_all_iff)
qed

lemma parse_number_dec:
  assumes "int n \<le> 2 ^ 63" and "u \<noteq> []" and "list_all (\<lambda>c. \<not> number_char c) u"
  shows "parse_number (dec n @ u) = Some (int n, 0, 1, u)"
proof -
  obtain c s where u: "u = c # s" using assms(2) by (cases u) auto
  obtain d ds where d: "dec n = d # ds" by (cases "dec n") auto
  have "is_digit d" using dec_digits [of n] by (simp add: d)
  moreover have "leadingInt 0 (dec n @ u) = Some (int n, u)"
    using leadingInt_digits [of "dec n" 0 u] assms dec_digits [of n] by (simp add: u number_char_def)
  ultimately show ?thesis
    using assms(3) by (simp add: parse_number_def number_char_def u d Let_def)
qed

text \<open>Reading back a number with a unit. For every unit of time that Go knows, the decimal text
  of a number followed by the unit is the duration of that many units, as long as it fits
  into the 63 bits of a duration.\<close>

theorem duration_roundtrip:
  assumes "map_of unitMap u = Some k" and "int n * k < 2 ^ 63"
  shows "DurationFromString (dec n @ u) = Ok (int n * k)"
proof -
  note u = units_not_numbers [OF assms(1)]
  have "int n * 1 \<le> int n * k" using u(3) by (intro mult_left_mono) simp_all
  with assms(2) have n: "int n \<le> 2 ^ 63" by simp
  have "int n \<le> 2 ^ 63 div k" using zdiv_mono1 [of "int n * k" "2 ^ 63" k] assms(2) u(3) by simp
  then have "\<not> 2 ^ 63 div k < int n" by simp
  moreover have "takeWhile (\<lambda>c. \<not> number_char c) u = u"
    using u(2) by (simp add: list_all_iff takeWhile_eq_all_conv)
  moreover have "dropWhile (\<lambda>c. \<not> number_char c) u = []" using u(2) by (simp add: list_all_iff)
  ultimately have "parse_item (dec n @ u) = Some (int n * k, [])"
    using assms(2) u(1)
    by (simp only: parse_item_def parse_number_dec [OF n u(1,2)] Let_def option.case prod.case assms(1) if_False) simp
  moreover have "0 \<le> int n * k" using u(3) by simp
  ultimately have items: "parse_items 0 (dec n @ u) = Some (int n * k)"
    using assms(2) by (simp add: parse_items.simps [of 0 "dec n @ u"] parse_items.simps [of _ "[]"] Let_def)
  obtain d ds where d: "dec n = d # ds" by (cases "dec n") auto
  have "is_digit d" using dec_digits [of n] by (simp add: d)
  then have "d \<noteq> CHR ''-'' \<and> d \<noteq> CHR ''+''" by (auto simp: is_digit_def)
  then show ?thesis
    using items assms(2) u(1) d by (simp add: DurationFromString_def ParseDuration_def Let_def)
qed

theorem duration_roundtrip_witness: "DurationFromString ''90ms'' = Ok 90000000"
proof -
  have "dec 90 = ''90''" "map_of unitMap ''ms'' = Some 1000000" by code_simp+
  with duration_roundtrip [of "''ms''" 1000000 90] show ?thesis by simp
qed

end
