(* ===== verification/Config.thy ===== *)
theory Config
  imports Durations SqlFormatters
begin

text \<open>
  The configuration of the server (\<^verbatim>\<open>src/app/server/config/config.go\<close>): default values, validation and
  the loading of a file. The records follow the messages of \<^verbatim>\<open>src/app/config/server.proto\<close>; a message
  field is a pointer and so an \<open>option\<close>, and a dereference of a nil pointer is a panic. The deprecated
  fields of the root message are not read by the code and left out. The bits of a \<^verbatim>\<open>double\<close>
  are kept as a word. Reading a file and the two parsers are parameters.
\<close>

section \<open>Messages\<close>

record TGenericEndpoint =
  ep_host :: string
  ep_port :: u32

record TServerTLSConfig =
  tls_key :: string
  tls_cert :: string

record TConnectorServerConfig =
  cs_endpoint :: "TGenericEndpoint option"
  cs_tls :: "TServerTLSConfig option"
  cs_maxRecvMessageSize :: u64

record TPprofServerConfig =
  pp_endpoint :: "TGenericEndpoint option"
  pp_tls :: "TServerTLSConfig option"

record TPagingConfig =
  pg_rowsPerPage :: u64
  pg_bytesPerPage :: u64
  pg_prefetchQueueCapacity :: u32

datatype ELogLevel = TRACE | DEBUG | INFO | WARN | ERROR | FATAL

record TLoggerConfig =
  lg_logLevel :: ELogLevel
  lg_enableSqlQueryLogging :: bool

record TExponentialBackoffConfig =
  bo_initialInterval :: string
  bo_maxInterval :: string
  bo_randomizationFactor :: u64
  bo_multiplier :: u64
  bo_maxElapsedTime :: string

record TPushdownConfig =
  pd_enableTimestampPushdown :: bool

text \<open>What the messages of the relational data sources share is the interface
  \<^verbatim>\<open>relationalDatasourceConfig\<close>; the others extend it.\<close>

record relationalDatasourceConfig =
  openConnectionTimeout :: string
  exponentialBackoff :: "TExponentialBackoffConfig option"
  pushdown :: "TPushdownConfig option"

record pinged_config = relationalDatasourceConfig +
  pingConnectionTimeout :: string

record TMySQLConfig = relationalDatasourceConfig +
  resultChanCapacity :: u64

record TMongoDbConfig =
  mg_openConnectionTimeout :: string
  mg_pingConnectionTimeout :: string
  mg_countDocsToDeduceSchema :: u32
  mg_exponentialBackoff :: "TExponentialBackoffConfig option"

record TRedisConfig =
  rd_pingConnectionTimeout :: string
  rd_countDocsToDeduceSchema :: u32
  rd_exponentialBackoff :: "TExponentialBackoffConfig option"

record TOpenSearchConfig =
  os_dialTimeout :: string
  os_responseHeaderTimeout :: string
  os_pingConnectionTimeout :: string
  os_exponentialBackoff :: "TExponentialBackoffConfig option"

record TYdbConfig =
  yc_openConnectionTimeout :: string
  yc_pingConnectionTimeout :: string
  yc_useUnderlayNetwork :: bool
  yc_mode :: ydb_mode
  yc_serviceAccountKeyFileCredentials :: string
  yc_iamEndpoint :: "TGenericEndpoint option"
  yc_splitting :: "bool option"
  yc_exponentialBackoff :: "TExponentialBackoffConfig option"
  yc_pushdown :: "TPushdownConfig option"

record TDatabase =
  db_endpoint :: "TGenericEndpoint option"
  db_name :: string

record TFolder =
  fo_logGroups :: "(string \<times> string) list"
  fo_cloudName :: string

record TStaticResolving =
  st_databases :: "TDatabase list"
  st_folders :: "(string \<times> TFolder) list"
  st_tableNamingPattern :: string

record TDynamicResolving =
  dy_loggingEndpoint :: "TGenericEndpoint option"
  dy_databaseBlacklist :: "string list"

datatype resolving = Dynamic TDynamicResolving | Static TStaticResolving

record TLoggingConfig =
  lc_ydb :: "TYdbConfig option"
  lc_resolving :: "resolving option"

record TDatasourcesConfig =
  ds_ydb :: "TYdbConfig option"
  ds_mysql :: "TMySQLConfig option"
  ds_clickhouse :: "pinged_config option"
  ds_msSqlServer :: "pinged_config option"
  ds_postgresql :: "relationalDatasourceConfig option"
  ds_greenplum :: "relationalDatasourceConfig option"
  ds_oracle :: "pinged_config option"
  ds_logging :: "TLoggingConfig option"
  ds_mongodb :: "TMongoDbConfig option"
  ds_redis :: "TRedisConfig option"
  ds_opensearch :: "TOpenSearchConfig option"

record TObservationConfig =
  ob_storage :: "string option option"
  ob_server :: "TGenericEndpoint option option"

record TServerConfig =
  sc_connectorServer :: "TConnectorServerConfig option"
  sc_readLimit :: "u64 option"
  sc_logger :: "TLoggerConfig option"
  sc_pprofServer :: "TPprofServerConfig option"
  sc_metricsServer :: "TPprofServerConfig option"
  sc_paging :: "TPagingConfig option"
  sc_conversion :: "bool option"
  sc_datasources :: "TDatasourcesConfig option"
  sc_observation :: "TObservationConfig option"

section \<open>Default values\<close>

definition makeDefaultExponentialBackoffConfig :: TExponentialBackoffConfig where
  "makeDefaultExponentialBackoffConfig =
     \<lparr>bo_initialInterval = ''500ms'', bo_maxInterval = ''10s'', bo_randomizationFactor = 0x3FD0000000000000,
      bo_multiplier = 0x3FF8000000000000, bo_maxElapsedTime = ''1m''\<rparr>"

definition makeDefaultPushdownConfig :: TPushdownConfig where
  "makeDefaultPushdownConfig = \<lparr>pd_enableTimestampPushdown = False\<rparr>"

text \<open>\<^verbatim>\<open>if x == nil { x = d }\<close>\<close>

definition if_nil :: "'a \<Rightarrow> 'a option \<Rightarrow> 'a" where
  "if_nil d x = (case x of None \<Rightarrow> d | Some y \<Rightarrow> y)"

lemma if_nil_simps [simp]: "if_nil d None = d" "if_nil d (Some x) = x"
  by (simp_all add: if_nil_def)

definition if_empty :: "string \<Rightarrow> string \<Rightarrow> string" where
  "if_empty d s = (if s = [] then d else s)"

definition fillYdbConfigDefaults :: "TYdbConfig option \<Rightarrow> TYdbConfig res" where
  "fillYdbConfigDefaults cfg =
     (case cfg of
        None \<Rightarrow> Panic ''nil pointer dereference''
      | Some c \<Rightarrow> Ok (c\<lparr>
          yc_openConnectionTimeout := if_empty ''5s'' (yc_openConnectionTimeout c),
          yc_pingConnectionTimeout := if_empty ''5s'' (yc_pingConnectionTimeout c),
          yc_mode := (if yc_mode c = MODE_UNSPECIFIED then MODE_TABLE_SERVICE_STDLIB_SCAN_QUERIES else yc_mode c),
          yc_exponentialBackoff := Some (if_nil makeDefaultExponentialBackoffConfig (yc_exponentialBackoff c)),
          yc_pushdown := Some (if_nil makeDefaultPushdownConfig (yc_pushdown c)),
          yc_iamEndpoint :=
            (if yc_serviceAccountKeyFileCredentials c \<noteq> [] then
               Some (if_nil \<lparr>ep_host = ''iam.api.cloud.yandex.net'', ep_port = 443\<rparr> (yc_iamEndpoint c))
             else yc_iamEndpoint c),
          yc_splitting := Some (if_nil False (yc_splitting c))\<rparr>))"

text \<open>The three steps that are repeated for each relational data source.\<close>

definition fill_relational :: "'a relationalDatasourceConfig_scheme \<Rightarrow> 'a relationalDatasourceConfig_scheme option
    \<Rightarrow> 'a relationalDatasourceConfig_scheme" where
  "fill_relational d cfg =
     (let c = if_nil d cfg
      in c\<lparr>exponentialBackoff := Some (if_nil makeDefaultExponentialBackoffConfig (exponentialBackoff c)),
           pushdown := Some (if_nil makeDefaultPushdownConfig (pushdown c))\<rparr>)"

definition default_open :: relationalDatasourceConfig where
  "default_open = \<lparr>openConnectionTimeout = ''5s'', exponentialBackoff = None, pushdown = None\<rparr>"

definition default_pinged :: pinged_config where
  "default_pinged = \<lparr>openConnectionTimeout = ''5s'', exponentialBackoff = None, pushdown = None,
     pingConnectionTimeout = ''5s''\<rparr>"

definition default_mysql :: TMySQLConfig where
  "default_mysql = \<lparr>openConnectionTimeout = ''5s'', exponentialBackoff = None, pushdown = None,
     resultChanCapacity = 512\<rparr>"

definition fill_mongodb :: "TMongoDbConfig option \<Rightarrow> TMongoDbConfig" where
  "fill_mongodb cfg =
     (let c = if_nil \<lparr>mg_openConnectionTimeout = ''5s'', mg_pingConnectionTimeout = ''5s'',
            mg_countDocsToDeduceSchema = 5, mg_exponentialBackoff = None\<rparr> cfg
      in c\<lparr>mg_exponentialBackoff := Some (if_nil makeDefaultExponentialBackoffConfig (mg_exponentialBackoff c))\<rparr>)"

definition fill_redis :: "TRedisConfig option \<Rightarrow> TRedisConfig" where
  "fill_redis cfg =
     (let c = if_nil \<lparr>rd_pingConnectionTimeout = ''5s'', rd_countDocsToDeduceSchema = 5,
            rd_exponentialBackoff = None\<rparr> cfg
      in c\<lparr>rd_exponentialBackoff := Some (if_nil makeDefaultExponentialBackoffConfig (rd_exponentialBackoff c))\<rparr>)"

definition fill_opensearch :: "TOpenSearchConfig option \<Rightarrow> TOpenSearchConfig" where
  "fill_opensearch cfg =
     (let c = if_nil \<lparr>os_dialTimeout = ''5s'', os_responseHeaderTimeout = ''5s'', os_pingConnectionTimeout = ''5s'',
            os_exponentialBackoff = None\<rparr> cfg
      in c\<lparr>os_exponentialBackoff := Some (if_nil makeDefaultExponentialBackoffConfig (os_exponentialBackoff c))\<rparr>)"

definition zero_ydb :: TYdbConfig where
  "zero_ydb = \<lparr>yc_openConnectionTimeout = [], yc_pingConnectionTimeout = [], yc_useUnderlayNetwork = False,
     yc_mode = MODE_UNSPECIFIED, yc_serviceAccountKeyFileCredentials = [], yc_iamEndpoint = None,
     yc_splitting = None, yc_exponentialBackoff = None, yc_pushdown = None\<rparr>"

definition default_logging :: TLoggingConfig where
  "default_logging = \<lparr>lc_ydb = Some zero_ydb,
     lc_resolving = Some (Static \<lparr>st_databases = [], st_folders = [], st_tableNamingPattern = []\<rparr>)\<rparr>"

definition zero_datasources :: TDatasourcesConfig where
  "zero_datasources = \<lparr>ds_ydb = None, ds_mysql = None, ds_clickhouse = None, ds_msSqlServer = None,
     ds_postgresql = None, ds_greenplum = None, ds_oracle = None, ds_logging = None, ds_mongodb = None,
     ds_redis = None, ds_opensearch = None\<rparr>"

definition fill_datasources :: "TDatasourcesConfig option \<Rightarrow> TDatasourcesConfig res" where
  "fill_datasources cfg =
     (let d = if_nil zero_datasources cfg;
          d = d\<lparr>ds_clickhouse := Some (fill_relational default_pinged (ds_clickhouse d)),
                ds_greenplum := Some (fill_relational default_open (ds_greenplum d)),
                ds_msSqlServer := Some (fill_relational default_pinged (ds_msSqlServer d)),
                ds_mysql := Some (fill_relational default_mysql (ds_mysql d)),
                ds_oracle := Some (fill_relational default_pinged (ds_oracle d)),
                ds_mongodb := Some (fill_mongodb (ds_mongodb d)),
                ds_redis := Some (fill_redis (ds_redis d)),
                ds_opensearch := Some (fill_opensearch (ds_opensearch d)),
                ds_postgresql := Some (fill_relational default_open (ds_postgresql d))\<rparr>;
          logging = if_nil default_logging (ds_logging d)
      in bind_res (fillYdbConfigDefaults (Some (if_nil zero_ydb (ds_ydb d)))) (\<lambda>ydb.
         bind_res (fillYdbConfigDefaults (lc_ydb logging)) (\<lambda>lydb.
           Ok (d\<lparr>ds_ydb := Some ydb, ds_logging := Some (logging\<lparr>lc_ydb := Some lydb\<rparr>)\<rparr>))))"

definition fillServerConfigDefaults :: "TServerConfig \<Rightarrow> TServerConfig res" where
  "fillServerConfigDefaults c =
     (case sc_connectorServer c of
        None \<Rightarrow> Panic ''nil pointer dereference''
      | Some cs \<Rightarrow>
          (let cs = (if cs_maxRecvMessageSize cs = 0 then cs\<lparr>cs_maxRecvMessageSize := 2147483647\<rparr> else cs);
               c = c\<lparr>sc_connectorServer := Some cs,
                     sc_paging := Some (if_nil \<lparr>pg_rowsPerPage = 0, pg_bytesPerPage = 4 * 1024 * 1024,
                       pg_prefetchQueueCapacity = 2\<rparr> (sc_paging c)),
                     sc_logger := Some (if_nil \<lparr>lg_logLevel = INFO, lg_enableSqlQueryLogging = False\<rparr> (sc_logger c)),
                     sc_conversion := Some (if_nil False (sc_conversion c))\<rparr>
           in bind_res (fill_datasources (sc_datasources c)) (\<lambda>d. Ok (c\<lparr>sc_datasources := Some d\<rparr>))))"

section \<open>Validation\<close>

definition check :: "bool \<Rightarrow> string \<Rightarrow> unit res" where
  "check ok msg = (if ok then Ok () else Err (NewErr msg))"

definition missing_section :: "unit res" where
  "missing_section = Err (NewErr ''required section is missing'')"

text \<open>An error formatted with \<^verbatim>\<open>%v\<close>.\<close>

definition flat_res :: "string \<Rightarrow> 'a res \<Rightarrow> unit res" where
  "flat_res p r =
     (case r of Ok _ \<Rightarrow> Ok () | Err e \<Rightarrow> Err (NewErr (p @ '': '' @ error_text e)) | Panic m \<Rightarrow> Panic m)"

text \<open>Consecutive checks, the first failing one returns.\<close>

definition andthen :: "unit res \<Rightarrow> unit res \<Rightarrow> unit res" where
  "andthen a b = bind_res a (\<lambda>_. b)"

fun all_checks :: "unit res list \<Rightarrow> unit res" where
  "all_checks [] = Ok ()"
| "all_checks (r # rs) = andthen r (all_checks rs)"

definition validateEndpoint :: "TGenericEndpoint option \<Rightarrow> unit res" where
  "validateEndpoint cfg =
     (case cfg of
        None \<Rightarrow> missing_section
      | Some c \<Rightarrow> all_checks
          [check (ep_host c \<noteq> []) ''invalid value of field `host`'',
           check (ep_port c \<noteq> 0 \<and> ep_port c \<le> 65535) ''invalid value of field `port`''])"

definition validateServerTLSConfig :: "TServerTLSConfig option \<Rightarrow> unit res" where
  "validateServerTLSConfig cfg =
     (case cfg of
        None \<Rightarrow> Ok ()
      | Some c \<Rightarrow> all_checks
          [check (tls_key c \<noteq> []) ''invalid value of field `key`'',
           check (tls_cert c \<noteq> []) ''invalid value of field `cert`''])"

definition validateConnectorServerConfig :: "TConnectorServerConfig option \<Rightarrow> unit res" where
  "validateConnectorServerConfig cfg =
     (case cfg of
        None \<Rightarrow> missing_section
      | Some c \<Rightarrow> all_checks
          [wrap_res ''validate `endpoint`'' (validateEndpoint (cs_endpoint c)),
           wrap_res ''validate `tls`'' (validateServerTLSConfig (cs_tls c))])"

definition validateServerReadLimit :: "u64 option \<Rightarrow> unit res" where
  "validateServerReadLimit cfg =
     (case cfg of None \<Rightarrow> Ok () | Some rows \<Rightarrow> check (rows \<noteq> 0) ''invalid value of field `rows`'')"

definition validatePprofServerConfig :: "TPprofServerConfig option \<Rightarrow> unit res" where
  "validatePprofServerConfig cfg =
     (case cfg of
        None \<Rightarrow> Ok ()
      | Some c \<Rightarrow> all_checks
          [wrap_res ''validate `endpoint`'' (validateEndpoint (pp_endpoint c)),
           wrap_res ''validate `tls`'' (validateServerTLSConfig (pp_tls c))])"

definition maxInterconnectMessageSize :: u64 where
  "maxInterconnectMessageSize = 50 * 1024 * 1024"

definition validatePagingConfig :: "TPagingConfig option \<Rightarrow> unit res" where
  "validatePagingConfig cfg =
     (case cfg of
        None \<Rightarrow> missing_section
      | Some c \<Rightarrow> all_checks
          [check (pg_bytesPerPage c \<noteq> 0 \<or> pg_rowsPerPage c \<noteq> 0)
             ''you must set either `bytes_per_page` or `rows_per_page` or both of them'',
           check (pg_bytesPerPage c \<le> maxInterconnectMessageSize)
             ''`bytes_per_page` limit exceeds the limits of interconnect system used by YDB engine''])"

definition validateConversionConfig :: "bool option \<Rightarrow> unit res" where
  "validateConversionConfig cfg = (case cfg of None \<Rightarrow> missing_section | Some _ \<Rightarrow> Ok ())"

definition check_duration :: "string \<Rightarrow> string \<Rightarrow> unit res" where
  "check_duration field s = flat_res (''validate `'' @ field @ ''`'') (DurationFromString s)"

text \<open>
  The argument is an interface that holds a typed pointer, so the comparison with nil is never true,
  and the generated getters of a nil pointer return zero values.
\<close>

definition validateRelationalDatasourceConfig :: "'a relationalDatasourceConfig_scheme option \<Rightarrow> unit res" where
  "validateRelationalDatasourceConfig cfg =
     all_checks
       [check_duration ''open_connection_timeout''
          (case cfg of None \<Rightarrow> [] | Some c \<Rightarrow> openConnectionTimeout c),
        check (Option.bind cfg exponentialBackoff \<noteq> None) ''missing `exponential_backoff`'',
        check (Option.bind cfg pushdown \<noteq> None) ''missing `pushdown`'']"

definition is_zero_float :: "u64 \<Rightarrow> bool" where
  "is_zero_float bits \<longleftrightarrow> bits = 0 \<or> bits = 0x8000000000000000"

definition validateExponentialBackoff :: "TExponentialBackoffConfig option \<Rightarrow> unit res" where
  "validateExponentialBackoff cfg =
     (case cfg of
        None \<Rightarrow> missing_section
      | Some c \<Rightarrow> all_checks
          [check_duration ''initial_interval'' (bo_initialInterval c),
           check_duration ''max_interval'' (bo_maxInterval c),
           check (\<not> is_zero_float (bo_multiplier c)) ''zero value for `multiplier`'',
           check_duration ''max_elapsed_time'' (bo_maxElapsedTime c)])"

definition validate_iam :: "TYdbConfig \<Rightarrow> unit res" where
  "validate_iam c =
     (if yc_serviceAccountKeyFileCredentials c = [] then Ok ()
      else case yc_iamEndpoint c of
        None \<Rightarrow> Err (NewErr ''you must set `iam_endpoint` if `service_account_key_file_credentials` is set'')
      | Some e \<Rightarrow> all_checks
          [check (ep_host e \<noteq> []) ''invalid value of field `iam_endpoint.host`'',
           check (ep_port e \<noteq> 0) ''invalid value of field `iam_endpoint.port`''])"

definition validateYdbConfig :: "TYdbConfig option \<Rightarrow> unit res" where
  "validateYdbConfig cfg =
     (case cfg of
        None \<Rightarrow> Ok ()
      | Some c \<Rightarrow> all_checks
          [check_duration ''open_connection_timeout'' (yc_openConnectionTimeout c),
           check_duration ''ping_connection_timeout'' (yc_pingConnectionTimeout c),
           check (yc_mode c \<noteq> MODE_UNSPECIFIED) ''invalid `mode` value'',
           validate_iam c,
           check (yc_splitting c \<noteq> None) ''you must set `splitting` section'',
           flat_res ''validate `exponential_backoff`'' (validateExponentialBackoff (yc_exponentialBackoff c))])"

definition validateMongoDBConfig :: "TMongoDbConfig option \<Rightarrow> unit res" where
  "validateMongoDBConfig cfg =
     (case cfg of
        None \<Rightarrow> Ok ()
      | Some c \<Rightarrow> all_checks
          [check_duration ''open_connection_timeout'' (mg_openConnectionTimeout c),
           check_duration ''ping_connection_timeout'' (mg_pingConnectionTimeout c),
           check (mg_countDocsToDeduceSchema c \<noteq> 0) ''validate `count_docs_to_deduce_schema`: can't be zero'',
           flat_res ''validate `exponential_backoff`'' (validateExponentialBackoff (mg_exponentialBackoff c))])"

definition validateRedisConfig :: "TRedisConfig option \<Rightarrow> unit res" where
  "validateRedisConfig cfg =
     (case cfg of
        None \<Rightarrow> Ok ()
      | Some c \<Rightarrow> all_checks
          [check_duration ''ping_connection_timeout'' (rd_pingConnectionTimeout c),
           check (rd_countDocsToDeduceSchema c \<noteq> 0) ''validate `count_docs_to_deduce_schema`: can't be zero'',
           flat_res ''validate `exponential_backoff`'' (validateExponentialBackoff (rd_exponentialBackoff c))])"

definition validateOpenSearchConfig :: "TOpenSearchConfig option \<Rightarrow> unit res" where
  "validateOpenSearchConfig cfg =
     (case cfg of
        None \<Rightarrow> Ok ()
      | Some c \<Rightarrow> all_checks
          [check_duration ''dial_timeout'' (os_dialTimeout c),
           check_duration ''response_header_timeout'' (os_responseHeaderTimeout c),
           check_duration ''ping_connection_timeout'' (os_pingConnectionTimeout c),
           flat_res ''validate `exponential_backoff`'' (validateExponentialBackoff (os_exponentialBackoff c))])"

text \<open>The endpoint of a database is dereferenced without a check.\<close>

definition validate_database :: "TDatabase \<Rightarrow> unit res" where
  "validate_database d =
     andthen (check (db_name d \<noteq> []) ''missing `name` for database'')
       (case db_endpoint d of
          None \<Rightarrow> Panic ''nil pointer dereference''
        | Some e \<Rightarrow> all_checks
            [check (ep_host e \<noteq> []) ''missing `endpoint.host` for database'',
             check (ep_port e \<noteq> 0) ''missing `endpoint.port` for database''])"

definition validateLoggingResolvingStaticConfig :: "TStaticResolving option \<Rightarrow> unit res" where
  "validateLoggingResolvingStaticConfig cfg =
     (case cfg of
        None \<Rightarrow> Ok ()
      | Some c \<Rightarrow>
          if st_databases c = [] then Ok ()
          else if st_folders c = [] then Ok ()
          else andthen (all_checks (map validate_database (st_databases c)))
                 (all_checks (map (\<lambda>(_, f). check (fo_logGroups f \<noteq> []) ''missing `log_groups` for folder'') (st_folders c))))"

definition validateLoggingResolvingDynamicConfig :: "TDynamicResolving option \<Rightarrow> unit res" where
  "validateLoggingResolvingDynamicConfig cfg =
     (case cfg of
        None \<Rightarrow> Ok ()
      | Some c \<Rightarrow>
          (case dy_loggingEndpoint c of
             None \<Rightarrow> Panic ''nil pointer dereference''
           | Some e \<Rightarrow> all_checks
               [check (ep_host e \<noteq> []) ''missing `logging_endpoint.host`'',
                check (ep_port e \<noteq> 0) ''missing `logging_endpoint.port`'']))"

definition GetStatic :: "TLoggingConfig \<Rightarrow> TStaticResolving option" where
  "GetStatic c = (case lc_resolving c of Some (Static s) \<Rightarrow> Some s | _ \<Rightarrow> None)"

definition GetDynamic :: "TLoggingConfig \<Rightarrow> TDynamicResolving option" where
  "GetDynamic c = (case lc_resolving c of Some (Dynamic d) \<Rightarrow> Some d | _ \<Rightarrow> None)"

definition validateLoggingConfig :: "TLoggingConfig option \<Rightarrow> unit res" where
  "validateLoggingConfig cfg =
     (case cfg of
        None \<Rightarrow> Ok ()
      | Some c \<Rightarrow> all_checks
          [wrap_res ''validate `ydb`'' (validateYdbConfig (lc_ydb c)),
           check (GetStatic c \<noteq> None \<or> GetDynamic c \<noteq> None) ''you should set either `static` or `dynamic` section'',
           check (GetStatic c = None \<or> GetDynamic c = None)
             ''you should set either `static` or `dynamic` section, not both of them'',
           wrap_res ''validate `static`'' (validateLoggingResolvingStaticConfig (GetStatic c)),
           wrap_res ''validate `dynamic`'' (validateLoggingResolvingDynamicConfig (GetDynamic c))])"

definition validateDatasourcesConfig :: "TDatasourcesConfig option \<Rightarrow> unit res" where
  "validateDatasourcesConfig cfg =
     (case cfg of
        None \<Rightarrow> missing_section
      | Some c \<Rightarrow> all_checks
          [wrap_res ''validate `clickhouse`'' (validateRelationalDatasourceConfig (ds_clickhouse c)),
           wrap_res ''validate `greenplum`'' (validateRelationalDatasourceConfig (ds_greenplum c)),
           wrap_res ''validate `logging`'' (validateLoggingConfig (ds_logging c)),
           wrap_res ''validate `ms_sql_server`'' (validateRelationalDatasourceConfig (ds_msSqlServer c)),
           wrap_res ''validate `mysql`'' (validateRelationalDatasourceConfig (ds_mysql c)),
           wrap_res ''validate `oracle`'' (validateRelationalDatasourceConfig (ds_oracle c)),
           wrap_res ''validate `postgresql`'' (validateRelationalDatasourceConfig (ds_postgresql c)),
           wrap_res ''validate `ydb`'' (validateYdbConfig (ds_ydb c)),
           wrap_res ''validate `mongodb`'' (validateMongoDBConfig (ds_mongodb c)),
           wrap_res ''validate `opensearch`'' (validateOpenSearchConfig (ds_opensearch c)),
           wrap_res ''validate `redis`'' (validateRedisConfig (ds_redis c))])"

definition validateObservationServerConfig :: "TGenericEndpoint option option \<Rightarrow> unit res" where
  "validateObservationServerConfig cfg =
     (case cfg of None \<Rightarrow> missing_section | Some e \<Rightarrow> wrap_res ''validate `endpoint`'' (validateEndpoint e))"

definition validateObservationStorageConfig :: "string option option \<Rightarrow> unit res" where
  "validateObservationStorageConfig cfg =
     (case cfg of
        None \<Rightarrow> missing_section
      | Some sqlite \<Rightarrow> (case sqlite of None \<Rightarrow> Ok () | Some path \<Rightarrow> check (path \<noteq> []) ''empty `sqlite.path`''))"

definition validateObservationConfig :: "TObservationConfig option \<Rightarrow> unit res" where
  "validateObservationConfig cfg =
     (case cfg of
        None \<Rightarrow> Ok ()
      | Some c \<Rightarrow> all_checks
          [wrap_res ''validate `server`'' (validateObservationServerConfig (ob_server c)),
           wrap_res ''validate `storage`'' (validateObservationStorageConfig (ob_storage c))])"

definition validateServerConfig :: "TServerConfig \<Rightarrow> unit res" where
  "validateServerConfig c =
     all_checks
       [wrap_res ''validate `connector_server`'' (validateConnectorServerConfig (sc_connectorServer c)),
        wrap_res ''validate `read_limit`'' (validateServerReadLimit (sc_readLimit c)),
        wrap_res ''validate `pprof_server`'' (validatePprofServerConfig (sc_pprofServer c)),
        wrap_res ''validate `paging`'' (validatePagingConfig (sc_paging c)),
        wrap_res ''validate `conversion`'' (validateConversionConfig (sc_conversion c)),
        wrap_res ''validate `datasources`'' (validateDatasourcesConfig (sc_datasources c)),
        wrap_res ''validate `observation`'' (validateObservationConfig (sc_observation c))]"

section \<open>Loading\<close>

text \<open>The parsers wrap a read of the file and the unmarshalling of its text.\<close>

definition newConfigFromPrototextFile ::
    "(string \<Rightarrow> string res) \<Rightarrow> (string \<Rightarrow> TServerConfig res) \<Rightarrow> string \<Rightarrow> TServerConfig res" where
  "newConfigFromPrototextFile readFile unmarshal configPath =
     bind_res (wrap_res ''read file'' (readFile configPath)) (\<lambda>data.
       wrap_res ''prototext unmarshal'' (unmarshal data))"

definition newConfigFromYAMLFile ::
    "(string \<Rightarrow> string res) \<Rightarrow> (string \<Rightarrow> string res) \<Rightarrow> (string \<Rightarrow> TServerConfig res) \<Rightarrow> string \<Rightarrow> TServerConfig res" where
  "newConfigFromYAMLFile readFile yamlToJSON unmarshal configPath =
     bind_res (wrap_res ''read file'' (readFile configPath)) (\<lambda>dataYAML.
     bind_res (wrap_res ''convert YAML to JSON'' (yamlToJSON dataYAML)) (\<lambda>dataJSON.
       wrap_res ''protojson unmarshal'' (unmarshal dataJSON)))"

text \<open>The loop over the parsers, in the order that the iteration over the map takes; the first that
  succeeds wins, and a failure joins the errors of all.\<close>

fun first_parsed :: "go_error list \<Rightarrow> (string \<Rightarrow> TServerConfig res) list \<Rightarrow> string \<Rightarrow> TServerConfig res" where
  "first_parsed errs [] configPath = Err (NewErr (join [CHR 0x0A] (map error_text errs)))"
| "first_parsed errs (parser # parsers) configPath =
     (case parser configPath of
        Ok cfg \<Rightarrow> Ok cfg
      | Err e \<Rightarrow> first_parsed (errs @ [Wrap ''config parser'' e]) parsers configPath
      | Panic m \<Rightarrow> Panic m)"

definition NewConfigFromFile :: "(string \<Rightarrow> TServerConfig res) list \<Rightarrow> string \<Rightarrow> TServerConfig res" where
  "NewConfigFromFile parsers configPath =
     bind_res (first_parsed [] parsers configPath) (\<lambda>cfg.
     bind_res (fillServerConfigDefaults cfg) (\<lambda>cfg.
     bind_res (wrap_res ''validate config'' (validateServerConfig cfg)) (\<lambda>_. Ok cfg)))"

definition NewDefaultConfig :: "TServerConfig res" where
  "NewDefaultConfig =
     (let endpoint = (\<lambda>port. Some \<lparr>ep_host = ''localhost'', ep_port = port\<rparr>)
      in fillServerConfigDefaults
        \<lparr>sc_connectorServer = Some \<lparr>cs_endpoint = endpoint 2130, cs_tls = None, cs_maxRecvMessageSize = 0\<rparr>,
         sc_readLimit = None, sc_logger = None,
         sc_pprofServer = Some \<lparr>pp_endpoint = endpoint 6060, pp_tls = None\<rparr>,
         sc_metricsServer = None, sc_paging = None, sc_conversion = None, sc_datasources = None,
         sc_observation = None\<rparr>)"

section \<open>What the checks mean\<close>

named_theorems config_checks

lemma check_Ok [config_checks]: "check b m = Ok () \<longleftrightarrow> b"
  by (simp add: check_def)

lemma missing_section_Ok [config_checks]: "missing_section \<noteq> Ok ()"
  by (simp add: missing_section_def)

lemma andthen_Ok [config_checks]: "andthen a b = Ok () \<longleftrightarrow> a = Ok () \<and> b = Ok ()"
  by (cases a) (simp_all add: andthen_def)

lemma all_checks_Ok: "all_checks rs = Ok () \<longleftrightarrow> (\<forall>r \<in> set rs. r = Ok ())"
  by (induction rs) (simp_all add: config_checks)

lemma flat_res_Ok [config_checks]: "flat_res p r = Ok () \<longleftrightarrow> (\<exists>x. r = Ok x)"
  by (cases r) (simp_all add: flat_res_def)

lemma check_duration_Ok [config_checks]: "check_duration f s = Ok () \<longleftrightarrow> valid_duration s"
  by (simp add: check_duration_def config_checks valid_duration_def)

lemma default_durations_valid [simp]: "valid_duration ''5s''" "valid_duration ''500ms''" "valid_duration ''10s''"
    "valid_duration ''1m''"
  by (simp_all add: valid_duration_def)

definition backoff_ok :: "TExponentialBackoffConfig option \<Rightarrow> bool" where
  "backoff_ok cfg \<longleftrightarrow>
     (\<exists>c. cfg = Some c \<and> valid_duration (bo_initialInterval c) \<and> valid_duration (bo_maxInterval c) \<and>
        valid_duration (bo_maxElapsedTime c) \<and> \<not> is_zero_float (bo_multiplier c))"

lemma validateExponentialBackoff_Ok [config_checks]: "validateExponentialBackoff cfg = Ok () \<longleftrightarrow> backoff_ok cfg"
  by (cases cfg) (auto simp: validateExponentialBackoff_def backoff_ok_def config_checks)

lemma default_backoff_ok [simp]: "backoff_ok (Some makeDefaultExponentialBackoffConfig)"
  by (simp add: backoff_ok_def makeDefaultExponentialBackoffConfig_def is_zero_float_def)

definition relational_ok :: "'a relationalDatasourceConfig_scheme option \<Rightarrow> bool" where
  "relational_ok cfg \<longleftrightarrow>
     (\<exists>c. cfg = Some c \<and> valid_duration (openConnectionTimeout c) \<and> exponentialBackoff c \<noteq> None \<and> pushdown c \<noteq> None)"

lemma validateRelational_Ok [config_checks]:
  "validateRelationalDatasourceConfig cfg = Ok () \<longleftrightarrow> relational_ok cfg"
  by (cases cfg) (auto simp: validateRelationalDatasourceConfig_def relational_ok_def config_checks)

definition ydb_ok :: "TYdbConfig option \<Rightarrow> bool" where
  "ydb_ok cfg \<longleftrightarrow>
     (\<forall>c. cfg = Some c \<longrightarrow> valid_duration (yc_openConnectionTimeout c) \<and> valid_duration (yc_pingConnectionTimeout c) \<and>
        yc_mode c \<noteq> MODE_UNSPECIFIED \<and> yc_splitting c \<noteq> None \<and> backoff_ok (yc_exponentialBackoff c) \<and>
        (yc_serviceAccountKeyFileCredentials c \<noteq> [] \<longrightarrow>
           (\<exists>e. yc_iamEndpoint c = Some e \<and> ep_host e \<noteq> [] \<and> ep_port e \<noteq> 0)))"

lemma validateYdbConfig_Ok [config_checks]: "validateYdbConfig cfg = Ok () \<longleftrightarrow> ydb_ok cfg"
  by (cases cfg) (auto simp: validateYdbConfig_def validate_iam_def ydb_ok_def config_checks split: option.splits)

text \<open>The states of the sections after the defaults were filled in, and what validation adds.\<close>

lemmas fill_defs =
  fill_relational_def fill_mongodb_def fill_redis_def fill_opensearch_def default_open_def default_pinged_def
  default_mysql_def default_logging_def zero_ydb_def zero_datasources_def if_empty_def

lemma fill_relational_idem [simp]: "fill_relational d (Some (fill_relational d c)) = fill_relational d c"
  by (simp add: fill_relational_def Let_def)

lemma fill_nosql_idem [simp]:
  "fill_mongodb (Some (fill_mongodb m)) = fill_mongodb m"
  "fill_redis (Some (fill_redis r)) = fill_redis r"
  "fill_opensearch (Some (fill_opensearch s)) = fill_opensearch s"
  by (simp_all add: fill_mongodb_def fill_redis_def fill_opensearch_def Let_def)

lemma if_empty_idem [simp]: "d \<noteq> [] \<Longrightarrow> if_empty d (if_empty d s) = if_empty d s"
  by (simp add: if_empty_def)

lemma fillYdb_idem: "fillYdbConfigDefaults c = Ok d \<Longrightarrow> fillYdbConfigDefaults (Some d) = Ok d"
  by (cases c) (auto simp: fillYdbConfigDefaults_def split: if_splits)

lemma fillYdb_Panic: "fillYdbConfigDefaults c = Panic m \<longleftrightarrow> c = None \<and> m = ''nil pointer dereference''"
  by (auto simp: fillYdbConfigDefaults_def split: option.splits)

lemma fillYdb_Err [simp]: "fillYdbConfigDefaults c \<noteq> Err e"
  by (auto simp: fillYdbConfigDefaults_def split: option.splits)

lemma fill_datasources_idem:
  assumes "fill_datasources c = Ok d"
  shows "fill_datasources (Some d) = Ok d"
proof -
  obtain y l ly where y: "ds_ydb d = Some y" "fillYdbConfigDefaults (Some y) = Ok y"
    and l: "ds_logging d = Some l" "lc_ydb l = Some ly" "fillYdbConfigDefaults (Some ly) = Ok ly"
  proof -
    let ?c = "if_nil zero_datasources c"
    let ?l = "if_nil default_logging (ds_logging ?c)"
    from assms obtain y ly where "fillYdbConfigDefaults (Some (if_nil zero_ydb (ds_ydb ?c))) = Ok y"
      "fillYdbConfigDefaults (lc_ydb ?l) = Ok ly" "ds_ydb d = Some y" "ds_logging d = Some (?l\<lparr>lc_ydb := Some ly\<rparr>)"
      by (auto simp: fill_datasources_def Let_def res_simps)
    then show thesis by (intro that [of y "?l\<lparr>lc_ydb := Some ly\<rparr>" ly]) (auto intro: fillYdb_idem)
  qed
  have r: "ds_clickhouse d = Some (fill_relational default_pinged (ds_clickhouse d))"
    "ds_greenplum d = Some (fill_relational default_open (ds_greenplum d))"
    "ds_msSqlServer d = Some (fill_relational default_pinged (ds_msSqlServer d))"
    "ds_mysql d = Some (fill_relational default_mysql (ds_mysql d))"
    "ds_oracle d = Some (fill_relational default_pinged (ds_oracle d))"
    "ds_mongodb d = Some (fill_mongodb (ds_mongodb d))" "ds_redis d = Some (fill_redis (ds_redis d))"
    "ds_opensearch d = Some (fill_opensearch (ds_opensearch d))"
    "ds_postgresql d = Some (fill_relational default_open (ds_postgresql d))"
    using assms by (auto simp: fill_datasources_def Let_def res_simps)
  show ?thesis
    using l y by (auto simp: fill_datasources_def Let_def r [symmetric])
qed

lemma fill_datasources_outcome:
  "fill_datasources c \<noteq> Err e"
  "(\<exists>m. fill_datasources c = Panic m) \<longleftrightarrow> (\<exists>d l. c = Some d \<and> ds_logging d = Some l \<and> lc_ydb l = None)"
proof -
  show "fill_datasources c \<noteq> Err e" by (simp add: fill_datasources_def Let_def res_simps)
  have "(\<exists>m. fill_datasources c = Panic m) \<longleftrightarrow> lc_ydb (if_nil default_logging (ds_logging (if_nil zero_datasources c))) = None"
    by (auto simp: fill_datasources_def Let_def res_simps fillYdb_Panic) (simp add: fillYdbConfigDefaults_def)
  also have "\<dots> \<longleftrightarrow> (\<exists>d l. c = Some d \<and> ds_logging d = Some l \<and> lc_ydb l = None)"
    by (auto simp: if_nil_def default_logging_def zero_datasources_def split: option.splits)
  finally show "(\<exists>m. fill_datasources c = Panic m) \<longleftrightarrow> (\<exists>d l. c = Some d \<and> ds_logging d = Some l \<and> lc_ydb l = None)" .
qed

lemma if_nil_given: "x = Some y \<Longrightarrow> if_nil d x = y"
  by simp

section \<open>Properties\<close>

text \<open>The default configuration is accepted. \<^verbatim>\<open>NewDefaultConfig\<close> returns a configuration that passes the
  validation, with pages of four megabytes, no limit on their rows, and the default converters.\<close>

theorem default_config_accepted:
  "\<exists>c p. NewDefaultConfig = Ok c \<and> validateServerConfig c = Ok () \<and> sc_conversion c = Some False \<and>
     sc_paging c = Some p \<and> pg_bytesPerPage p = 4194304 \<and> pg_rowsPerPage p = 0"
proof -
  have "case NewDefaultConfig of
      Ok c \<Rightarrow> validateServerConfig c = Ok () \<and> sc_conversion c = Some False \<and>
        sc_paging c = Some \<lparr>pg_rowsPerPage = 0, pg_bytesPerPage = 4194304, pg_prefetchQueueCapacity = 2\<rparr>
    | _ \<Rightarrow> False"
    by code_simp
  then show ?thesis by (auto split: res.splits)
qed

text \<open>Filling in defaults is idempotent and only adds. A second pass changes nothing, and the
  sections that a configuration file states are kept: the paging, the read limit, the conversion, the
  timeouts of a data source, the resolution of log groups.\<close>

theorem config_defaults_only_add:
  assumes "fillServerConfigDefaults c = Ok d"
  shows "fillServerConfigDefaults d = Ok d \<and>
    (sc_readLimit d, sc_pprofServer d, sc_metricsServer d, sc_observation d) =
      (sc_readLimit c, sc_pprofServer c, sc_metricsServer c, sc_observation c) \<and>
    (\<forall>p. sc_paging c = Some p \<longrightarrow> sc_paging d = Some p) \<and> (\<forall>b. sc_conversion c = Some b \<longrightarrow> sc_conversion d = Some b) \<and>
    (\<forall>s r. sc_datasources c = Some s \<and> ds_clickhouse s = Some r \<longrightarrow>
      (\<exists>s' r'. sc_datasources d = Some s' \<and> ds_clickhouse s' = Some r' \<and>
         openConnectionTimeout r' = openConnectionTimeout r \<and> pingConnectionTimeout r' = pingConnectionTimeout r \<and>
         (\<forall>b. exponentialBackoff r = Some b \<longrightarrow> exponentialBackoff r' = Some b))) \<and>
    (\<forall>s l. sc_datasources c = Some s \<and> ds_logging s = Some l \<longrightarrow>
      (\<exists>s' l'. sc_datasources d = Some s' \<and> ds_logging s' = Some l' \<and> lc_resolving l' = lc_resolving l))"
proof -
  obtain cs s where cs: "sc_connectorServer c = Some cs" and s: "fill_datasources (sc_datasources c) = Ok s"
    and d: "d = c\<lparr>sc_connectorServer := Some (if cs_maxRecvMessageSize cs = 0 then cs\<lparr>cs_maxRecvMessageSize := 2147483647\<rparr> else cs),
        sc_paging := Some (if_nil \<lparr>pg_rowsPerPage = 0, pg_bytesPerPage = 4 * 1024 * 1024, pg_prefetchQueueCapacity = 2\<rparr> (sc_paging c)),
        sc_logger := Some (if_nil \<lparr>lg_logLevel = INFO, lg_enableSqlQueryLogging = False\<rparr> (sc_logger c)),
        sc_conversion := Some (if_nil False (sc_conversion c)), sc_datasources := Some s\<rparr>"
    using assms by (auto simp: fillServerConfigDefaults_def Let_def res_simps split: option.splits)
  have "fillServerConfigDefaults d = Ok d"
    using fill_datasources_idem [OF s] by (auto simp: fillServerConfigDefaults_def d Let_def)
  moreover have "\<exists>r'. ds_clickhouse s = Some r' \<and> openConnectionTimeout r' = openConnectionTimeout r \<and>
      pingConnectionTimeout r' = pingConnectionTimeout r \<and>
      (\<forall>b. exponentialBackoff r = Some b \<longrightarrow> exponentialBackoff r' = Some b)"
    if "sc_datasources c = Some s0" "ds_clickhouse s0 = Some r" for s0 r
    using s that by (auto simp: fill_datasources_def fill_relational_def Let_def res_simps)
  moreover have "\<exists>l'. ds_logging s = Some l' \<and> lc_resolving l' = lc_resolving l"
    if "sc_datasources c = Some s0" "ds_logging s0 = Some l" for s0 l
    using s that by (auto simp: fill_datasources_def Let_def res_simps)
  ultimately show ?thesis by (simp add: d)
qed

definition bare_config :: TServerConfig where
  "bare_config =
     \<lparr>sc_connectorServer = Some \<lparr>cs_endpoint = Some \<lparr>ep_host = ''localhost'', ep_port = 2130\<rparr>, cs_tls = None,
        cs_maxRecvMessageSize = 0\<rparr>,
      sc_readLimit = Some 10, sc_logger = None, sc_pprofServer = None, sc_metricsServer = None,
      sc_paging = Some \<lparr>pg_rowsPerPage = 7, pg_bytesPerPage = 0, pg_prefetchQueueCapacity = 1\<rparr>, sc_conversion = None,
      sc_datasources = None, sc_observation = None\<rparr>"

lemma bare_config_filled: "\<exists>d. fillServerConfigDefaults bare_config = Ok d \<and> validateServerConfig d = Ok ()"
proof -
  have "case fillServerConfigDefaults bare_config of Ok d \<Rightarrow> validateServerConfig d = Ok () | _ \<Rightarrow> False" by code_simp
  then show ?thesis by (auto split: res.splits)
qed

theorem config_defaults_only_add_witness:
  "\<exists>d. fillServerConfigDefaults bare_config = Ok d \<and> fillServerConfigDefaults d = Ok d \<and> sc_readLimit d = Some 10 \<and>
     sc_paging d = Some \<lparr>pg_rowsPerPage = 7, pg_bytesPerPage = 0, pg_prefetchQueueCapacity = 1\<rparr>"
proof -
  obtain d where "fillServerConfigDefaults bare_config = Ok d" using bare_config_filled by blast
  with config_defaults_only_add [OF this] show ?thesis by (auto simp: bare_config_def)
qed

text \<open>Loading can panic. Filling in the defaults dereferences the section of the server and the YDB
  section of the logging data source: a file without the former, or with a logging section
  without the latter, makes the server panic instead of reporting the missing section, and no
  other configuration does.\<close>

theorem missing_section_panics:
  "(\<exists>m. fillServerConfigDefaults c = Panic m) \<longleftrightarrow>
     sc_connectorServer c = None \<or>
     (\<exists>d l. sc_datasources c = Some d \<and> ds_logging d = Some l \<and> lc_ydb l = None)"
proof (cases "sc_connectorServer c")
  case None
  then show ?thesis by (simp add: fillServerConfigDefaults_def)
next
  case (Some cs)
  then show ?thesis
    using fill_datasources_outcome(2) [of "sc_datasources c"]
    by (simp add: fillServerConfigDefaults_def Let_def res_simps)
qed

text \<open>What the validation guarantees of the sections.\<close>

definition datasources_ok :: "TDatasourcesConfig \<Rightarrow> bool" where
  "datasources_ok d \<longleftrightarrow>
     relational_ok (ds_clickhouse d) \<and> relational_ok (ds_greenplum d) \<and> relational_ok (ds_msSqlServer d) \<and>
     relational_ok (ds_mysql d) \<and> relational_ok (ds_oracle d) \<and> relational_ok (ds_postgresql d) \<and>
     (\<exists>y. ds_ydb d = Some y \<and> ydb_ok (Some y)) \<and>
     (\<exists>l y. ds_logging d = Some l \<and> lc_ydb l = Some y \<and> ydb_ok (Some y) \<and> lc_resolving l \<noteq> None) \<and>
     (\<exists>m. ds_mongodb d = Some m \<and> valid_duration (mg_openConnectionTimeout m) \<and>
        valid_duration (mg_pingConnectionTimeout m) \<and> mg_countDocsToDeduceSchema m \<noteq> 0 \<and> backoff_ok (mg_exponentialBackoff m)) \<and>
     (\<exists>r. ds_redis d = Some r \<and> valid_duration (rd_pingConnectionTimeout r) \<and> rd_countDocsToDeduceSchema r \<noteq> 0 \<and>
        backoff_ok (rd_exponentialBackoff r)) \<and>
     (\<exists>s. ds_opensearch d = Some s \<and> valid_duration (os_dialTimeout s) \<and> valid_duration (os_responseHeaderTimeout s) \<and>
        valid_duration (os_pingConnectionTimeout s) \<and> backoff_ok (os_exponentialBackoff s))"

lemma validate_filled_datasources:
  assumes "fill_datasources c = Ok d" and "validateDatasourcesConfig (Some d) = Ok ()"
  shows "datasources_ok d"
proof -
  obtain y l ly m r s where "ds_ydb d = Some y" "ds_logging d = Some l" "lc_ydb l = Some ly" "ds_mongodb d = Some m"
    "ds_redis d = Some r" "ds_opensearch d = Some s"
    using assms(1) by (fastforce simp: fill_datasources_def Let_def res_simps)
  with assms(2) show ?thesis
    unfolding datasources_ok_def
    by (auto simp: validateDatasourcesConfig_def validateMongoDBConfig_def validateRedisConfig_def validateOpenSearchConfig_def
        validateLoggingConfig_def config_checks GetStatic_def GetDynamic_def split: option.splits resolving.splits)
qed

text \<open>C24: an accepted configuration is complete. Whatever the parsers return, a configuration that
  \<^verbatim>\<open>NewConfigFromFile\<close> accepts has a usable endpoint, a page limit, pages within the interconnect limit, and
  every data source section with timeouts that parse.\<close>

theorem accepted_config_complete:
  assumes "NewConfigFromFile parsers path = Ok c"
  shows "\<exists>cs e p d. sc_connectorServer c = Some cs \<and> cs_endpoint cs = Some e \<and> ep_host e \<noteq> [] \<and>
    0 < ep_port e \<and> ep_port e \<le> 65535 \<and> cs_maxRecvMessageSize cs \<noteq> 0 \<and>
    sc_paging c = Some p \<and> (pg_bytesPerPage p \<noteq> 0 \<or> pg_rowsPerPage p \<noteq> 0) \<and> pg_bytesPerPage p \<le> 52428800 \<and>
    sc_conversion c \<noteq> None \<and> sc_readLimit c \<noteq> Some 0 \<and> sc_datasources c = Some d \<and> datasources_ok d"
proof -
  from assms obtain c0 where "fillServerConfigDefaults c0 = Ok c" and v: "validateServerConfig c = Ok ()"
    by (auto simp: NewConfigFromFile_def res_simps)
  then obtain cs d where cs: "sc_connectorServer c = Some cs" "cs_maxRecvMessageSize cs \<noteq> 0"
    and d: "sc_datasources c = Some d" "fill_datasources (sc_datasources c0) = Ok d"
    by (auto simp: fillServerConfigDefaults_def Let_def res_simps split: option.splits if_splits)
  have "datasources_ok d"
    using validate_filled_datasources [OF d(2)] v d(1) by (simp add: validateServerConfig_def config_checks)
  moreover obtain e where "cs_endpoint cs = Some e" "ep_host e \<noteq> []" "ep_port e \<noteq> 0" "ep_port e \<le> 65535"
    using v cs by (auto simp: validateServerConfig_def validateConnectorServerConfig_def validateEndpoint_def config_checks
        split: option.splits)
  moreover obtain p where "sc_paging c = Some p" "pg_bytesPerPage p \<noteq> 0 \<or> pg_rowsPerPage p \<noteq> 0"
    "pg_bytesPerPage p \<le> 52428800"
    using v by (auto simp: validateServerConfig_def validatePagingConfig_def maxInterconnectMessageSize_def config_checks
        split: option.splits)
  moreover have "sc_conversion c \<noteq> None" "sc_readLimit c \<noteq> Some 0"
    using v by (auto simp: validateServerConfig_def validateConversionConfig_def validateServerReadLimit_def config_checks
        split: option.splits)
  ultimately show ?thesis using cs d(1) by (auto simp: word_neq_0_conv)
qed

theorem accepted_config_complete_witness:
  "\<exists>c d. NewConfigFromFile [\<lambda>_. Err (NewErr ''yaml''), \<lambda>_. Ok bare_config] ''conf.txt'' = Ok c \<and>
     sc_datasources c = Some d \<and> datasources_ok d"
proof -
  obtain c where "NewConfigFromFile [\<lambda>_. Err (NewErr ''yaml''), \<lambda>_. Ok bare_config] ''conf.txt'' = Ok c"
    using bare_config_filled by (auto simp: NewConfigFromFile_def)
  with accepted_config_complete [OF this] show ?thesis by blast
qed

end
