(* ===== verification/Retry.thy ===== *)
theory Retry
  imports Config
begin

text \<open>
  Retries (\<^verbatim>\<open>src/app/server/utils/retry\<close>, the checkers of YDB and Oracle). The library \<^verbatim>\<open>backoff\<close> is a
  parameter: whether it allows another attempt after the \<open>n\<close>-th one. The operation is the sequence of the
  outcomes of its attempts. A retrier may run forever, so the loop is a partial function
  whose value \<open>None\<close> stands for not returning.
\<close>

section \<open>Checkers of errors\<close>

text \<open>What the standard library and the drivers know of an error, by the calls the source makes.\<close>

record error_facts =
  isErrDeadlineExceeded :: "go_error \<Rightarrow> bool"
  isECONNREFUSED :: "go_error \<Rightarrow> bool"
  asDNSError :: "go_error \<Rightarrow> (bool \<times> bool) option"
  asOpError :: "go_error \<Rightarrow> string option"
  isResourceExhausted :: "go_error \<Rightarrow> bool"

definition ErrorCheckerMakeConnectionCommon :: "error_facts \<Rightarrow> go_error \<Rightarrow> bool" where
  "ErrorCheckerMakeConnectionCommon E err =
     (if str_contains (error_text err) ''i/o timeout'' then True
      else if isErrDeadlineExceeded E err then True
      else if str_contains (error_text err) ''context deadline exceeded'' then True
      else if isECONNREFUSED E err then True
      else if str_contains (error_text err) ''connection refused'' then True
      else if (case asDNSError E err of Some (isTemporary, isTimeout) \<Rightarrow> isTemporary \<or> isTimeout | None \<Rightarrow> False) then True
      else if str_contains (error_text err) ''server misbehaving'' then True
      else False)"

definition ErrorCheckerNoop :: "go_error \<Rightarrow> bool" where
  "ErrorCheckerNoop err = False"

definition ydb_ErrorCheckerQuery :: "error_facts \<Rightarrow> go_error \<Rightarrow> bool" where
  "ydb_ErrorCheckerQuery E err = isResourceExhausted E err"

definition ora_ErrorCheckerMakeConnection :: "error_facts \<Rightarrow> go_error \<Rightarrow> bool" where
  "ora_ErrorCheckerMakeConnection E err =
     ((case asOpError E err of Some t \<Rightarrow> str_contains t ''use of closed network connection'' | None \<Rightarrow> False) \<or>
      ErrorCheckerMakeConnectionCommon E err)"

section \<open>Retriers\<close>

record exponential_backoff =
  MaxElapsedTime :: int
  InitialInterval :: int
  MaxInterval :: int
  RandomizationFactor :: u64
  Multiplier :: u64

text \<open>The factory is called when the retrier runs; the library's default is for the retrier without retries.\<close>

record retrier =
  retriableErrorChecker :: "go_error \<Rightarrow> bool"
  backoffFactory :: "exponential_backoff res"

definition NewRetrierFromConfig :: "TExponentialBackoffConfig \<Rightarrow> (go_error \<Rightarrow> bool) \<Rightarrow> retrier" where
  "NewRetrierFromConfig cfg checker =
     \<lparr>retriableErrorChecker = checker,
      backoffFactory =
        bind_res (MustDurationFromString (bo_maxElapsedTime cfg)) (\<lambda>elapsed.
        bind_res (MustDurationFromString (bo_initialInterval cfg)) (\<lambda>initial.
        bind_res (MustDurationFromString (bo_maxInterval cfg)) (\<lambda>maximum.
          Ok \<lparr>MaxElapsedTime = elapsed, InitialInterval = initial, MaxInterval = maximum,
              RandomizationFactor = bo_randomizationFactor cfg, Multiplier = bo_multiplier cfg\<rparr>)))\<rparr>"

definition NewRetrierNoop :: "exponential_backoff \<Rightarrow> retrier" where
  "NewRetrierNoop library_default =
     \<lparr>retriableErrorChecker = (\<lambda>_. False), backoffFactory = Ok library_default\<rparr>"

record retrier_set =
  rs_MakeConnection :: retrier
  rs_Query :: retrier

definition NewRetrierSetNoop :: "exponential_backoff \<Rightarrow> retrier_set" where
  "NewRetrierSetNoop library_default =
     \<lparr>rs_MakeConnection = NewRetrierNoop library_default, rs_Query = NewRetrierNoop library_default\<rparr>"

text \<open>The closure that \<^verbatim>\<open>Run\<close> hands to the library: \<open>Inl\<close> is an error that may be retried, \<open>Inr\<close> ends the run.\<close>

definition attempt :: "(go_error \<Rightarrow> bool) \<Rightarrow> bool \<Rightarrow> unit res \<Rightarrow> go_error + unit res" where
  "attempt checker forbidRetries r =
     (case r of
        Err err \<Rightarrow> if forbidRetries then Inr (Err err) else if checker err then Inl err else Inr (Err err)
      | _ \<Rightarrow> Inr r)"

partial_function (option) retry_loop ::
    "(unit res \<Rightarrow> go_error + unit res) \<Rightarrow> (nat \<Rightarrow> bool) \<Rightarrow> (nat \<Rightarrow> unit res) \<Rightarrow> nat \<Rightarrow> (unit res \<times> nat) option" where
  "retry_loop att nextBackOff op n =
     (case att (op n) of
        Inr r \<Rightarrow> Some (r, n + 1)
      | Inl err \<Rightarrow> if nextBackOff n then retry_loop att nextBackOff op (n + 1) else Some (Err err, n + 1))"

text \<open>\<^verbatim>\<open>Run\<close>, with the number of attempts it made.\<close>

definition Run :: "retrier \<Rightarrow> (exponential_backoff \<Rightarrow> nat \<Rightarrow> bool) \<Rightarrow> bool \<Rightarrow> (nat \<Rightarrow> unit res) \<Rightarrow> (unit res \<times> nat) option" where
  "Run r backoff forbidRetries op =
     (case backoffFactory r of
        Ok b \<Rightarrow> retry_loop (attempt (retriableErrorChecker r) forbidRetries) (backoff b) op 0
      | Err e \<Rightarrow> Some (Err e, 0)
      | Panic m \<Rightarrow> Some (Panic m, 0))"

section \<open>Properties\<close>

lemma retry_loop_returns:
  assumes "n \<le> k" and "\<And>i. n \<le> i \<Longrightarrow> i < k \<Longrightarrow> nextBackOff i \<and> (\<exists>e. att (op i) = Inl e)"
    and "\<not> nextBackOff k \<or> (\<exists>r. att (op k) = Inr r)"
  shows "retry_loop att nextBackOff op n = Some (case att (op k) of Inr r \<Rightarrow> r | Inl e \<Rightarrow> Err e, k + 1)"
  using assms
proof (induction "k - n" arbitrary: n)
  case 0
  then have "n = k" by simp
  with 0 show ?case by (subst retry_loop.simps) (auto split: sum.splits)
next
  case (Suc m)
  then have "n < k" by simp
  with Suc.prems obtain e where "nextBackOff n" "att (op n) = Inl e" by blast
  moreover have "retry_loop att nextBackOff op (n + 1) =
      Some (case att (op k) of Inr r \<Rightarrow> r | Inl e \<Rightarrow> Err e, k + 1)"
    using Suc.hyps(2) Suc.prems \<open>n < k\<close> by (intro Suc.hyps(1)) auto
  ultimately show ?case by (subst retry_loop.simps) simp
qed

lemma attempt_outcome: "(case attempt checker forbid r of Inr r' \<Rightarrow> r' | Inl e \<Rightarrow> Err e) = r"
  by (cases r) (simp_all add: attempt_def)

lemma attempt_Inl: "attempt checker forbid r = Inl e \<longleftrightarrow> r = Err e \<and> checker e \<and> \<not> forbid"
  by (cases r) (auto simp: attempt_def)

text \<open>An attempt after which the loop stops.\<close>

definition final_attempt :: "(go_error \<Rightarrow> bool) \<Rightarrow> bool \<Rightarrow> (nat \<Rightarrow> bool) \<Rightarrow> (nat \<Rightarrow> unit res) \<Rightarrow> nat \<Rightarrow> bool" where
  "final_attempt checker forbid nextBackOff op k \<longleftrightarrow>
     \<not> (nextBackOff k \<and> (\<exists>e. op k = Err e \<and> checker e \<and> \<not> forbid))"

text \<open>C25: a retrier returns when it should. As soon as an attempt succeeds, fails with an error that is
  not retriable, or the library ends the backoff, \<^verbatim>\<open>Run\<close> returns the outcome of the first such
  attempt, unchanged, and makes no attempt after it. With the flag that forbids retries, and
  with the checker that retries nothing, there is exactly one attempt.\<close>

theorem retrier_returns_first_final_attempt:
  assumes "backoffFactory r = Ok b"
    and "final_attempt (retriableErrorChecker r) forbid (backoff b) op n"
  shows "\<exists>k \<le> n. Run r backoff forbid op = Some (op k, k + 1) \<and>
      final_attempt (retriableErrorChecker r) forbid (backoff b) op k \<and>
      (\<forall>i < k. \<exists>e. op i = Err e \<and> retriableErrorChecker r e) \<and>
      (forbid \<or> retriableErrorChecker r = ErrorCheckerNoop \<longrightarrow> k = 0)"
proof -
  let ?final = "final_attempt (retriableErrorChecker r) forbid (backoff b) op"
  define k where "k = (LEAST k. ?final k)"
  have k: "?final k" unfolding k_def using assms(2) by (rule LeastI)
  have "k \<le> n" unfolding k_def using assms(2) by (rule Least_le)
  have before: "backoff b i \<and> (\<exists>e. op i = Err e \<and> retriableErrorChecker r e \<and> \<not> forbid)" if "i < k" for i
    using not_less_Least [of i ?final] that unfolding k_def [symmetric] by (auto simp: final_attempt_def)
  have "Run r backoff forbid op = Some (op k, k + 1)"
    unfolding Run_def assms(1) res.case
  proof (subst retry_loop_returns [of 0 k])
    show "\<not> backoff b k \<or> (\<exists>x. attempt (retriableErrorChecker r) forbid (op k) = Inr x)"
      using k by (cases "attempt (retriableErrorChecker r) forbid (op k)") (auto simp: final_attempt_def attempt_Inl)
  qed (use before in \<open>auto simp: attempt_Inl attempt_outcome\<close>)
  moreover have "k = 0" if "forbid \<or> retriableErrorChecker r = ErrorCheckerNoop"
    using before [of 0] that by (cases "k = 0") (auto simp: ErrorCheckerNoop_def)
  ultimately show ?thesis using k \<open>k \<le> n\<close> before by blast
qed

lemma default_retrier:
  "backoffFactory (NewRetrierFromConfig makeDefaultExponentialBackoffConfig checker) =
     Ok \<lparr>MaxElapsedTime = 60000000000, InitialInterval = 500000000, MaxInterval = 10000000000,
        RandomizationFactor = 0x3FD0000000000000, Multiplier = 0x3FF8000000000000\<rparr>"
  by (simp add: NewRetrierFromConfig_def makeDefaultExponentialBackoffConfig_def MustDurationFromString_def)

theorem retrier_returns_first_final_attempt_witness:
  "\<exists>k \<le> 1. Run (NewRetrierFromConfig makeDefaultExponentialBackoffConfig (\<lambda>_. True)) (\<lambda>_ _. True) False
     (\<lambda>n. if n = 0 then Err (NewErr ''connection refused'') else Ok ()) =
       Some ((\<lambda>n. if n = 0 then Err (NewErr ''connection refused'') else Ok ()) k, k + 1)"
proof -
  let ?r = "NewRetrierFromConfig makeDefaultExponentialBackoffConfig (\<lambda>_. True)"
  let ?op = "\<lambda>n :: nat. if n = 0 then Err (NewErr ''connection refused'') else Ok ()"
  have "final_attempt (retriableErrorChecker ?r) False ((\<lambda>_ _. True) b) ?op 1" for b :: exponential_backoff
    by (simp add: final_attempt_def)
  from retrier_returns_first_final_attempt [OF default_retrier this] show ?thesis by blast
qed

text \<open>Building the backoff panics exactly if one of the durations does not parse.\<close>

lemma backoff_built:
  "(\<exists>b. backoffFactory (NewRetrierFromConfig cfg checker) = Ok b) \<longleftrightarrow>
     valid_duration (bo_maxElapsedTime cfg) \<and> valid_duration (bo_initialInterval cfg) \<and> valid_duration (bo_maxInterval cfg)"
  by (auto simp: NewRetrierFromConfig_def res_simps MustDurationFromString_iff valid_duration_def)

definition retrier_built :: "TExponentialBackoffConfig option \<Rightarrow> bool" where
  "retrier_built cfg \<longleftrightarrow>
     (\<exists>c. cfg = Some c \<and> (\<forall>checker. \<exists>b. backoffFactory (NewRetrierFromConfig c checker) = Ok b))"

lemma backoff_ok_built: "backoff_ok cfg \<Longrightarrow> retrier_built cfg"
  by (auto simp: backoff_ok_def retrier_built_def backoff_built)

text \<open>Under an accepted configuration the retriers of YDB, Cloud Logging, MongoDB, Redis and OpenSearch can
  be run: building their backoff does not panic.\<close>

theorem accepted_config_retriers:
  assumes "NewConfigFromFile parsers path = Ok c"
  shows "\<exists>d y l ly m r s. sc_datasources c = Some d \<and>
    ds_ydb d = Some y \<and> retrier_built (yc_exponentialBackoff y) \<and>
    ds_logging d = Some l \<and> lc_ydb l = Some ly \<and> retrier_built (yc_exponentialBackoff ly) \<and>
    ds_mongodb d = Some m \<and> retrier_built (mg_exponentialBackoff m) \<and>
    ds_redis d = Some r \<and> retrier_built (rd_exponentialBackoff r) \<and>
    ds_opensearch d = Some s \<and> retrier_built (os_exponentialBackoff s)"
proof -
  from assms obtain c0 where "fillServerConfigDefaults c0 = Ok c" and "validateServerConfig c = Ok ()"
    by (auto simp: NewConfigFromFile_def res_simps)
  then obtain d where d: "sc_datasources c = Some d" and "datasources_ok d"
    by (auto simp: fillServerConfigDefaults_def validateServerConfig_def config_checks Let_def res_simps
        dest!: validate_filled_datasources split: option.splits)
  then show ?thesis unfolding datasources_ok_def ydb_ok_def using backoff_ok_built by blast
qed

theorem accepted_config_retriers_witness:
  "\<exists>c d y. NewConfigFromFile [\<lambda>_. Ok bare_config] ''conf.txt'' = Ok c \<and> sc_datasources c = Some d \<and>
     ds_ydb d = Some y \<and> retrier_built (yc_exponentialBackoff y)"
proof -
  obtain c where c: "NewConfigFromFile [\<lambda>_. Ok bare_config] ''conf.txt'' = Ok c"
    using bare_config_filled by (auto simp: NewConfigFromFile_def)
  from accepted_config_retriers [OF this] c show ?thesis by blast
qed

text \<open>The backoff of the relational data sources is not validated. There is a configuration that is accepted,
  and under which every connection to ClickHouse panics before the first attempt.\<close>

theorem relational_backoff_unchecked:
  "\<exists>cfg c d ch b. NewConfigFromFile [\<lambda>_. Ok cfg] path = Ok c \<and> sc_datasources c = Some d \<and>
     ds_clickhouse d = Some ch \<and> exponentialBackoff ch = Some b \<and>
     (\<exists>m. \<forall>backoff forbid op. Run (NewRetrierFromConfig b checker) backoff forbid op = Some (Panic m, 0))"
proof -
  let ?b = "makeDefaultExponentialBackoffConfig\<lparr>bo_maxElapsedTime := ''1 minute''\<rparr>"
  let ?cfg = "bare_config\<lparr>sc_datasources := Some (zero_datasources\<lparr>ds_clickhouse :=
      Some (default_pinged\<lparr>exponentialBackoff := Some ?b\<rparr>)\<rparr>)\<rparr>"
  have run: "case fillServerConfigDefaults ?cfg of
      Ok c \<Rightarrow> validateServerConfig c = Ok () \<and>
        Option.bind (Option.bind (sc_datasources c) ds_clickhouse) exponentialBackoff = Some ?b
    | _ \<Rightarrow> False"
    by code_simp
  then obtain c d ch where c: "fillServerConfigDefaults ?cfg = Ok c" "validateServerConfig c = Ok ()"
    and d: "sc_datasources c = Some d" "ds_clickhouse d = Some ch" "exponentialBackoff ch = Some ?b"
    by (auto simp: bind_eq_Some_conv split: res.splits)
  have "case MustDurationFromString ''1 minute'' of Panic m \<Rightarrow> True | _ \<Rightarrow> False" by code_simp
  then obtain m where "MustDurationFromString ''1 minute'' = Panic m" by (auto split: res.splits)
  then have "Run (NewRetrierFromConfig ?b checker) backoff forbid op = Some (Panic m, 0)" for backoff forbid op
    by (simp add: Run_def NewRetrierFromConfig_def)
  moreover have "NewConfigFromFile [\<lambda>_. Ok ?cfg] path = Ok c"
    by (simp only: NewConfigFromFile_def first_parsed.simps res.case bind_res.simps c wrap_res.simps)
  ultimately show ?thesis using d by blast
qed

end
