(* ===== verification/Splits.thy ===== *)
theory Splits
  imports Retry Streaming "HOL-Library.Multiset" "HOL-Library.Sublist"
begin

text \<open>
  Splitting of tables (\<^verbatim>\<open>ydb/split_provider.go\<close>, \<^verbatim>\<open>logging/split_provider.go\<close>, \<^verbatim>\<open>utils/split_provider.go\<close>) and
  the resolution of log groups (\<^verbatim>\<open>logging/resolver*.go\<close>, \<^verbatim>\<open>logging/connection_manager.go\<close>). What the
  YDB driver answers is a parameter: the kind of the table, and for every attempt of the query for
  the tablets its result sets. A send on the result channel either happens or finds the context
  cancelled, which a predicate on the number of the send decides. The template engine of
  the static resolver, the random choices and the logging API are parameters.
\<close>

section \<open>Endpoints\<close>

fun str_split :: "char \<Rightarrow> string \<Rightarrow> string list" where
  "str_split sep [] = [[]]"
| "str_split sep (c # s) =
     (if c = sep then [] # str_split sep s
      else case str_split sep s of [] \<Rightarrow> [[c]] | w # ws \<Rightarrow> (c # w) # ws)"

definition parse_uint32 :: "string \<Rightarrow> nat option" where
  "parse_uint32 s =
     (if s = [] \<or> \<not> list_all is_digit s \<or> int (read_dec 0 s) \<ge> 2 ^ 32 then None else Some (read_dec 0 s))"

definition EndpointToString :: "TGenericEndpoint \<Rightarrow> string" where
  "EndpointToString ep = ep_host ep @ '':'' @ dec (unat (ep_port ep))"

definition StringToEndpoint :: "string \<Rightarrow> TGenericEndpoint res" where
  "StringToEndpoint s =
     (case str_split CHR '':'' s of
        [host, p] \<Rightarrow>
          (case parse_uint32 p of
             None \<Rightarrow> Err (NewErr ''invalid port'')
           | Some port \<Rightarrow>
               if int port > 65535 then Err (NewErr ''invalid port'')
               else Ok \<lparr>ep_host = host, ep_port = of_nat port\<rparr>)
      | _ \<Rightarrow> Err (NewErr ''invalid endpoint format''))"

section \<open>Tablets of a column table\<close>

datatype store_type = StoreTypeUnspecified | StoreTypeColumn | StoreTypeRow | StoreTypeOther nat

text \<open>A result set: the outcomes of scanning its rows and what ends it, the end of the rows or an error.\<close>

record tablet_rows =
  tr_rows :: "u64 res list"
  tr_end :: "go_error option"

record tablet_result =
  tq_sets :: "tablet_rows list"
  tq_end :: "go_error option"

fun read_tablet_rows :: "u64 res list \<Rightarrow> u64 list \<Rightarrow> u64 list \<times> unit res" where
  "read_tablet_rows [] tabletIDs = (tabletIDs, Ok ())"
| "read_tablet_rows (r # rows) tabletIDs =
     (case r of
        Ok tabletId \<Rightarrow> read_tablet_rows rows (tabletIDs @ [tabletId])
      | Err e \<Rightarrow> (tabletIDs, Err (Wrap ''row scan'' e))
      | Panic m \<Rightarrow> (tabletIDs, Panic m))"

fun read_tablet_sets :: "tablet_rows list \<Rightarrow> u64 list \<Rightarrow> u64 list \<times> unit res" where
  "read_tablet_sets [] tabletIDs = (tabletIDs, Ok ())"
| "read_tablet_sets (s # sets) tabletIDs =
     (case read_tablet_rows (tr_rows s) tabletIDs of
        (tabletIDs, Ok _) \<Rightarrow>
          (case tr_end s of
             None \<Rightarrow> read_tablet_sets sets tabletIDs
           | Some e \<Rightarrow> (tabletIDs, Err (Wrap ''next row'' e)))
      | r \<Rightarrow> r)"

text \<open>One call of the closure; the slice of identifiers lives outside of it.\<close>

definition tablet_attempt :: "tablet_result res \<Rightarrow> u64 list \<Rightarrow> u64 list \<times> unit res" where
  "tablet_attempt q tabletIDs =
     (case q of
        Err e \<Rightarrow> (tabletIDs, Err (Wrap ''query'' e))
      | Panic m \<Rightarrow> (tabletIDs, Panic m)
      | Ok result \<Rightarrow>
          (case read_tablet_sets (tq_sets result) tabletIDs of
             (tabletIDs, Ok _) \<Rightarrow>
               (case tq_end result of
                  None \<Rightarrow> (tabletIDs, Ok ())
                | Some e \<Rightarrow> (tabletIDs, Err (Wrap ''next result set'' e)))
           | r \<Rightarrow> r))"

text \<open>\<^verbatim>\<open>driver.Query().Do\<close> calls the closure again after a failure; the list holds the further attempts it makes.\<close>

fun query_do :: "tablet_result res \<Rightarrow> tablet_result res list \<Rightarrow> u64 list \<Rightarrow> u64 list \<times> unit res" where
  "query_do q again tabletIDs =
     (case tablet_attempt q tabletIDs of
        (tabletIDs, Err e) \<Rightarrow> (case again of [] \<Rightarrow> (tabletIDs, Err e) | q' # again' \<Rightarrow> query_do q' again' tabletIDs)
      | r \<Rightarrow> r)"

definition GetColumnShardTabletIDs :: "tablet_result res \<times> tablet_result res list \<Rightarrow> u64 list res" where
  "GetColumnShardTabletIDs answer =
     (case query_do (fst answer) (snd answer) [] of
        (tabletIDs, Ok _) \<Rightarrow> Ok tabletIDs
      | (tabletIDs, Err e) \<Rightarrow> Err (Wrap ''querying column table tablet ids'' e)
      | (tabletIDs, Panic m) \<Rightarrow> Panic m)"

section \<open>Sending splits\<close>

definition ctx_err :: go_error where
  "ctx_err = Foreign 0 ''context canceled''"

fun send_splits :: "(nat \<Rightarrow> bool) \<Rightarrow> nat \<Rightarrow> 'x list \<Rightarrow> 'x list \<times> unit res" where
  "send_splits deliver n [] = ([], Ok ())"
| "send_splits deliver n (x # xs) =
     (if deliver n then (case send_splits deliver (n + 1) xs of (sent, r) \<Rightarrow> (x # sent, r))
      else ([], Err ctx_err))"

definition wrap_snd :: "string \<Rightarrow> 'x \<times> 'a res \<Rightarrow> 'x \<times> 'a res" where
  "wrap_snd p r = (fst r, wrap_res p (snd r))"

text \<open>\<^verbatim>\<open>utils/split_provider.go\<close>\<close>

definition default_ListSplits :: "(nat \<Rightarrow> bool) \<Rightarrow> 'q \<Rightarrow> ('q, 'd) list_split_result list \<times> unit res" where
  "default_ListSplits deliver slct = send_splits deliver 0 [\<lparr>lr_select = slct, lr_description = None\<rparr>]"

section \<open>Connections with retries\<close>

text \<open>The closure that every caller hands to the retrier, and the connections of its last attempt.\<close>

definition make_connections ::
    "retrier \<Rightarrow> (exponential_backoff \<Rightarrow> nat \<Rightarrow> bool) \<Rightarrow> bool \<Rightarrow> (nat \<Rightarrow> 'k list res) \<Rightarrow> string \<Rightarrow> 'k list res option" where
  "make_connections r backoff forbid connect what =
     (case Run r backoff forbid (\<lambda>n. bind_res (wrap_res ''make connection'' (connect n)) (\<lambda>_. Ok ())) of
        None \<Rightarrow> None
      | Some (Ok _, n) \<Rightarrow> Some (connect (n - 1))
      | Some (Err e, n) \<Rightarrow> Some (Err (Wrap what e))
      | Some (Panic m, n) \<Rightarrow> Some (Panic m))"

section \<open>YDB\<close>

definition makeSplit :: "'q \<Rightarrow> 'd \<Rightarrow> ('q, 'd) list_split_result" where
  "makeSplit slct description = \<lparr>lr_select = slct, lr_description = Some description\<rparr>"

definition listSplitsColumnShard ::
    "tablet_result res \<times> tablet_result res list \<Rightarrow> (nat \<Rightarrow> bool) \<Rightarrow> 'q \<Rightarrow>
     ('q, ydb_split_description) list_split_result list \<times> unit res" where
  "listSplitsColumnShard answer deliver slct =
     (case GetColumnShardTabletIDs answer of
        Ok tabletIDs \<Rightarrow> send_splits deliver 0 (map (\<lambda>tabletId. makeSplit slct (SplitColumnShard [tabletId])) tabletIDs)
      | Err e \<Rightarrow> ([], Err (Wrap ''enumerate shards'' e))
      | Panic m \<Rightarrow> ([], Panic m))"

definition listSingleSplit :: "(nat \<Rightarrow> bool) \<Rightarrow> 'q \<Rightarrow> ('q, ydb_split_description) list_split_result list \<times> unit res" where
  "listSingleSplit deliver slct = send_splits deliver 0 [makeSplit slct SplitDataShard]"

record 'k ydb_driver =
  yd_storeType :: "'k \<Rightarrow> store_type res"
  yd_tablets :: "'k \<Rightarrow> tablet_result res \<times> tablet_result res list"

definition getTableStoreType :: "'k ydb_driver \<Rightarrow> 'k \<Rightarrow> store_type res" where
  "getTableStoreType D conn = wrap_res ''get table description'' (wrap_res ''describe table'' (yd_storeType D conn))"

definition list_splits_on ::
    "bool \<Rightarrow> 'k ydb_driver \<Rightarrow> (nat \<Rightarrow> bool) \<Rightarrow> 'q \<Rightarrow> 'k \<Rightarrow>
     ('q, ydb_split_description) list_split_result list \<times> unit res" where
  "list_splits_on enabledOnColumnShards D deliver slct conn =
     (case getTableStoreType D conn of
        Err e \<Rightarrow> ([], Err (Wrap ''get table store type'' e))
      | Panic m \<Rightarrow> ([], Panic m)
      | Ok StoreTypeColumn \<Rightarrow>
          if enabledOnColumnShards then
            wrap_snd ''list splits column shard'' (listSplitsColumnShard (yd_tablets D conn) deliver slct)
          else wrap_snd ''list single split'' (listSingleSplit deliver slct)
      | Ok StoreTypeRow \<Rightarrow> wrap_snd ''list splits column shard'' (listSingleSplit deliver slct)
      | Ok StoreTypeUnspecified \<Rightarrow> wrap_snd ''list single split'' (listSingleSplit deliver slct)
      | Ok (StoreTypeOther n) \<Rightarrow> ([], Err (NewErr ''unsupported table store type'')))"

definition ydb_ListSplits ::
    "bool \<Rightarrow> 'k list res option \<Rightarrow> 'k ydb_driver \<Rightarrow> (nat \<Rightarrow> bool) \<Rightarrow> 'q \<Rightarrow>
     (('q, ydb_split_description) list_split_result list \<times> unit res) option" where
  "ydb_ListSplits enabledOnColumnShards connections D deliver slct =
     (case connections of
        None \<Rightarrow> None
      | Some (Err e) \<Rightarrow> Some ([], Err e)
      | Some (Panic m) \<Rightarrow> Some ([], Panic m)
      | Some (Ok []) \<Rightarrow> Some ([], Panic ''index out of range'')
      | Some (Ok (conn # _)) \<Rightarrow> Some (list_splits_on enabledOnColumnShards D deliver slct conn))"

section \<open>Cloud Logging\<close>

record ydb_source =
  ys_endpoint :: "TGenericEndpoint option"
  ys_databaseName :: string
  ys_tableName :: string

record resolve_request =
  rq_folderId :: string
  rq_logGroupName :: string
  rq_token :: string

text \<open>The static resolver: \<open>ix\<close> is the random index, \<open>render\<close> parses and executes the template.\<close>

definition static_resolve ::
    "nat \<Rightarrow> (string \<Rightarrow> string \<times> string \<times> string \<Rightarrow> string res) \<Rightarrow> TStaticResolving \<Rightarrow> resolve_request \<Rightarrow> ydb_source list res" where
  "static_resolve ix render cfg request =
     (if st_databases cfg = [] then Err (NewErr ''no YDB endpoints provided'')
      else
        (let db = st_databases cfg ! (ix mod length (st_databases cfg))
         in case map_of (st_folders cfg) (rq_folderId request) of
              None \<Rightarrow> Err (NewErr ''folder_id is missing'')
            | Some folder \<Rightarrow>
                (case map_of (fo_logGroups folder) (rq_logGroupName request) of
                   None \<Rightarrow> Err (NewErr ''log group is missing'')
                 | Some logGroupId \<Rightarrow>
                     bind_res (render (st_tableNamingPattern cfg) (fo_cloudName folder, rq_folderId request, logGroupId))
                       (\<lambda>tableName. Ok [\<lparr>ys_endpoint = db_endpoint db, ys_databaseName = db_name db,
                          ys_tableName = tableName\<rparr>]))))"

text \<open>A table of the answer of the logging API.\<close>

record reading_endpoint =
  re_tableName :: string
  re_dbName :: string
  re_dbEndpoint :: string

fun resolve_tables :: "bool \<Rightarrow> string list \<Rightarrow> reading_endpoint list \<Rightarrow> ydb_source list \<Rightarrow> ydb_source list res" where
  "resolve_tables underlay blacklist [] sources = Ok sources"
| "resolve_tables underlay blacklist (table # tables) sources =
     bind_res (wrap_res ''string to endpoint'' (StringToEndpoint (re_dbEndpoint table))) (\<lambda>endpoint.
       let endpoint = (if underlay then endpoint\<lparr>ep_host := ''u-'' @ ep_host endpoint\<rparr> else endpoint)
       in if re_dbName table \<in> set blacklist then resolve_tables underlay blacklist tables sources
          else resolve_tables underlay blacklist tables
                 (sources @ [\<lparr>ys_endpoint = Some endpoint, ys_databaseName = re_dbName table,
                    ys_tableName = re_tableName table\<rparr>]))"

definition dynamic_resolve ::
    "(string \<Rightarrow> string \<Rightarrow> string \<Rightarrow> reading_endpoint list res) \<Rightarrow> bool \<Rightarrow> string list \<Rightarrow> resolve_request \<Rightarrow> ydb_source list res" where
  "dynamic_resolve getReadingEndpoint underlay blacklist request =
     (if rq_token request = [] then Err (NewErr ''IAM token is missing'')
      else bind_res (wrap_res ''get reading endpoint''
               (getReadingEndpoint (rq_token request) (rq_folderId request) (rq_logGroupName request)))
             (\<lambda>tables. resolve_tables underlay blacklist tables []))"

text \<open>A split of a log group: the source without its credentials, and one tablet.\<close>

definition logging_split :: "'q \<Rightarrow> ydb_source \<Rightarrow> u64 \<Rightarrow> ('q, ydb_source \<times> u64 list) list_split_result" where
  "logging_split slct src tabletId = makeSplit slct (src, [tabletId])"

definition handleYDBSource ::
    "(ydb_source \<Rightarrow> 'k list res option) \<Rightarrow> 'k ydb_driver \<Rightarrow> (nat \<Rightarrow> bool) \<Rightarrow> 'q \<Rightarrow> ydb_source \<Rightarrow>
     (('q, ydb_source \<times> u64 list) list_split_result list \<times> unit res) option" where
  "handleYDBSource connect D deliver slct src =
     (case connect src of
        None \<Rightarrow> None
      | Some (Err e) \<Rightarrow> Some ([], Err e)
      | Some (Panic m) \<Rightarrow> Some ([], Panic m)
      | Some (Ok []) \<Rightarrow> Some ([], Panic ''index out of range'')
      | Some (Ok (conn # _)) \<Rightarrow>
          Some (case GetColumnShardTabletIDs (yd_tablets D conn) of
                  Ok tabletIDs \<Rightarrow> send_splits deliver 0 (map (logging_split slct src) tabletIDs)
                | Err e \<Rightarrow> ([], Err (Wrap ''get column shard tablet ids'' e))
                | Panic m \<Rightarrow> ([], Panic m)))"

text \<open>What the goroutines of the sources send reaches the channel interleaved.\<close>

inductive interleaving :: "'x list list \<Rightarrow> 'x list \<Rightarrow> bool" where
  all_done: "\<forall>xs \<in> set xss. xs = [] \<Longrightarrow> interleaving xss []"
| take_one: "i < length xss \<Longrightarrow> xss ! i = x # xs \<Longrightarrow> interleaving (xss[i := xs]) ys \<Longrightarrow> interleaving xss (x # ys)"

text \<open>
  \<^verbatim>\<open>errGroup.Wait\<close> waits for all sources and returns one of their errors; the result is a relation, since the
  goroutines run in any order. A panic of one ends the process.
\<close>

definition logging_ListSplits ::
    "ydb_source list res \<Rightarrow> (ydb_source \<Rightarrow> 'k list res option) \<Rightarrow> 'k ydb_driver \<Rightarrow> (ydb_source \<Rightarrow> nat \<Rightarrow> bool) \<Rightarrow> 'q \<Rightarrow>
     ('q, ydb_source \<times> u64 list) list_split_result list \<Rightarrow> unit res \<Rightarrow> bool" where
  "logging_ListSplits resolved connect D deliver slct out r =
     (case resolved of
        Err e \<Rightarrow> out = [] \<and> r = Err (Wrap ''resolve YDB endpoint'' e)
      | Panic m \<Rightarrow> out = [] \<and> r = Panic m
      | Ok sources \<Rightarrow>
          (let runs = map (\<lambda>src. handleYDBSource connect D (deliver src) slct src) sources
           in (\<forall>h \<in> set runs. h \<noteq> None) \<and> interleaving (map (fst \<circ> the) runs) out \<and>
              (if \<forall>h \<in> set runs. snd (the h) = Ok () then r = Ok ()
               else \<exists>h \<in> set runs. snd (the h) \<noteq> Ok () \<and> r = wrap_res ''handle YDB source'' (snd (the h)))))"

text \<open>
  \<^verbatim>\<open>logging/connection_manager.go\<close>: the source of a log group becomes a data source instance of YDB. The manager
  of YDB is a parameter; the shuffle of the sources leaves one of them in front.
\<close>

datatype query_phase = QueryPhaseUnspecified | QueryPhaseDescribeTable | QueryPhaseListSplits | QueryPhaseReadSplits

definition makeConnectionFromDataSourceInstance ::
    "(ydb_source \<Rightarrow> 'k list res) \<Rightarrow> ydb_source \<Rightarrow> 'k list res" where
  "makeConnectionFromDataSourceInstance ydbMake dsi =
     bind_res (wrap_res ''make YDB connection'' (ydbMake dsi)) (\<lambda>cs.
       if length cs \<noteq> 1 then Err (NewErr ''invalid number of YDB connections'') else Ok cs)"

definition makeConnectionForDescribeTable ::
    "(ydb_source \<Rightarrow> 'k list res) \<Rightarrow> nat \<Rightarrow> ydb_source list res \<Rightarrow> 'k list res" where
  "makeConnectionForDescribeTable ydbMake front resolved =
     bind_res (wrap_res ''resolve YDB endpoint'' resolved) (\<lambda>sources.
       if sources = [] then Panic ''index out of range''
       else
         (let src = sources ! (front mod length sources)
          in if ys_endpoint src = None then Panic ''nil pointer dereference''
             else wrap_res ''make connection from data source instance'' (makeConnectionFromDataSourceInstance ydbMake src)))"

definition makeConnectionForReadSplits ::
    "(string \<Rightarrow> (ydb_source \<times> u64 list) option res) \<Rightarrow> (ydb_source \<Rightarrow> 'k list res) \<Rightarrow> string \<Rightarrow> 'k list res" where
  "makeConnectionForReadSplits unmarshal ydbMake description =
     bind_res (wrap_res ''unmarshal split description'' (unmarshal description)) (\<lambda>d.
       case d of
         None \<Rightarrow> Panic ''nil pointer dereference''
       | Some (src, ids) \<Rightarrow>
           wrap_res ''make connection from data source instance'' (makeConnectionFromDataSourceInstance ydbMake src))"

definition logging_Make ::
    "(string \<Rightarrow> (ydb_source \<times> u64 list) option res) \<Rightarrow> (ydb_source \<Rightarrow> 'k list res) \<Rightarrow> query_phase \<Rightarrow>
     nat \<Rightarrow> ydb_source list res \<Rightarrow> ydb_source \<Rightarrow> string \<Rightarrow> 'k list res" where
  "logging_Make unmarshal ydbMake phase front resolved dsi description =
     (case phase of
        QueryPhaseDescribeTable \<Rightarrow>
          wrap_res ''make connection for describe table'' (makeConnectionForDescribeTable ydbMake front resolved)
      | QueryPhaseListSplits \<Rightarrow>
          wrap_res ''make connection from data source instance'' (makeConnectionFromDataSourceInstance ydbMake dsi)
      | QueryPhaseReadSplits \<Rightarrow>
          wrap_res ''make connection for read splits'' (makeConnectionForReadSplits unmarshal ydbMake description)
      | QueryPhaseUnspecified \<Rightarrow> Err (NewErr ''unknown query phase''))"

section \<open>Lemmas\<close>

lemma str_split_absent: "c \<notin> set s \<Longrightarrow> str_split c s = [s]"
  by (induction s) auto

lemma str_split_append: "c \<notin> set a \<Longrightarrow> str_split c (a @ c # b) = a # str_split c b"
  by (induction a) auto

lemma colon_not_digit: "CHR '':'' \<notin> set (dec n)"
  using dec_digits [of n] by (auto simp: list_all_iff is_digit_def)

text \<open>A result of the query for the tablets without errors, and the tablets it lists.\<close>

definition row_value :: "u64 res \<Rightarrow> u64 list" where
  "row_value r = (case r of Ok i \<Rightarrow> [i] | _ \<Rightarrow> [])"

definition tablets_of :: "tablet_result \<Rightarrow> u64 list" where
  "tablets_of q = concat (map (\<lambda>s. concat (map row_value (tr_rows s))) (tq_sets q))"

definition clean_result :: "tablet_result \<Rightarrow> bool" where
  "clean_result q \<longleftrightarrow>
     tq_end q = None \<and> (\<forall>s \<in> set (tq_sets q). tr_end s = None \<and> (\<forall>r \<in> set (tr_rows s). \<exists>i. r = Ok i))"

lemma read_clean_rows:
  "\<forall>r \<in> set rows. \<exists>i. r = Ok i \<Longrightarrow>
     read_tablet_rows rows ids = (ids @ concat (map row_value rows), Ok ())"
  by (induction rows arbitrary: ids) (auto simp: row_value_def)

lemma read_clean_sets:
  "\<forall>s \<in> set sets. tr_end s = None \<and> (\<forall>r \<in> set (tr_rows s). \<exists>i. r = Ok i) \<Longrightarrow>
     read_tablet_sets sets ids = (ids @ concat (map (\<lambda>s. concat (map row_value (tr_rows s))) sets), Ok ())"
  by (induction sets arbitrary: ids) (auto simp: read_clean_rows)

lemma clean_attempt: "clean_result q \<Longrightarrow> tablet_attempt (Ok q) ids = (ids @ tablets_of q, Ok ())"
  by (simp add: tablet_attempt_def clean_result_def read_clean_sets tablets_of_def)

lemma clean_tablets: "clean_result q \<Longrightarrow> GetColumnShardTabletIDs (Ok q, again) = Ok (tablets_of q)"
  by (simp add: GetColumnShardTabletIDs_def clean_attempt)

text \<open>
  How a listing that succeeds went: some attempts failed, the next one returned a result without errors. \<open>stale\<close> are the
  identifiers that the failed attempts had read before they broke off, \<open>tablets\<close> those of the table.
\<close>

definition listed :: "tablet_result res \<times> tablet_result res list \<Rightarrow> u64 list \<Rightarrow> u64 list \<Rightarrow> bool" where
  "listed answer stale tablets \<longleftrightarrow>
     (\<exists>failed q rest. fst answer # snd answer = failed @ Ok q # rest \<and> clean_result q \<and> tablets = tablets_of q \<and>
        (\<forall>a \<in> set failed. \<exists>e. snd (tablet_attempt a []) = Err e) \<and>
        stale = concat (map (\<lambda>a. fst (tablet_attempt a [])) failed))"

lemma read_tablet_rows_prefix:
  "read_tablet_rows rows ids = (ids @ fst (read_tablet_rows rows []), snd (read_tablet_rows rows []))"
proof (induction rows arbitrary: ids)
  case (Cons r rows)
  show ?case using Cons.IH [of "ids @ [the_u64]" for the_u64] Cons.IH [of "[the_u64]" for the_u64] by (cases r) simp_all
qed simp

lemma read_tablet_sets_prefix:
  "read_tablet_sets sets ids = (ids @ fst (read_tablet_sets sets []), snd (read_tablet_sets sets []))"
proof (induction sets arbitrary: ids)
  case (Cons s sets)
  obtain out r where rows: "read_tablet_rows (tr_rows s) [] = (out, r)" by fastforce
  then have rows': "read_tablet_rows (tr_rows s) ids = (ids @ out, r)" using read_tablet_rows_prefix [of "tr_rows s" ids] by simp
  show ?case
    using Cons.IH [of "ids @ out"] Cons.IH [of out] rows rows' by (cases r; cases "tr_end s") simp_all
qed simp

lemma tablet_attempt_prefix: "tablet_attempt a ids = (ids @ fst (tablet_attempt a []), snd (tablet_attempt a []))"
proof (cases a)
  case (Ok q)
  obtain out r where "read_tablet_sets (tq_sets q) [] = (out, r)" by fastforce
  then show ?thesis
    using Ok read_tablet_sets_prefix [of "tq_sets q" ids] by (cases r; cases "tq_end q") (simp_all add: tablet_attempt_def)
qed (simp_all add: tablet_attempt_def)

lemma read_tablet_rows_Ok: "snd (read_tablet_rows rows ids) = Ok () \<Longrightarrow> \<forall>r \<in> set rows. \<exists>i. r = Ok i"
proof (induction rows arbitrary: ids)
  case (Cons r rows)
  then show ?case by (cases r) auto
qed simp

lemma read_tablet_sets_Ok:
  "snd (read_tablet_sets sets ids) = Ok () \<Longrightarrow> \<forall>s \<in> set sets. tr_end s = None \<and> (\<forall>r \<in> set (tr_rows s). \<exists>i. r = Ok i)"
proof (induction sets arbitrary: ids)
  case (Cons s sets)
  obtain out r where rows: "read_tablet_rows (tr_rows s) ids = (out, r)" by fastforce
  with Cons show ?case using read_tablet_rows_Ok [of "tr_rows s" ids] by (cases r; cases "tr_end s") auto
qed simp

lemma tablet_attempt_Ok:
  assumes "snd (tablet_attempt a []) = Ok ()"
  obtains q where "a = Ok q" "clean_result q" "fst (tablet_attempt a []) = tablets_of q"
proof (cases a)
  case (Ok q)
  obtain out r where sets: "read_tablet_sets (tq_sets q) [] = (out, r)" by fastforce
  with assms Ok have "r = Ok ()" "tq_end q = None" by (cases r; cases "tq_end q"; simp add: tablet_attempt_def)+
  then have "clean_result q" using read_tablet_sets_Ok [of "tq_sets q" "[]"] sets by (simp add: clean_result_def)
  with Ok that clean_attempt [of q "[]"] show ?thesis by simp
qed (use assms in \<open>simp_all add: tablet_attempt_def\<close>)

lemma query_do_listed:
  "query_do q again ids = (out, Ok ()) \<Longrightarrow> \<exists>stale tablets. listed (q, again) stale tablets \<and> out = ids @ stale @ tablets"
proof (induction again arbitrary: q ids)
  case Nil
  have "snd (tablet_attempt q []) = Ok ()" "out = ids @ fst (tablet_attempt q [])"
    using Nil tablet_attempt_prefix [of q ids] by (auto split: res.splits prod.splits)
  then show ?case
    by (metis (no_types, lifting) append_Nil concat.simps(1) empty_iff fst_conv list.simps(8) list.set(1) listed_def snd_conv tablet_attempt_Ok)
next
  case (Cons a again)
  obtain part r where att: "tablet_attempt q [] = (part, r)" by fastforce
  then have att': "tablet_attempt q ids = (ids @ part, r)" using tablet_attempt_prefix [of q ids] by simp
  show ?case
  proof (cases r)
    case (Ok u)
    with Cons.prems att' have "out = ids @ part" by simp
    moreover have "snd (tablet_attempt q []) = Ok ()" using att Ok by simp
    then obtain t where "q = Ok t" "clean_result t" "fst (tablet_attempt q []) = tablets_of t" by (rule tablet_attempt_Ok)
    moreover from this(3) att have "part = tablets_of t" by simp
    ultimately show ?thesis unfolding listed_def
      by (intro exI [of _ "[]"] exI [of _ part] conjI exI [of _ "[]"] exI [of _ t] exI [of _ "a # again"]) simp_all
  next
    case (Err e)
    with Cons.prems att' have "query_do a again (ids @ part) = (out, Ok ())" by simp
    from Cons.IH [OF this] obtain stale tablets where l: "listed (a, again) stale tablets" "out = (ids @ part) @ stale @ tablets"
      by blast
    from l(1) obtain failed t rest where "a # again = failed @ Ok t # rest" "clean_result t" "tablets = tablets_of t"
      "\<forall>a \<in> set failed. \<exists>e. snd (tablet_attempt a []) = Err e" "stale = concat (map (\<lambda>a. fst (tablet_attempt a [])) failed)"
      by (auto simp: listed_def)
    then have "listed (q, a # again) (part @ stale) tablets" unfolding listed_def
      by (intro exI [of _ "q # failed"] exI [of _ t] exI [of _ rest]) (simp add: att Err)
    with l(2) show ?thesis by (intro exI [of _ "part @ stale"] exI [of _ tablets]) simp
  next
    case (Panic m)
    with Cons.prems att' show ?thesis by simp
  qed
qed

lemma tablets_listed:
  assumes "GetColumnShardTabletIDs answer = Ok ids"
  obtains stale tablets where "listed answer stale tablets" "ids = stale @ tablets"
proof -
  have "query_do (fst answer) (snd answer) [] = (ids, Ok ())"
    using assms by (auto simp: GetColumnShardTabletIDs_def split: prod.splits res.splits)
  from query_do_listed [OF this] that show ?thesis by auto
qed

text \<open>Without a retry nothing is stale.\<close>

lemma listed_first: "clean_result q \<Longrightarrow> listed (Ok q, again) stale tablets \<Longrightarrow> stale = [] \<and> tablets = tablets_of q"
  using clean_attempt [of q "[]"] by (auto simp: listed_def Cons_eq_append_conv)

lemma send_splits_Ok: "send_splits deliver n xs = (sent, Ok ()) \<Longrightarrow> sent = xs"
  by (induction deliver n xs arbitrary: sent rule: send_splits.induct) (auto split: if_splits prod.splits)

text \<open>Interleavings keep the elements and the order of each list.\<close>

lemma interleaving_mset: "interleaving xss ys \<Longrightarrow> mset ys = (\<Sum>xs \<in># mset xss. mset xs)"
proof (induction rule: interleaving.induct)
  case (all_done xss)
  then show ?case by (induction xss) auto
next
  case (take_one i xss x xs ys)
  have "xss ! i \<in># mset xss" using take_one.hyps(1) by simp
  then obtain M where M: "mset xss = add_mset (x # xs) M"
    using take_one.hyps(2) by (metis mset_add)
  then have "mset (xss[i := xs]) = add_mset xs M" using take_one.hyps(1,2) by (simp add: mset_update)
  with take_one.IH M show ?case by simp
qed

lemma interleaving_subseq: "interleaving xss ys \<Longrightarrow> i < length xss \<Longrightarrow> subseq (xss ! i) ys"
proof (induction arbitrary: i rule: interleaving.induct)
  case (all_done xss)
  then have "xss ! i = []" using nth_mem by blast
  then show ?case by simp
next
  case (take_one j xss x xs ys)
  show ?case
  proof (cases "i = j")
    case True
    then show ?thesis using take_one.IH [of j] take_one.hyps(1,2) by simp
  next
    case False
    then show ?thesis using take_one.IH [of i] take_one.prems by auto
  qed
qed

section \<open>Properties\<close>

text \<open>An endpoint can be read back from its text, for every host without a colon and every TCP port.\<close>

theorem endpoint_roundtrip:
  assumes "CHR '':'' \<notin> set (ep_host e)" and "ep_port e \<le> 65535"
  shows "StringToEndpoint (EndpointToString e) = Ok e"
proof -
  let ?p = "unat (ep_port e)"
  have "?p \<le> 65535" using assms(2) by (simp add: word_le_nat_alt)
  then have "int ?p \<le> 65535" by linarith
  then have "\<not> 2 ^ 32 \<le> int ?p" by (intro notI) (drule (1) order.trans, simp)
  then have "parse_uint32 (dec ?p) = Some ?p" by (simp only: parse_uint32_def dec_digits read_dec_dec) simp
  moreover have "str_split CHR '':'' (EndpointToString e) = [ep_host e, dec ?p]"
    using str_split_append [OF assms(1)] by (simp add: EndpointToString_def str_split_absent colon_not_digit)
  moreover have "\<not> 65535 < int ?p" using \<open>?p \<le> 65535\<close> by linarith
  ultimately show ?thesis by (simp add: StringToEndpoint_def)
qed

theorem endpoint_roundtrip_witness:
  "StringToEndpoint (EndpointToString \<lparr>ep_host = ''db.local'', ep_port = 2135\<rparr>) = Ok \<lparr>ep_host = ''db.local'', ep_port = 2135\<rparr>"
  by (rule endpoint_roundtrip) simp_all

text \<open>The query of one column shard.\<close>

definition tablet_query :: "select_query_parts \<Rightarrow> u64 \<Rightarrow> string" where
  "tablet_query parts i =
     ''SELECT '' @ SelectClause parts @ '' FROM '' @ FromClause parts @ '' WITH TabletId='' @ [CHR 0x27] @ dec (unat i) @ [CHR 0x27] @
     (if WhereClause parts \<noteq> '''' then '' WHERE '' @ WhereClause parts else '''')"

text \<open>C9: the splits of a YDB table cover it. When ListSplits succeeds, after whatever retries of the driver, the
  queries that the formatter later renders for the splits are, for a column table with splitting enabled, one query per
  tablet in the order of the list, preceded by a query for every tablet that a failed attempt had read before it broke
  off (none if the first attempt succeeded), and otherwise the single query for the whole table. The descriptions pass
  through the stream as text that the same library reads back.\<close>

theorem ydb_splits_cover_table:
  assumes "ydb_ListSplits enabled (Some (Ok (conn # cs))) D deliver slct = Some (out, Ok ())"
    and "\<forall>s \<in> set out. unmarshal (marshal (the (lr_description s))) = Ok (the (lr_description s))"
  shows "let queries = map (\<lambda>s. ydb_RenderSelectQueryText unmarshal parts (marshal (the (lr_description s)))) out in
     if enabled \<and> yd_storeType D conn = Ok StoreTypeColumn
     then \<exists>stale tablets. listed (yd_tablets D conn) stale tablets \<and>
       queries = map (\<lambda>i. Ok (tablet_query parts i)) (stale @ tablets)
     else queries = [wrap_res ''render select query text for column shard'' (renderSelectQueryTextForDataShard parts)]"
proof -
  have shard: "ydb_RenderSelectQueryText unmarshal parts (marshal (SplitColumnShard [i])) = Ok (tablet_query parts i)"
    if "makeSplit slct (SplitColumnShard [i]) \<in> set out" for i
    using bspec [OF assms(2) that] by (simp add: ydb_RenderSelectQueryText_def tablet_query_def makeSplit_def)
  have single: "ydb_RenderSelectQueryText unmarshal parts (marshal SplitDataShard) =
      wrap_res ''render select query text for column shard'' (renderSelectQueryTextForDataShard parts)"
    if "makeSplit slct SplitDataShard \<in> set out"
    using bspec [OF assms(2) that] by (simp add: ydb_RenderSelectQueryText_def makeSplit_def)
  from assms(1) have run: "list_splits_on enabled D deliver slct conn = (out, Ok ())" by (simp add: ydb_ListSplits_def)
  then obtain st where st: "yd_storeType D conn = Ok st" "\<nexists>n. st = StoreTypeOther n"
    by (cases "yd_storeType D conn") (auto simp: list_splits_on_def getTableStoreType_def split: store_type.splits)
  show ?thesis
  proof (cases "enabled \<and> st = StoreTypeColumn")
    case True
    then obtain ids where ids: "GetColumnShardTabletIDs (yd_tablets D conn) = Ok ids"
      "send_splits deliver 0 (map (\<lambda>i. makeSplit slct (SplitColumnShard [i])) ids) = (out, Ok ())"
      using run st by (cases "GetColumnShardTabletIDs (yd_tablets D conn)")
        (auto simp: list_splits_on_def getTableStoreType_def listSplitsColumnShard_def wrap_snd_def prod_eq_iff)
    from tablets_listed [OF ids(1)] obtain stale tablets where l: "listed (yd_tablets D conn) stale tablets" "ids = stale @ tablets" .
    have out: "out = map (\<lambda>i. makeSplit slct (SplitColumnShard [i])) ids" by (rule send_splits_Ok [OF ids(2)])
    have "ydb_RenderSelectQueryText unmarshal parts (marshal (SplitColumnShard [i])) = Ok (tablet_query parts i)"
      if "i \<in> set ids" for i
      using that by (intro shard) (simp add: out)
    then have "map (\<lambda>s. ydb_RenderSelectQueryText unmarshal parts (marshal (the (lr_description s)))) out =
        map (\<lambda>i. Ok (tablet_query parts i)) (stale @ tablets)" by (simp add: out makeSplit_def l(2))
    with True st l(1) show ?thesis by (auto simp: Let_def)
  next
    case False
    then have "send_splits deliver 0 [makeSplit slct SplitDataShard] = (out, Ok ())"
      using run st by (cases st)
        (auto simp: list_splits_on_def getTableStoreType_def listSingleSplit_def wrap_snd_def prod_eq_iff split: if_splits)
    then have out: "out = [makeSplit slct SplitDataShard]" by (rule send_splits_Ok)
    then show ?thesis using False st single by (auto simp: makeSplit_def)
  qed
qed

text \<open>A table with two tablets.\<close>

definition demo_tablets :: tablet_result where
  "demo_tablets = \<lparr>tq_sets = [\<lparr>tr_rows = [Ok 17, Ok 42], tr_end = None\<rparr>], tq_end = None\<rparr>"

definition demo_driver :: "nat ydb_driver" where
  "demo_driver = \<lparr>yd_storeType = (\<lambda>_. Ok StoreTypeColumn), yd_tablets = (\<lambda>_. (Ok demo_tablets, []))\<rparr>"

definition demo_parts :: select_query_parts where
  "demo_parts = \<lparr>SelectClause = ''a'', FromClause = ''t'', WhereClause = ''''\<rparr>"

text \<open>A stand-in for the JSON of a description with one tablet.\<close>

definition demo_marshal :: "ydb_split_description \<Rightarrow> string" where
  "demo_marshal d = (case d of SplitColumnShard (i # _) \<Rightarrow> dec (unat i) | _ \<Rightarrow> '''')"

definition demo_unmarshal :: "string \<Rightarrow> ydb_split_description res" where
  "demo_unmarshal s = Ok (SplitColumnShard [of_nat (read_dec 0 s)])"

theorem ydb_splits_cover_table_witness:
  "\<exists>out. ydb_ListSplits True (Some (Ok [0])) demo_driver (\<lambda>_. True) () = Some (out, Ok ()) \<and>
     map (\<lambda>s. ydb_RenderSelectQueryText demo_unmarshal demo_parts (demo_marshal (the (lr_description s)))) out =
       [Ok (tablet_query demo_parts 17), Ok (tablet_query demo_parts 42)]"
proof -
  let ?out = "[makeSplit () (SplitColumnShard [17]), makeSplit () (SplitColumnShard [42])]"
  have tablets: "clean_result demo_tablets" "tablets_of demo_tablets = [17, 42]"
    by (simp_all add: clean_result_def tablets_of_def demo_tablets_def row_value_def)
  have run: "ydb_ListSplits True (Some (Ok [0])) demo_driver (\<lambda>_. True) () = Some (?out, Ok ())"
    using tablets by (simp add: ydb_ListSplits_def list_splits_on_def getTableStoreType_def listSplitsColumnShard_def
        clean_tablets wrap_snd_def demo_driver_def)
  moreover have "\<forall>s \<in> set ?out. demo_unmarshal (demo_marshal (the (lr_description s))) = Ok (the (lr_description s))"
    by (simp add: demo_unmarshal_def demo_marshal_def makeSplit_def)
  moreover have "yd_tablets demo_driver 0 = (Ok demo_tablets, [])" "yd_storeType demo_driver 0 = Ok StoreTypeColumn"
    by (simp_all add: demo_driver_def)
  moreover note ydb_splits_cover_table [of True 0 "[]" demo_driver "\<lambda>_. True" "()" ?out demo_unmarshal demo_marshal demo_parts]
  ultimately obtain stale tablets where l: "listed (Ok demo_tablets, []) stale tablets"
    and queries: "map (\<lambda>s. ydb_RenderSelectQueryText demo_unmarshal demo_parts (demo_marshal (the (lr_description s)))) ?out =
      map (\<lambda>i. Ok (tablet_query demo_parts i)) (stale @ tablets)" unfolding Let_def by (auto simp del: list.map)
  have "stale @ tablets = [17, 42]" using listed_first [OF tablets(1) l] tablets(2) by simp
  with run queries show ?thesis by (intro exI [of _ ?out]) (simp del: list.map, simp)
qed

text \<open>A retry of the query for the tablets duplicates splits. The slice that collects the identifiers is
  declared outside of the function that the driver retries and is not reset: when the connection breaks
  after the first tablet and the second attempt succeeds, that tablet gets two splits, and its
  rows are read twice.\<close>

theorem tablet_retry_duplicates_splits:
  "\<exists>D :: nat ydb_driver. \<exists>out.
     ydb_ListSplits True (Some (Ok [0])) D (\<lambda>_. True) () = Some (out, Ok ()) \<and>
     snd (yd_tablets D 0) = [Ok demo_tablets] \<and>
     map lr_description out = map (\<lambda>i. Some (SplitColumnShard [i])) [17, 17, 42]"
proof -
  let ?broken = "\<lparr>tq_sets = [\<lparr>tr_rows = [Ok 17], tr_end = Some (Foreign 0 ''transport'')\<rparr>], tq_end = None\<rparr>"
  let ?D = "demo_driver\<lparr>yd_tablets := (\<lambda>_. (Ok ?broken, [Ok demo_tablets]))\<rparr>"
  have "ydb_ListSplits True (Some (Ok [0])) ?D (\<lambda>_. True) () =
      Some (map (\<lambda>i. makeSplit () (SplitColumnShard [i])) [17, 17, 42], Ok ())"
    by (simp add: ydb_ListSplits_def list_splits_on_def getTableStoreType_def listSplitsColumnShard_def wrap_snd_def
        GetColumnShardTabletIDs_def tablet_attempt_def demo_driver_def demo_tablets_def)
  then show ?thesis by (intro exI [of _ ?D] exI) (auto simp: makeSplit_def)
qed

text \<open>C10: the splits of a log group. When ListSplits of Cloud Logging succeeds, after whatever retries of the
  drivers, every tablet of every resolved source has a split, whatever the interleaving of the sources: the splits
  are those of the tablets of each source and of the tablets that its failed attempts had read before they broke
  off (none without a retry), and the splits of one source are in this order, the latter first.\<close>

theorem logging_splits_cover_sources:
  assumes "logging_ListSplits (Ok sources) connect D deliver slct out (Ok ())"
  shows "\<exists>stale tablets.
    (\<forall>src \<in> set sources. \<exists>conn cs. connect src = Some (Ok (conn # cs)) \<and>
       listed (yd_tablets D conn) (stale src) (tablets src)) \<and>
    mset out = (\<Sum>src \<in># mset sources. mset (map (logging_split slct src) (stale src @ tablets src))) \<and>
    (\<forall>src \<in> set sources. subseq (map (logging_split slct src) (stale src @ tablets src)) out)"
proof -
  let ?h = "\<lambda>src. handleYDBSource connect D (deliver src) slct src"
  have il: "interleaving (map (fst \<circ> the \<circ> ?h) sources) out"
    and some: "\<forall>src \<in> set sources. ?h src \<noteq> None" and ok: "\<forall>src \<in> set sources. snd (the (?h src)) = Ok ()"
    using assms by (auto simp: logging_ListSplits_def Let_def comp_assoc eq_commute [of "Ok ()"] split: if_splits)
  have "\<exists>stale tablets. (\<exists>conn cs. connect src = Some (Ok (conn # cs)) \<and> listed (yd_tablets D conn) stale tablets) \<and>
      fst (the (?h src)) = map (logging_split slct src) (stale @ tablets)" if "src \<in> set sources" for src
  proof -
    from some ok that obtain sent where "?h src = Some (sent, Ok ())" by (cases "?h src") (auto simp: prod_eq_iff)
    then obtain conn cs ids where c: "connect src = Some (Ok (conn # cs))" "GetColumnShardTabletIDs (yd_tablets D conn) = Ok ids"
      "send_splits (deliver src) 0 (map (logging_split slct src) ids) = (sent, Ok ())" "?h src = Some (sent, Ok ())"
      by (auto simp: handleYDBSource_def split: option.splits res.splits list.splits)
    from tablets_listed [OF c(2)] obtain stale tablets where "listed (yd_tablets D conn) stale tablets" "ids = stale @ tablets" .
    with c send_splits_Ok [OF c(3)] show ?thesis by auto
  qed
  then obtain stale tablets where st: "\<And>src. src \<in> set sources \<Longrightarrow>
      (\<exists>conn cs. connect src = Some (Ok (conn # cs)) \<and> listed (yd_tablets D conn) (stale src) (tablets src)) \<and>
      fst (the (?h src)) = map (logging_split slct src) (stale src @ tablets src)" by metis
  let ?splits = "\<lambda>src. map (logging_split slct src) (stale src @ tablets src)"
  have runs: "map (fst \<circ> the \<circ> ?h) sources = map ?splits sources" using st by simp
  have "mset out = (\<Sum>src \<in># mset sources. mset (?splits src))"
    using interleaving_mset [OF il] unfolding runs by (simp add: multiset.map_comp comp_def)
  moreover have "subseq (?splits src) out" if "src \<in> set sources" for src
    using interleaving_subseq [OF il] that unfolding runs by (auto simp: in_set_conv_nth)
  ultimately show ?thesis using st by (intro exI [of _ stale] exI [of _ tablets]) blast
qed

definition demo_source :: ydb_source where
  "demo_source = \<lparr>ys_endpoint = Some \<lparr>ep_host = ''u-host'', ep_port = 2135\<rparr>, ys_databaseName = ''/db'', ys_tableName = ''logs''\<rparr>"

theorem logging_splits_cover_sources_witness:
  "\<exists>out. logging_ListSplits (Ok [demo_source]) (\<lambda>_. Some (Ok [0])) demo_driver (\<lambda>_ _. True) () out (Ok ()) \<and>
     mset out = {#logging_split () demo_source 17, logging_split () demo_source 42#}"
proof -
  let ?out = "[logging_split () demo_source 17, logging_split () demo_source 42]"
  have tablets: "clean_result demo_tablets" "tablets_of demo_tablets = [17, 42]"
    by (simp_all add: clean_result_def tablets_of_def demo_tablets_def row_value_def)
  have il: "interleaving [[a, b]] [a, b]" for a b :: 'a
    by (rule take_one [of 0 _ a "[b]"], simp, simp, simp, rule take_one [of 0 _ b "[]"]) (simp_all add: all_done)
  have "logging_ListSplits (Ok [demo_source]) (\<lambda>_. Some (Ok [0])) demo_driver (\<lambda>_ _. True) () ?out (Ok ())"
    using tablets il by (simp add: logging_ListSplits_def handleYDBSource_def demo_driver_def clean_tablets)
  moreover from logging_splits_cover_sources [OF this] obtain stale now where
    "listed (Ok demo_tablets, []) (stale demo_source) (now demo_source)"
    "mset ?out = mset (map (logging_split () demo_source) (stale demo_source @ now demo_source))" by (auto simp: demo_driver_def)
  then have "mset ?out = {#logging_split () demo_source 17, logging_split () demo_source 42#}"
    using listed_first [OF tablets(1)] tablets(2) by auto
  ultimately show ?thesis by blast
qed

lemma resolve_tables_Ok:
  "resolve_tables underlay blacklist tables sources = Ok out \<Longrightarrow>
     map ys_databaseName out = map ys_databaseName sources @ filter (\<lambda>n. n \<notin> set blacklist) (map re_dbName tables)"
  by (induction tables arbitrary: sources) (auto simp: res_simps Let_def split: if_splits)

lemma resolve_tables_endpoints:
  "resolve_tables underlay blacklist tables sources = Ok out \<Longrightarrow> \<forall>s \<in> set sources. ys_endpoint s \<noteq> None \<Longrightarrow>
     \<forall>s \<in> set out. ys_endpoint s \<noteq> None"
proof (induction tables arbitrary: sources)
  case (Cons table tables)
  then obtain e where e: "StringToEndpoint (re_dbEndpoint table) = Ok e" by (auto simp: res_simps)
  show ?case
  proof (cases "re_dbName table \<in> set blacklist")
    case True
    with Cons.prems e have "resolve_tables underlay blacklist tables sources = Ok out" by simp
    then show ?thesis using Cons.prems(2) by (rule Cons.IH)
  next
    case False
    with Cons.prems(1) e obtain new where "resolve_tables underlay blacklist tables (sources @ [new]) = Ok out"
      "ys_endpoint new \<noteq> None" by (auto simp: Let_def)
    then show ?thesis using Cons.prems(2) by (intro Cons.IH [of "sources @ [new]"]) auto
  qed
qed simp

text \<open>The blacklist of databases. The dynamic resolver returns the databases of the log group that are
  not blacklisted, in the order of the logging API, each with an endpoint. DescribeTable takes one of them without
  looking whether there is any: it panics exactly when all were blacklisted or none was returned.\<close>

theorem blacklisted_log_group_panics:
  assumes "rq_token rq \<noteq> []" and "getEndpoint (rq_token rq) (rq_folderId rq) (rq_logGroupName rq) = Ok tables"
    and "dynamic_resolve getEndpoint underlay blacklist rq = Ok sources" and "\<forall>src m. ydbMake src \<noteq> Panic m"
  shows "map ys_databaseName sources = filter (\<lambda>n. n \<notin> set blacklist) (map re_dbName tables) \<and>
    ((\<exists>m. makeConnectionForDescribeTable ydbMake front (dynamic_resolve getEndpoint underlay blacklist rq) = Panic m) \<longleftrightarrow>
       set (map re_dbName tables) \<subseteq> set blacklist)"
proof -
  have run: "resolve_tables underlay blacklist tables [] = Ok sources"
    using assms(1-3) by (simp add: dynamic_resolve_def)
  note names = resolve_tables_Ok [OF run, simplified] and ends = resolve_tables_endpoints [OF run, simplified]
  have "sources = [] \<longleftrightarrow> set (map re_dbName tables) \<subseteq> set blacklist"
    using arg_cong [OF names, of "\<lambda>xs. xs = []"] by (simp only: map_is_Nil_conv filter_empty_conv) blast
  moreover have "(\<exists>m. makeConnectionForDescribeTable ydbMake front (Ok sources) = Panic m) \<longleftrightarrow> sources = []"
    using bspec [OF ends nth_mem, of "front mod length sources"] assms(4)
    by (cases "sources = []") (auto simp: makeConnectionForDescribeTable_def makeConnectionFromDataSourceInstance_def Let_def res_simps split: if_splits)
  ultimately show ?thesis using names assms(3) by simp
qed

theorem blacklisted_log_group_panics_witness:
  "\<exists>m. makeConnectionForDescribeTable (\<lambda>_. Ok [0 :: nat]) 0
     (dynamic_resolve (\<lambda>_ _ _. Ok [\<lparr>re_tableName = ''t'', re_dbName = ''/bad'', re_dbEndpoint = ''h:1''\<rparr>]) False [''/bad'']
       \<lparr>rq_folderId = ''f'', rq_logGroupName = ''g'', rq_token = ''iam''\<rparr>) = Panic m"
proof -
  let ?get = "\<lambda>_ _ _ :: string. Ok [\<lparr>re_tableName = ''t'', re_dbName = ''/bad'', re_dbEndpoint = ''h:1''\<rparr>]"
  let ?rq = "\<lparr>rq_folderId = ''f'', rq_logGroupName = ''g'', rq_token = ''iam''\<rparr>"
  have "dynamic_resolve ?get False [''/bad''] ?rq = Ok []" by code_simp
  with blacklisted_log_group_panics [of ?rq ?get "[\<lparr>re_tableName = ''t'', re_dbName = ''/bad'', re_dbEndpoint = ''h:1''\<rparr>]"
      False "[''/bad'']" "[]" "\<lambda>_. Ok [0 :: nat]" 0] show ?thesis by simp
qed

end
