(* ===== verification/Observation.thy ===== *)
theory Observation
  imports GoErrors
begin

text \<open>
  The storage of query observations (\<^verbatim>\<open>src/app/server/observation\<close>): its interface, the SQLite implementation and
  the dummy one. The state is the contents of the two tables and the sequences of their identifiers
  (\<^verbatim>\<open>AUTOINCREMENT\<close> never reuses one); the SQL statements of the source are functions on it. A failure of the
  database is a parameter of each operation, and so is the current time. The order of the
  rows with equal keys is not fixed by SQL: the ordering of a result is a parameter. Pragmas, indexes and the
  creation of the tables do not change what the statements mean and are left out.
\<close>

section \<open>Rows\<close>

definition QueryStateRunning :: string where "QueryStateRunning = ''running''"

definition QueryStateFinished :: string where "QueryStateFinished = ''finished''"

definition QueryStateCancelled :: string where "QueryStateCancelled = ''canceled''"

lemma query_states:
  "QueryStateRunning \<noteq> QueryStateFinished" "QueryStateFinished \<noteq> QueryStateRunning"
  "QueryStateRunning \<noteq> QueryStateCancelled" "QueryStateCancelled \<noteq> QueryStateRunning"
  "QueryStateFinished \<noteq> QueryStateCancelled" "QueryStateCancelled \<noteq> QueryStateFinished"
  by (simp_all add: QueryStateRunning_def QueryStateFinished_def QueryStateCancelled_def)

record incoming_query =
  iq_ID :: nat
  iq_DataSourceKind :: string
  iq_RowsRead :: int
  iq_BytesRead :: int
  iq_State :: string
  iq_CreatedAt :: int
  iq_FinishedAt :: "int option"
  iq_Error :: "string option"

record outgoing_query =
  oq_ID :: nat
  oq_IncomingQueryID :: nat
  oq_DatabaseName :: string
  oq_DatabaseEndpoint :: string
  oq_QueryText :: string
  oq_QueryArgs :: string
  oq_RowsRead :: int
  oq_State :: string
  oq_CreatedAt :: int
  oq_FinishedAt :: "int option"
  oq_Error :: "string option"

record sqlite_db =
  incoming_queries :: "incoming_query list"
  outgoing_queries :: "outgoing_query list"
  incoming_seq :: nat
  outgoing_seq :: nat

definition empty_db :: sqlite_db where
  "empty_db = \<lparr>incoming_queries = [], outgoing_queries = [], incoming_seq = 0, outgoing_seq = 0\<rparr>"

record traffic = tr_rows_read :: nat
  tr_bytes_read :: nat

text \<open>A failure of the statement itself, and one of reading its result; a statement that failed changed nothing.\<close>

record faults =
  exec_fault :: "go_error option"
  result_fault :: "go_error option"

definition no_faults :: faults where
  "no_faults = \<lparr>exec_fault = None, result_fault = None\<rparr>"

section \<open>Incoming queries\<close>

definition CreateIncomingQuery :: "faults \<Rightarrow> int \<Rightarrow> string \<Rightarrow> sqlite_db \<Rightarrow> nat res \<times> sqlite_db" where
  "CreateIncomingQuery F now kind db =
     (case exec_fault F of
        Some e \<Rightarrow> (Err (Wrap ''creating incoming query'' e), db)
      | None \<Rightarrow>
          (let i = incoming_seq db + 1;
               query = \<lparr>iq_ID = i, iq_DataSourceKind = kind, iq_RowsRead = 0, iq_BytesRead = 0,
                 iq_State = QueryStateRunning, iq_CreatedAt = now, iq_FinishedAt = None, iq_Error = None\<rparr>;
               db = db\<lparr>incoming_queries := incoming_queries db @ [query], incoming_seq := i\<rparr>
           in case result_fault F of
                Some e \<Rightarrow> (Err (Wrap ''retrieving generated ID'' e), db)
              | None \<Rightarrow> (Ok i, db)))"

text \<open>
  An \<^verbatim>\<open>UPDATE ... WHERE id = ?\<close> with the check of the number of affected rows. \<^verbatim>\<open>database/sql\<close> refuses unsigned
  arguments with the high bit set.
\<close>

definition update_rows :: "('r \<Rightarrow> nat) \<Rightarrow> nat \<Rightarrow> ('r \<Rightarrow> 'r) \<Rightarrow> 'r list \<Rightarrow> 'r list" where
  "update_rows qid i f rows = map (\<lambda>r. if qid r = i then f r else r) rows"

definition high_bit_error :: go_error where
  "high_bit_error = NewErr ''uint64 values with high bit set are not supported''"

definition exec_update ::
    "faults \<Rightarrow> string \<Rightarrow> string \<Rightarrow> nat list \<Rightarrow> ('r \<Rightarrow> nat) \<Rightarrow> nat \<Rightarrow> ('r \<Rightarrow> 'r) \<Rightarrow> 'r list \<Rightarrow> unit res \<times> 'r list" where
  "exec_update F doing missing args qid i f rows =
     (if list_ex (\<lambda>n. 2 ^ 63 \<le> int n) args then
        (Err (Wrap doing high_bit_error), rows)
      else case exec_fault F of
        Some e \<Rightarrow> (Err (Wrap doing e), rows)
      | None \<Rightarrow>
          (case result_fault F of
             Some e \<Rightarrow> (Err (Wrap ''checking rows affected'' e), update_rows qid i f rows)
           | None \<Rightarrow>
               (if length (filter (\<lambda>r. qid r = i) rows) = 0 then Err (NewErr missing) else Ok (),
                update_rows qid i f rows)))"

definition on_incoming :: "sqlite_db \<Rightarrow> unit res \<times> incoming_query list \<Rightarrow> unit res \<times> sqlite_db" where
  "on_incoming db r = (fst r, db\<lparr>incoming_queries := snd r\<rparr>)"

text \<open>The assignments of the four \<^verbatim>\<open>UPDATE\<close> statements.\<close>

definition set_incoming_finished :: "int \<Rightarrow> traffic \<Rightarrow> incoming_query \<Rightarrow> incoming_query" where
  "set_incoming_finished now stats r =
     r\<lparr>iq_State := QueryStateFinished, iq_FinishedAt := Some now,
       iq_RowsRead := int (tr_rows_read stats), iq_BytesRead := int (tr_bytes_read stats)\<rparr>"

definition set_incoming_cancelled :: "int \<Rightarrow> string \<Rightarrow> traffic \<Rightarrow> incoming_query \<Rightarrow> incoming_query" where
  "set_incoming_cancelled now errorMsg stats r =
     r\<lparr>iq_State := QueryStateCancelled, iq_FinishedAt := Some now, iq_Error := Some errorMsg,
       iq_RowsRead := int (tr_rows_read stats), iq_BytesRead := int (tr_bytes_read stats)\<rparr>"

definition set_outgoing_finished :: "int \<Rightarrow> int \<Rightarrow> outgoing_query \<Rightarrow> outgoing_query" where
  "set_outgoing_finished now rowsRead r =
     r\<lparr>oq_State := QueryStateFinished, oq_FinishedAt := Some now, oq_RowsRead := rowsRead\<rparr>"

definition set_outgoing_cancelled :: "int \<Rightarrow> string \<Rightarrow> outgoing_query \<Rightarrow> outgoing_query" where
  "set_outgoing_cancelled now errorMsg r =
     r\<lparr>oq_State := QueryStateCancelled, oq_FinishedAt := Some now, oq_Error := Some errorMsg\<rparr>"

definition FinishIncomingQuery :: "faults \<Rightarrow> int \<Rightarrow> nat \<Rightarrow> traffic \<Rightarrow> sqlite_db \<Rightarrow> unit res \<times> sqlite_db" where
  "FinishIncomingQuery F now i stats db =
     on_incoming db (exec_update F ''marking incoming query as finished'' ''incoming query not found''
       [tr_rows_read stats, tr_bytes_read stats, i] iq_ID i
       (set_incoming_finished now stats) (incoming_queries db))"

definition CancelIncomingQuery :: "faults \<Rightarrow> int \<Rightarrow> nat \<Rightarrow> string \<Rightarrow> traffic \<Rightarrow> sqlite_db \<Rightarrow> unit res \<times> sqlite_db" where
  "CancelIncomingQuery F now i errorMsg stats db =
     on_incoming db (exec_update F ''canceling incoming query'' ''incoming query not found''
       [tr_rows_read stats, tr_bytes_read stats, i] iq_ID i
       (set_incoming_cancelled now errorMsg stats) (incoming_queries db))"

text \<open>\<^verbatim>\<open>LIMIT\<close> and \<^verbatim>\<open>OFFSET\<close>: a negative limit is none, a negative offset is zero.\<close>

definition limit_offset :: "int \<Rightarrow> int \<Rightarrow> 'r list \<Rightarrow> 'r list" where
  "limit_offset limit offset rows =
     (let rest = drop (nat offset) rows in if limit < 0 then rest else take (nat limit) rest)"

definition list_fault :: "faults \<Rightarrow> string \<Rightarrow> string \<Rightarrow> 'a \<Rightarrow> 'a res" where
  "list_fault F doing iterating x =
     (case exec_fault F of
        Some e \<Rightarrow> Err (Wrap doing e)
      | None \<Rightarrow> (case result_fault F of Some e \<Rightarrow> Err (Wrap iterating e) | None \<Rightarrow> Ok x))"

definition ListIncomingQueries ::
    "(incoming_query list \<Rightarrow> incoming_query list) \<Rightarrow> faults \<Rightarrow> string option \<Rightarrow> int \<Rightarrow> int \<Rightarrow> sqlite_db \<Rightarrow> incoming_query list res" where
  "ListIncomingQueries order F state limit offset db =
     list_fault F ''listing incoming queries'' ''iterating incoming queries''
       (limit_offset limit offset (order
          (case state of
             None \<Rightarrow> incoming_queries db
           | Some s \<Rightarrow> filter (\<lambda>r. iq_State r = s) (incoming_queries db))))"

section \<open>Outgoing queries\<close>

text \<open>The points of the transaction at which the database can fail; each rolls it back.\<close>

record tx_faults =
  begin_fault :: "go_error option"
  exists_fault :: "go_error option"
  insert_fault :: "go_error option"
  last_id_fault :: "go_error option"
  commit_fault :: "go_error option"

definition no_tx_faults :: tx_faults where
  "no_tx_faults = \<lparr>begin_fault = None, exists_fault = None, insert_fault = None, last_id_fault = None, commit_fault = None\<rparr>"

definition fail_if :: "go_error option \<Rightarrow> string \<Rightarrow> 'a res \<Rightarrow> 'a res" where
  "fail_if fault doing r = (case fault of Some e \<Rightarrow> Err (Wrap doing e) | None \<Rightarrow> r)"

definition CreateOutgoingQuery ::
    "tx_faults \<Rightarrow> int \<Rightarrow> nat \<Rightarrow> string \<Rightarrow> string \<Rightarrow> string \<Rightarrow> string \<Rightarrow> sqlite_db \<Rightarrow> nat res \<times> sqlite_db" where
  "CreateOutgoingQuery T now incomingQueryID database endpoint queryText queryArgs db =
     (let i = outgoing_seq db + 1;
          query = \<lparr>oq_ID = i, oq_IncomingQueryID = incomingQueryID, oq_DatabaseName = database,
            oq_DatabaseEndpoint = endpoint, oq_QueryText = queryText, oq_QueryArgs = queryArgs, oq_RowsRead = 0,
            oq_State = QueryStateRunning, oq_CreatedAt = now, oq_FinishedAt = None, oq_Error = None\<rparr>;
          r = fail_if (begin_fault T) ''starting transaction''
             (fail_if (if 2 ^ 63 \<le> int incomingQueryID then Some high_bit_error else exists_fault T)
               ''checking incoming query existence''
             (if incomingQueryID \<notin> iq_ID ` set (incoming_queries db) then Err (NewErr ''incoming query not found'')
              else fail_if (insert_fault T) ''creating outgoing query''
                  (fail_if (last_id_fault T) ''retrieving generated ID''
                  (fail_if (commit_fault T) ''committing transaction'' (Ok i)))))
      in case r of
           Ok _ \<Rightarrow> (r, db\<lparr>outgoing_queries := outgoing_queries db @ [query], outgoing_seq := i\<rparr>)
         | _ \<Rightarrow> (r, db))"

definition on_outgoing :: "sqlite_db \<Rightarrow> unit res \<times> outgoing_query list \<Rightarrow> unit res \<times> sqlite_db" where
  "on_outgoing db r = (fst r, db\<lparr>outgoing_queries := snd r\<rparr>)"

definition FinishOutgoingQuery :: "faults \<Rightarrow> int \<Rightarrow> nat \<Rightarrow> int \<Rightarrow> sqlite_db \<Rightarrow> unit res \<times> sqlite_db" where
  "FinishOutgoingQuery F now i rowsRead db =
     on_outgoing db (exec_update F ''marking outgoing query as finished'' ''outgoing query not found'' [i] oq_ID i
       (set_outgoing_finished now rowsRead) (outgoing_queries db))"

definition CancelOutgoingQuery :: "faults \<Rightarrow> int \<Rightarrow> nat \<Rightarrow> string \<Rightarrow> sqlite_db \<Rightarrow> unit res \<times> sqlite_db" where
  "CancelOutgoingQuery F now i errorMsg db =
     on_outgoing db (exec_update F ''canceling outgoing query'' ''outgoing query not found'' [i] oq_ID i
       (set_outgoing_cancelled now errorMsg) (outgoing_queries db))"

definition ListOutgoingQueries ::
    "(outgoing_query list \<Rightarrow> outgoing_query list) \<Rightarrow> faults \<Rightarrow> nat option \<Rightarrow> string option \<Rightarrow> int \<Rightarrow> int \<Rightarrow> sqlite_db \<Rightarrow>
     outgoing_query list res" where
  "ListOutgoingQueries order F incomingQueryID state limit offset db =
     list_fault F ''listing outgoing queries'' ''iterating outgoing queries''
       (limit_offset limit offset (order
          (case (incomingQueryID, state) of
             (Some i, Some s) \<Rightarrow> filter (\<lambda>r. oq_IncomingQueryID r = i \<and> oq_State r = s) (outgoing_queries db)
           | (Some i, None) \<Rightarrow> filter (\<lambda>r. oq_IncomingQueryID r = i) (outgoing_queries db)
           | (None, Some s) \<Rightarrow> filter (\<lambda>r. oq_State r = s) (outgoing_queries db)
           | (None, None) \<Rightarrow> outgoing_queries db)))"

section \<open>Similar queries\<close>

type_synonym query_key = "string \<times> string \<times> string \<times> string"

definition query_key :: "outgoing_query \<Rightarrow> query_key" where
  "query_key r = (oq_DatabaseName r, oq_DatabaseEndpoint r, oq_QueryText r, oq_QueryArgs r)"

text \<open>The first statement: the groups with at least two finished queries that differ in the rows they read.\<close>

definition similar_keys :: "(query_key list \<Rightarrow> query_key list) \<Rightarrow> outgoing_query list \<Rightarrow> query_key list" where
  "similar_keys order rows =
     (let finished = filter (\<lambda>r. oq_QueryText r \<noteq> [] \<and> oq_State r = QueryStateFinished) rows;
          of_key = (\<lambda>k. filter (\<lambda>r. query_key r = k) finished)
      in take 100 (order (filter
           (\<lambda>k. length (of_key k) > 1 \<and> length (remdups (map oq_RowsRead (of_key k))) > 1)
           (remdups (map query_key finished)))))"

text \<open>The second statement and the loop over its rows.\<close>

definition has_different_rows_read :: "outgoing_query list \<Rightarrow> bool" where
  "has_different_rows_read grp =
     (case grp of [] \<Rightarrow> False | q # qs \<Rightarrow> list_ex (\<lambda>r. oq_RowsRead r \<noteq> oq_RowsRead q) qs)"

fun similar_groups ::
    "(outgoing_query list \<Rightarrow> outgoing_query list) \<Rightarrow> (query_key \<Rightarrow> faults) \<Rightarrow> outgoing_query list \<Rightarrow> query_key list \<Rightarrow>
     outgoing_query list list res" where
  "similar_groups order G rows [] = Ok []"
| "similar_groups order G rows (k # keys) =
     bind_res (list_fault (G k) ''fetching query group'' ''iterating outgoing query group''
         (order (filter (\<lambda>r. query_key r = k \<and> oq_State r = QueryStateFinished) rows))) (\<lambda>grp.
     bind_res (similar_groups order G rows keys) (\<lambda>rest.
       Ok ((if length grp > 1 \<and> has_different_rows_read grp then [grp] else []) @ rest)))"

definition ListSimilarOutgoingQueriesWithDifferentStats ::
    "(query_key list \<Rightarrow> query_key list) \<Rightarrow> (outgoing_query list \<Rightarrow> outgoing_query list) \<Rightarrow> faults \<Rightarrow> (query_key \<Rightarrow> faults) \<Rightarrow>
     sqlite_db \<Rightarrow> outgoing_query list list res" where
  "ListSimilarOutgoingQueriesWithDifferentStats order_keys order F G db =
     bind_res (list_fault F ''finding similar outgoing queries'' ''iterating query keys''
         (similar_keys order_keys (outgoing_queries db))) (\<lambda>keys.
       similar_groups order G (outgoing_queries db) keys)"

section \<open>The dummy storage\<close>

definition dummy_CreateQuery :: "nat res" where "dummy_CreateQuery = Ok 0"

definition dummy_CloseQuery :: "unit res" where "dummy_CloseQuery = Ok ()"

section \<open>Tables as maps\<close>

text \<open>The contract of a table of queries, as the server relies on it: creating a query gives a fresh identifier,
  closing one changes that query alone and fails if there is none.\<close>

definition rows_map :: "('r \<Rightarrow> nat) \<Rightarrow> 'r list \<Rightarrow> nat \<rightharpoonup> 'r" where
  "rows_map qid rows = map_of (map (\<lambda>r. (qid r, r)) rows)"

definition table_inv :: "('r \<Rightarrow> nat) \<Rightarrow> nat \<Rightarrow> 'r list \<Rightarrow> bool" where
  "table_inv qid seq rows \<longleftrightarrow> distinct (map qid rows) \<and> (\<forall>r \<in> set rows. 1 \<le> qid r \<and> qid r \<le> seq)"

lemma rows_map_None: "rows_map qid rows i = None \<longleftrightarrow> i \<notin> qid ` set rows"
  by (auto simp: rows_map_def map_of_eq_None_iff image_iff)

lemma rows_map_append: "qid r \<notin> qid ` set rows \<Longrightarrow> rows_map qid (rows @ [r]) = (rows_map qid rows)(qid r \<mapsto> r)"
  by (induction rows) (auto simp: rows_map_def fun_upd_twist)

lemma rows_map_update:
  assumes "\<And>r. qid (f r) = qid r"
  shows "rows_map qid (update_rows qid i f rows) = (rows_map qid rows)(i := map_option f (rows_map qid rows i))"
proof (rule ext)
  fix j
  show "rows_map qid (update_rows qid i f rows) j = ((rows_map qid rows)(i := map_option f (rows_map qid rows i))) j"
    using assms by (induction rows) (auto simp: rows_map_def update_rows_def)
qed

lemma table_inv_update: "(\<And>r. qid (f r) = qid r) \<Longrightarrow> table_inv qid n rows \<Longrightarrow> table_inv qid n (update_rows qid i f rows)"
proof -
  assume f: "\<And>r. qid (f r) = qid r" and inv: "table_inv qid n rows"
  have "map qid (update_rows qid i f rows) = map qid rows" using f by (simp add: update_rows_def)
  moreover then have "qid ` set (update_rows qid i f rows) = qid ` set rows" by (metis list.set_map)
  ultimately show ?thesis using inv unfolding table_inv_def by (metis image_iff)
qed

lemma table_inv_append: "table_inv qid n rows \<Longrightarrow> qid r = n + 1 \<Longrightarrow> table_inv qid (n + 1) (rows @ [r])"
  by (auto simp: table_inv_def)

lemma exec_update_cases:
  assumes "exec_update F doing missing args qid i f rows = (r, rows')"
  shows "rows' = rows \<and> (\<exists>e. r = Err e) \<or> rows' = update_rows qid i f rows \<and> (r = Ok () \<longrightarrow> rows_map qid rows i \<noteq> None)"
  using assms by (auto simp: exec_update_def rows_map_None filter_empty_conv split: if_splits option.splits)

lemma exec_update_no_faults:
  assumes "\<not> list_ex (\<lambda>n. 2 ^ 63 \<le> int n) args"
  shows "exec_update no_faults doing missing args qid i f rows =
    (if rows_map qid rows i = None then Err (NewErr missing) else Ok (), update_rows qid i f rows)"
  using assms by (auto simp: exec_update_def no_faults_def rows_map_None filter_empty_conv)

section \<open>The contract of a table of queries\<close>

locale query_table =
  fixes inv :: "'s \<Rightarrow> bool" and lookup :: "'s \<Rightarrow> nat \<Rightarrow> 'r option" and state :: "'r \<Rightarrow> string"
    and create :: "'a \<Rightarrow> 's \<Rightarrow> nat res \<times> 's" and close :: "nat \<Rightarrow> 'b \<Rightarrow> 's \<Rightarrow> unit res \<times> 's"
  assumes create_inv: "inv s \<Longrightarrow> inv (snd (create a s))"
    and create_Ok: "inv s \<Longrightarrow> create a s = (Ok i, s') \<Longrightarrow>
      lookup s i = None \<and> (\<exists>r. lookup s' = (lookup s)(i \<mapsto> r) \<and> state r = QueryStateRunning)"
    and close_inv: "inv s \<Longrightarrow> inv (snd (close i b s))"
    and close_Ok: "inv s \<Longrightarrow> close i b s = (Ok (), s') \<Longrightarrow>
      \<exists>r r'. lookup s i = Some r \<and> lookup s' = (lookup s)(i \<mapsto> r') \<and> state r' \<noteq> QueryStateRunning"
    and close_unknown: "inv s \<Longrightarrow> lookup s i = None \<Longrightarrow> fst (close i b s) \<noteq> Ok () \<and> lookup (snd (close i b s)) = lookup s"
begin

definition running :: "'s \<Rightarrow> nat set" where
  "running s = {i. \<exists>r. lookup s i = Some r \<and> state r = QueryStateRunning}"

lemma running_create:
  assumes "inv s" and "create a s = (Ok i, s')"
  shows "i \<notin> running s" and "running s' = insert i (running s)"
  using create_Ok [OF assms] by (auto simp: running_def)

lemma running_close:
  assumes "inv s" and "close i b s = (Ok (), s')"
  shows "running s' = running s - {i}"
  using close_Ok [OF assms] by (auto simp: running_def split: if_splits)

text \<open>A query that is created and then closed leaves the other queries as they were.\<close>

lemma create_then_close:
  assumes "inv s" and "create a s = (Ok i, s1)" and "close i b s1 = (Ok (), s2)"
  shows "running s2 = running s"
proof -
  have "inv s1" using create_inv [OF assms(1), of a] assms(2) by simp
  with running_close assms(3) running_create [OF assms(1,2)] show ?thesis by blast
qed

end

definition db_inv :: "sqlite_db \<Rightarrow> bool" where
  "db_inv db \<longleftrightarrow>
     table_inv iq_ID (incoming_seq db) (incoming_queries db) \<and> table_inv oq_ID (outgoing_seq db) (outgoing_queries db) \<and>
     oq_IncomingQueryID ` set (outgoing_queries db) \<subseteq> iq_ID ` set (incoming_queries db)"

definition incoming_map :: "sqlite_db \<Rightarrow> nat \<rightharpoonup> incoming_query" where
  "incoming_map db = rows_map iq_ID (incoming_queries db)"

definition outgoing_map :: "sqlite_db \<Rightarrow> nat \<rightharpoonup> outgoing_query" where
  "outgoing_map db = rows_map oq_ID (outgoing_queries db)"

text \<open>Closing a query: with an error message it is cancelled, without one it is finished.\<close>

definition close_incoming :: "nat \<Rightarrow> faults \<times> int \<times> string option \<times> traffic \<Rightarrow> sqlite_db \<Rightarrow> unit res \<times> sqlite_db" where
  "close_incoming i = (\<lambda>(F, now, err, stats) db.
     case err of None \<Rightarrow> FinishIncomingQuery F now i stats db | Some m \<Rightarrow> CancelIncomingQuery F now i m stats db)"

definition close_outgoing :: "nat \<Rightarrow> faults \<times> int \<times> (string + int) \<Rightarrow> sqlite_db \<Rightarrow> unit res \<times> sqlite_db" where
  "close_outgoing i = (\<lambda>(F, now, outcome) db.
     case outcome of Inl m \<Rightarrow> CancelOutgoingQuery F now i m db | Inr n \<Rightarrow> FinishOutgoingQuery F now i n db)"

lemma update_rows_keeps:
  assumes "\<And>r. g (f r) = g r"
  shows "g ` set (update_rows qid i f rows) = g ` set rows"
proof -
  have "map g (update_rows qid i f rows) = map g rows" using assms by (simp add: update_rows_def)
  then show ?thesis by (metis list.set_map)
qed

lemma db_inv_update_incoming:
  assumes "\<And>r. iq_ID (f r) = iq_ID r" and "db_inv db"
  shows "db_inv (snd (on_incoming db (exec_update F d m args iq_ID i f (incoming_queries db))))"
proof -
  obtain r rows where e: "exec_update F d m args iq_ID i f (incoming_queries db) = (r, rows)" by fastforce
  from exec_update_cases [OF this] have "rows = incoming_queries db \<or> rows = update_rows iq_ID i f (incoming_queries db)" by blast
  then show ?thesis
    using assms by (auto simp: e on_incoming_def db_inv_def table_inv_update update_rows_keeps)
qed

lemma db_inv_update_outgoing:
  assumes "\<And>r. oq_ID (f r) = oq_ID r" and "\<And>r. oq_IncomingQueryID (f r) = oq_IncomingQueryID r" and "db_inv db"
  shows "db_inv (snd (on_outgoing db (exec_update F d m args oq_ID i f (outgoing_queries db))))"
proof -
  obtain r rows where e: "exec_update F d m args oq_ID i f (outgoing_queries db) = (r, rows)" by fastforce
  from exec_update_cases [OF this] have "rows = outgoing_queries db \<or> rows = update_rows oq_ID i f (outgoing_queries db)" by blast
  moreover have "oq_IncomingQueryID ` set (update_rows oq_ID i f rows) = oq_IncomingQueryID ` set rows" for rows
    using assms(2) by (rule update_rows_keeps)
  ultimately show ?thesis
    using assms(3) table_inv_update [of oq_ID f, OF assms(1)] by (elim disjE) (simp_all add: e on_outgoing_def db_inv_def)
qed

lemmas set_row_defs =
  set_incoming_finished_def set_incoming_cancelled_def set_outgoing_finished_def set_outgoing_cancelled_def

lemma closing_inv:
  "db_inv db \<Longrightarrow> db_inv (snd (FinishIncomingQuery F now i stats db))"
  "db_inv db \<Longrightarrow> db_inv (snd (CancelIncomingQuery F now i msg stats db))"
  "db_inv db \<Longrightarrow> db_inv (snd (FinishOutgoingQuery F now i n db))"
  "db_inv db \<Longrightarrow> db_inv (snd (CancelOutgoingQuery F now i msg db))"
  unfolding FinishIncomingQuery_def CancelIncomingQuery_def FinishOutgoingQuery_def CancelOutgoingQuery_def
  by (rule db_inv_update_incoming db_inv_update_outgoing; simp add: set_row_defs)+

lemma CreateIncomingQuery_inv: "db_inv db \<Longrightarrow> db_inv (snd (CreateIncomingQuery F now kind db))"
  by (auto simp: CreateIncomingQuery_def Let_def db_inv_def intro!: table_inv_append [simplified] split: option.splits)

lemma CreateOutgoingQuery_inv: "db_inv db \<Longrightarrow> db_inv (snd (CreateOutgoingQuery T now j d e t a db))"
  by (auto simp: CreateOutgoingQuery_def Let_def db_inv_def fail_if_def intro!: table_inv_append [simplified]
      split: option.splits if_splits)

lemma fresh_id: "table_inv qid n rows \<Longrightarrow> rows_map qid rows (Suc n) = None"
  by (auto simp: rows_map_None table_inv_def)

lemma create_incoming_Ok:
  assumes "db_inv db" and "CreateIncomingQuery F now kind db = (Ok i, db')"
  shows "i = incoming_seq db + 1" and "incoming_map db i = None"
    and "incoming_map db' = (incoming_map db)(i \<mapsto>
      \<lparr>iq_ID = i, iq_DataSourceKind = kind, iq_RowsRead = 0, iq_BytesRead = 0, iq_State = QueryStateRunning,
       iq_CreatedAt = now, iq_FinishedAt = None, iq_Error = None\<rparr>)"
    and "outgoing_map db' = outgoing_map db"
  using assms fresh_id [of iq_ID "incoming_seq db" "incoming_queries db"]
  by (auto simp: CreateIncomingQuery_def Let_def db_inv_def incoming_map_def outgoing_map_def rows_map_append
      rows_map_None split: option.splits)

lemma create_outgoing_Ok:
  assumes "db_inv db" and "CreateOutgoingQuery T now j database endpoint text args db = (Ok i, db')"
  shows "i = outgoing_seq db + 1" and "outgoing_map db i = None" and "incoming_map db j \<noteq> None"
    and "outgoing_map db' = (outgoing_map db)(i \<mapsto>
      \<lparr>oq_ID = i, oq_IncomingQueryID = j, oq_DatabaseName = database, oq_DatabaseEndpoint = endpoint, oq_QueryText = text,
       oq_QueryArgs = args, oq_RowsRead = 0, oq_State = QueryStateRunning, oq_CreatedAt = now, oq_FinishedAt = None,
       oq_Error = None\<rparr>)"
    and "incoming_map db' = incoming_map db"
  using assms fresh_id [of oq_ID "outgoing_seq db" "outgoing_queries db"]
  by (auto simp: CreateOutgoingQuery_def Let_def db_inv_def incoming_map_def outgoing_map_def rows_map_append
      rows_map_None fail_if_def split: option.splits if_splits)

text \<open>Closing a query through the tables, in terms of the maps.\<close>

lemma on_incoming_map:
  assumes "\<And>r. iq_ID (f r) = iq_ID r"
  shows "case on_incoming db (exec_update F d m args iq_ID i f (incoming_queries db)) of (r, db') \<Rightarrow>
      outgoing_map db' = outgoing_map db \<and>
      (incoming_map db' = incoming_map db \<and> (\<exists>e. r = Err e) \<or>
       incoming_map db' = (incoming_map db)(i := map_option f (incoming_map db i)) \<and> (r = Ok () \<longrightarrow> incoming_map db i \<noteq> None))"
proof -
  obtain r rows where e: "exec_update F d m args iq_ID i f (incoming_queries db) = (r, rows)" by fastforce
  from exec_update_cases [OF this] show ?thesis
    by (auto simp: e on_incoming_def incoming_map_def outgoing_map_def rows_map_update assms)
qed

lemma on_outgoing_map:
  assumes "\<And>r. oq_ID (f r) = oq_ID r"
  shows "case on_outgoing db (exec_update F d m args oq_ID i f (outgoing_queries db)) of (r, db') \<Rightarrow>
      incoming_map db' = incoming_map db \<and>
      (outgoing_map db' = outgoing_map db \<and> (\<exists>e. r = Err e) \<or>
       outgoing_map db' = (outgoing_map db)(i := map_option f (outgoing_map db i)) \<and> (r = Ok () \<longrightarrow> outgoing_map db i \<noteq> None))"
proof -
  obtain r rows where e: "exec_update F d m args oq_ID i f (outgoing_queries db) = (r, rows)" by fastforce
  from exec_update_cases [OF this] show ?thesis
    by (auto simp: e on_outgoing_def incoming_map_def outgoing_map_def rows_map_update assms)
qed

lemma close_incoming_exec:
  "close_incoming i (F, now, err, stats) db =
     on_incoming db (exec_update F
       (case err of None \<Rightarrow> ''marking incoming query as finished'' | Some m \<Rightarrow> ''canceling incoming query'')
       ''incoming query not found'' [tr_rows_read stats, tr_bytes_read stats, i] iq_ID i
       (case err of None \<Rightarrow> set_incoming_finished now stats | Some m \<Rightarrow> set_incoming_cancelled now m stats) (incoming_queries db))"
  by (simp add: close_incoming_def FinishIncomingQuery_def CancelIncomingQuery_def split: option.splits)

lemma close_outgoing_exec:
  "close_outgoing i (F, now, outcome) db =
     on_outgoing db (exec_update F
       (case outcome of Inl m \<Rightarrow> ''canceling outgoing query'' | Inr n \<Rightarrow> ''marking outgoing query as finished'')
       ''outgoing query not found'' [i] oq_ID i
       (case outcome of Inl m \<Rightarrow> set_outgoing_cancelled now m | Inr n \<Rightarrow> set_outgoing_finished now n) (outgoing_queries db))"
  by (simp add: close_outgoing_def FinishOutgoingQuery_def CancelOutgoingQuery_def split: sum.splits)

interpretation inq: query_table db_inv incoming_map iq_State "\<lambda>(F, now, kind). CreateIncomingQuery F now kind" close_incoming
proof
  fix s s' :: sqlite_db and a :: "faults \<times> int \<times> string" and b :: "faults \<times> int \<times> string option \<times> traffic" and i :: nat
  assume inv: "db_inv s"
  obtain F now kind where a: "a = (F, now, kind)" by (cases a)
  show "db_inv (snd ((case a of (F, now, kind) \<Rightarrow> CreateIncomingQuery F now kind) s))"
    using CreateIncomingQuery_inv [OF inv] by (simp add: a)
  show "incoming_map s i = None \<and> (\<exists>r. incoming_map s' = (incoming_map s)(i \<mapsto> r) \<and> iq_State r = QueryStateRunning)"
    if "(case a of (F, now, kind) \<Rightarrow> CreateIncomingQuery F now kind) s = (Ok i, s')"
    using create_incoming_Ok [OF inv, of F now kind i s'] that by (auto simp: a)
  obtain G t err stats where b: "b = (G, t, err, stats)" by (cases b)
  let ?f = "case err of None \<Rightarrow> set_incoming_finished t stats | Some m \<Rightarrow> set_incoming_cancelled t m stats"
  have id: "iq_ID (?f r) = iq_ID r" and st: "iq_State (?f r) \<noteq> QueryStateRunning" for r
    by (simp_all add: set_row_defs query_states split: option.splits)
  obtain d m args where ex: "close_incoming i b s = on_incoming s (exec_update G d m args iq_ID i ?f (incoming_queries s))"
    unfolding b close_incoming_exec by blast
  note close = on_incoming_map [where f = ?f and db = s and F = G and i = i and d = d and m = m and args = args, OF id]
  show "db_inv (snd (close_incoming i b s))"
    using db_inv_update_incoming [of ?f s, OF id inv] unfolding ex .
  show "\<exists>r r'. incoming_map s i = Some r \<and> incoming_map s' = (incoming_map s)(i \<mapsto> r') \<and> iq_State r' \<noteq> QueryStateRunning"
    if "close_incoming i b s = (Ok (), s')"
    using close that st unfolding ex by (cases "incoming_map s i") auto
  show "fst (close_incoming i b s) \<noteq> Ok () \<and> incoming_map (snd (close_incoming i b s)) = incoming_map s"
    if "incoming_map s i = None"
    using close that unfolding ex by (auto split: prod.splits)
qed

interpretation outq: query_table db_inv outgoing_map oq_State
  "\<lambda>(T, now, j, database, endpoint, text, args). CreateOutgoingQuery T now j database endpoint text args" close_outgoing
proof
  fix s s' :: sqlite_db and a :: "tx_faults \<times> int \<times> nat \<times> string \<times> string \<times> string \<times> string"
    and b :: "faults \<times> int \<times> (string + int)" and i :: nat
  assume inv: "db_inv s"
  obtain T now j dn e q v where a: "a = (T, now, j, dn, e, q, v)" by (cases a)
  show "db_inv (snd ((case a of (T, now, j, d, e, q, v) \<Rightarrow> CreateOutgoingQuery T now j d e q v) s))"
    using CreateOutgoingQuery_inv [OF inv] by (simp add: a)
  show "outgoing_map s i = None \<and> (\<exists>r. outgoing_map s' = (outgoing_map s)(i \<mapsto> r) \<and> oq_State r = QueryStateRunning)"
    if "(case a of (T, now, j, d, e, q, v) \<Rightarrow> CreateOutgoingQuery T now j d e q v) s = (Ok i, s')"
    using create_outgoing_Ok [OF inv, of T now j dn e q v i s'] that by (auto simp: a)
  obtain G t outcome where b: "b = (G, t, outcome)" by (cases b)
  let ?f = "case outcome of Inl m \<Rightarrow> set_outgoing_cancelled t m | Inr n \<Rightarrow> set_outgoing_finished t n"
  have id: "oq_ID (?f r) = oq_ID r" and up: "oq_IncomingQueryID (?f r) = oq_IncomingQueryID r"
    and st: "oq_State (?f r) \<noteq> QueryStateRunning" for r
    by (simp_all add: set_row_defs query_states split: sum.splits)
  obtain d m args where ex: "close_outgoing i b s = on_outgoing s (exec_update G d m args oq_ID i ?f (outgoing_queries s))"
    unfolding b close_outgoing_exec by blast
  note close = on_outgoing_map [where f = ?f and db = s and F = G and i = i and d = d and m = m and args = args, OF id]
  show "db_inv (snd (close_outgoing i b s))"
    using db_inv_update_outgoing [of ?f s, OF id up inv] unfolding ex .
  show "\<exists>r r'. outgoing_map s i = Some r \<and> outgoing_map s' = (outgoing_map s)(i \<mapsto> r') \<and> oq_State r' \<noteq> QueryStateRunning"
    if "close_outgoing i b s = (Ok (), s')"
    using close that st unfolding ex by (cases "outgoing_map s i") auto
  show "fst (close_outgoing i b s) \<noteq> Ok () \<and> outgoing_map (snd (close_outgoing i b s)) = outgoing_map s"
    if "outgoing_map s i = None"
    using close that unfolding ex by (auto split: prod.splits)
qed

section \<open>The storage as a registry\<close>

text \<open>
  What the storage promises: a registry of the incoming and the outgoing queries by identifier. A fault-free sequence of
  operations on the tables gives the replies and the registry the specification gives.
\<close>

record registry =
  rg_incoming :: "nat \<rightharpoonup> incoming_query"
  rg_outgoing :: "nat \<rightharpoonup> outgoing_query"
  rg_last_incoming :: nat
  rg_last_outgoing :: nat

datatype storage_op =
    OpCreateIncoming int string
  | OpFinishIncoming int nat traffic
  | OpCancelIncoming int nat string traffic
  | OpCreateOutgoing int nat string string string string
  | OpFinishOutgoing int nat int
  | OpCancelOutgoing int nat string

datatype storage_reply = Created nat | Closed | Failed string

definition reply_id :: "nat res \<Rightarrow> storage_reply" where
  "reply_id r = (case r of Ok i \<Rightarrow> Created i | Err e \<Rightarrow> Failed (error_text e) | Panic p \<Rightarrow> Failed [])"

definition reply_unit :: "unit res \<Rightarrow> storage_reply" where
  "reply_unit r = (case r of Ok _ \<Rightarrow> Closed | Err e \<Rightarrow> Failed (error_text e) | Panic p \<Rightarrow> Failed [])"

fun run_op :: "storage_op \<Rightarrow> sqlite_db \<Rightarrow> storage_reply \<times> sqlite_db" where
  "run_op (OpCreateIncoming now kind) db = apfst reply_id (CreateIncomingQuery no_faults now kind db)"
| "run_op (OpFinishIncoming now i stats) db = apfst reply_unit (FinishIncomingQuery no_faults now i stats db)"
| "run_op (OpCancelIncoming now i m stats) db = apfst reply_unit (CancelIncomingQuery no_faults now i m stats db)"
| "run_op (OpCreateOutgoing now j d e q a) db = apfst reply_id (CreateOutgoingQuery no_tx_faults now j d e q a db)"
| "run_op (OpFinishOutgoing now i n) db = apfst reply_unit (FinishOutgoingQuery no_faults now i n db)"
| "run_op (OpCancelOutgoing now i m) db = apfst reply_unit (CancelOutgoingQuery no_faults now i m db)"

fun run_ops :: "storage_op list \<Rightarrow> sqlite_db \<Rightarrow> storage_reply list \<times> sqlite_db" where
  "run_ops [] db = ([], db)"
| "run_ops (x # xs) db =
     (case run_op x db of (r, db1) \<Rightarrow> case run_ops xs db1 of (rs, db2) \<Rightarrow> (r # rs, db2))"

definition registry_close :: "string \<Rightarrow> nat \<Rightarrow> ('q \<Rightarrow> 'q) \<Rightarrow> (nat \<rightharpoonup> 'q) \<Rightarrow> storage_reply \<times> (nat \<rightharpoonup> 'q)" where
  "registry_close missing i f m =
     (case m i of None \<Rightarrow> (Failed missing, m) | Some q \<Rightarrow> (Closed, m(i \<mapsto> f q)))"

fun spec_op :: "storage_op \<Rightarrow> registry \<Rightarrow> storage_reply \<times> registry" where
  "spec_op (OpCreateIncoming now kind) R =
     (let i = rg_last_incoming R + 1
      in (Created i, R\<lparr>rg_last_incoming := i, rg_incoming := (rg_incoming R)(i \<mapsto>
            \<lparr>iq_ID = i, iq_DataSourceKind = kind, iq_RowsRead = 0, iq_BytesRead = 0, iq_State = QueryStateRunning,
             iq_CreatedAt = now, iq_FinishedAt = None, iq_Error = None\<rparr>)\<rparr>))"
| "spec_op (OpFinishIncoming now i stats) R =
     (case registry_close ''incoming query not found'' i (set_incoming_finished now stats) (rg_incoming R) of
        (r, m) \<Rightarrow> (r, R\<lparr>rg_incoming := m\<rparr>))"
| "spec_op (OpCancelIncoming now i msg stats) R =
     (case registry_close ''incoming query not found'' i (set_incoming_cancelled now msg stats) (rg_incoming R) of
        (r, m) \<Rightarrow> (r, R\<lparr>rg_incoming := m\<rparr>))"
| "spec_op (OpCreateOutgoing now j d e q a) R =
     (case rg_incoming R j of
        None \<Rightarrow> (Failed ''incoming query not found'', R)
      | Some _ \<Rightarrow>
          (let i = rg_last_outgoing R + 1
           in (Created i, R\<lparr>rg_last_outgoing := i, rg_outgoing := (rg_outgoing R)(i \<mapsto>
                \<lparr>oq_ID = i, oq_IncomingQueryID = j, oq_DatabaseName = d, oq_DatabaseEndpoint = e, oq_QueryText = q,
                 oq_QueryArgs = a, oq_RowsRead = 0, oq_State = QueryStateRunning, oq_CreatedAt = now,
                 oq_FinishedAt = None, oq_Error = None\<rparr>)\<rparr>)))"
| "spec_op (OpFinishOutgoing now i n) R =
     (case registry_close ''outgoing query not found'' i (set_outgoing_finished now n) (rg_outgoing R) of
        (r, m) \<Rightarrow> (r, R\<lparr>rg_outgoing := m\<rparr>))"
| "spec_op (OpCancelOutgoing now i msg) R =
     (case registry_close ''outgoing query not found'' i (set_outgoing_cancelled now msg) (rg_outgoing R) of
        (r, m) \<Rightarrow> (r, R\<lparr>rg_outgoing := m\<rparr>))"

fun spec_ops :: "storage_op list \<Rightarrow> registry \<Rightarrow> storage_reply list \<times> registry" where
  "spec_ops [] R = ([], R)"
| "spec_ops (x # xs) R = (case spec_op x R of (r, R1) \<Rightarrow> case spec_ops xs R1 of (rs, R2) \<Rightarrow> (r # rs, R2))"

definition abs_registry :: "sqlite_db \<Rightarrow> registry" where
  "abs_registry db = \<lparr>rg_incoming = incoming_map db, rg_outgoing = outgoing_map db,
     rg_last_incoming = incoming_seq db, rg_last_outgoing = outgoing_seq db\<rparr>"

text \<open>The numbers of an operation that \<^verbatim>\<open>database/sql\<close> passes on to the driver.\<close>

fun storable :: "storage_op \<Rightarrow> bool" where
  "storable (OpFinishIncoming now i stats) = (int i < 2 ^ 63 \<and> int (tr_rows_read stats) < 2 ^ 63 \<and> int (tr_bytes_read stats) < 2 ^ 63)"
| "storable (OpCancelIncoming now i m stats) = (int i < 2 ^ 63 \<and> int (tr_rows_read stats) < 2 ^ 63 \<and> int (tr_bytes_read stats) < 2 ^ 63)"
| "storable (OpFinishOutgoing now i n) = (int i < 2 ^ 63)"
| "storable (OpCancelOutgoing now i m) = (int i < 2 ^ 63)"
| "storable (OpCreateOutgoing now j d e q a) = (int j < 2 ^ 63)"
| "storable (OpCreateIncoming now kind) = True"

lemma on_incoming_refines:
  assumes "\<And>r. iq_ID (f r) = iq_ID r" and "\<not> list_ex (\<lambda>n. 2 ^ 63 \<le> int n) args"
  shows "map_prod reply_unit abs_registry (on_incoming db (exec_update no_faults d m args iq_ID i f (incoming_queries db))) =
    (case registry_close m i f (incoming_map db) of (r, q) \<Rightarrow> (r, (abs_registry db)\<lparr>rg_incoming := q\<rparr>))"
  by (simp add: on_incoming_def exec_update_no_faults [OF assms(2)] registry_close_def reply_unit_def incoming_map_def
      outgoing_map_def abs_registry_def rows_map_update [of iq_ID f, OF assms(1)] split: option.splits) auto

lemma on_outgoing_refines:
  assumes "\<And>r. oq_ID (f r) = oq_ID r" and "\<not> list_ex (\<lambda>n. 2 ^ 63 \<le> int n) args"
  shows "map_prod reply_unit abs_registry (on_outgoing db (exec_update no_faults d m args oq_ID i f (outgoing_queries db))) =
    (case registry_close m i f (outgoing_map db) of (r, q) \<Rightarrow> (r, (abs_registry db)\<lparr>rg_outgoing := q\<rparr>))"
  by (simp add: on_outgoing_def exec_update_no_faults [OF assms(2)] registry_close_def reply_unit_def incoming_map_def
      outgoing_map_def abs_registry_def rows_map_update [of oq_ID f, OF assms(1)] split: option.splits) auto

lemma map_prod_apfst: "map_prod id g (apfst f p) = map_prod f g p"
  by (cases p) simp

lemma create_incoming_refines:
  assumes "db_inv db"
  shows "map_prod id abs_registry (run_op (OpCreateIncoming now kind) db) = spec_op (OpCreateIncoming now kind) (abs_registry db)"
  using create_incoming_Ok [OF assms, of no_faults now kind]
  by (simp add: CreateIncomingQuery_def no_faults_def Let_def reply_id_def abs_registry_def)

lemma create_outgoing_refines:
  assumes "db_inv db" and "int j < 2 ^ 63"
  shows "map_prod id abs_registry (run_op (OpCreateOutgoing now j d e q a) db) =
    spec_op (OpCreateOutgoing now j d e q a) (abs_registry db)"
proof (cases "incoming_map db j")
  case None
  then have "j \<notin> iq_ID ` set (incoming_queries db)" by (simp add: incoming_map_def rows_map_None)
  with None assms(2) show ?thesis
    by (simp add: CreateOutgoingQuery_def no_tx_faults_def fail_if_def Let_def reply_id_def abs_registry_def)
next
  case (Some r)
  then have "j \<in> iq_ID ` set (incoming_queries db)" using rows_map_None by (metis incoming_map_def option.distinct(1))
  with Some assms(2) create_outgoing_Ok [OF assms(1), of no_tx_faults now j d e q a] show ?thesis
    by (simp add: CreateOutgoingQuery_def no_tx_faults_def fail_if_def Let_def reply_id_def abs_registry_def)
qed

lemma run_op_inv: "db_inv db \<Longrightarrow> db_inv (snd (run_op x db))"
  by (cases x) (simp_all add: CreateIncomingQuery_inv CreateOutgoingQuery_inv closing_inv)

lemma run_op_refines:
  assumes "db_inv db" and "storable x"
  shows "map_prod id abs_registry (run_op x db) = spec_op x (abs_registry db)"
proof (cases x)
  case (OpCreateIncoming now kind)
  then show ?thesis using create_incoming_refines [OF assms(1)] by simp
next
  case (OpCreateOutgoing now j d e q a)
  then show ?thesis using create_outgoing_refines [OF assms(1), of j] assms(2) by simp
qed (use assms(2) in \<open>simp_all add: map_prod_apfst FinishIncomingQuery_def CancelIncomingQuery_def FinishOutgoingQuery_def
      CancelOutgoingQuery_def on_incoming_refines on_outgoing_refines set_row_defs\<close>,
    simp_all add: abs_registry_def)

text \<open>C5: a sequence of operations on the SQLite storage, from any state its tables can have, gives the replies of the
  registry of queries and leaves the tables representing that registry: identifiers are never reused, closing changes
  exactly the query it names, an unknown identifier is an error that changes nothing, and an outgoing query is created
  only for an incoming query that exists.\<close>

theorem storage_refines_registry:
  assumes "db_inv db" and "list_all storable xs"
  shows "map_prod id abs_registry (run_ops xs db) = spec_ops xs (abs_registry db)"
  using assms
proof (induction xs arbitrary: db)
  case Nil
  show ?case by simp
next
  case (Cons x xs)
  obtain r db1 where x: "run_op x db = (r, db1)" by fastforce
  with Cons.prems run_op_refines [of db x] run_op_inv [of db x]
  have "spec_op x (abs_registry db) = (r, abs_registry db1)" and "db_inv db1" by simp_all
  with x Cons.IH [of db1] Cons.prems show ?case by (auto split: prod.splits)
qed

theorem storage_refines_registry_witness:
  "map_prod id abs_registry (run_ops [OpCreateIncoming 1 ''YDB'', OpCreateOutgoing 2 1 ''db'' ''host:1'' ''SELECT 1'' '''',
      OpFinishOutgoing 3 1 10, OpFinishIncoming 4 7 \<lparr>tr_rows_read = 1, tr_bytes_read = 2\<rparr>] empty_db) =
    spec_ops [OpCreateIncoming 1 ''YDB'', OpCreateOutgoing 2 1 ''db'' ''host:1'' ''SELECT 1'' '''',
      OpFinishOutgoing 3 1 10, OpFinishIncoming 4 7 \<lparr>tr_rows_read = 1, tr_bytes_read = 2\<rparr>] (abs_registry empty_db)"
  by (rule storage_refines_registry) (simp_all add: db_inv_def table_inv_def empty_db_def)

section \<open>Reachable states of the storage\<close>

text \<open>Every operation, with any failure of the database at any of its steps.\<close>

inductive storage_reach :: "sqlite_db \<Rightarrow> bool" where
  start: "storage_reach empty_db"
| create_in: "storage_reach db \<Longrightarrow> storage_reach (snd (CreateIncomingQuery F now kind db))"
| finish_in: "storage_reach db \<Longrightarrow> storage_reach (snd (FinishIncomingQuery F now i stats db))"
| cancel_in: "storage_reach db \<Longrightarrow> storage_reach (snd (CancelIncomingQuery F now i m stats db))"
| create_out: "storage_reach db \<Longrightarrow> storage_reach (snd (CreateOutgoingQuery T now j d e q a db))"
| finish_out: "storage_reach db \<Longrightarrow> storage_reach (snd (FinishOutgoingQuery F now i n db))"
| cancel_out: "storage_reach db \<Longrightarrow> storage_reach (snd (CancelOutgoingQuery F now i m db))"

text \<open>A query has one of the three states; it has a time of finishing exactly when it is not running, a running
  query has no error and has read nothing, a cancelled one has an error.\<close>

definition lifecycle_ok :: "string \<Rightarrow> int option \<Rightarrow> string option \<Rightarrow> int \<Rightarrow> bool" where
  "lifecycle_ok state finishedAt err rowsRead \<longleftrightarrow>
     state \<in> {QueryStateRunning, QueryStateFinished, QueryStateCancelled} \<and>
     (finishedAt = None \<longleftrightarrow> state = QueryStateRunning) \<and>
     (state = QueryStateRunning \<longrightarrow> err = None \<and> rowsRead = 0) \<and>
     (state = QueryStateCancelled \<longrightarrow> err \<noteq> None)"

definition incoming_ok :: "incoming_query \<Rightarrow> bool" where
  "incoming_ok r = lifecycle_ok (iq_State r) (iq_FinishedAt r) (iq_Error r) (iq_RowsRead r)"

definition outgoing_ok :: "outgoing_query \<Rightarrow> bool" where
  "outgoing_ok r = lifecycle_ok (oq_State r) (oq_FinishedAt r) (oq_Error r) (oq_RowsRead r)"

definition rows_ok :: "sqlite_db \<Rightarrow> bool" where
  "rows_ok db \<longleftrightarrow> (\<forall>r \<in> set (incoming_queries db). incoming_ok r) \<and> (\<forall>r \<in> set (outgoing_queries db). outgoing_ok r)"

lemma exec_update_all:
  assumes "\<And>r. P r \<Longrightarrow> P (f r)" and "\<forall>r \<in> set rows. P r"
  shows "\<forall>r \<in> set (snd (exec_update F d m args qid i f rows)). P r"
proof -
  obtain r rows' where e: "exec_update F d m args qid i f rows = (r, rows')" by fastforce
  from exec_update_cases [OF this] assms show ?thesis by (auto simp: e update_rows_def)
qed

lemma on_sides [simp]:
  "incoming_queries (snd (on_incoming db p)) = snd p" "outgoing_queries (snd (on_incoming db p)) = outgoing_queries db"
  "outgoing_queries (snd (on_outgoing db q)) = snd q" "incoming_queries (snd (on_outgoing db q)) = incoming_queries db"
  by (simp_all add: on_incoming_def on_outgoing_def)

lemma lifecycle_intros:
  "lifecycle_ok QueryStateRunning None None 0"
  "lifecycle_ok QueryStateFinished (Some t) err n"
  "lifecycle_ok QueryStateCancelled (Some t) (Some m) n"
  by (auto simp: lifecycle_ok_def query_states)

lemma set_row_ok:
  "incoming_ok (set_incoming_finished now stats r)" "incoming_ok (set_incoming_cancelled now m stats r)"
  "outgoing_ok (set_outgoing_finished now n q)" "outgoing_ok (set_outgoing_cancelled now m q)"
  by (simp_all add: incoming_ok_def outgoing_ok_def set_row_defs lifecycle_intros)

lemma closing_rows_ok:
  assumes "rows_ok db"
  shows "rows_ok (snd (FinishIncomingQuery F now i stats db))" and "rows_ok (snd (CancelIncomingQuery F now i m stats db))"
    and "rows_ok (snd (FinishOutgoingQuery F now i n db))" and "rows_ok (snd (CancelOutgoingQuery F now i m db))"
proof -
  from assms have I: "\<forall>r \<in> set (incoming_queries db). incoming_ok r" and O: "\<forall>r \<in> set (outgoing_queries db). outgoing_ok r"
    by (auto simp: rows_ok_def)
  note I1 = exec_update_all [where P = incoming_ok and rows = "incoming_queries db", OF _ I]
  note O1 = exec_update_all [where P = outgoing_ok and rows = "outgoing_queries db", OF _ O]
  show "rows_ok (snd (FinishIncomingQuery F now i stats db))"
    unfolding rows_ok_def FinishIncomingQuery_def on_sides by (intro conjI O I1 set_row_ok)
  show "rows_ok (snd (CancelIncomingQuery F now i m stats db))"
    unfolding rows_ok_def CancelIncomingQuery_def on_sides by (intro conjI O I1 set_row_ok)
  show "rows_ok (snd (FinishOutgoingQuery F now i n db))"
    unfolding rows_ok_def FinishOutgoingQuery_def on_sides by (intro conjI I O1 set_row_ok)
  show "rows_ok (snd (CancelOutgoingQuery F now i m db))"
    unfolding rows_ok_def CancelOutgoingQuery_def on_sides by (intro conjI I O1 set_row_ok)
qed

lemma create_incoming_rows_ok:
  assumes "rows_ok db"
  shows "rows_ok (snd (CreateIncomingQuery F now kind db))"
  using assms
  by (simp add: rows_ok_def CreateIncomingQuery_def Let_def incoming_ok_def lifecycle_intros split: option.split)

lemma create_outgoing_rows_ok:
  assumes "rows_ok db"
  shows "rows_ok (snd (CreateOutgoingQuery T now j d e q a db))"
  using assms by (simp only: CreateOutgoingQuery_def Let_def split: res.split)
    (simp add: rows_ok_def outgoing_ok_def lifecycle_intros)

text \<open>C28: whatever operations the server runs on the storage, in any order, with any arguments and with failures of the
  database at any step, its tables stay consistent: identifiers are unique and never reach past the sequence, every
  outgoing query belongs to an incoming one, and every query has a time of finishing exactly when it has left the running
  state.\<close>

theorem storage_consistent:
  assumes "storage_reach db"
  shows "db_inv db \<and> rows_ok db"
  using assms
proof induction
  case start
  show ?case by (simp add: db_inv_def table_inv_def rows_ok_def empty_db_def)
qed (simp_all add: CreateIncomingQuery_inv CreateOutgoingQuery_inv closing_inv closing_rows_ok create_incoming_rows_ok
    create_outgoing_rows_ok)

theorem storage_consistent_witness:
  "let db = snd (FinishIncomingQuery no_faults 9 1 \<lparr>tr_rows_read = 5, tr_bytes_read = 80\<rparr>
       (snd (CreateIncomingQuery no_faults 7 ''POSTGRESQL'' empty_db)))
   in db_inv db \<and> rows_ok db"
  unfolding Let_def by (rule storage_consistent) (intro storage_reach.intros)

text \<open>The two updates have no guard on the state of the query: a cancelled query can be finished afterwards, and its
  error stays.\<close>

lemma cancelled_then_finished:
  "let db = snd (FinishIncomingQuery no_faults 3 1 st (snd (CancelIncomingQuery no_faults 2 1 ''lost'' st
       (snd (CreateIncomingQuery no_faults 1 ''YDB'' empty_db)))))
   in int (tr_rows_read st) < 2 ^ 63 \<longrightarrow> int (tr_bytes_read st) < 2 ^ 63 \<longrightarrow>
      map_option (\<lambda>r. (iq_State r, iq_Error r)) (incoming_map db 1) = Some (QueryStateFinished, Some ''lost'')"
  by (simp add: Let_def FinishIncomingQuery_def CancelIncomingQuery_def CreateIncomingQuery_def exec_update_no_faults
      on_incoming_def no_faults_def [symmetric] set_row_defs)
    (simp add: no_faults_def exec_update_no_faults [unfolded no_faults_def] empty_db_def update_rows_def incoming_map_def
      rows_map_def set_row_defs)

section \<open>The report of similar queries\<close>

definition finished_of :: "outgoing_query list \<Rightarrow> query_key \<Rightarrow> outgoing_query list" where
  "finished_of rows k = filter (\<lambda>r. query_key r = k \<and> oq_State r = QueryStateFinished) rows"

definition disagreeing_keys :: "outgoing_query list \<Rightarrow> query_key set" where
  "disagreeing_keys rows =
     {k. fst (snd (snd k)) \<noteq> [] \<and> (\<exists>r \<in> set (finished_of rows k). \<exists>q \<in> set (finished_of rows k). oq_RowsRead r \<noteq> oq_RowsRead q)}"

lemma distinct_values_two: "1 < length (remdups xs) \<longleftrightarrow> (\<exists>x \<in> set xs. \<exists>y \<in> set xs. x \<noteq> y)"
proof -
  have "(\<exists>x \<in> set xs. \<exists>y \<in> set xs. x \<noteq> y) \<longleftrightarrow> \<not> card (set xs) \<le> Suc 0"
    by (subst card_le_Suc0_iff_eq) auto
  then show ?thesis by (simp add: length_remdups_card_conv not_le)
qed

lemma different_rows_read_iff:
  "has_different_rows_read grp \<longleftrightarrow> (\<exists>r \<in> set grp. \<exists>q \<in> set grp. oq_RowsRead r \<noteq> oq_RowsRead q)"
proof (cases grp)
  case (Cons q qs)
  then show ?thesis unfolding has_different_rows_read_def list_ex_iff by simp metis
qed (simp add: has_different_rows_read_def)

lemma different_rows_read_length: "has_different_rows_read grp \<Longrightarrow> 1 < length grp"
  by (cases grp; cases "tl grp") (auto simp: has_different_rows_read_def)

lemma grouped_rows:
  assumes "fst (snd (snd k)) \<noteq> []"
  shows "filter (\<lambda>r. query_key r = k) (filter (\<lambda>r. oq_QueryText r \<noteq> [] \<and> oq_State r = QueryStateFinished) rows) = finished_of rows k"
  using assms by (auto simp: finished_of_def query_key_def intro!: filter_cong)

lemma similar_keys_set:
  "set (filter (\<lambda>k. 1 < length (filter (\<lambda>r. query_key r = k) fin) \<and>
        1 < length (remdups (map oq_RowsRead (filter (\<lambda>r. query_key r = k) fin)))) (remdups (map query_key fin))) =
   disagreeing_keys rows"
  if "fin = filter (\<lambda>r. oq_QueryText r \<noteq> [] \<and> oq_State r = QueryStateFinished) rows" for fin
proof -
  have key: "k \<in> query_key ` set fin \<longleftrightarrow> fst (snd (snd k)) \<noteq> [] \<and> finished_of rows k \<noteq> []" for k
    by (auto simp: that finished_of_def query_key_def filter_empty_conv image_iff)
  have two: "1 < length (finished_of rows k) \<and> 1 < length (remdups (map oq_RowsRead (finished_of rows k))) \<longleftrightarrow>
      (\<exists>r \<in> set (finished_of rows k). \<exists>q \<in> set (finished_of rows k). oq_RowsRead r \<noteq> oq_RowsRead q)" for k
    using different_rows_read_length [of "finished_of rows k"] unfolding different_rows_read_iff distinct_values_two set_map
    by blast
  show ?thesis
  proof (rule set_eqI)
    fix k
    show "k \<in> set (filter (\<lambda>k. 1 < length (filter (\<lambda>r. query_key r = k) fin) \<and>
        1 < length (remdups (map oq_RowsRead (filter (\<lambda>r. query_key r = k) fin)))) (remdups (map query_key fin))) \<longleftrightarrow>
      k \<in> disagreeing_keys rows"
    proof (cases "fst (snd (snd k)) = []")
      case True
      then show ?thesis using key [of k] by (simp add: disagreeing_keys_def)
    next
      case False
      then have "filter (\<lambda>r. query_key r = k) fin = finished_of rows k" using grouped_rows that by simp
      then show ?thesis using key [of k] two [of k] False by (auto simp: disagreeing_keys_def)
    qed
  qed
qed

lemma similar_groups_Ok:
  assumes "\<And>xs. set (order xs) = set xs" and "set ks \<subseteq> disagreeing_keys rows"
  shows "similar_groups order (\<lambda>k. no_faults) rows ks = Ok (map (\<lambda>k. order (finished_of rows k)) ks)"
  using assms(2)
proof (induction ks)
  case (Cons k ks)
  then have "has_different_rows_read (order (finished_of rows k))"
    by (auto simp: different_rows_read_iff assms(1) disagreeing_keys_def)
  with Cons different_rows_read_length show ?case
    by (simp add: list_fault_def no_faults_def finished_of_def [symmetric])
qed simp

text \<open>The report of similar queries lists, each once, groups of finished queries with one database, endpoint, text
  and arguments of which two read different numbers of rows, every group complete; and it lists all such groups when
  there are at most a hundred.\<close>

theorem similar_queries_exact:
  assumes keys: "\<And>xs. set (order_keys xs) = set xs \<and> (distinct xs \<longrightarrow> distinct (order_keys xs))"
    and rows: "\<And>xs. set (order xs) = set xs"
  shows "\<exists>ks. ListSimilarOutgoingQueriesWithDifferentStats order_keys order no_faults (\<lambda>k. no_faults) db =
      Ok (map (\<lambda>k. order (finished_of (outgoing_queries db) k)) ks) \<and>
    distinct ks \<and> set ks \<subseteq> disagreeing_keys (outgoing_queries db) \<and>
    (card (disagreeing_keys (outgoing_queries db)) \<le> 100 \<longrightarrow> set ks = disagreeing_keys (outgoing_queries db))"
proof (intro exI conjI)
  let ?rows = "outgoing_queries db"
  let ?ks = "similar_keys order_keys ?rows"
  obtain all where all: "set all = disagreeing_keys ?rows" "distinct all" "?ks = take 100 (order_keys all)"
  proof
    show "?ks = take 100 (order_keys (filter
        (\<lambda>k. 1 < length (filter (\<lambda>r. query_key r = k) (filter (\<lambda>r. oq_QueryText r \<noteq> [] \<and> oq_State r = QueryStateFinished) ?rows)) \<and>
           1 < length (remdups (map oq_RowsRead (filter (\<lambda>r. query_key r = k)
             (filter (\<lambda>r. oq_QueryText r \<noteq> [] \<and> oq_State r = QueryStateFinished) ?rows)))))
        (remdups (map query_key (filter (\<lambda>r. oq_QueryText r \<noteq> [] \<and> oq_State r = QueryStateFinished) ?rows)))))"
      unfolding similar_keys_def Let_def ..
  qed (rule similar_keys_set [OF refl], simp)
  have "set (order_keys all) = disagreeing_keys ?rows" and dist: "distinct (order_keys all)" using all keys by auto
  then show "set ?ks \<subseteq> disagreeing_keys ?rows" and "distinct ?ks"
    using set_take_subset [of 100 "order_keys all"] all(3) by simp_all
  then show "ListSimilarOutgoingQueriesWithDifferentStats order_keys order no_faults (\<lambda>k. no_faults) db =
      Ok (map (\<lambda>k. order (finished_of ?rows k)) ?ks)"
    using similar_groups_Ok [OF rows, of ?ks ?rows]
    by (simp add: ListSimilarOutgoingQueriesWithDifferentStats_def list_fault_def no_faults_def)
  show "card (disagreeing_keys ?rows) \<le> 100 \<longrightarrow> set ?ks = disagreeing_keys ?rows"
    using all dist \<open>set (order_keys all) = _\<close> distinct_card [OF dist] by auto
qed


theorem similar_queries_exact_witness:
  "\<exists>ks. ListSimilarOutgoingQueriesWithDifferentStats rev rev no_faults (\<lambda>k. no_faults)
        (snd (run_ops [OpCreateIncoming 1 ''YDB'', OpCreateOutgoing 2 1 ''db'' ''h:1'' ''SELECT 1'' '''',
           OpCreateOutgoing 2 1 ''db'' ''h:1'' ''SELECT 1'' '''', OpFinishOutgoing 3 1 10, OpFinishOutgoing 4 2 11] empty_db)) =
      Ok (map (\<lambda>k. rev (finished_of (outgoing_queries
        (snd (run_ops [OpCreateIncoming 1 ''YDB'', OpCreateOutgoing 2 1 ''db'' ''h:1'' ''SELECT 1'' '''',
           OpCreateOutgoing 2 1 ''db'' ''h:1'' ''SELECT 1'' '''', OpFinishOutgoing 3 1 10, OpFinishOutgoing 4 2 11] empty_db))) k)) ks)"
  using similar_queries_exact [of rev rev "snd (run_ops [OpCreateIncoming 1 ''YDB'',
      OpCreateOutgoing 2 1 ''db'' ''h:1'' ''SELECT 1'' '''', OpCreateOutgoing 2 1 ''db'' ''h:1'' ''SELECT 1'' '''',
      OpFinishOutgoing 3 1 10, OpFinishOutgoing 4 2 11] empty_db)"]
  unfolding set_rev distinct_rev by blast

end
