(* ===== verification/DataSource.thy ===== *)
theory DataSource
  imports Splits Observation
begin

text \<open>
  The relational data source (\<^verbatim>\<open>rdbms/datasource.go\<close>): describing a table over its first connection, and reading a
  split over all its connections at once, each in a goroutine of its own that registers its query in the storage of
  observations. The connections come from \<open>make_connections\<close>; the schema a connection gives, the query made for it and
  the outcome of reading it (theory \<open>Streaming\<close>) are parameters of the handlers. The goroutines share the storage:
  \<open>rd_step\<close> has one rule per access to it, so a run is any interleaving of them.
\<close>

section \<open>Describing a table\<close>

definition ds_DescribeTable :: "'k list res option \<Rightarrow> ('k \<Rightarrow> 's res) \<Rightarrow> 's res option" where
  "ds_DescribeTable connections getSchema =
     (case connections of
        None \<Rightarrow> None
      | Some (Err e) \<Rightarrow> Some (Err e)
      | Some (Panic m) \<Rightarrow> Some (Panic m)
      | Some (Ok []) \<Rightarrow> Some (Panic ''index out of range'')
      | Some (Ok (conn # _)) \<Rightarrow> Some (wrap_res ''get schema'' (getSchema conn)))"

definition ds_ListSplits :: "'x \<times> unit res \<Rightarrow> 'x \<times> unit res" where
  "ds_ListSplits run = wrap_snd ''list splits'' run"

section \<open>Reading a split\<close>

record connection =
  cn_database :: string
  cn_endpoint :: string
  cn_query :: "(string \<times> string) res"
  cn_outcome :: "nat res"

datatype conn_state = Waiting | Reading nat | Stopped "go_error option"

record read_state =
  rd_db :: sqlite_db
  rd_conns :: "conn_state list"
  rd_error :: "go_error option"

text \<open>What \<^verbatim>\<open>errgroup\<close> keeps: the first error.\<close>

definition first_error :: "go_error option \<Rightarrow> go_error option \<Rightarrow> go_error option" where
  "first_error kept r = (case kept of Some e \<Rightarrow> Some e | None \<Rightarrow> r)"

definition stop :: "nat \<Rightarrow> go_error option \<Rightarrow> sqlite_db \<Rightarrow> read_state \<Rightarrow> read_state" where
  "stop j r db st = st\<lparr>rd_db := db, rd_conns := (rd_conns st)[j := Stopped r], rd_error := first_error (rd_error st) r\<rparr>"

inductive rd_step :: "faults set \<Rightarrow> nat \<Rightarrow> connection list \<Rightarrow> read_state \<Rightarrow> read_state \<Rightarrow> bool"
  for Fs incoming cs where
  query_fails: "j < length cs \<Longrightarrow> rd_conns st ! j = Waiting \<Longrightarrow> cn_query (cs ! j) = Err e \<Longrightarrow>
    rd_step Fs incoming cs st (stop j (Some (Wrap ''make select query'' e)) (rd_db st) st)"
| create_fails: "j < length cs \<Longrightarrow> rd_conns st ! j = Waiting \<Longrightarrow> cn_query (cs ! j) = Ok (qt, args) \<Longrightarrow>
    CreateOutgoingQuery T now incoming (cn_database (cs ! j)) (cn_endpoint (cs ! j)) qt args (rd_db st) = (Err e, db) \<Longrightarrow>
    rd_step Fs incoming cs st (stop j (Some (Wrap ''create outgoing query'' e)) db st)"
| create_succeeds: "j < length cs \<Longrightarrow> rd_conns st ! j = Waiting \<Longrightarrow> cn_query (cs ! j) = Ok (qt, args) \<Longrightarrow>
    CreateOutgoingQuery T now incoming (cn_database (cs ! j)) (cn_endpoint (cs ! j)) qt args (rd_db st) = (Ok i, db) \<Longrightarrow>
    rd_step Fs incoming cs st (st\<lparr>rd_db := db, rd_conns := (rd_conns st)[j := Reading i]\<rparr>)"
| reading_fails: "j < length cs \<Longrightarrow> rd_conns st ! j = Reading i \<Longrightarrow> cn_outcome (cs ! j) = Err e \<Longrightarrow> F \<in> Fs \<Longrightarrow>
    CancelOutgoingQuery F now i (error_text e) (rd_db st) = (r, db) \<Longrightarrow>
    rd_step Fs incoming cs st (stop j (Some (Wrap ''do read split single conn'' e)) db st)"
| reading_succeeds: "j < length cs \<Longrightarrow> rd_conns st ! j = Reading i \<Longrightarrow> cn_outcome (cs ! j) = Ok n \<Longrightarrow> F \<in> Fs \<Longrightarrow>
    FinishOutgoingQuery F now i (int n) (rd_db st) = (r, db) \<Longrightarrow>
    rd_step Fs incoming cs st (stop j None db st)"

definition rd_start :: "sqlite_db \<Rightarrow> connection list \<Rightarrow> read_state" where
  "rd_start db cs = \<lparr>rd_db = db, rd_conns = replicate (length cs) Waiting, rd_error = None\<rparr>"

inductive rd_reach :: "faults set \<Rightarrow> nat \<Rightarrow> connection list \<Rightarrow> sqlite_db \<Rightarrow> read_state \<Rightarrow> bool" for Fs incoming cs db where
  start: "rd_reach Fs incoming cs db (rd_start db cs)"
| step: "rd_reach Fs incoming cs db st \<Longrightarrow> rd_step Fs incoming cs st st' \<Longrightarrow> rd_reach Fs incoming cs db st'"

text \<open>\<^verbatim>\<open>group.Wait\<close> returns when every goroutine has.\<close>

definition all_stopped :: "read_state \<Rightarrow> bool" where
  "all_stopped st \<longleftrightarrow> (\<forall>c \<in> set (rd_conns st). \<exists>r. c = Stopped r)"

definition group_result :: "read_state \<Rightarrow> unit res" where
  "group_result st = (case rd_error st of None \<Rightarrow> Ok () | Some e \<Rightarrow> Err (Wrap ''group wait'' e))"

section \<open>Queries that run\<close>

definition running_outgoing :: "sqlite_db \<Rightarrow> nat set" where
  "running_outgoing db = {i. \<exists>r. outgoing_map db i = Some r \<and> oq_State r = QueryStateRunning}"

definition running_incoming :: "sqlite_db \<Rightarrow> nat set" where
  "running_incoming db = {i. \<exists>r. incoming_map db i = Some r \<and> iq_State r = QueryStateRunning}"

lemma running_is_locale: "running_outgoing = outq.running" "running_incoming = inq.running"
  by (simp_all add: fun_eq_iff running_outgoing_def running_incoming_def outq.running_def inq.running_def)

text \<open>A fault-free close of a query the storage knows succeeds.\<close>

lemma close_outgoing_succeeds:
  assumes "outgoing_map db i \<noteq> None" and "int i < 2 ^ 63"
  shows "fst (close_outgoing i (no_faults, now, outcome) db) = Ok ()"
  using assms by (auto simp: close_outgoing_exec on_outgoing_def exec_update_no_faults outgoing_map_def)

lemma close_outgoing_running:
  assumes "db_inv db" and "i \<in> running_outgoing db" and "int i < 2 ^ 63"
  shows "running_outgoing (snd (close_outgoing i (no_faults, now, outcome) db)) = running_outgoing db - {i}"
proof -
  obtain r db' where c: "close_outgoing i (no_faults, now, outcome) db = (r, db')" by fastforce
  moreover have "outgoing_map db i \<noteq> None" using assms(2) by (auto simp: running_outgoing_def)
  ultimately have "r = Ok ()" using close_outgoing_succeeds [OF _ assms(3)] by (metis fst_conv)
  with c show ?thesis using outq.running_close [OF assms(1)] by (simp add: running_is_locale)
qed

lemma close_outgoing_eqs:
  "CancelOutgoingQuery F now i m db = close_outgoing i (F, now, Inl m) db"
  "FinishOutgoingQuery F now i n db = close_outgoing i (F, now, Inr n) db"
  by (simp_all add: close_outgoing_def)

lemma close_outgoing_frame:
  "incoming_map (snd (close_outgoing i b db)) = incoming_map db"
  "outgoing_seq (snd (close_outgoing i b db)) = outgoing_seq db"
proof -
  obtain F now outcome where b: "b = (F, now, outcome)" by (cases b)
  show "incoming_map (snd (close_outgoing i b db)) = incoming_map db" "outgoing_seq (snd (close_outgoing i b db)) = outgoing_seq db"
    unfolding b close_outgoing_exec by (simp_all add: on_outgoing_def incoming_map_def)
qed

lemma close_outgoing_incoming_seq: "incoming_seq (snd (close_outgoing i b db)) = incoming_seq db"
proof -
  obtain F now outcome where b: "b = (F, now, outcome)" by (cases b)
  show ?thesis unfolding b close_outgoing_exec by (simp add: on_outgoing_def)
qed

lemma create_outgoing_incoming_seq: "incoming_seq (snd (CreateOutgoingQuery T now j d e q a db)) = incoming_seq db"
  by (simp add: CreateOutgoingQuery_def Let_def split: res.splits)

lemma create_outgoing_Err: "CreateOutgoingQuery T now j d e q a db = (Err x, db') \<Longrightarrow> db' = db"
  by (auto simp: CreateOutgoingQuery_def Let_def split: res.splits)

lemma create_outgoing_seq: "CreateOutgoingQuery T now j d e q a db = (Ok i, db') \<Longrightarrow> outgoing_seq db' = outgoing_seq db + 1"
  by (auto simp: CreateOutgoingQuery_def Let_def split: res.splits)

lemma running_bounded: "db_inv db \<Longrightarrow> i \<in> running_outgoing db \<Longrightarrow> i \<le> outgoing_seq db"
proof -
  assume inv: "db_inv db" and i: "i \<in> running_outgoing db"
  then have "i \<in> oq_ID ` set (outgoing_queries db)"
    using rows_map_None [of oq_ID "outgoing_queries db" i] by (auto simp: running_outgoing_def outgoing_map_def)
  then show ?thesis using inv by (auto simp: db_inv_def table_inv_def)
qed

section \<open>Invariant of the goroutines\<close>

definition waiting :: "conn_state list \<Rightarrow> nat" where
  "waiting cs = length (filter (\<lambda>c. c = Waiting) cs)"

fun reading_id :: "conn_state \<Rightarrow> nat list" where
  "reading_id (Reading i) = [i]"
| "reading_id _ = []"

definition readings :: "conn_state list \<Rightarrow> nat list" where
  "readings cs = concat (map reading_id cs)"

definition failures :: "conn_state list \<Rightarrow> go_error set" where
  "failures cs = {e. Stopped (Some e) \<in> set cs}"

definition rd_inv :: "nat \<Rightarrow> sqlite_db \<Rightarrow> read_state \<Rightarrow> bool" where
  "rd_inv n db st \<longleftrightarrow>
     length (rd_conns st) = n \<and> db_inv (rd_db st) \<and> incoming_map (rd_db st) = incoming_map db \<and>
     outgoing_seq (rd_db st) + waiting (rd_conns st) \<le> outgoing_seq db + n \<and>
     running_outgoing (rd_db st) = running_outgoing db \<union> set (readings (rd_conns st)) \<and>
     running_outgoing db \<inter> set (readings (rd_conns st)) = {} \<and> distinct (readings (rd_conns st)) \<and>
     (case rd_error st of None \<Rightarrow> failures (rd_conns st) = {} | Some e \<Rightarrow> e \<in> failures (rd_conns st))"

lemma update_split:
  assumes "j < length cs"
  obtains l r where "cs = l @ cs ! j # r" and "\<And>c. cs[j := c] = l @ c # r"
  using assms id_take_nth_drop upd_conv_take_nth_drop by metis

lemma waiting_update:
  assumes "j < length cs" and "c \<noteq> Waiting"
  shows "waiting (cs[j := c]) + (if cs ! j = Waiting then 1 else 0) = waiting cs"
proof -
  obtain l r where *: "cs = l @ cs ! j # r" "\<And>c. cs[j := c] = l @ c # r" using update_split [OF assms(1)] by blast
  have "waiting cs = waiting l + (if cs ! j = Waiting then 1 else 0) + waiting r"
    by (subst *(1)) (simp add: waiting_def)
  then show ?thesis unfolding *(2) using assms(2) by (simp add: waiting_def)
qed

lemma readings_update:
  assumes "j < length cs"
  obtains ks where "mset (readings cs) = mset (reading_id (cs ! j)) + mset ks"
    and "\<And>c. mset (readings (cs[j := c])) = mset (reading_id c) + mset ks"
proof -
  obtain l r where *: "cs = l @ cs ! j # r" "\<And>c. cs[j := c] = l @ c # r" using update_split [OF assms] by blast
  show ?thesis
  proof
    show "mset (readings cs) = mset (reading_id (cs ! j)) + mset (readings (l @ r))"
      by (subst *(1)) (simp add: readings_def)
    show "mset (readings (cs[j := c])) = mset (reading_id c) + mset (readings (l @ r))" for c
      unfolding *(2) by (simp add: readings_def)
  qed
qed

lemma failures_update:
  assumes "j < length cs" and "\<And>r. cs ! j \<noteq> Stopped r"
  shows "failures (cs[j := c]) = failures cs \<union> {e. c = Stopped (Some e)}"
proof -
  obtain l r where *: "cs = l @ cs ! j # r" "\<And>c. cs[j := c] = l @ c # r" using update_split [OF assms(1)] by blast
  have "Stopped x \<noteq> cs ! j" for x using assms(2) by metis
  then have "failures cs = failures l \<union> failures r" by (subst *(1)) (auto simp: failures_def)
  moreover have "failures (cs[j := c]) = failures l \<union> failures r \<union> {e. c = Stopped (Some e)}"
    unfolding *(2) by (auto simp: failures_def)
  ultimately show ?thesis by simp
qed

lemma rd_inv_error:
  assumes "rd_inv n db st" and "j < n" and "\<And>r. rd_conns st ! j \<noteq> Stopped r"
  shows "case first_error (rd_error st) r of
      None \<Rightarrow> failures ((rd_conns st)[j := Stopped r]) = {} | Some e \<Rightarrow> e \<in> failures ((rd_conns st)[j := Stopped r])"
  using assms failures_update [of j "rd_conns st" "Stopped r"]
  by (auto simp: rd_inv_def first_error_def split: option.splits)

lemma stop_inv:
  assumes inv: "rd_inv n db st" and "j < n" and state: "\<And>r. rd_conns st ! j \<noteq> Stopped r"
    and "db_inv db'" and "incoming_map db' = incoming_map (rd_db st)" and "outgoing_seq db' = outgoing_seq (rd_db st)"
    and "running_outgoing db' = running_outgoing (rd_db st) - set (reading_id (rd_conns st ! j))"
  shows "rd_inv n db (stop j r db' st)"
proof -
  let ?cs = "rd_conns st"
  have j: "j < length ?cs" using inv assms(2) by (simp add: rd_inv_def)
  from readings_update [OF j] obtain ks where
    ks: "mset (readings ?cs) = mset (reading_id (?cs ! j)) + mset ks"
      "mset (readings (?cs[j := Stopped r])) = mset ks"
    by (metis add.left_neutral mset.simps(1) reading_id.simps(3))
  have d: "distinct (reading_id (?cs ! j) @ ks)" and s: "set (readings ?cs) = set (reading_id (?cs ! j)) \<union> set ks"
    using inv ks(1) mset_eq_imp_distinct_iff [of "readings ?cs" "reading_id (?cs ! j) @ ks"]
      mset_eq_setD [of "readings ?cs" "reading_id (?cs ! j) @ ks"] by (simp_all add: rd_inv_def)
  have d': "distinct (readings (?cs[j := Stopped r]))" and s': "set (readings (?cs[j := Stopped r])) = set ks"
    using d mset_eq_imp_distinct_iff [OF ks(2)] mset_eq_setD [OF ks(2)] by simp_all
  have "outgoing_seq db' + waiting (?cs[j := Stopped r]) \<le> outgoing_seq db + n"
    using inv waiting_update [OF j, of "Stopped r"] assms(6) by (simp add: rd_inv_def)
  moreover have "running_outgoing db' = running_outgoing db \<union> set ks"
    using inv d s assms(7) by (auto simp: rd_inv_def)
  moreover have "running_outgoing db \<inter> set ks = {}" using inv s by (auto simp: rd_inv_def)
  ultimately show ?thesis
    using inv assms(4,5) d' s' rd_inv_error [OF inv assms(2) state, of r]
    by (cases "first_error (rd_error st) r") (simp_all add: rd_inv_def stop_def)
qed

lemma start_reading_inv:
  assumes inv: "rd_inv n db st" and "j < n" and state: "rd_conns st ! j = Waiting"
    and c: "CreateOutgoingQuery T now incoming d e q a (rd_db st) = (Ok i, db')"
  shows "rd_inv n db (st\<lparr>rd_db := db', rd_conns := (rd_conns st)[j := Reading i]\<rparr>)"
proof -
  let ?cs = "rd_conns st"
  have j: "j < length ?cs" and db: "db_inv (rd_db st)" using inv assms(2) by (simp_all add: rd_inv_def)
  from readings_update [OF j] obtain ks where
    ks: "mset (readings ?cs) = mset ks" "mset (readings (?cs[j := Reading i])) = mset (i # ks)"
    by (metis add.left_neutral add_mset_add_single mset.simps reading_id.simps(1,2) state union_commute)
  note new = outq.running_create [OF db, of "(T, now, incoming, d, e, q, a)" i db', simplified, OF c, folded running_is_locale]
  have i: "i \<notin> running_outgoing (rd_db st)" "running_outgoing db' = insert i (running_outgoing (rd_db st))" using new by simp_all
  have s: "set (readings ?cs) = set ks" "distinct ks"
    using inv mset_eq_setD [OF ks(1)] mset_eq_imp_distinct_iff [OF ks(1)] by (simp_all add: rd_inv_def)
  with i(1) inv have "i \<notin> set ks" by (auto simp: rd_inv_def)
  then have s': "set (readings (?cs[j := Reading i])) = insert i (set ks)" "distinct (readings (?cs[j := Reading i]))"
    using ks(2) s(2) mset_eq_setD [OF ks(2)] mset_eq_imp_distinct_iff [OF ks(2)] by simp_all
  have "db_inv db'" using CreateOutgoingQuery_inv [OF db, of T now incoming d e q a] c by simp
  moreover have "incoming_map db' = incoming_map db" using create_outgoing_Ok(5) [OF db c] inv by (simp add: rd_inv_def)
  moreover have "outgoing_seq db' + waiting (?cs[j := Reading i]) \<le> outgoing_seq db + n"
    using inv waiting_update [OF j, of "Reading i"] create_outgoing_seq [OF c] state by (simp add: rd_inv_def)
  moreover have "failures (?cs[j := Reading i]) = failures ?cs" using failures_update [OF j] state by simp
  ultimately show ?thesis using inv i s s' by (auto simp: rd_inv_def split: option.splits)
qed

lemma rd_step_inv:
  assumes "rd_step {no_faults} incoming cs st st'" and inv: "rd_inv (length cs) db st"
    and bound: "int (outgoing_seq db) + int (length cs) < 2 ^ 63"
  shows "rd_inv (length cs) db st'"
proof -
  have db: "db_inv (rd_db st)" using inv by (simp add: rd_inv_def)
  have close: "rd_inv (length cs) db (stop j r (snd (close_outgoing i (no_faults, now, outcome) (rd_db st))) st)"
    if "j < length cs" and "rd_conns st ! j = Reading i" for j i r now outcome
  proof (rule stop_inv [OF inv that(1)])
    show "rd_conns st ! j \<noteq> Stopped r" for r using that(2) by simp
    show "db_inv (snd (close_outgoing i (no_faults, now, outcome) (rd_db st)))" by (rule outq.close_inv [OF db])
    from that inv have "i \<in> set (readings (rd_conns st))"
      by (force simp: readings_def rd_inv_def in_set_conv_nth)
    then have "i \<in> running_outgoing (rd_db st)" using inv by (simp add: rd_inv_def)
    moreover have "int i < 2 ^ 63"
      using running_bounded [OF db \<open>i \<in> running_outgoing (rd_db st)\<close>] inv bound by (simp add: rd_inv_def)
    ultimately show "running_outgoing (snd (close_outgoing i (no_faults, now, outcome) (rd_db st))) =
        running_outgoing (rd_db st) - set (reading_id (rd_conns st ! j))"
      using close_outgoing_running [OF db] that(2) by simp
  qed (simp_all add: close_outgoing_frame)
  from assms(1) show ?thesis
  proof cases
    case (query_fails j e)
    then show ?thesis by (auto intro!: stop_inv [OF inv] db)
  next
    case (create_fails j qt args T now e db')
    then show ?thesis using create_outgoing_Err [OF create_fails(5)] by (auto intro!: stop_inv [OF inv] db)
  next
    case (create_succeeds j qt args T now i db')
    then show ?thesis using start_reading_inv [OF inv] by simp
  next
    case (reading_fails j i e F now r db')
    then show ?thesis using close [of j i _ now "Inl (error_text e)"] by (simp add: close_outgoing_eqs)
  next
    case (reading_succeeds j i n F now r db')
    then show ?thesis using close [of j i _ now "Inr (int n)"] by (simp add: close_outgoing_eqs)
  qed
qed

text \<open>Whatever the faults, the goroutines keep the storage consistent and leave the incoming queries alone.\<close>

lemma rd_reach_frame:
  assumes "rd_reach Fs incoming cs db st" and "db_inv db"
  shows "db_inv (rd_db st) \<and> incoming_map (rd_db st) = incoming_map db \<and> incoming_seq (rd_db st) = incoming_seq db"
  using assms(1)
proof induction
  case start
  show ?case using assms(2) by (simp add: rd_start_def)
next
  case (step st st')
  then have inv: "db_inv (rd_db st)" by simp
  have close: "db_inv d \<and> incoming_map d = incoming_map (rd_db st) \<and> incoming_seq d = incoming_seq (rd_db st)"
    if "d = snd (close_outgoing i b (rd_db st))" for d i b
    unfolding that by (simp add: outq.close_inv [OF inv] close_outgoing_frame close_outgoing_incoming_seq)
  from step.hyps(2) show ?case
  proof cases
    case (create_fails j qt args T now e db')
    then show ?thesis using step.IH create_outgoing_Err [OF create_fails(5)] by (simp add: stop_def)
  next
    case (create_succeeds j qt args T now i db')
    then show ?thesis
      using step.IH create_outgoing_Ok(5) [OF inv create_succeeds(5)]
        create_outgoing_incoming_seq [of T now incoming "cn_database (cs ! j)" "cn_endpoint (cs ! j)" qt args "rd_db st"]
        CreateOutgoingQuery_inv [OF inv, of T now incoming "cn_database (cs ! j)" "cn_endpoint (cs ! j)" qt args] by simp
  next
    case (reading_fails j i e F now r db')
    then have "db' = snd (close_outgoing i (F, now, Inl (error_text e)) (rd_db st))" by (simp add: close_outgoing_eqs)
    from close [OF this] reading_fails step.IH show ?thesis by (simp add: stop_def)
  next
    case (reading_succeeds j i n F now r db')
    then have "db' = snd (close_outgoing i (F, now, Inr (int n)) (rd_db st))" by (simp add: close_outgoing_eqs)
    from close [OF this] reading_succeeds step.IH show ?thesis by (simp add: stop_def)
  qed (use step.IH in \<open>simp add: stop_def\<close>)
qed

lemma rd_start_inv: "db_inv db \<Longrightarrow> rd_inv (length cs) db (rd_start db cs)"
  by (simp add: rd_inv_def rd_start_def waiting_def readings_def failures_def)

lemma all_stopped_readings: "all_stopped st \<Longrightarrow> readings (rd_conns st) = []"
  unfolding all_stopped_def readings_def by (force simp: concat_eq_Nil_conv)

text \<open>C6: reading a split leaves no query of its own behind. However the goroutines of its connections interleave,
  and whichever of them fail, when all have returned the outgoing queries recorded as running are those that were
  running before, no incoming query was touched, and the group reports an error exactly when a connection failed.\<close>

theorem read_split_closes_outgoing_queries:
  assumes "rd_reach {no_faults} incoming cs db st" and "db_inv db"
    and "int (outgoing_seq db) + int (length cs) < 2 ^ 63" and "all_stopped st"
  shows "running_outgoing (rd_db st) = running_outgoing db \<and> incoming_map (rd_db st) = incoming_map db \<and>
    db_inv (rd_db st) \<and> (group_result st = Ok () \<longleftrightarrow> set (rd_conns st) \<subseteq> {Stopped None})"
proof -
  have inv: "rd_inv (length cs) db st"
    using assms(1)
  proof induction
    case start
    show ?case by (rule rd_start_inv [OF assms(2)])
  next
    case (step st st')
    then show ?case using rd_step_inv assms(3) by blast
  qed
  have "group_result st = Ok () \<longleftrightarrow> failures (rd_conns st) = {}"
    using inv by (auto simp: rd_inv_def group_result_def split: option.splits)
  also have "\<dots> \<longleftrightarrow> set (rd_conns st) \<subseteq> {Stopped None}"
  proof
    assume none: "failures (rd_conns st) = {}"
    show "set (rd_conns st) \<subseteq> {Stopped None}"
    proof
      fix c assume c: "c \<in> set (rd_conns st)"
      then obtain r where "c = Stopped r" using assms(4) by (auto simp: all_stopped_def)
      with c none show "c \<in> {Stopped None}" by (cases r) (auto simp: failures_def)
    qed
  qed (auto simp: failures_def)
  finally show ?thesis using inv all_stopped_readings [OF assms(4)] by (simp add: rd_inv_def)
qed

text \<open>Two connections: one reads its rows, the other fails; the second one is registered while the first runs.\<close>

definition demo_db :: sqlite_db where
  "demo_db = snd (CreateIncomingQuery no_faults 0 ''YDB'' empty_db)"

definition demo_connection :: "nat res \<Rightarrow> connection" where
  "demo_connection r = \<lparr>cn_database = ''db'', cn_endpoint = ''h:1'', cn_query = Ok (''SELECT 1'', ''''), cn_outcome = r\<rparr>"

definition demo_connections :: "connection list" where
  "demo_connections = [demo_connection (Ok 5), demo_connection (Err (NewErr ''lost''))]"

definition demo_created :: "nat \<Rightarrow> sqlite_db \<Rightarrow> sqlite_db" where
  "demo_created t db = snd (CreateOutgoingQuery no_tx_faults (int t) 1 ''db'' ''h:1'' ''SELECT 1'' '''' db)"

definition demo_both :: sqlite_db where
  "demo_both = demo_created 2 (demo_created 1 demo_db)"

definition demo_end :: sqlite_db where
  "demo_end = snd (FinishOutgoingQuery no_faults 4 1 5 (snd (CancelOutgoingQuery no_faults 3 2 ''lost'' demo_both)))"

definition demo_final :: read_state where
  "demo_final = \<lparr>rd_db = demo_end, rd_conns = [Stopped None, Stopped (Some (Wrap ''do read split single conn'' (NewErr ''lost'')))],
     rd_error = Some (Wrap ''do read split single conn'' (NewErr ''lost''))\<rparr>"

lemma demo_creates:
  "CreateOutgoingQuery no_tx_faults 1 1 ''db'' ''h:1'' ''SELECT 1'' '''' demo_db = (Ok 1, demo_created 1 demo_db)"
  "CreateOutgoingQuery no_tx_faults 2 1 ''db'' ''h:1'' ''SELECT 1'' '''' (demo_created 1 demo_db) = (Ok 2, demo_both)"
  by (simp_all add: demo_both_def demo_created_def demo_db_def CreateIncomingQuery_def CreateOutgoingQuery_def empty_db_def
      no_faults_def no_tx_faults_def fail_if_def)

lemma demo_run: "rd_reach {no_faults} 1 demo_connections demo_db demo_final"
proof -
  let ?reach = "rd_reach {no_faults} 1 demo_connections demo_db"
  have "?reach \<lparr>rd_db = demo_db, rd_conns = [Waiting, Waiting], rd_error = None\<rparr>"
    using rd_reach.start [of "{no_faults}" 1 demo_connections demo_db] by (simp add: rd_start_def demo_connections_def)
  from rd_reach.step [OF this rd_step.create_succeeds [where j = 0 and i = 1 and qt = "''SELECT 1''" and args = "''''"
        and T = no_tx_faults and now = 1 and db = "demo_created 1 demo_db"]]
  have "?reach \<lparr>rd_db = demo_created 1 demo_db, rd_conns = [Reading 1, Waiting], rd_error = None\<rparr>"
    by (simp add: demo_connections_def demo_connection_def demo_creates [simplified])
  from rd_reach.step [OF this rd_step.create_succeeds [where j = 1 and i = 2 and qt = "''SELECT 1''" and args = "''''"
        and T = no_tx_faults and now = 2 and db = demo_both]]
  have "?reach \<lparr>rd_db = demo_both, rd_conns = [Reading 1, Reading 2], rd_error = None\<rparr>"
    by (simp add: demo_connections_def demo_connection_def demo_creates [simplified])
  from rd_reach.step [OF this rd_step.reading_fails [where j = 1 and i = 2 and e = "NewErr ''lost''" and F = no_faults and now = 3
        and r = "fst (CancelOutgoingQuery no_faults 3 2 ''lost'' demo_both)" and db = "snd (CancelOutgoingQuery no_faults 3 2 ''lost'' demo_both)"]]
  have "?reach \<lparr>rd_db = snd (CancelOutgoingQuery no_faults 3 2 ''lost'' demo_both),
      rd_conns = [Reading 1, Stopped (Some (Wrap ''do read split single conn'' (NewErr ''lost'')))],
      rd_error = Some (Wrap ''do read split single conn'' (NewErr ''lost''))\<rparr>"
    by (simp add: demo_connections_def demo_connection_def stop_def first_error_def)
  from rd_reach.step [OF this rd_step.reading_succeeds [where j = 0 and i = 1 and n = 5 and F = no_faults and now = 4
        and r = "fst (FinishOutgoingQuery no_faults 4 1 5 (snd (CancelOutgoingQuery no_faults 3 2 ''lost'' demo_both)))"
        and db = demo_end]]
  show ?thesis
    by (simp add: demo_connections_def demo_connection_def stop_def first_error_def demo_end_def demo_final_def)
qed

theorem read_split_closes_outgoing_queries_witness:
  "running_outgoing demo_end = running_outgoing demo_db \<and> incoming_map demo_end = incoming_map demo_db \<and> db_inv demo_end \<and>
   group_result demo_final \<noteq> Ok ()"
proof -
  have db: "db_inv demo_db"
    unfolding demo_db_def by (rule CreateIncomingQuery_inv) (simp add: db_inv_def table_inv_def empty_db_def)
  have "outgoing_seq demo_db = 0" by (simp add: demo_db_def CreateIncomingQuery_def no_faults_def empty_db_def)
  then have "int (outgoing_seq demo_db) + int (length demo_connections) < 2 ^ 63" by (simp add: demo_connections_def)
  moreover have "all_stopped demo_final" by (simp add: all_stopped_def demo_final_def)
  ultimately show ?thesis
    using read_split_closes_outgoing_queries [OF demo_run db] by (simp add: demo_final_def)
qed

end
