(* ===== verification/Validation.thy ===== *)
theory Validation
  imports ApiErrors Config ColumnarBuffers
begin

text \<open>
  The requests of the connector and their validation (\<^verbatim>\<open>src/app/server/validate.go\<close>), and the annotation of a logger
  with a data source instance (\<^verbatim>\<open>src/common/logger.go\<close>). A message that can be nil is an option. The options of a data
  source instance are a oneof; reading another alternative gives the empty string. What the validators log is left out.
\<close>

section \<open>Messages\<close>

datatype dsi_options =
    NoOptions
  | PgOptions string
  | GpOptions string
  | OracleOptions string
  | LoggingOptions string
  | OtherOptions nat

datatype protocol = PROTOCOL_UNSPECIFIED | NATIVE | HTTP

record data_source_instance =
  dsi_Kind :: data_source_kind
  dsi_Endpoint :: "TGenericEndpoint option"
  dsi_Database :: string
  dsi_UseTls :: bool
  dsi_Protocol :: protocol
  dsi_Options :: dsi_options

record tselect =
  sl_DataSourceInstance :: "data_source_instance option"
  sl_What :: select_what

record tsplit =
  tsp_Id :: u64
  tsp_Select :: "tselect option"

record describe_request =
  dr_DataSourceInstance :: "data_source_instance option"
  dr_Table :: string

record list_splits_request =
  lsr_Selects :: "tselect option list"
  lsr_MaxSplitCount :: u32
  lsr_SplitNumberLimit :: u32
  lsr_SplitSize :: u64

record read_splits_request =
  rsr_Splits :: "tsplit list"
  rsr_Format :: page_format

fun GetPgSchema :: "dsi_options \<Rightarrow> string" where
  "GetPgSchema (PgOptions s) = s"
| "GetPgSchema _ = []"

fun GetServiceName :: "dsi_options \<Rightarrow> string" where
  "GetServiceName (OracleOptions s) = s"
| "GetServiceName _ = []"

fun GetFolderId :: "dsi_options \<Rightarrow> string" where
  "GetFolderId (LoggingOptions s) = s"
| "GetFolderId _ = []"

section \<open>Validators\<close>

definition invalid :: "string \<Rightarrow> 'a res" where
  "invalid what = Err (Wrap what (Sentinel ErrInvalidRequest))"

definition dsi_validateEndpoint :: "data_source_instance \<Rightarrow> unit res" where
  "dsi_validateEndpoint dsi =
     (case dsi_Endpoint dsi of
        None \<Rightarrow> invalid ''endpoint is empty''
      | Some ep \<Rightarrow>
          if ep_host ep = [] then invalid ''endpoint.host is empty''
          else if ep_port ep = 0 then invalid ''endpoint.port is empty''
          else Ok ())"

definition validateDatabase :: "data_source_instance \<Rightarrow> unit res" where
  "validateDatabase dsi = (if dsi_Database dsi = [] then invalid ''database is empty'' else Ok ())"

definition validateUseTLS :: "data_source_instance \<Rightarrow> unit res" where
  "validateUseTLS dsi = Ok ()"

definition validateDataSourceOptions :: "data_source_instance \<Rightarrow> unit res" where
  "validateDataSourceOptions dsi =
     (case dsi_Kind dsi of
        POSTGRESQL \<Rightarrow> if GetPgSchema (dsi_Options dsi) = [] then invalid ''schema field is empty'' else Ok ()
      | ORACLE \<Rightarrow> if GetServiceName (dsi_Options dsi) = [] then invalid ''service_name field is empty'' else Ok ()
      | MS_SQL_SERVER \<Rightarrow> Ok ()
      | GREENPLUM \<Rightarrow> Ok ()
      | LOGGING \<Rightarrow> if GetFolderId (dsi_Options dsi) = [] then invalid ''folder_id field is empty'' else Ok ()
      | CLICKHOUSE \<Rightarrow> Ok ()
      | S3 \<Rightarrow> Ok ()
      | YDB \<Rightarrow> Ok ()
      | MYSQL \<Rightarrow> Ok ()
      | MONGO_DB \<Rightarrow> Ok ()
      | REDIS \<Rightarrow> Ok ()
      | OPENSEARCH \<Rightarrow> Ok ()
      | _ \<Rightarrow> invalid ''unsupported data source'')"

fun run_validators :: "(data_source_instance \<Rightarrow> unit res) list \<Rightarrow> data_source_instance \<Rightarrow> unit res" where
  "run_validators [] dsi = Ok ()"
| "run_validators (v # vs) dsi =
     bind_res (wrap_res ''validate data source instance'' (v dsi)) (\<lambda>_. run_validators vs dsi)"

definition validateDataSourceInstance :: "data_source_instance option \<Rightarrow> unit res" where
  "validateDataSourceInstance dsi =
     (case dsi of
        None \<Rightarrow> invalid ''empty data source instance''
      | Some dsi \<Rightarrow>
          if dsi_Kind dsi = KIND_UNSPECIFIED then invalid ''empty kind''
          else run_validators
            ((if dsi_Kind dsi = LOGGING then []
              else if dsi_Kind dsi = ORACLE then [dsi_validateEndpoint, validateUseTLS]
              else [dsi_validateEndpoint, validateDatabase, validateUseTLS]) @ [validateDataSourceOptions]) dsi)"

definition validateSelect :: "tselect option \<Rightarrow> unit res" where
  "validateSelect slct =
     (case slct of
        None \<Rightarrow> invalid ''select is empty''
      | Some slct \<Rightarrow> wrap_res ''validate data source instance'' (validateDataSourceInstance (sl_DataSourceInstance slct)))"

definition validateSplit :: "tsplit \<Rightarrow> unit res" where
  "validateSplit split = wrap_res ''validate select'' (validateSelect (tsp_Select split))"

definition ValidateDescribeTableRequest :: "describe_request \<Rightarrow> unit res" where
  "ValidateDescribeTableRequest request =
     bind_res (wrap_res ''validate data source instance'' (validateDataSourceInstance (dr_DataSourceInstance request))) (\<lambda>_.
       if dr_Table request = [] then invalid ''empty table'' else Ok ())"

fun validate_each :: "('x \<Rightarrow> unit res) \<Rightarrow> string \<Rightarrow> 'x list \<Rightarrow> unit res" where
  "validate_each v what [] = Ok ()"
| "validate_each v what (x # xs) = bind_res (wrap_res what (v x)) (\<lambda>_. validate_each v what xs)"

text \<open>The bound on the number of splits; a nil select or instance here would be dereferenced.\<close>

fun check_max_split_count :: "u32 \<Rightarrow> tselect option list \<Rightarrow> unit res" where
  "check_max_split_count n [] = Ok ()"
| "check_max_split_count n (slct # slcts) =
     (case map_option sl_DataSourceInstance slct of
        Some (Some dsi) \<Rightarrow>
          (if dsi_Kind dsi = LOGGING then
             (if n \<noteq> 3 then Err (NewErr ''invalid max split count'') else check_max_split_count n slcts)
           else if dsi_Kind dsi = YDB then check_max_split_count n slcts
           else Err (NewErr ''unsupported data source kind''))
      | _ \<Rightarrow> Panic ''nil pointer dereference'')"

definition ValidateListSplitsRequest :: "list_splits_request \<Rightarrow> unit res" where
  "ValidateListSplitsRequest request =
     (if lsr_Selects request = [] then invalid ''empty select list''
      else
        bind_res (validate_each validateSelect ''validate select'' (lsr_Selects request)) (\<lambda>_.
        bind_res (if lsr_MaxSplitCount request \<noteq> 0 then check_max_split_count (lsr_MaxSplitCount request) (lsr_Selects request)
                  else Ok ()) (\<lambda>_.
          if lsr_SplitNumberLimit request \<noteq> 0 then invalid ''split number limit is currently unsupported''
          else if lsr_SplitSize request \<noteq> 0 then invalid ''split size is currently unsupported''
          else Ok ())))"

definition ValidateReadSplitsRequest :: "read_splits_request \<Rightarrow> unit res" where
  "ValidateReadSplitsRequest request =
     (if rsr_Splits request = [] then invalid ''splits are empty''
      else validate_each validateSplit ''validate split'' (rsr_Splits request))"

section \<open>Log fields\<close>

definition kind_name :: "data_source_kind \<Rightarrow> string" where
  "kind_name k =
     (case k of
        KIND_UNSPECIFIED \<Rightarrow> ''DATA_SOURCE_KIND_UNSPECIFIED'' | CLICKHOUSE \<Rightarrow> ''CLICKHOUSE'' | POSTGRESQL \<Rightarrow> ''POSTGRESQL''
      | S3 \<Rightarrow> ''S3'' | YDB \<Rightarrow> ''YDB'' | MYSQL \<Rightarrow> ''MYSQL'' | MS_SQL_SERVER \<Rightarrow> ''MS_SQL_SERVER''
      | GREENPLUM \<Rightarrow> ''GREENPLUM'' | ORACLE \<Rightarrow> ''ORACLE'' | LOGGING \<Rightarrow> ''LOGGING'' | MONGO_DB \<Rightarrow> ''MONGO_DB''
      | REDIS \<Rightarrow> ''REDIS'' | PROMETHEUS \<Rightarrow> ''PROMETHEUS'' | ICEBERG \<Rightarrow> ''ICEBERG'' | OPENSEARCH \<Rightarrow> ''OPENSEARCH'')"

text \<open>A nil instance is read through its getters, except for its protocol, which is read from the pointer.\<close>

definition AnnotateLoggerWithDataSourceInstance :: "data_source_instance option \<Rightarrow> (string \<times> string) list res" where
  "AnnotateLoggerWithDataSourceInstance dsi =
     (case dsi of
        None \<Rightarrow> Panic ''nil pointer dereference''
      | Some dsi \<Rightarrow>
          Ok ([(''data_source_kind'', kind_name (dsi_Kind dsi))] @
              (if dsi_Database dsi \<noteq> [] then [(''database'', dsi_Database dsi)] else []) @
              (case dsi_Endpoint dsi of
                 None \<Rightarrow> []
               | Some ep \<Rightarrow> [(''host'', ep_host ep), (''port'', dec (unat (ep_port ep)))]) @
              (case dsi_Protocol dsi of
                 PROTOCOL_UNSPECIFIED \<Rightarrow> []
               | NATIVE \<Rightarrow> [(''protocol'', ''NATIVE'')]
               | HTTP \<Rightarrow> [(''protocol'', ''HTTP'')]) @
              (case dsi_Options dsi of
                 GpOptions s \<Rightarrow> [(''schema'', s)]
               | OracleOptions s \<Rightarrow> [(''service_name'', s)]
               | PgOptions s \<Rightarrow> [(''schema'', s)]
               | LoggingOptions s \<Rightarrow> [(''folder_id'', s)]
               | _ \<Rightarrow> [])))"

section \<open>What the validators accept\<close>

text \<open>An instance that names everything its kind of data source needs.\<close>

definition reachable_endpoint :: "data_source_instance \<Rightarrow> bool" where
  "reachable_endpoint dsi \<longleftrightarrow> (\<exists>ep. dsi_Endpoint dsi = Some ep \<and> ep_host ep \<noteq> [] \<and> ep_port ep \<noteq> 0)"

definition complete_instance :: "data_source_instance \<Rightarrow> bool" where
  "complete_instance dsi \<longleftrightarrow>
     dsi_Kind dsi \<notin> {KIND_UNSPECIFIED, PROMETHEUS, ICEBERG} \<and>
     (dsi_Kind dsi \<noteq> LOGGING \<longrightarrow> reachable_endpoint dsi) \<and>
     (dsi_Kind dsi \<notin> {LOGGING, ORACLE} \<longrightarrow> dsi_Database dsi \<noteq> []) \<and>
     (dsi_Kind dsi = POSTGRESQL \<longrightarrow> GetPgSchema (dsi_Options dsi) \<noteq> []) \<and>
     (dsi_Kind dsi = ORACLE \<longrightarrow> GetServiceName (dsi_Options dsi) \<noteq> []) \<and>
     (dsi_Kind dsi = LOGGING \<longrightarrow> GetFolderId (dsi_Options dsi) \<noteq> [])"

text \<open>The outcome of a validation: success, or an error that wraps \<^verbatim>\<open>ErrInvalidRequest\<close>.\<close>

definition verdict :: "bool \<Rightarrow> unit res \<Rightarrow> bool" where
  "verdict ok r \<longleftrightarrow> (if ok then r = Ok () else \<exists>e. r = Err e \<and> errors_is e ErrInvalidRequest)"

lemma verdict_Ok [simp]: "verdict ok (Ok ()) \<longleftrightarrow> ok"
  by (simp add: verdict_def)

lemma verdict_invalid [simp]: "verdict ok (invalid what) \<longleftrightarrow> \<not> ok"
  by (simp add: verdict_def invalid_def)

lemma verdict_wrap: "verdict ok r \<Longrightarrow> verdict ok (wrap_res p r)"
  by (cases r) (auto simp: verdict_def split: if_splits)

lemma verdict_bind: "verdict a r \<Longrightarrow> (a \<Longrightarrow> verdict b (f ())) \<Longrightarrow> verdict (a \<and> b) (bind_res r f)"
  by (cases r) (auto simp: verdict_def split: if_splits)

lemma endpoint_verdict: "verdict (reachable_endpoint dsi) (dsi_validateEndpoint dsi)"
  by (auto simp: dsi_validateEndpoint_def reachable_endpoint_def split: option.splits)

lemma database_verdict: "verdict (dsi_Database dsi \<noteq> []) (validateDatabase dsi)"
  by (simp add: validateDatabase_def)

lemma options_verdict:
  "verdict (dsi_Kind dsi \<notin> {KIND_UNSPECIFIED, PROMETHEUS, ICEBERG} \<and>
      (dsi_Kind dsi = POSTGRESQL \<longrightarrow> GetPgSchema (dsi_Options dsi) \<noteq> []) \<and>
      (dsi_Kind dsi = ORACLE \<longrightarrow> GetServiceName (dsi_Options dsi) \<noteq> []) \<and>
      (dsi_Kind dsi = LOGGING \<longrightarrow> GetFolderId (dsi_Options dsi) \<noteq> [])) (validateDataSourceOptions dsi)"
  by (cases "dsi_Kind dsi") (simp_all add: validateDataSourceOptions_def)

lemma run_validators_verdict:
  "list_all2 (\<lambda>ok v. verdict ok (v dsi)) oks vs \<Longrightarrow> verdict (list_all id oks) (run_validators vs dsi)"
proof (induction rule: list_all2_induct)
  case (Cons ok oks v vs)
  then show ?case unfolding run_validators.simps list.pred_inject id_apply
    by (intro verdict_bind verdict_wrap) simp_all
qed simp

lemma instance_verdict: "verdict (\<exists>d. dsi = Some d \<and> complete_instance d) (validateDataSourceInstance dsi)"
proof (cases dsi)
  case (Some d)
  let ?opts = "dsi_Kind d \<notin> {KIND_UNSPECIFIED, PROMETHEUS, ICEBERG} \<and>
      (dsi_Kind d = POSTGRESQL \<longrightarrow> GetPgSchema (dsi_Options d) \<noteq> []) \<and>
      (dsi_Kind d = ORACLE \<longrightarrow> GetServiceName (dsi_Options d) \<noteq> []) \<and>
      (dsi_Kind d = LOGGING \<longrightarrow> GetFolderId (dsi_Options d) \<noteq> [])"
  have tls: "verdict True (validateUseTLS d)" by (simp add: validateUseTLS_def)
  note vs = run_validators_verdict [where dsi = d]
  consider "dsi_Kind d = KIND_UNSPECIFIED" | "dsi_Kind d = LOGGING" | "dsi_Kind d = ORACLE"
    | "dsi_Kind d \<notin> {KIND_UNSPECIFIED, LOGGING, ORACLE}" by blast
  then show ?thesis
  proof cases
    case 1
    then show ?thesis by (simp add: Some validateDataSourceInstance_def complete_instance_def)
  next
    case 2
    then show ?thesis using vs [of "[?opts]" "[validateDataSourceOptions]"] options_verdict [of d]
      by (simp add: Some validateDataSourceInstance_def complete_instance_def)
  next
    case 3
    then show ?thesis
      using vs [of "[reachable_endpoint d, True, ?opts]" "[dsi_validateEndpoint, validateUseTLS, validateDataSourceOptions]"]
        options_verdict [of d] endpoint_verdict [of d] tls
      by (simp add: Some validateDataSourceInstance_def complete_instance_def)
  next
    case 4
    then have "complete_instance d \<longleftrightarrow> reachable_endpoint d \<and> dsi_Database d \<noteq> [] \<and> ?opts"
      by (auto simp: complete_instance_def)
    with 4 show ?thesis
      using vs [of "[reachable_endpoint d, dsi_Database d \<noteq> [], True, ?opts]"
          "[dsi_validateEndpoint, validateDatabase, validateUseTLS, validateDataSourceOptions]"]
        options_verdict [of d] endpoint_verdict [of d] database_verdict [of d] tls
      by (simp add: Some validateDataSourceInstance_def)
  qed
qed (simp add: validateDataSourceInstance_def)

definition complete_select :: "tselect option \<Rightarrow> bool" where
  "complete_select slct \<longleftrightarrow> (\<exists>s d. slct = Some s \<and> sl_DataSourceInstance s = Some d \<and> complete_instance d)"

lemma select_verdict: "verdict (complete_select slct) (validateSelect slct)"
proof (cases slct)
  case (Some s)
  then show ?thesis using verdict_wrap [OF instance_verdict [of "sl_DataSourceInstance s"]]
    by (simp add: validateSelect_def complete_select_def)
qed (simp add: validateSelect_def complete_select_def)

lemma validate_each_verdict:
  "(\<And>x. verdict (P x) (v x)) \<Longrightarrow> verdict (list_all P xs) (validate_each v what xs)"
proof (induction xs)
  case (Cons x xs)
  then show ?case unfolding validate_each.simps list.pred_inject by (intro verdict_bind verdict_wrap) simp_all
qed simp

text \<open>C29: the validation of a request to describe a table and of a request to read splits is exact. It accepts the
  requests that name a table, or have splits, and whose data source instances are complete, and rejects every other
  one with an error of the class \<^verbatim>\<open>ErrInvalidRequest\<close>; it never panics.\<close>

theorem request_validation_exact:
  "verdict (dr_Table d \<noteq> [] \<and> (\<exists>i. dr_DataSourceInstance d = Some i \<and> complete_instance i)) (ValidateDescribeTableRequest d) \<and>
   verdict (rsr_Splits r \<noteq> [] \<and> list_all (\<lambda>s. complete_select (tsp_Select s)) (rsr_Splits r)) (ValidateReadSplitsRequest r)"
proof
  have "verdict (dr_Table d \<noteq> []) (if dr_Table d = [] then invalid ''empty table'' else Ok ())" by simp
  then show "verdict (dr_Table d \<noteq> [] \<and> (\<exists>i. dr_DataSourceInstance d = Some i \<and> complete_instance i)) (ValidateDescribeTableRequest d)"
    using verdict_bind [OF verdict_wrap [OF instance_verdict]] by (simp add: ValidateDescribeTableRequest_def conj_commute)
  have "verdict (complete_select (tsp_Select s)) (validateSplit s)" for s :: "tsplit"
    unfolding validateSplit_def by (rule verdict_wrap [OF select_verdict])
  then show "verdict (rsr_Splits r \<noteq> [] \<and> list_all (\<lambda>s. complete_select (tsp_Select s)) (rsr_Splits r)) (ValidateReadSplitsRequest r)"
    using validate_each_verdict [of "\<lambda>s. complete_select (tsp_Select s)" validateSplit "rsr_Splits r" "''validate split''"]
    by (simp add: ValidateReadSplitsRequest_def)
qed

lemma request_validation_total:
  "ValidateDescribeTableRequest d = Ok () \<or> (\<exists>e. ValidateDescribeTableRequest d = Err e)"
  using verdict_wrap [OF instance_verdict [of "dr_DataSourceInstance d"], of "''validate data source instance''"]
  by (auto simp: ValidateDescribeTableRequest_def verdict_def invalid_def split: if_splits)

lemma check_max_split_count_not_panic:
  "list_all complete_select slcts \<Longrightarrow> (\<exists>e. check_max_split_count n slcts = Err e) \<or> check_max_split_count n slcts = Ok ()"
  by (induction slcts) (auto simp: complete_select_def)

lemma list_splits_validation_total:
  fixes r :: "list_splits_request"
  shows "ValidateListSplitsRequest r = Ok () \<or> (\<exists>e. ValidateListSplitsRequest r = Err e)"
proof (cases "lsr_Selects r = []")
  case False
  have v: "verdict (list_all complete_select (lsr_Selects r)) (validate_each validateSelect ''validate select'' (lsr_Selects r))"
    by (rule validate_each_verdict) (rule select_verdict)
  show ?thesis
  proof (cases "list_all complete_select (lsr_Selects r)")
    case True
    with v check_max_split_count_not_panic [OF True, of "lsr_MaxSplitCount r"] False show ?thesis
      by (auto simp: ValidateListSplitsRequest_def verdict_def invalid_def)
  next
    case False
    with v \<open>lsr_Selects r \<noteq> []\<close> show ?thesis by (auto simp: ValidateListSplitsRequest_def verdict_def)
  qed
qed (simp add: ValidateListSplitsRequest_def invalid_def)

end
