(* ===== verification/Service.thy ===== *)
theory Service
  imports DataSource Validation TypeMappers
begin

text \<open>
  The connector service: the factory of the relational data sources (\<^verbatim>\<open>rdbms/datasource_factory.go\<close>), the collection of
  all data sources (\<^verbatim>\<open>src/app/server/data_source_collection.go\<close>) and the handlers of the gRPC methods
  (\<^verbatim>\<open>src/app/server/service_connector.go\<close>). A data source is what the collection makes of its kind and the
  configuration; what it answers (a schema, the messages a streamer sent and how it ended) is a parameter of the
  handlers, which the theorems restrict to the runs of the streamers and data sources of the theories \<open>Streaming\<close>,
  \<open>DataSource\<close> and \<open>Splits\<close>. The storage of observations is explicit state. Starting and stopping the server are left out.
\<close>

section \<open>Presets of the relational data sources\<close>

datatype split_policy = DefaultSplits | YdbSplits "bool option" | LoggingSplits resolving "bool option"

text \<open>A formatter without a configuration of the pushdown panics when it is asked for a timestamp: \<open>None\<close>.\<close>

record preset =
  pr_formatter :: "sql_formatter option"
  pr_mapper :: mapper
  pr_splits :: split_policy
  pr_retriers :: retrier_set

definition retrier_of :: "TExponentialBackoffConfig option \<Rightarrow> (go_error \<Rightarrow> bool) \<Rightarrow> retrier" where
  "retrier_of cfg checker =
     (case cfg of
        Some c \<Rightarrow> NewRetrierFromConfig c checker
      | None \<Rightarrow> \<lparr>retriableErrorChecker = checker, backoffFactory = Panic ''nil pointer dereference''\<rparr>)"

definition retriers_of :: "TExponentialBackoffConfig option \<Rightarrow> (go_error \<Rightarrow> bool) \<Rightarrow> (go_error \<Rightarrow> bool) \<Rightarrow> retrier_set" where
  "retriers_of cfg connect query = \<lparr>rs_MakeConnection = retrier_of cfg connect, rs_Query = retrier_of cfg query\<rparr>"

definition pushdown_formatter :: "(bool \<Rightarrow> sql_formatter) \<Rightarrow> TPushdownConfig option \<Rightarrow> sql_formatter option" where
  "pushdown_formatter mk cfg = map_option (\<lambda>p. mk (pd_enableTimestampPushdown p)) cfg"

definition relational_preset ::
    "(bool \<Rightarrow> sql_formatter) \<Rightarrow> mapper \<Rightarrow> (go_error \<Rightarrow> bool) \<Rightarrow> 'a relationalDatasourceConfig_scheme option \<Rightarrow> preset res" where
  "relational_preset mk m connect cfg =
     (case cfg of
        None \<Rightarrow> Panic ''nil pointer dereference''
      | Some c \<Rightarrow> Ok \<lparr>pr_formatter = pushdown_formatter mk (pushdown c), pr_mapper = m, pr_splits = DefaultSplits,
          pr_retriers = retriers_of (exponentialBackoff c) connect ErrorCheckerNoop\<rparr>)"

record codecs =
  ydb_unmarshal :: "string \<Rightarrow> ydb_split_description res"
  logging_unmarshal :: "string \<Rightarrow> logging_ydb_source option res"

definition ydb_preset :: "error_facts \<Rightarrow> codecs \<Rightarrow> TYdbConfig option \<Rightarrow> preset res" where
  "ydb_preset E K cfg =
     (case cfg of
        None \<Rightarrow> Panic ''nil pointer dereference''
      | Some c \<Rightarrow> Ok \<lparr>pr_formatter = pushdown_formatter (ydb_formatter (ydb_unmarshal K) (yc_mode c)) (yc_pushdown c),
          pr_mapper = ydb_SQLTypeToYDBColumn, pr_splits = YdbSplits (yc_splitting c),
          pr_retriers = retriers_of (yc_exponentialBackoff c) (ErrorCheckerMakeConnectionCommon E) (ydb_ErrorCheckerQuery E)\<rparr>)"

text \<open>The preset of Cloud Logging takes its retriers from the section of YDB.\<close>

definition logging_preset :: "error_facts \<Rightarrow> codecs \<Rightarrow> TYdbConfig option \<Rightarrow> resolving \<Rightarrow> TYdbConfig option \<Rightarrow> preset res" where
  "logging_preset E K ydb resolver cfg =
     (case (cfg, ydb) of
        (Some c, Some y) \<Rightarrow> Ok \<lparr>pr_formatter = pushdown_formatter (logging_formatter (logging_unmarshal K) (yc_mode c)) (yc_pushdown c),
          pr_mapper = ydb_SQLTypeToYDBColumn, pr_splits = LoggingSplits resolver (yc_splitting c),
          pr_retriers = retriers_of (yc_exponentialBackoff y) (ErrorCheckerMakeConnectionCommon E) (ydb_ErrorCheckerQuery E)\<rparr>
      | _ \<Rightarrow> Panic ''nil pointer dereference'')"

record factory =
  fa_clickhouse :: preset
  fa_postgresql :: preset
  fa_ydb :: preset
  fa_msSQLServer :: preset
  fa_mysql :: preset
  fa_greenplum :: preset
  fa_oracle :: preset
  fa_logging :: preset

text \<open>\<^verbatim>\<open>logging.NewResolver\<close>; the dynamic resolver connects to the logging service, which may fail.\<close>

definition NewResolver :: "(TDynamicResolving \<Rightarrow> unit res) \<Rightarrow> TLoggingConfig option \<Rightarrow> resolving res" where
  "NewResolver connect cfg =
     (case Option.bind cfg lc_resolving of
        Some (Static s) \<Rightarrow> Ok (Static s)
      | Some (Dynamic y) \<Rightarrow> bind_res (connect y) (\<lambda>_. Ok (Dynamic y))
      | None \<Rightarrow> Err (NewErr ''unsupported resolver type''))"

definition NewDataSourceFactory ::
    "error_facts \<Rightarrow> codecs \<Rightarrow> (TDynamicResolving \<Rightarrow> unit res) \<Rightarrow> TDatasourcesConfig \<Rightarrow> factory res" where
  "NewDataSourceFactory E K connect cfg =
     bind_res (relational_preset ch_formatter ch_SQLTypeToYDBColumn (ErrorCheckerMakeConnectionCommon E) (ds_clickhouse cfg)) (\<lambda>ch.
     bind_res (relational_preset pg_formatter pg_SQLTypeToYDBColumn (ErrorCheckerMakeConnectionCommon E) (ds_postgresql cfg)) (\<lambda>pg.
     bind_res (ydb_preset E K (ds_ydb cfg)) (\<lambda>yd.
     bind_res (relational_preset ms_formatter ms_SQLTypeToYDBColumn (ErrorCheckerMakeConnectionCommon E) (ds_msSqlServer cfg)) (\<lambda>ms.
     bind_res (relational_preset my_formatter my_SQLTypeToYDBColumn (ErrorCheckerMakeConnectionCommon E) (ds_mysql cfg)) (\<lambda>my.
     bind_res (relational_preset pg_formatter pg_SQLTypeToYDBColumn (ErrorCheckerMakeConnectionCommon E) (ds_greenplum cfg)) (\<lambda>gp.
     bind_res (relational_preset ora_formatter ora_SQLTypeToYDBColumn (ora_ErrorCheckerMakeConnection E) (ds_oracle cfg)) (\<lambda>ora.
     bind_res (wrap_res ''logging resolver'' (NewResolver connect (ds_logging cfg))) (\<lambda>resolver.
     bind_res (logging_preset E K (ds_ydb cfg) resolver (Option.bind (ds_logging cfg) lc_ydb)) (\<lambda>lg.
       Ok \<lparr>fa_clickhouse = ch, fa_postgresql = pg, fa_ydb = yd, fa_msSQLServer = ms, fa_mysql = my, fa_greenplum = gp,
           fa_oracle = ora, fa_logging = lg\<rparr>)))))))))"

definition Make :: "factory \<Rightarrow> data_source_kind \<Rightarrow> preset res" where
  "Make dsf kind =
     (case kind of
        CLICKHOUSE \<Rightarrow> Ok (fa_clickhouse dsf)
      | POSTGRESQL \<Rightarrow> Ok (fa_postgresql dsf)
      | YDB \<Rightarrow> Ok (fa_ydb dsf)
      | MS_SQL_SERVER \<Rightarrow> Ok (fa_msSQLServer dsf)
      | MYSQL \<Rightarrow> Ok (fa_mysql dsf)
      | GREENPLUM \<Rightarrow> Ok (fa_greenplum dsf)
      | ORACLE \<Rightarrow> Ok (fa_oracle dsf)
      | LOGGING \<Rightarrow> Ok (fa_logging dsf)
      | _ \<Rightarrow> Err (Wrap ''pick handler for data source type'' (Sentinel ErrDataSourceNotSupported)))"

section \<open>The collection of data sources\<close>

datatype source =
    RelationalSource preset
  | S3Source
  | MongoSource retrier_set TMongoDbConfig
  | RedisSource retrier_set TRedisConfig
  | OpenSearchSource retrier_set TOpenSearchConfig

record collection =
  co_rdbms :: factory
  co_errors :: error_facts
  co_cfg :: TDatasourcesConfig

definition nosql_retriers :: "collection \<Rightarrow> TExponentialBackoffConfig option \<Rightarrow> retrier_set" where
  "nosql_retriers C cfg = retriers_of cfg (ErrorCheckerMakeConnectionCommon (co_errors C)) ErrorCheckerNoop"

definition unsupported_kind :: "'a res" where
  "unsupported_kind = Err (Wrap ''unsupported data source type'' (Sentinel ErrDataSourceNotSupported))"

text \<open>The switch on the kind that the three methods share; listing the splits of S3 is not supported.\<close>

definition source_of :: "bool \<Rightarrow> collection \<Rightarrow> data_source_kind \<Rightarrow> source res" where
  "source_of s3 C kind =
     (if kind \<in> {CLICKHOUSE, POSTGRESQL, YDB, MS_SQL_SERVER, MYSQL, GREENPLUM, ORACLE, LOGGING} then
        bind_res (wrap_res ''make data source'' (Make (co_rdbms C) kind)) (\<lambda>p. Ok (RelationalSource p))
      else case kind of
        S3 \<Rightarrow> if s3 then Ok S3Source else unsupported_kind
      | MONGO_DB \<Rightarrow>
          (case ds_mongodb (co_cfg C) of
             None \<Rightarrow> Panic ''nil pointer dereference''
           | Some cfg \<Rightarrow> Ok (MongoSource (nosql_retriers C (mg_exponentialBackoff cfg)) cfg))
      | REDIS \<Rightarrow>
          (case ds_redis (co_cfg C) of
             None \<Rightarrow> Panic ''nil pointer dereference''
           | Some cfg \<Rightarrow> Ok (RedisSource (nosql_retriers C (rd_exponentialBackoff cfg)) cfg))
      | OPENSEARCH \<Rightarrow>
          (case ds_opensearch (co_cfg C) of
             None \<Rightarrow> Panic ''nil pointer dereference''
           | Some cfg \<Rightarrow> Ok (OpenSearchSource (nosql_retriers C (os_exponentialBackoff cfg)) cfg))
      | _ \<Rightarrow> unsupported_kind)"

definition instance_kind :: "data_source_instance option \<Rightarrow> data_source_kind" where
  "instance_kind dsi = (case dsi of None \<Rightarrow> KIND_UNSPECIFIED | Some d \<Rightarrow> dsi_Kind d)"

definition select_kind :: "tselect option \<Rightarrow> data_source_kind" where
  "select_kind slct = instance_kind (Option.bind slct sl_DataSourceInstance)"

definition s3_DescribeTable :: "column list res" where
  "s3_DescribeTable =
     Err (Wrap ''table description is not implemented for schemaless data sources'' (Sentinel ErrMethodNotSupported))"

definition dsc_DescribeTable ::
    "(source \<Rightarrow> describe_request \<Rightarrow> column list res) \<Rightarrow> collection \<Rightarrow> describe_request \<Rightarrow> column list res" where
  "dsc_DescribeTable describe C request =
     bind_res (source_of True C (instance_kind (dr_DataSourceInstance request))) (\<lambda>ds.
       if ds = S3Source then s3_DescribeTable else describe ds request)"

text \<open>A streamer: the messages it sent and how it ended. \<open>i\<close> is the number of the iteration, so that two runs for equal
  selects may differ.\<close>

fun dsc_ListSplits ::
    "(nat \<Rightarrow> source \<Rightarrow> tselect option \<Rightarrow> 'm list \<times> unit res) \<Rightarrow> collection \<Rightarrow> nat \<Rightarrow> tselect option list \<Rightarrow>
     'm list \<times> unit res" where
  "dsc_ListSplits streamer C i [] = ([], Ok ())"
| "dsc_ListSplits streamer C i (slct # slcts) =
     (case source_of False C (select_kind slct) of
        Err e \<Rightarrow> ([], Err e)
      | Panic m \<Rightarrow> ([], Panic m)
      | Ok ds \<Rightarrow>
          (case streamer i ds slct of
             (sent, Err e) \<Rightarrow> (sent, Err (Wrap ''run streamer'' e))
           | (sent, Panic m) \<Rightarrow> (sent, Panic m)
           | (sent, Ok _) \<Rightarrow> (case dsc_ListSplits streamer C (Suc i) slcts of (rest, r) \<Rightarrow> (sent @ rest, r))))"

section \<open>Reading splits\<close>

text \<open>The operations of the storage that the collection uses.\<close>

record 's storage =
  sg_create :: "string \<Rightarrow> 's \<Rightarrow> nat res \<times> 's"
  sg_finish :: "nat \<Rightarrow> traffic \<Rightarrow> 's \<Rightarrow> unit res \<times> 's"
  sg_cancel :: "nat \<Rightarrow> string \<Rightarrow> traffic \<Rightarrow> 's \<Rightarrow> unit res \<times> 's"

definition sqlite_storage :: "faults \<Rightarrow> int \<Rightarrow> sqlite_db storage" where
  "sqlite_storage F now = \<lparr>sg_create = CreateIncomingQuery F now, sg_finish = FinishIncomingQuery F now,
     sg_cancel = CancelIncomingQuery F now\<rparr>"

definition dummy_storage :: "'s storage" where
  "dummy_storage = \<lparr>sg_create = (\<lambda>k s. (dummy_CreateQuery, s)), sg_finish = (\<lambda>i t s. (dummy_CloseQuery, s)),
     sg_cancel = (\<lambda>i m t s. (dummy_CloseQuery, s))\<rparr>"

text \<open>A streamer over a data source: the messages it sent, how it ended, the final statistics of its sinks and the
  storage, which the data source updates while it reads.\<close>

type_synonym ('m, 's) reader = "source \<Rightarrow> nat \<Rightarrow> tsplit \<Rightarrow> 's \<Rightarrow> 'm list \<times> unit res \<times> traffic \<times> 's"

definition doReadSplit ::
    "'s storage \<Rightarrow> ('m, 's) reader \<Rightarrow> page_format \<Rightarrow> nat \<Rightarrow> source \<Rightarrow> tselect \<Rightarrow> tsplit \<Rightarrow> 's \<Rightarrow> 'm list \<times> unit res \<times> 's" where
  "doReadSplit S read format queryID ds slct split s =
     (case NewColumnarBufferFactory format (sl_What slct) of
        Err e \<Rightarrow> ([], Err (Wrap ''new columnar buffer factory'' e), s)
      | Panic m \<Rightarrow> ([], Panic m, s)
      | Ok _ \<Rightarrow>
          (case read ds queryID split s of
             (sent, Err e, stats, s) \<Rightarrow>
               (sent, Err (Wrap ''run paging streamer'' e), snd (sg_cancel S queryID (error_text e) stats s))
           | (sent, Panic m, stats, s) \<Rightarrow> (sent, Panic m, s)
           | (sent, Ok _, stats, s) \<Rightarrow>
               (case sg_finish S queryID stats s of
                  (r, s) \<Rightarrow> (sent, wrap_res ''observation storage finish query'' r, s))))"

definition ReadSplit ::
    "'s storage \<Rightarrow> ('m, 's) reader \<Rightarrow> collection \<Rightarrow> page_format \<Rightarrow> tsplit \<Rightarrow> 's \<Rightarrow> 'm list \<times> unit res \<times> 's" where
  "ReadSplit S read C format split s =
     (let kind = select_kind (tsp_Select split)
      in case sg_create S (kind_name kind) s of
           (Err e, s) \<Rightarrow> ([], Err (Wrap ''create query'' e), s)
         | (Panic m, s) \<Rightarrow> ([], Panic m, s)
         | (Ok queryID, s) \<Rightarrow>
             (case source_of True C kind of
                Err e \<Rightarrow> ([], Err e, s)
              | Panic m \<Rightarrow> ([], Panic m, s)
              | Ok ds \<Rightarrow>
                  (case tsp_Select split of
                     None \<Rightarrow> ([], Panic ''nil pointer dereference'', s)
                   | Some slct \<Rightarrow> doReadSplit S read format queryID ds slct split s)))"

fun read_each ::
    "'s storage \<Rightarrow> ('m, 's) reader \<Rightarrow> collection \<Rightarrow> page_format \<Rightarrow> tsplit list \<Rightarrow> 's \<Rightarrow> 'm list \<times> unit res \<times> 's" where
  "read_each S read C format [] s = ([], Ok (), s)"
| "read_each S read C format (split # splits) s =
     (case AnnotateLoggerWithDataSourceInstance (Option.bind (tsp_Select split) sl_DataSourceInstance) of
        Err e \<Rightarrow> ([], Err e, s)
      | Panic m \<Rightarrow> ([], Panic m, s)
      | Ok _ \<Rightarrow>
          (case ReadSplit S read C format split s of
             (sent, Err e, s) \<Rightarrow> (sent, Err (Wrap ''read split'' e), s)
           | (sent, Panic m, s) \<Rightarrow> (sent, Panic m, s)
           | (sent, Ok _, s) \<Rightarrow>
               (case read_each S read C format splits s of (rest, r, s) \<Rightarrow> (sent @ rest, r, s))))"

definition doReadSplits ::
    "'s storage \<Rightarrow> ('m, 's) reader \<Rightarrow> collection \<Rightarrow> read_splits_request \<Rightarrow> 's \<Rightarrow> 'm list \<times> unit res \<times> 's" where
  "doReadSplits S read C request s =
     (case ValidateReadSplitsRequest request of
        Err e \<Rightarrow> ([], Err (Wrap ''validate read splits request'' e), s)
      | Panic m \<Rightarrow> ([], Panic m, s)
      | Ok _ \<Rightarrow> read_each S read C (rsr_Format request) (rsr_Splits request) s)"

section \<open>Handlers\<close>

text \<open>The messages of a stream: those of the streamers, and the one that ends a failed request. \<open>send\<close> is the outcome
  of sending the latter.\<close>

datatype 'm message = Payload 'm | Failure api_error

record describe_response =
  de_Schema :: "column list option"
  de_Error :: api_error

definition describe_failure :: "drivers \<Rightarrow> go_error \<Rightarrow> data_source_instance option \<Rightarrow> describe_response res" where
  "describe_failure D err dsi =
     (case dsi of
        None \<Rightarrow> Panic ''nil pointer dereference''
      | Some d \<Rightarrow> bind_res (NewAPIErrorFromStdError D (Some err) (dsi_Kind d)) (\<lambda>a. Ok \<lparr>de_Schema = None, de_Error = a\<rparr>))"

definition svc_DescribeTable ::
    "drivers \<Rightarrow> (source \<Rightarrow> describe_request \<Rightarrow> column list res) \<Rightarrow> collection \<Rightarrow> describe_request \<Rightarrow> describe_response res" where
  "svc_DescribeTable D describe C request =
     bind_res (AnnotateLoggerWithDataSourceInstance (dr_DataSourceInstance request)) (\<lambda>_.
       case ValidateDescribeTableRequest request of
         Err e \<Rightarrow> describe_failure D e (dr_DataSourceInstance request)
       | Panic m \<Rightarrow> Panic m
       | Ok _ \<Rightarrow>
           (case dsc_DescribeTable describe C request of
              Err e \<Rightarrow> describe_failure D e (dr_DataSourceInstance request)
            | Panic m \<Rightarrow> Panic m
            | Ok schema \<Rightarrow> Ok \<lparr>de_Schema = Some schema, de_Error = NewSuccess\<rparr>))"

definition send_failure :: "drivers \<Rightarrow> unit res \<Rightarrow> go_error \<Rightarrow> 'm message list \<times> unit res" where
  "send_failure D send err =
     (case NewAPIErrorFromStdError D (Some err) KIND_UNSPECIFIED of
        Ok a \<Rightarrow> (case send of Ok _ \<Rightarrow> ([Failure a], Ok ()) | r \<Rightarrow> ([], r))
      | Err e \<Rightarrow> ([], Err e)
      | Panic m \<Rightarrow> ([], Panic m))"

definition svc_ListSplits ::
    "drivers \<Rightarrow> unit res \<Rightarrow> (nat \<Rightarrow> source \<Rightarrow> tselect option \<Rightarrow> 'm list \<times> unit res) \<Rightarrow> collection \<Rightarrow> list_splits_request \<Rightarrow>
     'm message list \<times> unit res" where
  "svc_ListSplits D send streamer C request =
     (case ValidateListSplitsRequest request of
        Err e \<Rightarrow> send_failure D send e
      | Panic m \<Rightarrow> ([], Panic m)
      | Ok _ \<Rightarrow>
          (case dsc_ListSplits streamer C 0 (lsr_Selects request) of
             (sent, Ok _) \<Rightarrow> (map Payload sent, Ok ())
           | (sent, Panic m) \<Rightarrow> (map Payload sent, Panic m)
           | (sent, Err e) \<Rightarrow> (case send_failure D send e of (final, r) \<Rightarrow> (map Payload sent @ final, r))))"

definition svc_ReadSplits ::
    "drivers \<Rightarrow> unit res \<Rightarrow> 's storage \<Rightarrow> ('m, 's) reader \<Rightarrow> collection \<Rightarrow> read_splits_request \<Rightarrow> 's \<Rightarrow>
     'm message list \<times> unit res \<times> 's" where
  "svc_ReadSplits D send S read C request s =
     (case doReadSplits S read C request s of
        (sent, Ok _, s) \<Rightarrow> (map Payload sent, Ok (), s)
      | (sent, Panic m, s) \<Rightarrow> (map Payload sent, Panic m, s)
      | (sent, Err e, s) \<Rightarrow>
          (case send_failure D send e of (final, r) \<Rightarrow> (map Payload sent @ final, wrap_res ''stream send'' r, s)))"

section \<open>Answers of the handlers\<close>

lemma connector_failure:
  obtains a where "NewAPIErrorFromStdError D (Some e) KIND_UNSPECIFIED = Ok a" and "IsSuccess (Some a) = Ok False"
proof -
  have "switch_is e connector_cases \<notin> {SUCCESS, STATUS_CODE_UNSPECIFIED}" using switch_is_status [of e] by auto
  then show ?thesis using that
    by (cases "is_certificate_error D e")
      (simp_all add: NewAPIErrorFromStdError_def newAPIErrorFromTLSError_def newAPIErrorFromConnectorError_def mk_error_def)
qed

text \<open>A select that was served: its data source, the messages it sent and how that ended.\<close>

definition served ::
    "(nat \<Rightarrow> source \<Rightarrow> tselect option \<Rightarrow> 'm list \<times> unit res) \<Rightarrow> collection \<Rightarrow> nat \<Rightarrow> tselect option \<Rightarrow> 'm list \<Rightarrow> unit res \<Rightarrow> bool" where
  "served streamer C i slct sent r \<longleftrightarrow> (\<exists>ds. source_of False C (select_kind slct) = Ok ds \<and> streamer i ds slct = (sent, r))"

lemma dsc_ListSplits_parts:
  "dsc_ListSplits streamer C i slcts = (sent, r) \<Longrightarrow>
     \<exists>parts part. sent = concat parts @ part \<and> length parts \<le> length slcts \<and>
       (\<forall>k < length parts. served streamer C (i + k) (slcts ! k) (parts ! k) (Ok ())) \<and>
       (r = Ok () \<longrightarrow> length parts = length slcts \<and> part = []) \<and>
       (part = [] \<or> length parts < length slcts \<and>
          (\<exists>q. served streamer C (i + length parts) (slcts ! length parts) part q \<and> ((\<exists>e. r = Err e) \<longrightarrow> (\<exists>e. q = Err e))))"
proof (induction slcts arbitrary: i sent)
  case (Cons slct slcts)
  show ?case
  proof (cases "source_of False C (select_kind slct)")
    case (Ok ds)
    obtain part q where q: "streamer i ds slct = (part, q)" by fastforce
    have served: "served streamer C i slct part q" unfolding served_def using Ok q by blast
    show ?thesis
    proof (cases q)
      case q': (Ok u)
      obtain rest r' where rest: "dsc_ListSplits streamer C (Suc i) slcts = (rest, r')" by fastforce
      with Cons.prems Ok q q' have sent: "sent = part @ rest" "r' = r" by simp_all
      from Cons.IH [OF rest [unfolded sent(2)]] obtain parts p where
        p: "rest = concat parts @ p" "length parts \<le> length slcts"
          "\<forall>k < length parts. served streamer C (Suc i + k) (slcts ! k) (parts ! k) (Ok ())"
          "r = Ok () \<longrightarrow> length parts = length slcts \<and> p = []"
          "p = [] \<or> length parts < length slcts \<and>
             (\<exists>q. served streamer C (Suc i + length parts) (slcts ! length parts) p q \<and> ((\<exists>e. r = Err e) \<longrightarrow> (\<exists>e. q = Err e)))"
        by blast
      have "\<forall>k < length (part # parts). served streamer C (i + k) ((slct # slcts) ! k) ((part # parts) ! k) (Ok ())"
        using p(3) served q' by (auto simp: less_Suc_eq_0_disj)
      with p sent(1) show ?thesis by (intro exI [of _ "part # parts"] exI [of _ p]) auto
    qed (use Cons.prems Ok q served in \<open>auto intro!: exI [of _ "[]"] exI [of _ part]\<close>)
  qed (use Cons.prems in \<open>auto intro!: exI [of _ "[]"]\<close>)
qed simp

section \<open>Queries of the handlers in the storage\<close>

text \<open>
  What the code under a reader does: the messages and the result are those of a run of the streaming loop
  (theory \<open>Streaming\<close>) that has returned; only the relational data source uses the storage, and then its goroutines have
  run to their end (theory \<open>DataSource\<close>), unless it failed before it started them. The statistics of a split are numbers
  the database can store.
\<close>

definition runs_code :: "('c buffer \<Rightarrow> string res) \<Rightarrow> (response, sqlite_db) reader \<Rightarrow> bool" where
  "runs_code encode read \<longleftrightarrow>
     (\<forall>ds q split db sent r stats db'. read ds q split db = (sent, r, stats, db') \<longrightarrow>
        (\<exists>s outcome. rs_reach encode s \<and> rs_outcome s = Some outcome \<and> sent = rs_sent s \<and>
           r = wrap_res ''write data to stream'' outcome) \<and>
        (db' = db \<or> (\<exists>p cs st. ds = RelationalSource p \<and> rd_reach {no_faults} q cs db st \<and> all_stopped st \<and> db' = rd_db st)) \<and>
        int (tr_rows_read stats) < 2 ^ 63 \<and> int (tr_bytes_read stats) < 2 ^ 63)"

text \<open>What this gives: the consistency of the storage, its incoming queries, and no panic.\<close>

definition well_behaved :: "('m, sqlite_db) reader \<Rightarrow> bool" where
  "well_behaved read \<longleftrightarrow>
     (\<forall>ds q split db sent r stats db'. db_inv db \<longrightarrow> read ds q split db = (sent, r, stats, db') \<longrightarrow>
        db_inv db' \<and> incoming_map db' = incoming_map db \<and> incoming_seq db' = incoming_seq db \<and> (\<forall>m. r \<noteq> Panic m) \<and>
        int (tr_rows_read stats) < 2 ^ 63 \<and> int (tr_bytes_read stats) < 2 ^ 63)"

lemma rs_outcome_no_panic: "rs_reach encode s \<Longrightarrow> rs_outcome s \<noteq> Some (Panic m)"
proof (induction rule: rs_reach.induct)
  case (rs_next s s')
  from rs_next.hyps(2) rs_next.IH show ?case by (cases rule: rs_step.cases) auto
qed (simp add: rs_init_def)

lemma runs_code_well_behaved:
  assumes "runs_code encode read"
  shows "well_behaved read"
  unfolding well_behaved_def
proof (intro allI impI)
  fix ds q split db sent r stats db'
  assume inv: "db_inv db" and run: "read ds q split db = (sent, r, stats, db')"
  from assms run have code:
    "\<exists>s outcome. rs_reach encode s \<and> rs_outcome s = Some outcome \<and> sent = rs_sent s \<and> r = wrap_res ''write data to stream'' outcome"
    "db' = db \<or> (\<exists>p cs st. ds = RelationalSource p \<and> rd_reach {no_faults} q cs db st \<and> all_stopped st \<and> db' = rd_db st)"
    "int (tr_rows_read stats) < 2 ^ 63" "int (tr_bytes_read stats) < 2 ^ 63"
    unfolding runs_code_def by blast+
  from code(2) have "db_inv db' \<and> incoming_map db' = incoming_map db \<and> incoming_seq db' = incoming_seq db"
    using inv rd_reach_frame [OF _ inv] by auto
  moreover have "\<forall>m. r \<noteq> Panic m" using code(1) rs_outcome_no_panic by fastforce
  ultimately show "db_inv db' \<and> incoming_map db' = incoming_map db \<and> incoming_seq db' = incoming_seq db \<and> (\<forall>m. r \<noteq> Panic m) \<and>
      int (tr_rows_read stats) < 2 ^ 63 \<and> int (tr_bytes_read stats) < 2 ^ 63" using code(3,4) by blast
qed

lemma close_incoming_running:
  assumes "db_inv db" and "i \<in> running_incoming db" and "int i < 2 ^ 63"
    and "int (tr_rows_read stats) < 2 ^ 63" and "int (tr_bytes_read stats) < 2 ^ 63"
  shows "fst (close_incoming i (no_faults, now, err, stats) db) = Ok ()"
    and "running_incoming (snd (close_incoming i (no_faults, now, err, stats) db)) = running_incoming db - {i}"
proof -
  have "incoming_map db i \<noteq> None" using assms(2) by (auto simp: running_incoming_def)
  with assms(3-5) show ok: "fst (close_incoming i (no_faults, now, err, stats) db) = Ok ()"
    by (auto simp: close_incoming_exec on_incoming_def exec_update_no_faults incoming_map_def)
  obtain r db' where "close_incoming i (no_faults, now, err, stats) db = (r, db')" by fastforce
  with ok show "running_incoming (snd (close_incoming i (no_faults, now, err, stats) db)) = running_incoming db - {i}"
    using inq.running_close [OF assms(1)] by (simp add: running_is_locale)
qed

lemma close_incoming_frame: "incoming_seq (snd (close_incoming i b db)) = incoming_seq db"
proof -
  obtain F now err stats where "b = (F, now, err, stats)" by (cases b)
  then show ?thesis by (simp add: close_incoming_exec on_incoming_def)
qed

lemma sqlite_storage_closes:
  "sg_finish (sqlite_storage F now) i stats db = close_incoming i (F, now, None, stats) db"
  "sg_cancel (sqlite_storage F now) i m stats db = close_incoming i (F, now, Some m, stats) db"
  by (simp_all add: sqlite_storage_def close_incoming_def)

lemma create_incoming_run:
  assumes "db_inv db"
  obtains db' where "sg_create (sqlite_storage no_faults now) k db = (Ok (incoming_seq db + 1), db')" and "db_inv db'"
    and "incoming_seq db' = incoming_seq db + 1" and "incoming_seq db + 1 \<notin> running_incoming db"
    and "running_incoming db' = insert (incoming_seq db + 1) (running_incoming db)"
proof -
  obtain db' where c: "CreateIncomingQuery no_faults now k db = (Ok (incoming_seq db + 1), db')"
    and s: "incoming_seq db' = incoming_seq db + 1"
    by (simp add: CreateIncomingQuery_def no_faults_def Let_def)
  show ?thesis
  proof
    show "sg_create (sqlite_storage no_faults now) k db = (Ok (incoming_seq db + 1), db')" using c by (simp add: sqlite_storage_def)
    show "db_inv db'" using CreateIncomingQuery_inv [OF assms, of no_faults now k] c by simp
    show "incoming_seq db + 1 \<notin> running_incoming db" "running_incoming db' = insert (incoming_seq db + 1) (running_incoming db)"
      using inq.running_create [OF assms, of "(no_faults, now, k)"] c by (simp_all add: running_is_locale)
  qed (fact s)
qed

lemma doReadSplit_closes:
  assumes "well_behaved read" and "db_inv db" and "q \<in> running_incoming db" and "int q < 2 ^ 63"
    and "NewColumnarBufferFactory format (sl_What slct) = Ok cbf"
    and "doReadSplit (sqlite_storage no_faults now) read format q ds slct split db = (sent, r, db')"
  shows "db_inv db' \<and> running_incoming db' = running_incoming db - {q} \<and> incoming_seq db' = incoming_seq db \<and> (\<forall>m. r \<noteq> Panic m)"
proof -
  obtain sent1 r1 stats db1 where run: "read ds q split db = (sent1, r1, stats, db1)" by (metis prod_cases4)
  with assms(1,2) have 1: "db_inv db1" "incoming_map db1 = incoming_map db" "incoming_seq db1 = incoming_seq db"
    "\<And>m. r1 \<noteq> Panic m" "int (tr_rows_read stats) < 2 ^ 63" "int (tr_bytes_read stats) < 2 ^ 63"
    unfolding well_behaved_def by blast+
  have running: "running_incoming db1 = running_incoming db" using 1(2) by (simp add: running_incoming_def)
  note close = close_incoming_running [OF 1(1) assms(3) [folded running] assms(4) 1(5,6), of now]
  obtain err where "db' = snd (close_incoming q (no_faults, now, err, stats) db1)" "\<And>m. r \<noteq> Panic m"
  proof (cases r1)
    case (Ok u)
    with close(1) [of None] assms(5,6) run that [of None] show ?thesis
      by (auto simp: doReadSplit_def sqlite_storage_closes split: prod.splits)
  next
    case (Err e)
    with assms(5,6) run that [of "Some (error_text e)"] show ?thesis by (auto simp: doReadSplit_def sqlite_storage_closes)
  qed (use 1(4) in simp)
  then show ?thesis using close(2) [of err] inq.close_inv [OF 1(1)] 1(3) running by (simp add: close_incoming_frame)
qed

text \<open>A split that can be read: its data source is supported and its columns have a representation in Arrow.\<close>

definition readable :: "collection \<Rightarrow> page_format \<Rightarrow> tsplit \<Rightarrow> bool" where
  "readable C format split \<longleftrightarrow>
     (\<exists>slct dsi ds cbf. tsp_Select split = Some slct \<and> sl_DataSourceInstance slct = Some dsi \<and>
        source_of True C (dsi_Kind dsi) = Ok ds \<and> NewColumnarBufferFactory format (sl_What slct) = Ok cbf)"

lemma ReadSplit_closes:
  assumes "well_behaved read" and "db_inv db" and "readable C format split" and "int (incoming_seq db) + 1 < 2 ^ 63"
    and "ReadSplit (sqlite_storage no_faults now) read C format split db = (sent, r, db')"
  shows "db_inv db' \<and> running_incoming db' = running_incoming db \<and> incoming_seq db' = incoming_seq db + 1 \<and> (\<forall>m. r \<noteq> Panic m)"
proof -
  let ?S = "sqlite_storage no_faults now" and ?q = "incoming_seq db + 1"
  from assms(3) obtain slct dsi ds cbf where sel: "tsp_Select split = Some slct" "sl_DataSourceInstance slct = Some dsi"
    "source_of True C (dsi_Kind dsi) = Ok ds" "NewColumnarBufferFactory format (sl_What slct) = Ok cbf"
    unfolding readable_def by blast
  from create_incoming_run [OF assms(2), of now "kind_name (dsi_Kind dsi)"] obtain db1 where
    c: "sg_create ?S (kind_name (dsi_Kind dsi)) db = (Ok ?q, db1)" "db_inv db1" "incoming_seq db1 = ?q"
      "?q \<notin> running_incoming db" "running_incoming db1 = insert ?q (running_incoming db)" by metis
  have "doReadSplit ?S read format ?q ds slct split db1 = (sent, r, db')"
    using assms(5) sel c(1) by (simp add: ReadSplit_def select_kind_def instance_kind_def)
  from doReadSplit_closes [OF assms(1) c(2) _ _ sel(4) this] c assms(4) show ?thesis by auto
qed

lemma read_each_closes:
  assumes "well_behaved read" and "db_inv db" and "list_all (readable C format) splits"
    and "int (incoming_seq db) + int (length splits) < 2 ^ 63"
  shows "case read_each (sqlite_storage no_faults now) read C format splits db of
    (sent, r, db') \<Rightarrow> db_inv db' \<and> running_incoming db' = running_incoming db \<and> (\<forall>m. r \<noteq> Panic m)"
  using assms(2-4)
proof (induction splits arbitrary: db)
  case (Cons split splits)
  let ?S = "sqlite_storage no_faults now"
  obtain sent r db1 where one: "ReadSplit ?S read C format split db = (sent, r, db1)" by (metis prod_cases3)
  from Cons.prems have 1: "db_inv db1" "running_incoming db1 = running_incoming db" "incoming_seq db1 = incoming_seq db + 1"
    "\<And>m. r \<noteq> Panic m"
    using ReadSplit_closes [OF assms(1) Cons.prems(1) _ _ one] by auto
  from Cons.prems(2) obtain slct dsi where "tsp_Select split = Some slct" "sl_DataSourceInstance slct = Some dsi"
    by (auto simp: readable_def)
  then obtain fields where log: "AnnotateLoggerWithDataSourceInstance (Option.bind (tsp_Select split) sl_DataSourceInstance) = Ok fields"
    by (simp add: AnnotateLoggerWithDataSourceInstance_def)
  show ?case
  proof (cases r)
    case (Ok u)
    have "int (incoming_seq db1) + int (length splits) < 2 ^ 63" using Cons.prems(3) 1(3) by simp
    with Cons.IH [of db1] Cons.prems(2) 1 one log Ok show ?thesis by (auto split: prod.splits)
  qed (use 1 one log in \<open>simp_all\<close>)
qed simp

text \<open>C27: reading splits leaves no incoming query running. When every split of a request can be read (its source is supported
  and its columns have a representation), the database has no faults and its identifiers and statistics stay below
  \<open>2 ^ 63\<close>, then in whatever way the streaming loops and the goroutines of the data sources run to their ends, and whether the
  request succeeds or stops at a failing split, the incoming queries recorded as running afterwards are those recorded
  before, and the handler does not panic.\<close>

theorem read_splits_close_incoming_queries:
  assumes "runs_code encode read" and "db_inv db" and "list_all (readable C format) splits"
    and "int (incoming_seq db) + int (length splits) < 2 ^ 63"
  shows "case read_each (sqlite_storage no_faults now) read C format splits db of
    (sent, r, db') \<Rightarrow> db_inv db' \<and> running_incoming db' = running_incoming db \<and> (\<forall>m. r \<noteq> Panic m)"
  using read_each_closes [OF runs_code_well_behaved [OF assms(1)] assms(2-4)] .

text \<open>A split whose columns have no representation leaves its query behind. The collection registers the query
  before it looks at the columns, and the path that rejects them does not close it: the query stays recorded as
  running.\<close>

theorem rejected_columns_leave_query_running:
  assumes "db_inv db" and "tsp_Select split = Some slct" and "sl_DataSourceInstance slct = Some dsi"
    and "source_of True C (dsi_Kind dsi) = Ok ds" and "NewColumnarBufferFactory format (sl_What slct) = Err e"
  shows "case ReadSplit (sqlite_storage no_faults now) read C format split db of
    (sent, r, db') \<Rightarrow> r = Err (Wrap ''new columnar buffer factory'' e) \<and> incoming_seq db + 1 \<notin> running_incoming db \<and>
      running_incoming db' = insert (incoming_seq db + 1) (running_incoming db)"
proof -
  from create_incoming_run [OF assms(1), of now "kind_name (dsi_Kind dsi)"] obtain db1 where
    "sg_create (sqlite_storage no_faults now) (kind_name (dsi_Kind dsi)) db = (Ok (incoming_seq db + 1), db1)"
    "incoming_seq db + 1 \<notin> running_incoming db" "running_incoming db1 = insert (incoming_seq db + 1) (running_incoming db)" by metis
  with assms(2-5) show ?thesis by (simp add: ReadSplit_def select_kind_def instance_kind_def doReadSplit_def)
qed

section \<open>The sources of an accepted configuration\<close>

definition relational_kinds :: "data_source_kind set" where
  "relational_kinds = {CLICKHOUSE, POSTGRESQL, YDB, MS_SQL_SERVER, MYSQL, GREENPLUM, ORACLE, LOGGING}"

lemma relational_preset_built:
  assumes "relational_ok cfg"
  shows "\<exists>p. relational_preset mk m connect cfg = Ok p \<and> pr_formatter p \<noteq> None"
  using assms by (auto simp: relational_ok_def relational_preset_def pushdown_formatter_def)

lemma fillYdb_pushdown: "fillYdbConfigDefaults c = Ok y \<Longrightarrow> yc_pushdown y \<noteq> None"
  by (auto simp: fillYdbConfigDefaults_def split: option.splits)

lemma filled_ydb_sections:
  assumes "fill_datasources c = Ok d"
  obtains y l ly where "ds_ydb d = Some y" "yc_pushdown y \<noteq> None" "ds_logging d = Some l" "lc_ydb l = Some ly"
    "yc_pushdown ly \<noteq> None"
  using assms fillYdb_pushdown by (fastforce simp: fill_datasources_def Let_def res_simps)

lemma factory_built:
  assumes "datasources_ok d" and "ds_ydb d = Some y" "yc_pushdown y \<noteq> None" and "ds_logging d = Some l" "lc_ydb l = Some ly"
    "yc_pushdown ly \<noteq> None" and "\<And>c. connect c = Ok ()"
  obtains F where "NewDataSourceFactory E K connect d = Ok F"
    and "list_all (\<lambda>p. pr_formatter p \<noteq> None)
      [fa_clickhouse F, fa_postgresql F, fa_ydb F, fa_msSQLServer F, fa_mysql F, fa_greenplum F, fa_oracle F, fa_logging F]"
proof -
  let ?common = "ErrorCheckerMakeConnectionCommon E"
  from assms(1) have rel: "relational_ok (ds_clickhouse d)" "relational_ok (ds_greenplum d)" "relational_ok (ds_msSqlServer d)"
    "relational_ok (ds_mysql d)" "relational_ok (ds_oracle d)" "relational_ok (ds_postgresql d)" and res: "lc_resolving l \<noteq> None"
    using assms(4) by (auto simp: datasources_ok_def)
  obtain p1 p2 p3 p4 p5 p6 where p:
    "relational_preset ch_formatter ch_SQLTypeToYDBColumn ?common (ds_clickhouse d) = Ok p1" "pr_formatter p1 \<noteq> None"
    "relational_preset pg_formatter pg_SQLTypeToYDBColumn ?common (ds_postgresql d) = Ok p2" "pr_formatter p2 \<noteq> None"
    "relational_preset ms_formatter ms_SQLTypeToYDBColumn ?common (ds_msSqlServer d) = Ok p3" "pr_formatter p3 \<noteq> None"
    "relational_preset my_formatter my_SQLTypeToYDBColumn ?common (ds_mysql d) = Ok p4" "pr_formatter p4 \<noteq> None"
    "relational_preset pg_formatter pg_SQLTypeToYDBColumn ?common (ds_greenplum d) = Ok p5" "pr_formatter p5 \<noteq> None"
    "relational_preset ora_formatter ora_SQLTypeToYDBColumn (ora_ErrorCheckerMakeConnection E) (ds_oracle d) = Ok p6"
      "pr_formatter p6 \<noteq> None"
    using relational_preset_built [OF rel(1)] relational_preset_built [OF rel(2)] relational_preset_built [OF rel(3)]
      relational_preset_built [OF rel(4)] relational_preset_built [OF rel(5)] relational_preset_built [OF rel(6)] by meson
  obtain y1 where y1: "ydb_preset E K (ds_ydb d) = Ok y1" "pr_formatter y1 \<noteq> None"
    using assms(2,3) by (simp add: ydb_preset_def pushdown_formatter_def)
  from res obtain z where z: "lc_resolving l = Some z" by blast
  then have r: "NewResolver connect (ds_logging d) = Ok z"
    using assms(4,7) by (cases z) (simp_all add: NewResolver_def)
  obtain l1 where l1: "logging_preset E K (ds_ydb d) z (Option.bind (ds_logging d) lc_ydb) = Ok l1" "pr_formatter l1 \<noteq> None"
    using assms(2,4-6) by (simp add: logging_preset_def pushdown_formatter_def)
  show ?thesis
    by (rule that [of "\<lparr>fa_clickhouse = p1, fa_postgresql = p2, fa_ydb = y1, fa_msSQLServer = p3, fa_mysql = p4,
            fa_greenplum = p5, fa_oracle = p6, fa_logging = l1\<rparr>"])
      (use p y1 r l1 in \<open>simp_all add: NewDataSourceFactory_def\<close>)
qed

lemma accepted_datasources:
  assumes "NewConfigFromFile parsers path = Ok c"
  obtains d y l ly where "sc_datasources c = Some d" "datasources_ok d" "ds_ydb d = Some y" "yc_pushdown y \<noteq> None"
    "ds_logging d = Some l" "lc_ydb l = Some ly" "yc_pushdown ly \<noteq> None"
proof -
  from assms obtain c0 where f: "fillServerConfigDefaults c0 = Ok c" and v: "validateServerConfig c = Ok ()"
    by (auto simp: NewConfigFromFile_def res_simps)
  then obtain d where d: "sc_datasources c = Some d" "fill_datasources (sc_datasources c0) = Ok d"
    by (auto simp: fillServerConfigDefaults_def Let_def res_simps split: option.splits if_splits)
  have "datasources_ok d"
    using validate_filled_datasources [OF d(2)] v d(1) by (simp add: validateServerConfig_def config_checks)
  with filled_ydb_sections [OF d(2)] d(1) that show ?thesis by metis
qed

text \<open>C23: under an accepted configuration the server can make the data source of every kind of request it accepts.
  When the logging service can be reached, the factory is built, with a usable formatter in every preset, and every
  data source instance that passes validation has a data source, except that an S3 instance has none for the listing
  of splits.\<close>

theorem accepted_config_sources:
  assumes "NewConfigFromFile parsers path = Ok c" and "sc_datasources c = Some d" and "\<And>y. connect y = Ok ()"
  shows "\<exists>F. NewDataSourceFactory E K connect d = Ok F \<and>
    (\<forall>dsi s3. validateDataSourceInstance (Some dsi) = Ok () \<and> (dsi_Kind dsi = S3 \<longrightarrow> s3) \<longrightarrow>
      (\<exists>ds. source_of s3 \<lparr>co_rdbms = F, co_errors = E, co_cfg = d\<rparr> (dsi_Kind dsi) = Ok ds \<and>
        (\<forall>p. ds = RelationalSource p \<longrightarrow> pr_formatter p \<noteq> None)))"
proof -
  obtain y l ly where s: "datasources_ok d" "ds_ydb d = Some y" "yc_pushdown y \<noteq> None" "ds_logging d = Some l" "lc_ydb l = Some ly"
    "yc_pushdown ly \<noteq> None"
    using accepted_datasources [OF assms(1)] assms(2) by (metis option.inject)
  obtain F where F: "NewDataSourceFactory E K connect d = Ok F" "list_all (\<lambda>p. pr_formatter p \<noteq> None)
      [fa_clickhouse F, fa_postgresql F, fa_ydb F, fa_msSQLServer F, fa_mysql F, fa_greenplum F, fa_oracle F, fa_logging F]"
    by (rule factory_built [OF s assms(3)])
  have nosql: "ds_mongodb d \<noteq> None" "ds_redis d \<noteq> None" "ds_opensearch d \<noteq> None" using s(1) by (auto simp: datasources_ok_def)
  have "\<exists>ds. source_of s3 \<lparr>co_rdbms = F, co_errors = E, co_cfg = d\<rparr> (dsi_Kind dsi) = Ok ds \<and>
      (\<forall>p. ds = RelationalSource p \<longrightarrow> pr_formatter p \<noteq> None)"
    if "validateDataSourceInstance (Some dsi) = Ok ()" and "dsi_Kind dsi = S3 \<longrightarrow> s3" for dsi s3
  proof -
    have "complete_instance dsi" using instance_verdict [of "Some dsi"] that(1) by (auto simp: verdict_def split: if_splits)
    then have "dsi_Kind dsi \<notin> {KIND_UNSPECIFIED, PROMETHEUS, ICEBERG}" by (simp add: complete_instance_def)
    then consider "dsi_Kind dsi \<in> relational_kinds" | "dsi_Kind dsi = S3" | "dsi_Kind dsi \<in> {MONGO_DB, REDIS, OPENSEARCH}"
      by (cases "dsi_Kind dsi") (simp_all add: relational_kinds_def)
    then show ?thesis
    proof cases
      case 1
      then obtain p where "Make F (dsi_Kind dsi) = Ok p" "pr_formatter p \<noteq> None"
        using F(2) by (cases "dsi_Kind dsi") (simp_all add: relational_kinds_def Make_def)
      with 1 show ?thesis by (simp add: source_of_def relational_kinds_def)
    next
      case 2
      with that(2) show ?thesis by (simp add: source_of_def)
    next
      case 3
      with nosql show ?thesis by (elim insertE emptyE) (auto simp: source_of_def)
    qed
  qed
  with F(1) show ?thesis by blast
qed

text \<open>The retriers of Cloud Logging ignore the backoff configured for it.\<close>

lemma logging_retriers_ignore_section:
  assumes "NewDataSourceFactory E K connect d = Ok F"
  shows "pr_retriers (fa_logging F) = pr_retriers (fa_ydb F)"
  using assms by (auto simp: NewDataSourceFactory_def ydb_preset_def logging_preset_def res_simps split: option.splits)

section \<open>Errors of the handlers\<close>

text \<open>Describing a table panics for requests that the validation would reject or the data source would refuse: a
  request without a data source instance, whose kind is read when its rejection is reported, and a request of one of
  the kinds S3, Prometheus and Iceberg, for which the translation of errors has no case.\<close>

theorem describe_table_panics:
  assumes "dr_DataSourceInstance request = None \<or>
    (\<exists>dsi. dr_DataSourceInstance request = Some dsi \<and> dsi_Kind dsi \<in> {S3, PROMETHEUS, ICEBERG})"
  shows "\<exists>m. svc_DescribeTable D describe C request = Panic m"
proof (cases "dr_DataSourceInstance request")
  case None
  then show ?thesis by (simp add: svc_DescribeTable_def AnnotateLoggerWithDataSourceInstance_def)
next
  case (Some dsi)
  with assms have kind: "dsi_Kind dsi \<in> {S3, PROMETHEUS, ICEBERG}" by auto
  then have fail: "\<exists>m. describe_failure D e (Some dsi) = Panic m" for e
    by (auto simp: describe_failure_def NewAPIErrorFromStdError_def)
  have "\<exists>e. dsc_DescribeTable describe C request = Err e"
    using kind Some by (auto simp: dsc_DescribeTable_def source_of_def instance_kind_def s3_DescribeTable_def unsupported_kind_def)
  moreover have "ValidateDescribeTableRequest request = Ok () \<or> (\<exists>e. ValidateDescribeTableRequest request = Err e)"
    using request_validation_total by blast
  ultimately show ?thesis using Some fail by (auto simp: svc_DescribeTable_def AnnotateLoggerWithDataSourceInstance_def)
qed

text \<open>A limit on the number of splits that the connector does not support is reported as an internal error, and not
  as a bad request as every other rejected request is.\<close>

theorem max_split_count_internal_error:
  assumes "validateSelect slct = Ok ()" and "select_kind slct \<notin> {YDB, LOGGING} \<or> (select_kind slct = LOGGING \<and> n \<noteq> 3)"
    and "n \<noteq> 0" and "\<not> is_certificate_error D (NewErr ''invalid max split count'')"
    and "\<not> is_certificate_error D (NewErr ''unsupported data source kind'')"
  shows "\<exists>a. svc_ListSplits D (Ok ()) streamer C
      \<lparr>lsr_Selects = [slct], lsr_MaxSplitCount = n, lsr_SplitNumberLimit = 0, lsr_SplitSize = 0\<rparr> = ([Failure a], Ok ()) \<and>
    api_status a = INTERNAL_ERROR"
proof -
  have "complete_select slct" using select_verdict [of slct] assms(1) by (auto simp: verdict_def split: if_splits)
  then obtain s d where "slct = Some s" "sl_DataSourceInstance s = Some d" by (auto simp: complete_select_def)
  with assms show ?thesis
    by (auto simp: svc_ListSplits_def ValidateListSplitsRequest_def send_failure_def NewAPIErrorFromStdError_def
        newAPIErrorFromTLSError_def newAPIErrorFromConnectorError_def connector_cases_def select_kind_def instance_kind_def)
qed

section \<open>Witnesses\<close>

definition demo_errors :: error_facts where
  "demo_errors = \<lparr>isErrDeadlineExceeded = (\<lambda>e. False), isECONNREFUSED = (\<lambda>e. False), asDNSError = (\<lambda>e. None),
     asOpError = (\<lambda>e. None), isResourceExhausted = (\<lambda>e. False)\<rparr>"

definition demo_codecs :: codecs where
  "demo_codecs = \<lparr>ydb_unmarshal = (\<lambda>s. Ok SplitDataShard), logging_unmarshal = (\<lambda>s. Ok None)\<rparr>"

definition demo_preset :: preset where
  "demo_preset = \<lparr>pr_formatter = Some (pg_formatter True), pr_mapper = pg_SQLTypeToYDBColumn, pr_splits = DefaultSplits,
     pr_retriers = retriers_of None ErrorCheckerNoop ErrorCheckerNoop\<rparr>"

definition demo_collection :: collection where
  "demo_collection = \<lparr>co_rdbms = \<lparr>fa_clickhouse = demo_preset, fa_postgresql = demo_preset, fa_ydb = demo_preset,
       fa_msSQLServer = demo_preset, fa_mysql = demo_preset, fa_greenplum = demo_preset, fa_oracle = demo_preset,
       fa_logging = demo_preset\<rparr>, co_errors = demo_errors, co_cfg = zero_datasources\<rparr>"

definition demo_instance :: "data_source_kind \<Rightarrow> data_source_instance" where
  "demo_instance k = \<lparr>dsi_Kind = k, dsi_Endpoint = Some \<lparr>ep_host = ''db.local'', ep_port = 5432\<rparr>, dsi_Database = ''prod'',
     dsi_UseTls = True, dsi_Protocol = NATIVE, dsi_Options = NoOptions\<rparr>"

definition demo_select :: "data_source_kind \<Rightarrow> ydb_type \<Rightarrow> tselect" where
  "demo_select k t = \<lparr>sl_DataSourceInstance = Some (demo_instance k), sl_What = [Some \<lparr>col_name = ''a'', col_type = t\<rparr>]\<rparr>"

definition demo_split :: "ydb_type \<Rightarrow> tsplit" where
  "demo_split t = \<lparr>tsp_Id = 0, tsp_Select = Some (demo_select CLICKHOUSE t)\<rparr>"

text \<open>A reader that runs the code: over a relational source one connection registers its query, reads five rows and
  finishes it, and the sinks close the queue without a page; where the query cannot be registered the
  streaming loop reports the error.\<close>

definition demo_reader :: "(response, sqlite_db) reader" where
  "demo_reader ds q split db =
     (case ds of
        RelationalSource p \<Rightarrow>
          (case CreateOutgoingQuery no_tx_faults 1 q ''db'' ''h:1'' ''SELECT 1'' '''' db of
             (Ok i, db1) \<Rightarrow> ([], Ok (), \<lparr>tr_rows_read = 5, tr_bytes_read = 40\<rparr>, snd (FinishOutgoingQuery no_faults 4 i 5 db1))
           | (_, db1) \<Rightarrow> ([], Err (Wrap ''write data to stream'' (Wrap ''error'' (NewErr ''lost''))), \<lparr>tr_rows_read = 0, tr_bytes_read = 0\<rparr>, db))
      | _ \<Rightarrow> ([], Ok (), \<lparr>tr_rows_read = 0, tr_bytes_read = 0\<rparr>, db))"

lemma empty_stream_closed: "\<exists>s. rs_reach encode s \<and> rs_outcome s = Some (Ok ()) \<and> rs_sent s = []"
proof -
  let ?c = "rs_init\<lparr>rs_closed := True\<rparr>"
  have "rs_reach encode ?c" by (rule rs_next [OF rs_start close_queue])
  then have "rs_reach encode (?c\<lparr>rs_outcome := Some (Ok ())\<rparr>)" by (rule rs_next [OF _ queue_closed]) (simp_all add: rs_init_def)
  then show ?thesis by (force simp: rs_init_def)
qed

lemma failed_stream: "\<exists>s. rs_reach encode s \<and> rs_outcome s = Some (Err (Wrap ''error'' e)) \<and> rs_sent s = []"
proof -
  let ?c = "rs_init\<lparr>rs_errorChan := Some (Some e)\<rparr>"
  have "rs_reach encode ?c" by (rule rs_next [OF rs_start report])
  then have "rs_reach encode (?c\<lparr>rs_errorChan := None, rs_outcome := Some (Err (Wrap ''error'' e))\<rparr>)"
    by (rule rs_next [OF _ read_error]) (simp_all add: rs_init_def)
  then show ?thesis by (force simp: rs_init_def)
qed

lemma one_connection_run:
  assumes "CreateOutgoingQuery no_tx_faults 1 q ''db'' ''h:1'' ''SELECT 1'' '''' db = (Ok i, db1)"
  shows "\<exists>st. rd_reach {no_faults} q [demo_connection (Ok 5)] db st \<and> all_stopped st \<and>
    rd_db st = snd (FinishOutgoingQuery no_faults 4 i 5 db1)"
proof -
  let ?reach = "rd_reach {no_faults} q [demo_connection (Ok 5)] db"
  let ?s1 = "\<lparr>rd_db = db1, rd_conns = [Reading i], rd_error = None\<rparr>"
  have "?reach \<lparr>rd_db = db, rd_conns = [Waiting], rd_error = None\<rparr>"
    using rd_reach.start [of "{no_faults}" q "[demo_connection (Ok 5)]" db] by (simp add: rd_start_def)
  from rd_reach.step [OF this rd_step.create_succeeds [where j = 0 and i = i and qt = "''SELECT 1''" and args = "''''"
        and T = no_tx_faults and now = 1 and db = db1]]
  have "?reach ?s1" using assms by (simp add: demo_connection_def)
  from rd_reach.step [OF this rd_step.reading_succeeds [where j = 0 and i = i and n = 5 and F = no_faults and now = 4
        and r = "fst (FinishOutgoingQuery no_faults 4 i 5 db1)" and db = "snd (FinishOutgoingQuery no_faults 4 i 5 db1)"]]
  have "?reach (stop 0 None (snd (FinishOutgoingQuery no_faults 4 i 5 db1)) ?s1)" by (simp add: demo_connection_def)
  then show ?thesis by (force simp: stop_def all_stopped_def)
qed

lemma demo_start_inv: "db_inv empty_db"
  by (simp add: db_inv_def table_inv_def empty_db_def)

lemma demo_reader_runs_code: "runs_code encode demo_reader"
  unfolding runs_code_def
proof (intro allI impI)
  fix ds q split db sent r stats db'
  assume run: "demo_reader ds q split db = (sent, r, stats, db')"
  have closed: "\<exists>s outcome. rs_reach encode s \<and> rs_outcome s = Some outcome \<and> [] = rs_sent s \<and>
      Ok () = wrap_res ''write data to stream'' outcome"
    using empty_stream_closed [of encode] by force
  have failed: "\<exists>s outcome. rs_reach encode s \<and> rs_outcome s = Some outcome \<and> [] = rs_sent s \<and>
      Err (Wrap ''write data to stream'' (Wrap ''error'' (NewErr ''lost''))) = wrap_res ''write data to stream'' outcome"
    using failed_stream [of encode "NewErr ''lost''"] by force
  show "(\<exists>s outcome. rs_reach encode s \<and> rs_outcome s = Some outcome \<and> sent = rs_sent s \<and> r = wrap_res ''write data to stream'' outcome) \<and>
      (db' = db \<or> (\<exists>p cs st. ds = RelationalSource p \<and> rd_reach {no_faults} q cs db st \<and> all_stopped st \<and> db' = rd_db st)) \<and>
      int (tr_rows_read stats) < 2 ^ 63 \<and> int (tr_bytes_read stats) < 2 ^ 63"
  proof (cases ds)
    case (RelationalSource p)
    obtain c db1 where c: "CreateOutgoingQuery no_tx_faults 1 q ''db'' ''h:1'' ''SELECT 1'' '''' db = (c, db1)" by fastforce
    show ?thesis
    proof (cases c)
      case (Ok i)
      from one_connection_run [OF c [unfolded Ok]] obtain st where
        "rd_reach {no_faults} q [demo_connection (Ok 5)] db st" "all_stopped st" "rd_db st = snd (FinishOutgoingQuery no_faults 4 i 5 db1)"
        by blast
      with run RelationalSource c Ok closed show ?thesis by (auto simp: demo_reader_def)
    qed (use run RelationalSource c failed in \<open>auto simp: demo_reader_def\<close>)
  qed (use run closed in \<open>auto simp: demo_reader_def\<close>)
qed

theorem read_splits_close_incoming_queries_witness:
  "running_incoming (snd (snd (read_each (sqlite_storage no_faults 5) demo_reader demo_collection ARROW_IPC_STREAMING
      [demo_split (TypeId Type_INT32), demo_split (TypeId Type_UTF8)] empty_db))) = running_incoming empty_db"
proof -
  have "list_all (readable demo_collection ARROW_IPC_STREAMING) [demo_split (TypeId Type_INT32), demo_split (TypeId Type_UTF8)]"
    by (simp add: readable_def demo_split_def demo_select_def demo_instance_def source_of_def Make_def NewColumnarBufferFactory_def)
  moreover have "int (incoming_seq empty_db) + int (length [demo_split (TypeId Type_INT32), demo_split (TypeId Type_UTF8)]) < 2 ^ 63"
    by (simp add: empty_db_def)
  ultimately show ?thesis
    using read_splits_close_incoming_queries [OF demo_reader_runs_code demo_start_inv, of demo_collection ARROW_IPC_STREAMING
        "[demo_split (TypeId Type_INT32), demo_split (TypeId Type_UTF8)]" 5]
    by (auto split: prod.splits)
qed

theorem rejected_columns_leave_query_running_witness:
  "1 \<notin> running_incoming empty_db \<and>
   1 \<in> running_incoming (snd (snd (ReadSplit (sqlite_storage no_faults 5) demo_reader demo_collection ARROW_IPC_STREAMING
      (demo_split TypeUnset) empty_db)))"
proof -
  obtain e where "NewColumnarBufferFactory ARROW_IPC_STREAMING (sl_What (demo_select CLICKHOUSE TypeUnset)) = Err e"
    by (simp add: demo_select_def NewColumnarBufferFactory_def unsupported_shape_def)
  from rejected_columns_leave_query_running [OF demo_start_inv _ _ _ this, of "demo_split TypeUnset" "demo_instance CLICKHOUSE"
      demo_collection "RelationalSource demo_preset" 5 demo_reader]
  show ?thesis
    by (auto simp: demo_split_def demo_select_def demo_instance_def demo_collection_def source_of_def Make_def empty_db_def
        split: prod.splits)
qed

theorem accepted_config_sources_witness:
  "\<exists>c d F. NewConfigFromFile [\<lambda>_. Ok bare_config] ''conf.txt'' = Ok c \<and> sc_datasources c = Some d \<and>
     NewDataSourceFactory demo_errors demo_codecs (\<lambda>y. Ok ()) d = Ok F"
proof -
  obtain c where c: "NewConfigFromFile [\<lambda>_. Ok bare_config] ''conf.txt'' = Ok c"
    using bare_config_filled by (auto simp: NewConfigFromFile_def)
  then obtain d where d: "sc_datasources c = Some d" by (metis accepted_datasources)
  from accepted_config_sources [OF c d, of "\<lambda>y. Ok ()" demo_errors demo_codecs] c d show ?thesis by blast
qed

theorem describe_table_panics_witness:
  "\<exists>m. svc_DescribeTable demo_drivers (\<lambda>ds r. Ok []) demo_collection
     \<lparr>dr_DataSourceInstance = Some (demo_instance S3), dr_Table = ''t''\<rparr> = Panic m"
  by (rule describe_table_panics) (simp add: demo_instance_def)

theorem max_split_count_internal_error_witness:
  "\<exists>a. svc_ListSplits demo_drivers (Ok ()) (\<lambda>i ds slct. ([1 :: nat, 2], Ok ())) demo_collection
      \<lparr>lsr_Selects = [Some (demo_select CLICKHOUSE (TypeId Type_INT32))], lsr_MaxSplitCount = 2, lsr_SplitNumberLimit = 0,
       lsr_SplitSize = 0\<rparr> = ([Failure a], Ok ()) \<and> api_status a = INTERNAL_ERROR"
  by (rule max_split_count_internal_error)
    (simp_all add: demo_drivers_def validateSelect_def validateDataSourceInstance_def demo_select_def demo_instance_def
      dsi_validateEndpoint_def validateDatabase_def validateUseTLS_def validateDataSourceOptions_def select_kind_def
      instance_kind_def)

end
