(* ===== verification/MongoDb.thy ===== *)
theory MongoDb
  imports Appenders "HOL-Library.AList" "HOL-Library.Multiset"
begin

text \<open>
  MongoDB (\<^verbatim>\<open>nosql/mongodb\<close>): the deduction of a schema from sample documents (\<^verbatim>\<open>type_mapping.go\<close>), the reading of
  documents into Arrow columns (\<^verbatim>\<open>document_reader.go\<close>) and the operations of the data source (\<^verbatim>\<open>datasource.go\<close>). A BSON
  value is a datatype; \<open>BMap\<close> lists the fields of a \<^verbatim>\<open>bson.M\<close> in the order of Go's iteration, which is arbitrary. The
  texts of values that other libraries render (floats, times, decimals, base64, object identifiers, \<^verbatim>\<open>%s\<close> of a value)
  are parameters, and so are connections and cursors.
\<close>

section \<open>Values\<close>

datatype bson =
    BInt32 "32 word"
  | BInt64 "64 word"
  | BDouble "64 word"
  | BString string
  | BBool bool
  | BObjectID string
  | BDateTime "64 word"
  | BDecimal128 string
  | BBinary string
  | BArray "bson list"
  | BMap "(string \<times> bson) list"
  | BDoc "(string \<times> bson) list"
  | BNull
  | BOther nat

record renderers =
  rn_float :: "64 word \<Rightarrow> string"
  rn_time :: "64 word \<Rightarrow> string"
  rn_decimal :: "string \<Rightarrow> string"
  rn_base64 :: "string \<Rightarrow> string"
  rn_object_id :: "string \<Rightarrow> string"
  rn_fmt :: "bson \<Rightarrow> string"

definition unsupported :: "go_error option" where
  "unsupported = Some (Sentinel ErrDataTypeNotSupported)"

text \<open>The loops of \<^verbatim>\<open>bsonMToString\<close> and \<^verbatim>\<open>bsonDToString\<close> increment the index before they test whether a separator
  follows.\<close>

fun join_array :: "string list \<Rightarrow> string" where
  "join_array [] = []"
| "join_array [s] = s"
| "join_array (s # ss) = s @ '', '' @ join_array ss"

fun join_fields :: "string list \<Rightarrow> string" where
  "join_fields [] = []"
| "join_fields [s] = s"
| "join_fields [s, t] = s @ t"
| "join_fields (s # ss) = s @ '', '' @ join_fields ss"

text \<open>The Go functions return a text and an error together; a container always reports its type as unsupported.\<close>

fun bsonToString :: "renderers \<Rightarrow> bson \<Rightarrow> string \<times> go_error option"
  and bson_items :: "renderers \<Rightarrow> bson list \<Rightarrow> go_error + string list"
  and bson_fields :: "renderers \<Rightarrow> bool \<Rightarrow> (string \<times> bson) list \<Rightarrow> go_error + string list" where
  "bsonToString R (BInt32 w) = (int_text (sint w), None)"
| "bsonToString R (BInt64 w) = (int_text (sint w), None)"
| "bsonToString R (BDouble w) = (rn_float R w, None)"
| "bsonToString R (BString s) = (s, None)"
| "bsonToString R (BBool b) = (if b then ''true'' else ''false'', None)"
| "bsonToString R (BObjectID i) = (rn_object_id R i, None)"
| "bsonToString R (BDateTime t) = (rn_time R t, unsupported)"
| "bsonToString R (BDecimal128 d) = (rn_decimal R d, unsupported)"
| "bsonToString R (BBinary b) = (rn_base64 R b, None)"
| "bsonToString R (BArray xs) =
     (case bson_items R xs of Inl e \<Rightarrow> ([], Some e) | Inr ss \<Rightarrow> (''['' @ join_array ss @ '']'', unsupported))"
| "bsonToString R (BMap kvs) =
     (case bson_fields R True kvs of Inl e \<Rightarrow> ([], Some e) | Inr ss \<Rightarrow> (''{'' @ join_fields ss @ ''}'', unsupported))"
| "bsonToString R (BDoc kvs) =
     (case bson_fields R False kvs of Inl e \<Rightarrow> ([], Some e) | Inr ss \<Rightarrow> (''{'' @ join_fields ss @ ''}'', unsupported))"
| "bsonToString R BNull = ([], unsupported)"
| "bsonToString R (BOther n) = ([], unsupported)"
| "bson_items R [] = Inr []"
| "bson_items R (x # xs) =
     (case bsonToString R x of
        (s, Some e) \<Rightarrow> Inl e
      | (s, None) \<Rightarrow> (case bson_items R xs of Inl e \<Rightarrow> Inl e | Inr ss \<Rightarrow> Inr (s # ss)))"
| "bson_fields R keys [] = Inr []"
| "bson_fields R keys ((k, v) # kvs) =
     (case bsonToString R v of
        (s, Some e) \<Rightarrow> Inl e
      | (s, None) \<Rightarrow>
          (case bson_fields R keys kvs of
             Inl e \<Rightarrow> Inl e
           | Inr ss \<Rightarrow> Inr (((if keys then k else rn_fmt R v) @ '': '' @ s) # ss)))"

section \<open>Deducing a schema\<close>

definition objectIdTag :: string where "objectIdTag = ''ObjectId''"

datatype type_error = ErrNull | ErrUnsupported

fun mg_typeMap :: "bson \<Rightarrow> type_error + ydb_type" where
  "mg_typeMap (BInt32 w) = Inr (MakePrimitiveType Type_INT32)"
| "mg_typeMap (BInt64 w) = Inr (MakePrimitiveType Type_INT64)"
| "mg_typeMap (BBool b) = Inr (MakePrimitiveType Type_BOOL)"
| "mg_typeMap (BDouble w) = Inr (MakePrimitiveType Type_DOUBLE)"
| "mg_typeMap (BString s) = Inr (MakePrimitiveType Type_UTF8)"
| "mg_typeMap (BBinary s) = Inr (MakePrimitiveType Type_STRING)"
| "mg_typeMap (BObjectID i) = Inr (MakeTaggedType objectIdTag (MakePrimitiveType Type_STRING))"
| "mg_typeMap BNull = Inl ErrNull"
| "mg_typeMap _ = Inl ErrUnsupported"

text \<open>The maps of \<^verbatim>\<open>bsonToYql\<close>. \<^verbatim>\<open>typeMap\<close> never reports an empty array, so \<^verbatim>\<open>ambiguousArrayFields\<close> stays
  empty and its branches cannot be taken.\<close>

record deduction =
  deducedTypes :: "(string \<times> ydb_type) list"
  ambiguousFields :: "string list"

definition set_type :: "string \<Rightarrow> ydb_type \<Rightarrow> deduction \<Rightarrow> deduction" where
  "set_type key t st = st\<lparr>deducedTypes := AList.update key t (deducedTypes st)\<rparr>"

definition bsonToYqlColumn :: "bool \<Rightarrow> (string \<times> bson) res \<Rightarrow> deduction \<Rightarrow> deduction res" where
  "bsonToYqlColumn omitUnsupported elem st =
     bind_res (wrap_res ''elem.KeyErr'' elem) (\<lambda>(key, v).
       case mg_typeMap v of
         Inl ErrNull \<Rightarrow> Ok (st\<lparr>ambiguousFields := List.insert key (ambiguousFields st)\<rparr>)
       | Inl ErrUnsupported \<Rightarrow>
           Ok (if omitUnsupported then st else set_type key (MakePrimitiveType Type_UTF8) st)
       | Inr t \<Rightarrow>
           bind_res (case map_of (deducedTypes st) key of None \<Rightarrow> Ok True | Some prevType \<Rightarrow> TypesEqual prevType t)
             (\<lambda>same. Ok (set_type key (if same then t else MakePrimitiveType Type_UTF8) st)))"

fun deduce_elements :: "bool \<Rightarrow> (string \<times> bson) res list \<Rightarrow> deduction \<Rightarrow> deduction res" where
  "deduce_elements omit [] st = Ok st"
| "deduce_elements omit (e # es) st =
     bind_res (wrap_res ''bsonToYqlColumn'' (bsonToYqlColumn omit e st)) (deduce_elements omit es)"

type_synonym raw_document = "(string \<times> bson) res list res"

fun deduce :: "bool \<Rightarrow> raw_document list \<Rightarrow> deduction \<Rightarrow> deduction res" where
  "deduce omit [] st = Ok st"
| "deduce omit (doc # docs) st =
     bind_res (wrap_res ''document elements'' doc) (\<lambda>elements.
     bind_res (deduce_elements omit elements st) (deduce omit docs))"

definition settle :: "string list \<Rightarrow> (string \<times> ydb_type) list \<Rightarrow> (string \<times> ydb_type) list" where
  "settle ambiguous types =
     fold (\<lambda>f ts. if map_of ts f = None then AList.update f (MakePrimitiveType Type_UTF8) ts else ts) ambiguous types"

text \<open>\<open>order\<close> is the order in which Go iterates over the map.\<close>

definition bsonToYql ::
    "((string \<times> ydb_type) list \<Rightarrow> (string \<times> ydb_type) list) \<Rightarrow> bool \<Rightarrow> raw_document list \<Rightarrow> column list res" where
  "bsonToYql order omitUnsupported docs =
     (if docs = [] then Ok []
      else
        bind_res (deduce omitUnsupported docs \<lparr>deducedTypes = [], ambiguousFields = []\<rparr>) (\<lambda>st.
          Ok (map (\<lambda>(k, t). \<lparr>col_name = k, col_type = MakeOptionalType t\<rparr>)
                (order (settle (ambiguousFields st) (deducedTypes st))))))"

section \<open>Reading documents\<close>

datatype mg_acceptor =
    Basic acceptor
  | BinaryPtr string
  | BinaryPtrPtr "string option"
  | ObjectPtr string
  | ObjectPtrPtr "string option"
  | NilAcceptor

datatype mg_appender =
    BasicAppender appender
  | BinaryAppender
  | BinaryAppenderNullable
  | ObjectAppender
  | ObjectAppenderNullable

text \<open>An identifier of a primitive type that has no case adds neither an acceptor nor an appender.\<close>

definition mg_simple :: "prim_type \<Rightarrow> (converter \<times> arrow_type) list" where
  "mg_simple i =
     (case i of
        Type_BOOL \<Rightarrow> [(BoolConv, Arrow_Uint8)]
      | Type_INT32 \<Rightarrow> [(Noop KInt32, Arrow_Int32)]
      | Type_INT64 \<Rightarrow> [(Noop KInt64, Arrow_Int64)]
      | Type_DOUBLE \<Rightarrow> [(Noop KFloat64, Arrow_Float64)]
      | Type_UTF8 \<Rightarrow> [(Noop KString, Arrow_String)]
      | Type_JSON \<Rightarrow> [(Noop KString, Arrow_String)]
      | _ \<Rightarrow> [])"

definition addAcceptorAppenderNullable :: "ydb_type \<Rightarrow> (mg_acceptor \<times> mg_appender) list res" where
  "addAcceptorAppenderNullable t =
     (case t of
        TypeId i \<Rightarrow>
          Ok (if i = Type_STRING then [(BinaryPtrPtr None, BinaryAppenderNullable)]
              else map (\<lambda>(c, ab). (Basic (PtrPtr (conv_in c) None), BasicAppender (MakeAppenderNullable c ab))) (mg_simple i))
      | TaggedType tag _ \<Rightarrow>
          if tag = objectIdTag then Ok [(ObjectPtrPtr None, ObjectAppenderNullable)]
          else Err (NewErr ''unknown Tagged tag'')
      | _ \<Rightarrow> Err (NewErr ''unsupported''))"

definition addAcceptorAppenderNonNullable :: "ydb_type \<Rightarrow> (mg_acceptor \<times> mg_appender) list res" where
  "addAcceptorAppenderNonNullable t =
     (case t of
        TypeId i \<Rightarrow>
          Ok (if i = Type_STRING then [(BinaryPtr [], BinaryAppender)]
              else map (\<lambda>(c, ab). (Basic (Ptr (zero_value (conv_in c))), BasicAppender (MakeAppender c ab))) (mg_simple i))
      | TaggedType tag _ \<Rightarrow>
          if tag = objectIdTag then Ok [(ObjectPtr [], ObjectAppender)]
          else Err (NewErr ''unknown Tagged tag'')
      | _ \<Rightarrow> Err (NewErr ''unsupported''))"

definition mg_addAcceptorAppender :: "ydb_type \<Rightarrow> (mg_acceptor \<times> mg_appender) list res" where
  "mg_addAcceptorAppender t =
     (case t of OptionalType u \<Rightarrow> addAcceptorAppenderNullable u | _ \<Rightarrow> addAcceptorAppenderNonNullable t)"

fun makeTransformer :: "ydb_type list \<Rightarrow> (mg_acceptor \<times> mg_appender) list res" where
  "makeTransformer [] = Ok []"
| "makeTransformer (t # ts) =
     bind_res (wrap_res ''addAcceptorAppender'' (mg_addAcceptorAppender t)) (\<lambda>es.
     bind_res (makeTransformer ts) (\<lambda>rest. Ok (es @ rest)))"

datatype unexpected_mode = UNEXPECTED_UNSPECIFIED | UNEXPECTED_AS_NULL | UNEXPECTED_AS_STRING

text \<open>The value of a document as a Go value of a basic kind; \<^verbatim>\<open>convert\<close> is a checked type assertion.\<close>

fun basic_value :: "bson \<Rightarrow> go_value option" where
  "basic_value (BBool b) = Some (VBool b)"
| "basic_value (BInt32 w) = Some (VInt32 w)"
| "basic_value (BInt64 w) = Some (VInt64 w)"
| "basic_value (BDouble w) = Some (VFloat64 w)"
| "basic_value _ = None"

definition asserted :: "go_kind \<Rightarrow> bson option \<Rightarrow> go_value option" where
  "asserted k v = (case Option.bind v basic_value of Some g \<Rightarrow> if kind_of g = k then Some g else None | None \<Rightarrow> None)"

definition must :: "'a option \<Rightarrow> 'a res" where
  "must x = (case x of Some y \<Rightarrow> Ok y | None \<Rightarrow> Panic ''interface conversion'')"

text \<open>The text a string column gets: \<open>Ok None\<close> when the mode asks for NULL.\<close>

definition string_value :: "renderers \<Rightarrow> unexpected_mode \<Rightarrow> bson \<Rightarrow> string option res" where
  "string_value R mode v =
     (case bsonToString R v of
        (s, None) \<Rightarrow> Ok (Some s)
      | (s, Some e) \<Rightarrow>
          if \<not> errors_is e ErrDataTypeNotSupported then Err e
          else if mode = UNEXPECTED_AS_NULL then Ok None
          else Ok (Some s))"

definition mg_binary :: "bson option \<Rightarrow> string option" where
  "mg_binary v = (case v of Some (BBinary s) \<Rightarrow> Some s | _ \<Rightarrow> None)"

definition mg_object :: "bson option \<Rightarrow> string option" where
  "mg_object v = (case v of Some (BObjectID s) \<Rightarrow> Some s | _ \<Rightarrow> None)"

definition accept_field :: "renderers \<Rightarrow> unexpected_mode \<Rightarrow> bson option \<Rightarrow> mg_acceptor \<Rightarrow> mg_acceptor res" where
  "accept_field R mode v acc =
     (case acc of
        Basic (Ptr z) \<Rightarrow>
          if kind_of z \<in> {KBool, KInt32, KInt64, KFloat64} then
            bind_res (must (asserted (kind_of z) v)) (\<lambda>g. Ok (Basic (Ptr g)))
          else if kind_of z = KString then
            (case v of
               None \<Rightarrow> Ok NilAcceptor
             | Some b \<Rightarrow> bind_res (string_value R mode b) (\<lambda>s.
                 Ok (case s of None \<Rightarrow> acc | Some s \<Rightarrow> Basic (Ptr (VString s)))))
          else Err (Wrap ''unuspported type'' (Sentinel ErrDataTypeNotSupported))
      | Basic (PtrPtr k p) \<Rightarrow>
          if k \<in> {KBool, KInt32, KInt64, KFloat64} then Ok (Basic (PtrPtr k (asserted k v)))
          else if k = KString then
            (case v of
               None \<Rightarrow> Ok (Basic (PtrPtr k None))
             | Some b \<Rightarrow> bind_res (string_value R mode b) (\<lambda>s. Ok (Basic (PtrPtr k (map_option VString s)))))
          else Err (Wrap ''unuspported type'' (Sentinel ErrDataTypeNotSupported))
      | BinaryPtr s \<Rightarrow> bind_res (must (mg_binary v)) (\<lambda>s. Ok (BinaryPtr s))
      | BinaryPtrPtr p \<Rightarrow> Ok (BinaryPtrPtr (mg_binary v))
      | ObjectPtr s \<Rightarrow> bind_res (must (mg_object v)) (\<lambda>s. Ok (ObjectPtr s))
      | ObjectPtrPtr p \<Rightarrow> Ok (ObjectPtrPtr (mg_object v))
      | _ \<Rightarrow> Err (Wrap ''unuspported type'' (Sentinel ErrDataTypeNotSupported)))"

fun accept_loop ::
    "renderers \<Rightarrow> unexpected_mode \<Rightarrow> (string \<rightharpoonup> bson) \<Rightarrow> nat \<Rightarrow> string list \<Rightarrow> mg_acceptor list \<Rightarrow> unit res \<times> mg_acceptor list" where
  "accept_loop R mode doc i [] accs = (Ok (), accs)"
| "accept_loop R mode doc i (f # fs) accs =
     (if i \<ge> length accs then (Panic ''index out of range'', accs)
      else
        (case accept_field R mode (doc f) (accs ! i) of
           Ok a \<Rightarrow> accept_loop R mode doc (Suc i) fs (accs[i := a])
         | Err e \<Rightarrow> (Err e, accs)
         | Panic m \<Rightarrow> (Panic m, accs)))"

definition mg_accept ::
    "renderers \<Rightarrow> unexpected_mode \<Rightarrow> string list \<Rightarrow> (string \<rightharpoonup> bson) \<Rightarrow> mg_acceptor list \<Rightarrow> unit res \<times> mg_acceptor list" where
  "mg_accept R mode names doc accs = accept_loop R mode doc 0 names accs"

fun mg_run :: "conversion_config \<Rightarrow> renderers \<Rightarrow> mg_appender \<Rightarrow> mg_acceptor \<Rightarrow> arrow_type \<Rightarrow> (cell \<times> mg_acceptor) res" where
  "mg_run cfg R (BasicAppender ap) (Basic a) b = res_map (\<lambda>(x, a). (x, Basic a)) (run_appender cfg ap a b)"
| "mg_run cfg R BinaryAppender (BinaryPtr s) b =
     (if b = Arrow_Binary then Ok (Cell (VBytes s), BinaryPtr s) else Panic ''interface conversion'')"
| "mg_run cfg R BinaryAppenderNullable (BinaryPtrPtr p) b =
     (case p of
        None \<Rightarrow> Ok (Null, BinaryPtrPtr None)
      | Some s \<Rightarrow> if b = Arrow_Binary then Ok (Cell (VBytes s), BinaryPtrPtr p) else Panic ''interface conversion'')"
| "mg_run cfg R ObjectAppender (ObjectPtr s) b =
     (if b = Arrow_Binary then Ok (Cell (VBytes (rn_object_id R s)), ObjectPtr s) else Panic ''interface conversion'')"
| "mg_run cfg R ObjectAppenderNullable (ObjectPtrPtr p) b =
     (case p of
        None \<Rightarrow> Ok (Null, ObjectPtrPtr None)
      | Some s \<Rightarrow>
          if b = Arrow_Binary then Ok (Cell (VBytes (rn_object_id R s)), ObjectPtrPtr p) else Panic ''interface conversion'')"
| "mg_run cfg R _ _ b = Panic ''interface conversion''"

section \<open>What the deduction finds\<close>

text \<open>
  The reference: the types a column was seen with, NULL and omitted values apart, whatever their order. One type is the
  type of the column, several make it a text, and so does a column that was only seen as NULL.
\<close>

definition observed :: "bool \<Rightarrow> bson \<Rightarrow> ydb_type list" where
  "observed omit v =
     (case mg_typeMap v of
        Inr t \<Rightarrow> [t]
      | Inl ErrUnsupported \<Rightarrow> if omit then [] else [TypeId Type_UTF8]
      | Inl ErrNull \<Rightarrow> [])"

definition common_type :: "ydb_type list \<Rightarrow> ydb_type option" where
  "common_type ts =
     (case ts of [] \<Rightarrow> None | t # _ \<Rightarrow> Some (if \<forall>u \<in> set ts. u = t then t else TypeId Type_UTF8))"

definition column_type :: "bool \<Rightarrow> bson list \<Rightarrow> ydb_type option" where
  "column_type omit vs =
     (case common_type (concat (map (observed omit) vs)) of
        Some t \<Rightarrow> Some t
      | None \<Rightarrow> if BNull \<in> set vs then Some (TypeId Type_UTF8) else None)"

definition values_of :: "string \<Rightarrow> (string \<times> bson) list \<Rightarrow> bson list" where
  "values_of k es = map snd (filter (\<lambda>e. fst e = k) es)"

text \<open>No field holds an object identifier in one place and a value of another supported type in another.\<close>

definition id_type :: ydb_type where
  "id_type = TaggedType objectIdTag (TypeId Type_STRING)"



lemma typeMap_shape: "mg_typeMap v = Inr t \<Longrightarrow> t = id_type \<or> (\<exists>i. t = TypeId i \<and> i \<noteq> Type_UNSPECIFIED)"
  by (cases v) (auto simp: id_type_def)






lemma common_type_set: "set ts = set us \<Longrightarrow> common_type ts = common_type us"
proof (cases "ts = []")
  case False
  assume same: "set ts = set us"
  have alt: "common_type xs = Some (if \<forall>u \<in> set xs. u = hd xs then hd xs else TypeId Type_UTF8)" if "xs \<noteq> []" for xs
    using that by (cases xs) (simp_all add: common_type_def)
  have us: "us \<noteq> []" using False same by auto
  have "hd ts \<in> set us" "hd us \<in> set us" using hd_in_set [OF False] hd_in_set [OF us] same by simp_all
  then have "(\<forall>u \<in> set us. u = hd ts) \<longleftrightarrow> (\<forall>u \<in> set us. u = hd us)" "(\<forall>u \<in> set us. u = hd ts) \<Longrightarrow> hd ts = hd us"
    by metis+
  then show ?thesis unfolding alt [OF False] alt [OF us] same by simp
qed (simp add: common_type_def)




















lemma column_type_order:
  assumes "mset es = mset es'"
  shows "column_type omit (values_of k es) = column_type omit (values_of k es')"
proof -
  have "set (values_of k es) = set (values_of k es')" using mset_eq_setD [OF assms] by (auto simp: values_of_def)
  then show ?thesis
    using common_type_set [of "concat (map (observed omit) (values_of k es))" "concat (map (observed omit) (values_of k es'))"]
    by (simp add: column_type_def)
qed

text \<open>A field that holds an object identifier in one document and a value of another supported type in a later one makes
  \<^verbatim>\<open>TypesEqual\<close> dereference a nil pointer: the description of the collection panics.\<close>

theorem mongo_mixed_ids_panic:
  assumes "mg_typeMap v = Inr t" and "t \<noteq> id_type"
  shows "bsonToYql order omit [Ok [Ok (k, BObjectID i)], Ok [Ok (k, v)]] = Panic ''nil pointer dereference''"
proof -
  obtain i where "t = TypeId i" using typeMap_shape [OF assms(1)] assms(2) by blast
  then show ?thesis using assms(1) by (simp add: bsonToYql_def bsonToYqlColumn_def set_type_def)
qed

section \<open>Reading a collection\<close>

text \<open>
  One row through the sink: the traffic tracker rejects a nil acceptor, the buffer checks the number of values, then every
  appender runs on its acceptor. A
  request without columns has a buffer that only counts rows. Pages and limits are the sink's own
  (\<open>Sinks\<close>).
\<close>

fun mg_append ::
    "conversion_config \<Rightarrow> renderers \<Rightarrow> mg_appender list \<Rightarrow> arrow_type list \<Rightarrow> mg_acceptor list \<Rightarrow> (cell list \<times> mg_acceptor list) res" where
  "mg_append cfg R [] bs [] = Ok ([], [])"
| "mg_append cfg R (ap # aps) (b # bs) (a # as) =
     bind_res (mg_run cfg R ap a b) (\<lambda>(c, a').
     bind_res (mg_append cfg R aps bs as) (\<lambda>(cs, as'). Ok (c # cs, a' # as')))"
| "mg_append cfg R _ _ _ = Panic ''index out of range''"

definition mg_addRow ::
    "conversion_config \<Rightarrow> renderers \<Rightarrow> mg_appender list \<Rightarrow> arrow_type list \<Rightarrow> mg_acceptor list \<Rightarrow> (cell list \<times> mg_acceptor list) res" where
  "mg_addRow cfg R aps bs as =
     (if NilAcceptor \<in> set as then
        Err (Wrap ''value of unexpected data type'' (Sentinel ErrDataTypeNotSupported))
      else if bs = [] then
        (if length as \<noteq> 1 then Err (NewErr ''expected 1 value'') else Ok ([], as))
      else if length bs \<noteq> length as then Err (NewErr ''expected another number of values in a row'')
      else mg_append cfg R aps bs as)"

type_synonym document = "string \<rightharpoonup> bson"

fun read_documents ::
    "conversion_config \<Rightarrow> renderers \<Rightarrow> unexpected_mode \<Rightarrow> string list \<Rightarrow> mg_appender list \<Rightarrow> arrow_type list \<Rightarrow>
     document res list \<Rightarrow> mg_acceptor list \<Rightarrow> cell list list res" where
  "read_documents cfg R mode names aps bs [] as = Ok []"
| "read_documents cfg R mode names aps bs (d # ds) as =
     bind_res (wrap_res ''decode'' d) (\<lambda>doc.
       case mg_accept R mode names doc as of (r, as1) \<Rightarrow>
         bind_res (wrap_res ''accept document'' r) (\<lambda>_.
         bind_res (wrap_res ''add row to sink'' (mg_addRow cfg R aps bs as1)) (\<lambda>(row, as2).
         bind_res (read_documents cfg R mode names aps bs ds as2) (\<lambda>rows. Ok (row # rows)))))"

text \<open>\<^verbatim>\<open>doReadSplitSingleConn\<close>: the documents the cursor gives and the error it ends with; the builders are those of the
  sink's buffer.\<close>

definition mg_doReadSplitSingleConn ::
    "conversion_config \<Rightarrow> renderers \<Rightarrow> unexpected_mode \<Rightarrow> select_what \<Rightarrow> (document res list \<times> go_error option) res \<Rightarrow> cell list list res" where
  "mg_doReadSplitSingleConn cfg R mode what found =
     bind_res (wrap_res ''find in collection'' found) (\<lambda>(docs, cursor_err).
     bind_res (wrap_res ''select what to Arrow schema'' (SelectWhatToArrowSchema what)) (\<lambda>schema.
     bind_res (wrap_res ''select what to YDB schema'' (SelectWhatToYDBTypes what)) (\<lambda>types.
     bind_res (wrap_res ''make document reader'' (makeTransformer types)) (\<lambda>es.
     bind_res (YdbTypesToArrowBuilders types) (\<lambda>bs.
     bind_res (read_documents cfg R mode (map af_name schema) (map snd es) bs docs (map fst es)) (\<lambda>rows.
       case cursor_err of None \<Rightarrow> Ok rows | Some e \<Rightarrow> Err (Wrap ''cursor'' e)))))))"

text \<open>The checks that \<^verbatim>\<open>DescribeTable\<close> and \<^verbatim>\<open>ReadSplit\<close> share.\<close>

record mg_options =
  readingMode_TABLE :: bool
  unsupportedDisplay_OMIT :: bool
  unexpectedDisplay :: unexpected_mode

definition mg_check :: "bool \<Rightarrow> mg_options option \<Rightarrow> mg_options res" where
  "mg_check native options =
     (if \<not> native then Err (NewErr ''cannot run MongoDb connection with protocol'')
      else case options of
        None \<Rightarrow> Err (NewErr ''TMongoDbDataSourceOptions not provided'')
      | Some m \<Rightarrow> if readingMode_TABLE m then Ok m else Err (NewErr ''unsupported reading_mode''))"

definition mg_DescribeTable ::
    "((string \<times> ydb_type) list \<Rightarrow> (string \<times> ydb_type) list) \<Rightarrow> bool \<Rightarrow> mg_options option \<Rightarrow> 'conn res \<Rightarrow>
     ('conn \<Rightarrow> (raw_document list \<times> go_error option) res) \<Rightarrow> column list res" where
  "mg_DescribeTable order native options connect search =
     bind_res (mg_check native options) (\<lambda>m.
     bind_res (wrap_res ''make connection'' connect) (\<lambda>conn.
     bind_res (wrap_res ''find in collection'' (search conn)) (\<lambda>(docs, cursor_err).
       case cursor_err of
         Some e \<Rightarrow> Err (Wrap ''cursor'' e)
       | None \<Rightarrow> wrap_res ''bsonToYqlColumn'' (bsonToYql order (unsupportedDisplay_OMIT m) docs))))"

definition mg_ReadSplit ::
    "conversion_config \<Rightarrow> renderers \<Rightarrow> bool \<Rightarrow> mg_options option \<Rightarrow> 'conn res \<Rightarrow> unit res \<Rightarrow> select_what \<Rightarrow>
     ('conn \<Rightarrow> (document res list \<times> go_error option) res) \<Rightarrow> cell list list res" where
  "mg_ReadSplit cfg R native options connect makeSinks what search =
     bind_res (mg_check native options) (\<lambda>m.
     bind_res (wrap_res ''make connection'' connect) (\<lambda>conn.
     bind_res (wrap_res ''make sinks'' makeSinks) (\<lambda>_.
       mg_doReadSplitSingleConn cfg R (unexpectedDisplay m) what (search conn))))"

text \<open>\<^verbatim>\<open>ListSplits\<close>: the table is one split, unless the context is done first.\<close>

definition mg_ListSplits :: "go_error option \<Rightarrow> 'q \<Rightarrow> 'q list \<times> unit res" where
  "mg_ListSplits ctx_err slct = (case ctx_err of None \<Rightarrow> ([slct], Ok ()) | Some e \<Rightarrow> ([], Err e))"

section \<open>What a reader delivers\<close>
































text \<open>A request without columns (a count of rows) cannot be read: no acceptor is made and the buffer expects one.\<close>

theorem mongo_count_fails:
  "mg_doReadSplitSingleConn cfg R mode [] (Ok (Ok doc # docs, cursor_err)) =
     Err (Wrap ''add row to sink'' (NewErr ''expected 1 value''))"
  by (simp add: mg_doReadSplitSingleConn_def mg_accept_def mg_addRow_def)



text \<open>The text of a nested document: the last two fields are not separated, and a \<^verbatim>\<open>bson.D\<close> shows its values in the
  place of the keys.\<close>

theorem mongo_document_text:
  "fst (bsonToString R (BMap [(''a'', BString ''1''), (''b'', BString ''2''), (''c'', BString ''3'')])) = ''{a: 1, b: 2c: 3}''"
  "fst (bsonToString R (BDoc [(''a'', BString ''1'')])) = ''{'' @ rn_fmt R (BString ''1'') @ '': 1}''"
  by simp_all

text \<open>A container inside a container leaves nothing of the outer one.\<close>

lemma mongo_nested_container_empty: "fst (bsonToString R (BArray [BArray xs])) = []"
  by (cases "bson_items R xs") (simp_all add: unsupported_def)

end
