(* ===== verification/Redis.thy ===== *)
theory Redis
  imports ArrowHelpers "HOL-Library.List_Lexorder" "HOL-Library.Char_ord"
begin

text \<open>
  Redis (\<^verbatim>\<open>nosql/redis/datasource.go\<close>): the deduction of a schema from sampled keys, the scan over the keys of a pattern and
  the transformer that turns a key into a row. The commands of the server are parameters (\<open>redis_server\<close>); a pipeline is the
  list of the results of its commands, and \<^verbatim>\<open>Exec\<close> reports the first failed one, as the client library documents. The
  pages and limits of the sink are those of \<open>Sinks\<close>; a row that reaches it is a list of cells. A SCAN goes on
  until the server returns the cursor 0, so the two loops over it are partial functions.
\<close>

section \<open>The server\<close>

definition TypeString :: string where "TypeString = ''string''"
definition TypeHash :: string where "TypeHash = ''hash''"
definition KeyColumnName :: string where "KeyColumnName = ''key''"
definition StringColumnName :: string where "StringColumnName = ''string_values''"
definition HashColumnName :: string where "HashColumnName = ''hash_values''"

lemmas redis_names = TypeString_def TypeHash_def KeyColumnName_def StringColumnName_def HashColumnName_def

record redis_server =
  srv_type :: "string \<Rightarrow> string res"
  srv_hkeys :: "string \<Rightarrow> string list res"
  srv_get :: "string \<Rightarrow> string res"
  srv_hmget :: "string \<Rightarrow> string list \<Rightarrow> string option list res"
  srv_scan :: "string \<Rightarrow> u64 \<Rightarrow> (string list \<times> u64) res"

definition pipe_exec :: "('a \<Rightarrow> 'b res) \<Rightarrow> 'a list \<Rightarrow> 'b list res" where
  "pipe_exec command args = map_res command args"

section \<open>Schema\<close>

record keysSpec =
  stringExists :: bool
  hashExists :: bool
  unionHashFields :: "string list"

fun analyze_loop :: "redis_server \<Rightarrow> string list \<Rightarrow> keysSpec \<Rightarrow> keysSpec res" where
  "analyze_loop S [] spec = Ok spec"
| "analyze_loop S (key # keys) spec =
     bind_res (wrap_res ''get type for key'' (srv_type S key)) (\<lambda>typ.
       if typ = TypeString then analyze_loop S keys (spec\<lparr>stringExists := True\<rparr>)
       else if typ = TypeHash then
         bind_res (wrap_res ''get hash keys for key'' (srv_hkeys S key)) (\<lambda>names.
           analyze_loop S keys (spec\<lparr>hashExists := True, unionHashFields := fold List.insert names (unionHashFields spec)\<rparr>))
       else analyze_loop S keys spec)"

definition analyzeKeys :: "redis_server \<Rightarrow> string list \<Rightarrow> keysSpec res" where
  "analyzeKeys S keys = analyze_loop S keys \<lparr>stringExists = False, hashExists = False, unionHashFields = []\<rparr>"

text \<open>The set of the fields is a list without duplicates; its order does not matter, since the members are sorted.\<close>

definition opt_string :: ydb_type where
  "opt_string = MakeOptionalType (MakePrimitiveType Type_STRING)"

definition buildSchema :: "keysSpec \<Rightarrow> column list" where
  "buildSchema spec =
     [\<lparr>col_name = KeyColumnName, col_type = MakePrimitiveType Type_STRING\<rparr>] @
     (if stringExists spec then [\<lparr>col_name = StringColumnName, col_type = opt_string\<rparr>] else []) @
     (if hashExists spec then
        [\<lparr>col_name = HashColumnName,
          col_type = MakeOptionalType (MakeStructType (map (\<lambda>f. (f, opt_string)) (sort (unionHashFields spec))))\<rparr>]
      else [])"

text \<open>The inner loop of \<^verbatim>\<open>accumulateKeys\<close> breaks after the key that reaches the count.\<close>

fun take_keys :: "nat \<Rightarrow> string list \<Rightarrow> string list \<Rightarrow> string list" where
  "take_keys count [] allKeys = allKeys"
| "take_keys count (key # keys) allKeys =
     (let allKeys = allKeys @ [key] in if length allKeys \<ge> count then allKeys else take_keys count keys allKeys)"

partial_function (option) accumulate_loop ::
    "redis_server \<Rightarrow> string \<Rightarrow> nat \<Rightarrow> u64 \<Rightarrow> string list \<Rightarrow> string list res option" where
  "accumulate_loop S pattern count cursor allKeys =
     (case srv_scan S pattern cursor of
        Err e \<Rightarrow> Some (Err (Wrap ''scan keys'' e))
      | Panic m \<Rightarrow> Some (Panic m)
      | Ok (keys, newCursor) \<Rightarrow>
          let allKeys = take_keys count keys allKeys in
          if newCursor = 0 \<or> length allKeys \<ge> count then Some (Ok allKeys)
          else accumulate_loop S pattern count newCursor allKeys)"

definition accumulateKeys :: "redis_server \<Rightarrow> string \<Rightarrow> nat \<Rightarrow> string list res option" where
  "accumulateKeys S pattern count =
     (if CHR ''*'' \<notin> set pattern then Some (Ok [pattern]) else accumulate_loop S pattern count 0 [])"

definition redis_DescribeTable :: "bool \<Rightarrow> redis_server res \<Rightarrow> u32 \<Rightarrow> string \<Rightarrow> column list res option" where
  "redis_DescribeTable native connect count table =
     (if \<not> native then Some (Err (NewErr ''cannot run Redis connection with protocol''))
      else case connect of
        Err e \<Rightarrow> Some (Err (Wrap ''make connection'' e))
      | Panic m \<Rightarrow> Some (Panic m)
      | Ok S \<Rightarrow>
          if table = [] then Some (Err (Sentinel ErrEmptyTableName))
          else map_option (\<lambda>acc.
            bind_res (wrap_res ''accumulate keys'' acc) (\<lambda>allKeys.
              if allKeys = [] then Ok []
              else bind_res (wrap_res ''analyze keys'' (analyzeKeys S allKeys)) (\<lambda>spec. Ok (buildSchema spec))))
            (accumulateKeys S table (unat count)))"

section \<open>The transformer\<close>

text \<open>The names of the members of the first hash column. A hash column whose type is not an optional struct is dereferenced
  through a nil pointer.\<close>

fun getHashFields :: "select_what \<Rightarrow> string list res" where
  "getHashFields [] = Ok []"
| "getHashFields (None # items) = Err (NewErr ''select.what has nil column'')"
| "getHashFields (Some column # items) =
     (if col_name column = HashColumnName then
        (case col_type column of
           OptionalType (StructType members) \<Rightarrow> Ok (map fst members)
         | _ \<Rightarrow> Panic ''nil pointer dereference'')
      else getHashFields items)"

record redis_row =
  row_key :: string
  stringVal :: "string option"
  hashVal :: "(string \<rightharpoonup> string) option"

definition clean :: redis_row where
  "clean = \<lparr>row_key = [], stringVal = None, hashVal = None\<rparr>"

text \<open>The acceptor of an item: which field of the transformer it points to, nil for another column.\<close>

datatype redis_acceptor = KeyRef | StringRef | HashRef | NilRef

definition item_acceptor :: "column option \<Rightarrow> redis_acceptor res" where
  "item_acceptor item =
     (case item of
        None \<Rightarrow> Panic ''nil pointer dereference''
      | Some column \<Rightarrow>
          Ok (if col_name column = KeyColumnName then KeyRef
              else if col_name column = StringColumnName then StringRef
              else if col_name column = HashColumnName then HashRef
              else NilRef))"

record redis_transformer =
  tr_items :: select_what
  hashFields :: "string list"
  tr_acceptors :: "redis_acceptor list"

definition newRedisRowTransformer :: "select_what \<Rightarrow> redis_transformer res" where
  "newRedisRowTransformer items =
     bind_res (wrap_res ''getHashFields'' (getHashFields items)) (\<lambda>fs.
     bind_res (map_res item_acceptor items) (\<lambda>as.
       Ok \<lparr>tr_items = items, hashFields = fs, tr_acceptors = as\<rparr>))"

datatype redis_cell = RNull | RBytes string | RStruct "string option list"

definition appendKey :: "redis_row \<Rightarrow> arrow_type \<Rightarrow> redis_cell res" where
  "appendKey row b = (if b = Arrow_Binary then Ok (RBytes (row_key row)) else Err (NewErr ''unexpected builder type for key''))"

definition appendStringValue :: "redis_row \<Rightarrow> arrow_type \<Rightarrow> redis_cell res" where
  "appendStringValue row b =
     (if b = Arrow_Binary then Ok (case stringVal row of Some s \<Rightarrow> RBytes s | None \<Rightarrow> RNull)
      else Err (NewErr ''unexpected builder type for string value''))"

fun hash_members :: "(string \<rightharpoonup> string) \<Rightarrow> string list \<Rightarrow> (string \<times> arrow_type \<times> bool) list \<Rightarrow> string option list res" where
  "hash_members m [] bs = Ok []"
| "hash_members m (f # fs) [] = Panic ''index out of range''"
| "hash_members m (f # fs) ((_, b, _) # bs) =
     (if b = Arrow_Binary then bind_res (hash_members m fs bs) (\<lambda>cs. Ok (m f # cs))
      else Err (NewErr ''unexpected builder type for hash field''))"

definition appendHashValue :: "string list \<Rightarrow> redis_row \<Rightarrow> arrow_type \<Rightarrow> redis_cell res" where
  "appendHashValue fs row b =
     (case b of
        Arrow_Struct members \<Rightarrow>
          (case hashVal row of
             None \<Rightarrow> Ok RNull
           | Some m \<Rightarrow> bind_res (hash_members m fs members) (\<lambda>cs. Ok (RStruct cs)))
      | _ \<Rightarrow> Err (NewErr ''unexpected builder type for hash value''))"

fun redis_append :: "string list \<Rightarrow> redis_row \<Rightarrow> select_what \<Rightarrow> arrow_type list \<Rightarrow> redis_cell list res" where
  "redis_append fs row [] bs = Ok []"
| "redis_append fs row (None # items) bs = Err (NewErr ''item is not a column'')"
| "redis_append fs row (Some column # items) [] = Panic ''index out of range''"
| "redis_append fs row (Some column # items) (b # bs) =
     bind_res
       (if col_name column = KeyColumnName then wrap_res ''append key'' (appendKey row b)
        else if col_name column = StringColumnName then wrap_res ''append string value'' (appendStringValue row b)
        else if col_name column = HashColumnName then wrap_res ''append hash value'' (appendHashValue fs row b)
        else Err (NewErr ''unknown column'')) (\<lambda>c.
     bind_res (redis_append fs row items bs) (\<lambda>cs. Ok (c # cs)))"

text \<open>\<^verbatim>\<open>sink.AddRow\<close>: the traffic tracker rejects a nil acceptor, the buffer checks the number of values and a buffer without
  columns wants exactly one.\<close>

definition redis_addRow :: "redis_transformer \<Rightarrow> arrow_type list \<Rightarrow> redis_row \<Rightarrow> redis_cell list res" where
  "redis_addRow tr bs row =
     (if NilRef \<in> set (tr_acceptors tr) then
        Err (Wrap ''value of unexpected data type'' (Sentinel ErrDataTypeNotSupported))
      else if bs = [] then
        (if length (tr_acceptors tr) \<noteq> 1 then Err (NewErr ''expected 1 value'') else Ok [])
      else if length bs \<noteq> length (tr_acceptors tr) then Err (NewErr ''expected another number of values in a row'')
      else redis_append (hashFields tr) row (tr_items tr) bs)"

section \<open>Reading\<close>

type_synonym redis_rows = "redis_cell list list"

text \<open>The rows that were added before an error stay with the sink; \<open>emit\<close> returns them with the result.\<close>

fun emit :: "redis_transformer \<Rightarrow> arrow_type list \<Rightarrow> redis_row res list \<Rightarrow> redis_rows \<Rightarrow> unit res \<times> redis_rows" where
  "emit tr bs [] rows = (Ok (), rows)"
| "emit tr bs (Err e # rs) rows = (Err e, rows)"
| "emit tr bs (Panic m # rs) rows = (Panic m, rows)"
| "emit tr bs (Ok row # rs) rows =
     (case wrap_res ''add row'' (redis_addRow tr bs row) of
        Ok cells \<Rightarrow> emit tr bs rs (rows @ [cells])
      | Err e \<Rightarrow> (Err e, rows)
      | Panic m \<Rightarrow> (Panic m, rows))"

definition string_row :: "string \<Rightarrow> string \<Rightarrow> redis_row" where
  "string_row key val = \<lparr>row_key = key, stringVal = Some val, hashVal = None\<rparr>"

definition processStringKeys ::
    "redis_server \<Rightarrow> redis_transformer \<Rightarrow> arrow_type list \<Rightarrow> string list \<Rightarrow> redis_rows \<Rightarrow> unit res \<times> redis_rows" where
  "processStringKeys S tr bs keys rows =
     (case wrap_res ''GET pipeline exec failed'' (pipe_exec (srv_get S) keys) of
        Ok vals \<Rightarrow> emit tr bs (map2 (\<lambda>k v. Ok (string_row k v)) keys vals) rows
      | Err e \<Rightarrow> (Err e, rows)
      | Panic m \<Rightarrow> (Panic m, rows))"

text \<open>The map of a hash: the loop over the fields indexes the values the server returned.\<close>

fun hash_map :: "string list \<Rightarrow> string option list \<Rightarrow> (string \<rightharpoonup> string) \<Rightarrow> (string \<rightharpoonup> string) res" where
  "hash_map [] vals m = Ok m"
| "hash_map (f # fs) [] m = Panic ''index out of range''"
| "hash_map (f # fs) (v # vals) m = hash_map fs vals (case v of None \<Rightarrow> m | Some s \<Rightarrow> m(f \<mapsto> s))"

definition hash_row :: "string list \<Rightarrow> string \<Rightarrow> string option list \<Rightarrow> redis_row res" where
  "hash_row fs key vals =
     bind_res (hash_map fs vals Map.empty) (\<lambda>m. Ok \<lparr>row_key = key, stringVal = None, hashVal = Some m\<rparr>)"

definition processHashKeys ::
    "redis_server \<Rightarrow> redis_transformer \<Rightarrow> arrow_type list \<Rightarrow> string list \<Rightarrow> redis_rows \<Rightarrow> unit res \<times> redis_rows" where
  "processHashKeys S tr bs keys rows =
     (case wrap_res ''HMGET pipeline exec failed'' (pipe_exec (\<lambda>k. srv_hmget S k (hashFields tr)) keys) of
        Ok vals \<Rightarrow> emit tr bs (map2 (hash_row (hashFields tr)) keys vals) rows
      | Err e \<Rightarrow> (Err e, rows)
      | Panic m \<Rightarrow> (Panic m, rows))"

definition splitKeysByType :: "redis_server \<Rightarrow> string list \<Rightarrow> (string list \<times> string list) res" where
  "splitKeysByType S keys =
     bind_res (wrap_res ''TYPE pipeline exec failed'' (pipe_exec (srv_type S) keys)) (\<lambda>types.
       Ok (map fst (filter (\<lambda>(k, t). t = TypeString) (zip keys types)),
           map fst (filter (\<lambda>(k, t). t = TypeHash) (zip keys types))))"

definition read_batch ::
    "redis_server \<Rightarrow> redis_transformer \<Rightarrow> arrow_type list \<Rightarrow> string list \<Rightarrow> redis_rows \<Rightarrow> unit res \<times> redis_rows" where
  "read_batch S tr bs keys rows =
     (case splitKeysByType S keys of
        Err e \<Rightarrow> (Err e, rows)
      | Panic m \<Rightarrow> (Panic m, rows)
      | Ok (strKeys, hashKeys) \<Rightarrow>
          (case (if strKeys \<noteq> [] then processStringKeys S tr bs strKeys rows else (Ok (), rows)) of
             (Ok _, rows) \<Rightarrow>
               if hashKeys \<noteq> [] \<and> hashFields tr \<noteq> [] then processHashKeys S tr bs hashKeys rows else (Ok (), rows)
           | r \<Rightarrow> r))"

partial_function (option) scan_loop ::
    "redis_server \<Rightarrow> string \<Rightarrow> redis_transformer \<Rightarrow> arrow_type list \<Rightarrow> u64 \<Rightarrow> redis_rows \<Rightarrow> (unit res \<times> redis_rows) option" where
  "scan_loop S pattern tr bs cursor rows =
     (case srv_scan S pattern cursor of
        Err e \<Rightarrow> Some (Err (Wrap ''scan keys'' e), rows)
      | Panic m \<Rightarrow> Some (Panic m, rows)
      | Ok (keys, nextCursor) \<Rightarrow>
          (case read_batch S tr bs keys rows of
             (Ok _, rows) \<Rightarrow>
               if nextCursor = 0 then Some (Ok (), rows) else scan_loop S pattern tr bs nextCursor rows
           | r \<Rightarrow> Some r))"

definition readKeys ::
    "redis_server \<Rightarrow> string \<Rightarrow> redis_transformer \<Rightarrow> arrow_type list \<Rightarrow> (unit res \<times> redis_rows) option" where
  "readKeys S pattern tr bs =
     (if CHR ''*'' \<notin> set pattern then
        Some (case wrap_res ''TYPE command failed for key'' (srv_type S pattern) of
          Err e \<Rightarrow> (Err e, [])
        | Panic m \<Rightarrow> (Panic m, [])
        | Ok typ \<Rightarrow>
            if typ = TypeString then processStringKeys S tr bs [pattern] []
            else if typ = TypeHash \<and> hashFields tr \<noteq> [] then processHashKeys S tr bs [pattern] []
            else (Ok (), []))
      else scan_loop S pattern tr bs 0 [])"

definition redis_ReadSplit ::
    "bool \<Rightarrow> redis_server res \<Rightarrow> arrow_type list res \<Rightarrow> select_what \<Rightarrow> string \<Rightarrow> (unit res \<times> redis_rows) option" where
  "redis_ReadSplit native connect makeSinks items table =
     (if \<not> native then Some (Err (NewErr ''cannot run Redis connection with protocol''), [])
      else case connect of
        Err e \<Rightarrow> Some (Err (Wrap ''make connection'' e), [])
      | Panic m \<Rightarrow> Some (Panic m, [])
      | Ok S \<Rightarrow>
          if table = [] then Some (Err (Sentinel ErrEmptyTableName), [])
          else (case wrap_res ''make sinks'' makeSinks of
            Err e \<Rightarrow> Some (Err e, [])
          | Panic m \<Rightarrow> Some (Panic m, [])
          | Ok bs \<Rightarrow>
              (case wrap_res ''create transformer'' (newRedisRowTransformer items) of
                 Err e \<Rightarrow> Some (Err e, [])
               | Panic m \<Rightarrow> Some (Panic m, [])
               | Ok tr \<Rightarrow> map_option (\<lambda>(r, rows). (wrap_res ''readKeys'' r, rows)) (readKeys S table tr bs))))"

text \<open>\<^verbatim>\<open>ListSplits\<close>: the table is one split, unless the context is done first.\<close>

definition redis_ListSplits :: "go_error option \<Rightarrow> 'q \<Rightarrow> 'q list \<times> unit res" where
  "redis_ListSplits ctx_err slct = (case ctx_err of None \<Rightarrow> ([slct], Ok ()) | Some e \<Rightarrow> ([], Err e))"

section \<open>A full iteration\<close>

text \<open>A full iteration of SCAN starts with the cursor 0 and ends when the server returns 0; \<open>scan_batches\<close> lists the
  keys it returned call by call.\<close>

inductive scan_batches :: "redis_server \<Rightarrow> string \<Rightarrow> u64 \<Rightarrow> string list list \<Rightarrow> bool" for S pattern where
  finished: "srv_scan S pattern c = Ok (keys, 0) \<Longrightarrow> scan_batches S pattern c [keys]"
| further: "srv_scan S pattern c = Ok (keys, c') \<Longrightarrow> c' \<noteq> 0 \<Longrightarrow> scan_batches S pattern c' batches \<Longrightarrow>
    scan_batches S pattern c (keys # batches)"

section \<open>The schema found\<close>

definition has_type :: "redis_server \<Rightarrow> string \<Rightarrow> string \<Rightarrow> bool" where
  "has_type S typ key \<longleftrightarrow> srv_type S key = Ok typ"

definition hash_fields :: "redis_server \<Rightarrow> string \<Rightarrow> string set" where
  "hash_fields S key = (case srv_hkeys S key of Ok names \<Rightarrow> set names | _ \<Rightarrow> {})"

definition answers_types :: "redis_server \<Rightarrow> string list \<Rightarrow> bool" where
  "answers_types S keys \<longleftrightarrow>
     (\<forall>k \<in> set keys. (\<exists>t. srv_type S k = Ok t) \<and> (has_type S TypeHash k \<longrightarrow> (\<exists>names. srv_hkeys S k = Ok names)))"

text \<open>What the keys add to a specification.\<close>

definition found :: "redis_server \<Rightarrow> string list \<Rightarrow> keysSpec \<Rightarrow> keysSpec \<Rightarrow> bool" where
  "found S keys spec spec' \<longleftrightarrow>
     distinct (unionHashFields spec') \<and>
     stringExists spec' = (stringExists spec \<or> list_ex (has_type S TypeString) keys) \<and>
     hashExists spec' = (hashExists spec \<or> list_ex (has_type S TypeHash) keys) \<and>
     set (unionHashFields spec') =
       set (unionHashFields spec) \<union> \<Union> (hash_fields S ` set (filter (has_type S TypeHash) keys))"

lemma types_distinct: "TypeString \<noteq> TypeHash"
  by (simp add: redis_names)

lemma has_type_eq: "srv_type S k = Ok t \<Longrightarrow> has_type S u k \<longleftrightarrow> t = u"
  by (simp add: has_type_def)

lemma insert_all:
  fixes xs :: "string list"
  shows "set (fold List.insert names xs) = set xs \<union> set names"
    and "distinct xs \<Longrightarrow> distinct (fold List.insert names xs)"
  by (induction names arbitrary: xs) auto

lemma analyze_loop_exact:
  assumes "answers_types S keys" and "distinct (unionHashFields spec)"
  shows "\<exists>spec'. analyze_loop S keys spec = Ok spec' \<and> found S keys spec spec'"
  using assms
proof (induction keys arbitrary: spec)
  case (Cons k keys)
  have rest: "answers_types S keys" using Cons.prems(1) by (simp add: answers_types_def)
  obtain t where t: "srv_type S k = Ok t" using Cons.prems(1) by (auto simp: answers_types_def)
  consider "t = TypeString" | "t = TypeHash" | "t \<noteq> TypeString" "t \<noteq> TypeHash" by blast
  then show ?case
  proof cases
    case 1
    from Cons.IH [OF rest, of "spec\<lparr>stringExists := True\<rparr>"] Cons.prems(2) obtain spec'
      where "analyze_loop S keys (spec\<lparr>stringExists := True\<rparr>) = Ok spec'" "found S keys (spec\<lparr>stringExists := True\<rparr>) spec'" by auto
    with 1 t types_distinct show ?thesis by (simp add: found_def has_type_eq [OF t])
  next
    case 2
    then obtain names where names: "srv_hkeys S k = Ok names" using Cons.prems(1) t by (auto simp: answers_types_def has_type_def)
    define spec1 where "spec1 = spec\<lparr>hashExists := True, unionHashFields := fold List.insert names (unionHashFields spec)\<rparr>"
    from Cons.IH [OF rest, of spec1] Cons.prems(2) obtain spec'
      where "analyze_loop S keys spec1 = Ok spec'" "found S keys spec1 spec'" by (auto simp: spec1_def insert_all)
    with 2 t types_distinct names show ?thesis
      by (simp add: found_def has_type_eq [OF t] spec1_def insert_all hash_fields_def Un_assoc)
  next
    case 3
    with t Cons.IH [OF rest Cons.prems(2)] show ?thesis by (simp add: found_def has_type_eq [OF t])
  qed
qed (simp add: found_def)

lemma take_keys_take:
  "length allKeys < count \<Longrightarrow> take_keys count keys allKeys = allKeys @ take (count - length allKeys) keys"
proof (induction keys arbitrary: allKeys)
  case (Cons k keys)
  then obtain n where n: "count - length allKeys = Suc n" "n = count - Suc (length allKeys)" by (metis Suc_diff_Suc)
  then show ?case using Cons.IH [of "allKeys @ [k]"] by (auto simp: Let_def n(1))
qed simp

lemma accumulate_loop_take:
  assumes "scan_batches S pattern c batches" and "length allKeys < count"
  shows "accumulate_loop S pattern count c allKeys = Some (Ok (take count (allKeys @ concat batches)))"
  using assms
proof (induction arbitrary: allKeys rule: scan_batches.induct)
  case (finished c keys)
  then show ?case by (simp add: accumulate_loop.simps take_keys_take)
next
  case (further c keys c' batches)
  then have ks: "take_keys count keys allKeys = take count (allKeys @ keys)" by (simp add: take_keys_take)
  show ?case
  proof (cases "length allKeys + length keys < count")
    case True
    then show ?thesis using further.IH [of "allKeys @ keys"] further.hyps
      by (simp add: accumulate_loop.simps [of S pattern count c] ks Let_def)
  next
    case False
    then have "length (take count (allKeys @ keys)) = count" by simp
    with False show ?thesis using further.hyps further.prems
      by (simp add: accumulate_loop.simps [of S pattern count c] ks Let_def)
  qed
qed

text \<open>C14: the schema of a pattern is exactly what the sampled keys show. The sample is the first
  \<open>count\<close> keys of the iteration (at least one is asked for). There is a key column; a column of strings if a sampled key
  is a string; a column of hashes if one is a hash, whose optional members are the sorted union
  of the fields of the sampled hashes, each once. A pattern without keys has no columns.\<close>

theorem redis_schema_exact:
  assumes "CHR ''*'' \<in> set pattern" and "scan_batches S pattern 0 batches" and "0 < count"
    and "sample = take (unat count) (concat batches)" and "answers_types S sample"
  shows "\<exists>names. sorted names \<and> distinct names \<and>
           set names = (\<Union>k \<in> {k \<in> set sample. has_type S TypeHash k}. hash_fields S k) \<and>
           redis_DescribeTable True (Ok S) count pattern =
             Some (Ok (if sample = [] then [] else
               [\<lparr>col_name = KeyColumnName, col_type = TypeId Type_STRING\<rparr>] @
               (if \<exists>k \<in> set sample. has_type S TypeString k
                then [\<lparr>col_name = StringColumnName, col_type = OptionalType (TypeId Type_STRING)\<rparr>] else []) @
               (if \<exists>k \<in> set sample. has_type S TypeHash k
                then [\<lparr>col_name = HashColumnName,
                       col_type = OptionalType (StructType (map (\<lambda>f. (f, OptionalType (TypeId Type_STRING))) names))\<rparr>]
                else [])))"
proof -
  have "0 < unat count" using assms(3) by (simp add: unat_gt_0 word_neq_0_conv)
  then have acc: "accumulateKeys S pattern (unat count) = Some (Ok sample)"
    using assms(1,4) accumulate_loop_take [OF assms(2), of "[]"] by (simp add: accumulateKeys_def)
  from analyze_loop_exact [OF assms(5), of "\<lparr>stringExists = False, hashExists = False, unionHashFields = []\<rparr>"]
  obtain spec where spec: "analyzeKeys S sample = Ok spec" "distinct (unionHashFields spec)"
    "stringExists spec = (\<exists>k \<in> set sample. has_type S TypeString k)" "hashExists spec = (\<exists>k \<in> set sample. has_type S TypeHash k)"
    "set (unionHashFields spec) = (\<Union>k \<in> {k \<in> set sample. has_type S TypeHash k}. hash_fields S k)"
    by (auto simp: analyzeKeys_def found_def list_ex_iff)
  have "pattern \<noteq> []" using assms(1) by auto
  with acc spec show ?thesis
    by (intro exI [of _ "sort (unionHashFields spec)"]) (auto simp: redis_DescribeTable_def buildSchema_def opt_string_def)
qed

section \<open>The rows found\<close>

text \<open>A request for described columns: which of the three columns, in which order, with the fields \<open>fs\<close> of the hashes.\<close>

fun ref_column :: "string list \<Rightarrow> redis_acceptor \<Rightarrow> column" where
  "ref_column fs KeyRef = \<lparr>col_name = KeyColumnName, col_type = TypeId Type_STRING\<rparr>"
| "ref_column fs StringRef = \<lparr>col_name = StringColumnName, col_type = opt_string\<rparr>"
| "ref_column fs HashRef = \<lparr>col_name = HashColumnName, col_type = OptionalType (StructType (map (\<lambda>f. (f, opt_string)) fs))\<rparr>"
| "ref_column fs NilRef = \<lparr>col_name = [], col_type = TypeUnset\<rparr>"

fun ref_builder :: "string list \<Rightarrow> redis_acceptor \<Rightarrow> arrow_type" where
  "ref_builder fs HashRef = Arrow_Struct (map (\<lambda>f. (f, Arrow_Binary, True)) fs)"
| "ref_builder fs _ = Arrow_Binary"

definition wanted :: "string list \<Rightarrow> redis_acceptor list \<Rightarrow> select_what" where
  "wanted fs refs = map (\<lambda>r. Some (ref_column fs r)) refs"

definition wanted_fields :: "string list \<Rightarrow> redis_acceptor list \<Rightarrow> string list" where
  "wanted_fields fs refs = (if HashRef \<in> set refs then fs else [])"

text \<open>The cell of a key in a column.\<close>

fun redis_value :: "redis_server \<Rightarrow> string list \<Rightarrow> string \<Rightarrow> redis_acceptor \<Rightarrow> redis_cell" where
  "redis_value S fs k KeyRef = RBytes k"
| "redis_value S fs k StringRef =
     (if has_type S TypeString k then case srv_get S k of Ok v \<Rightarrow> RBytes v | _ \<Rightarrow> RNull else RNull)"
| "redis_value S fs k HashRef =
     (if has_type S TypeHash k then case srv_hmget S k fs of Ok vs \<Rightarrow> RStruct vs | _ \<Rightarrow> RNull else RNull)"
| "redis_value S fs k NilRef = RNull"

definition answers_values :: "redis_server \<Rightarrow> string list \<Rightarrow> string list \<Rightarrow> bool" where
  "answers_values S fs keys \<longleftrightarrow>
     (\<forall>k \<in> set keys. (\<exists>t. srv_type S k = Ok t) \<and>
        (has_type S TypeString k \<longrightarrow> (\<exists>v. srv_get S k = Ok v)) \<and>
        (has_type S TypeHash k \<longrightarrow> (\<exists>vs. srv_hmget S k fs = Ok vs \<and> length vs = length fs)))"

definition batch_rows :: "redis_server \<Rightarrow> string list \<Rightarrow> redis_acceptor list \<Rightarrow> string list \<Rightarrow> redis_rows" where
  "batch_rows S fs refs keys =
     map (\<lambda>k. map (redis_value S fs k) refs)
       (filter (has_type S TypeString) keys @
        (if HashRef \<in> set refs \<and> fs \<noteq> [] then filter (has_type S TypeHash) keys else []))"

lemma wanted_transformer:
  assumes "NilRef \<notin> set refs"
  shows "newRedisRowTransformer (wanted fs refs) =
           Ok \<lparr>tr_items = wanted fs refs, hashFields = wanted_fields fs refs, tr_acceptors = refs\<rparr>"
proof -
  have "getHashFields (wanted fs refs) = Ok (wanted_fields fs refs)"
    using assms
  proof (induction refs)
    case (Cons r refs)
    then show ?case by (cases r) (auto simp: wanted_def wanted_fields_def redis_names comp_def)
  qed (simp add: wanted_def wanted_fields_def)
  moreover have "map_res item_acceptor (wanted fs refs) = Ok refs"
    using assms
  proof (induction refs)
    case (Cons r refs)
    then show ?case by (cases r) (auto simp: wanted_def item_acceptor_def redis_names)
  qed (simp add: wanted_def)
  ultimately show ?thesis by (simp add: newRedisRowTransformer_def)
qed

lemma wanted_builders:
  assumes "NilRef \<notin> set refs"
  shows "YdbTypesToArrowBuilders (map (\<lambda>r. col_type (ref_column fs r)) refs) = Ok (map (ref_builder fs) refs)"
proof -
  have "structFields (map (\<lambda>f. (f, opt_string)) fs) = Ok (map (\<lambda>f. (f, Arrow_Binary, True)) fs)"
    by (induction fs) (simp_all add: opt_string_def mk_field_def)
  then have "ydbTypeToArrowBuilder (col_type (ref_column fs r)) = Ok (ref_builder fs r)" if "r \<noteq> NilRef" for r
    using that by (cases r) (simp_all add: opt_string_def)
  then show ?thesis using assms by (induction refs) auto
qed

lemma hash_members_all:
  "hash_members m fs (map (\<lambda>f. (f, Arrow_Binary, True)) fs) = Ok (map m fs)"
  by (induction fs) auto

fun row_value :: "string list \<Rightarrow> redis_row \<Rightarrow> redis_acceptor \<Rightarrow> redis_cell" where
  "row_value fs row KeyRef = RBytes (row_key row)"
| "row_value fs row StringRef = (case stringVal row of Some s \<Rightarrow> RBytes s | None \<Rightarrow> RNull)"
| "row_value fs row HashRef = (case hashVal row of Some m \<Rightarrow> RStruct (map m fs) | None \<Rightarrow> RNull)"
| "row_value fs row NilRef = RNull"

lemma redis_append_wanted:
  assumes "NilRef \<notin> set refs" and "HashRef \<in> set refs \<Longrightarrow> gs = fs"
  shows "redis_append gs row (wanted fs refs) (map (ref_builder fs) refs) = Ok (map (row_value fs row) refs)"
  using assms
proof (induction refs)
  case (Cons r refs)
  then show ?case
    by (cases r) (auto simp: wanted_def redis_names appendKey_def appendStringValue_def appendHashValue_def hash_members_all
      split: option.splits)
qed (simp add: wanted_def)

definition wanted_tr :: "string list \<Rightarrow> redis_acceptor list \<Rightarrow> redis_transformer" where
  "wanted_tr fs refs = \<lparr>tr_items = wanted fs refs, hashFields = wanted_fields fs refs, tr_acceptors = refs\<rparr>"

lemma emit_wanted:
  assumes "NilRef \<notin> set refs" and "refs \<noteq> []"
  shows "emit (wanted_tr fs refs) (map (ref_builder fs) refs) (map Ok rs) rows =
           (Ok (), rows @ map (\<lambda>row. map (row_value fs row) refs) rs)"
proof -
  have "redis_addRow (wanted_tr fs refs) (map (ref_builder fs) refs) row = Ok (map (row_value fs row) refs)" for row
    using assms redis_append_wanted [OF assms(1), of "wanted_fields fs refs" fs]
    by (simp add: redis_addRow_def wanted_tr_def wanted_fields_def)
  then show ?thesis by (induction rs arbitrary: rows) auto
qed

lemma map_res_all:
  assumes "\<And>x. x \<in> set xs \<Longrightarrow> f x = Ok (g x)"
  shows "map_res f xs = Ok (map g xs)"
  using assms by (induction xs) auto

lemma map2_map: "map2 h xs (map g xs) = map (\<lambda>x. h x (g x)) xs"
  by (induction xs) auto

lemma hash_map_exact:
  "length vs = length fs \<Longrightarrow> distinct fs \<Longrightarrow> (\<And>f. f \<in> set fs \<Longrightarrow> m f = None) \<Longrightarrow>
     \<exists>m'. hash_map fs vs m = Ok m' \<and> map m' fs = vs \<and> (\<forall>f. f \<notin> set fs \<longrightarrow> m' f = m f)"
proof (induction fs arbitrary: vs m)
  case (Cons f fs)
  then obtain v vs' where vs: "vs = v # vs'" by (cases vs) auto
  define m1 where "m1 = (case v of None \<Rightarrow> m | Some s \<Rightarrow> m(f \<mapsto> s))"
  have "m1 f = v" using Cons.prems(3) [of f] by (simp add: m1_def split: option.splits)
  moreover have m1: "m1 g = m g" if "g \<noteq> f" for g using that by (simp add: m1_def split: option.splits)
  have "m1 g = None" if "g \<in> set fs" for g using that m1 [of g] Cons.prems(2,3) by (cases "g = f") auto
  with Cons.IH [of vs' m1] Cons.prems(1,2) obtain m' where "hash_map fs vs' m1 = Ok m'" "map m' fs = vs'"
    "\<forall>g. g \<notin> set fs \<longrightarrow> m' g = m1 g" by (auto simp: vs)
  ultimately show ?case using Cons.prems(2) m1 by (auto simp: vs m1_def [symmetric])
qed simp

lemma string_keys_rows:
  assumes "NilRef \<notin> set refs" and "refs \<noteq> []" and "answers_values S fs keys" and "\<forall>k \<in> set keys. has_type S TypeString k"
  shows "processStringKeys S (wanted_tr fs refs) (map (ref_builder fs) refs) keys rows =
           (Ok (), rows @ map (\<lambda>k. map (redis_value S fs k) refs) keys)"
proof -
  define g where "g k = (case srv_get S k of Ok v \<Rightarrow> v | _ \<Rightarrow> [])" for k
  have get: "srv_get S k = Ok (g k)" if "k \<in> set keys" for k
    using assms(3,4) that by (auto simp: answers_values_def g_def)
  have "row_value fs (string_row k (g k)) r = redis_value S fs k r" if "k \<in> set keys" for k r
    using assms(4) that get [OF that] types_distinct by (cases r) (auto simp: string_row_def has_type_def)
  then show ?thesis
    using map_res_all [of keys "srv_get S" g] get emit_wanted [OF assms(1,2), of fs "map (\<lambda>k. string_row k (g k)) keys" rows]
    by (simp add: processStringKeys_def pipe_exec_def map2_map comp_def)
qed

lemma hash_keys_rows:
  assumes "NilRef \<notin> set refs" and "HashRef \<in> set refs" and "answers_values S fs keys" and "\<forall>k \<in> set keys. has_type S TypeHash k"
    and "distinct fs"
  shows "processHashKeys S (wanted_tr fs refs) (map (ref_builder fs) refs) keys rows =
           (Ok (), rows @ map (\<lambda>k. map (redis_value S fs k) refs) keys)"
proof -
  define g where "g k = (case srv_hmget S k fs of Ok vs \<Rightarrow> vs | _ \<Rightarrow> [])" for k
  have get: "srv_hmget S k fs = Ok (g k)" "length (g k) = length fs" if "k \<in> set keys" for k
    using assms(3,4) that by (auto simp: answers_values_def g_def)
  define rw where "rw k = \<lparr>row_key = k, stringVal = None, hashVal = (case hash_map fs (g k) Map.empty of Ok m \<Rightarrow> Some m | _ \<Rightarrow> None)\<rparr>" for k
  have row: "hash_row fs k (g k) = Ok (rw k)" "\<And>r. row_value fs (rw k) r = redis_value S fs k r" if "k \<in> set keys" for k
  proof -
    from that have len: "length (g k) = length fs" by (rule get(2))
    obtain m where m: "hash_map fs (g k) Map.empty = Ok m" "map m fs = g k"
      using hash_map_exact [OF len assms(5), of Map.empty] by auto
    then show "hash_row fs k (g k) = Ok (rw k)" by (simp add: hash_row_def rw_def)
    show "row_value fs (rw k) r = redis_value S fs k r" for r
      using assms(4) that get(1) [OF that] m types_distinct by (cases r) (auto simp: rw_def has_type_def)
  qed
  have tr: "hashFields (wanted_tr fs refs) = fs" using assms(2) by (simp add: wanted_tr_def wanted_fields_def)
  have "refs \<noteq> []" using assms(2) by auto
  from emit_wanted [OF assms(1) this, of fs "map rw keys" rows] show ?thesis
    using map_res_all [of keys "\<lambda>k. srv_hmget S k fs" g] get(1) row
    by (simp add: processHashKeys_def pipe_exec_def map2_map comp_def tr cong: map_cong)
qed

lemma read_batch_rows:
  assumes "NilRef \<notin> set refs" and "refs \<noteq> []" and "answers_values S fs keys" and "distinct fs"
  shows "read_batch S (wanted_tr fs refs) (map (ref_builder fs) refs) keys rows = (Ok (), rows @ batch_rows S fs refs keys)"
proof -
  define ty where "ty k = (case srv_type S k of Ok t \<Rightarrow> t | _ \<Rightarrow> [])" for k
  have ty: "srv_type S k = Ok (ty k)" if "k \<in> set keys" for k using assms(3) that by (auto simp: answers_values_def ty_def)
  have "map fst (filter (\<lambda>(k, t). t = u) (zip keys (map ty keys))) = filter (has_type S u) keys" for u
    using ty by (induction keys) (auto simp: has_type_def)
  then have split: "splitKeysByType S keys = Ok (filter (has_type S TypeString) keys, filter (has_type S TypeHash) keys)"
    using map_res_all [of keys "srv_type S" ty] ty by (simp add: splitKeysByType_def pipe_exec_def)
  have sub: "answers_values S fs (filter P keys)" for P using assms(3) by (auto simp: answers_values_def)
  have hf: "hashFields (wanted_tr fs refs) \<noteq> [] \<longleftrightarrow> HashRef \<in> set refs \<and> fs \<noteq> []" by (simp add: wanted_tr_def wanted_fields_def)
  show ?thesis
    using string_keys_rows [OF assms(1,2) sub, of "has_type S TypeString"] hash_keys_rows [OF assms(1) _ sub _ assms(4), of "has_type S TypeHash"]
    by (simp add: read_batch_def split hf batch_rows_def)
qed

lemma redis_rows_complete:
  assumes "CHR ''*'' \<in> set pattern" and "scan_batches S pattern 0 batches" and "answers_values S fs (concat batches)"
    and "NilRef \<notin> set refs" and "refs \<noteq> []" and "distinct fs"
  shows "redis_ReadSplit True (Ok S) (YdbTypesToArrowBuilders (map (\<lambda>r. col_type (ref_column fs r)) refs)) (wanted fs refs) pattern =
           Some (Ok (), concat (map (batch_rows S fs refs) batches))"
proof -
  have "scan_loop S pattern (wanted_tr fs refs) (map (ref_builder fs) refs) c rows =
      Some (Ok (), rows @ concat (map (batch_rows S fs refs) bs))"
    if "scan_batches S pattern c bs" "answers_values S fs (concat bs)" for c rows bs
    using that
  proof (induction arbitrary: rows rule: scan_batches.induct)
    case (finished c keys)
    then show ?case using read_batch_rows [OF assms(4,5) _ assms(6)] by (simp add: scan_loop.simps)
  next
    case (further c keys c' bs)
    then have "answers_values S fs keys" "answers_values S fs (concat bs)" by (auto simp: answers_values_def)
    with further read_batch_rows [OF assms(4,5) _ assms(6)] show ?case
      by (simp add: scan_loop.simps [of S pattern _ _ c])
  qed
  from this [OF assms(2,3), of "[]"] assms(1) show ?thesis
    using wanted_transformer [OF assms(4)] wanted_builders [OF assms(4)]
    by (auto simp: redis_ReadSplit_def readKeys_def wanted_tr_def)
qed


section \<open>A small server\<close>

definition demo_server :: redis_server where
  "demo_server =
     \<lparr>srv_type = \<lambda>k. Ok (if k = ''a'' then TypeString else TypeHash),
      srv_hkeys = \<lambda>k. Ok [''g'', ''f''],
      srv_get = \<lambda>k. Ok ''1'',
      srv_hmget = \<lambda>k fs. Ok (map (\<lambda>f. if f = ''f'' then Some ''v'' else None) fs),
      srv_scan = \<lambda>p c. Ok (if c = 0 then ([''a''], 5) else ([''h''], 0))\<rparr>"

lemma demo_server_batches: "scan_batches demo_server ''*'' 0 [[''a''], [''h'']]"
  by (rule scan_batches.further [where c' = 5] scan_batches.finished | simp add: demo_server_def)+

theorem redis_schema_exact_witness:
  "\<exists>names. sorted names \<and> distinct names \<and> set names = {''f'', ''g''} \<and>
     redis_DescribeTable True (Ok demo_server) 2 ''*'' =
       Some (Ok [\<lparr>col_name = KeyColumnName, col_type = TypeId Type_STRING\<rparr>,
                 \<lparr>col_name = StringColumnName, col_type = OptionalType (TypeId Type_STRING)\<rparr>,
                 \<lparr>col_name = HashColumnName,
                  col_type = OptionalType (StructType (map (\<lambda>f. (f, OptionalType (TypeId Type_STRING))) names))\<rparr>])"
proof -
  have "answers_types demo_server [''a'', ''h'']"
    "(\<Union>k \<in> {k \<in> set [''a'', ''h'']. has_type demo_server TypeHash k}. hash_fields demo_server k) = {''f'', ''g''}"
    "has_type demo_server TypeString ''a''" "has_type demo_server TypeHash ''h''"
    by (auto simp: demo_server_def answers_types_def has_type_def hash_fields_def redis_names)
  with redis_schema_exact [of "''*''" demo_server "[[''a''], [''h'']]" 2 "[''a'', ''h'']"] demo_server_batches
  show ?thesis by auto
qed


text \<open>The rows of a read depend on the columns it asks for: without the hash column the keys of hashes are left out.\<close>

theorem redis_projection_drops_hashes:
  "redis_ReadSplit True (Ok demo_server) (YdbTypesToArrowBuilders [TypeId Type_STRING]) (wanted [] [KeyRef]) ''*'' =
     Some (Ok (), [[RBytes ''a'']])"
proof -
  have "answers_values demo_server [] [''a'', ''h'']" by (auto simp: demo_server_def answers_values_def)
  with redis_rows_complete [of "''*''" demo_server "[[''a''], [''h'']]" "[]" "[KeyRef]"] demo_server_batches
  show ?thesis by (simp add: batch_rows_def has_type_def demo_server_def redis_names)
qed

text \<open>A request without columns fails at the first string key: the transformer has no acceptor and the buffer expects one.\<close>

theorem redis_count_fails:
  assumes "CHR ''*'' \<notin> set key" and "key \<noteq> []" and "has_type S TypeString key" and "srv_get S key = Ok v"
  shows "redis_ReadSplit True (Ok S) (Ok []) [] key =
           Some (Err (Wrap ''readKeys'' (Wrap ''add row'' (NewErr ''expected 1 value''))), [])"
  using assms by (simp add: redis_ReadSplit_def readKeys_def newRedisRowTransformer_def has_type_def processStringKeys_def
      pipe_exec_def redis_addRow_def)

end
