(* ===== verification/OpenSearch.thy ===== *)
theory OpenSearch
  imports YdbTypes "HOL-Library.List_Lexorder" "HOL-Library.Char_ord" "HOL-Library.Multiset"
begin

text \<open>
  OpenSearch (\<^verbatim>\<open>nosql/opensearch\<close>): the schema of an index from its mapping (\<^verbatim>\<open>type_mapping.go\<close>) and the operations of the data
  source (\<^verbatim>\<open>datasource.go\<close>). A decoded JSON object is a Go map: its pairs have distinct keys and come in an arbitrary
  order. The client and its responses are parameters.
\<close>

section \<open>Decoded JSON\<close>

datatype json =
    JNull
  | JBool bool
  | JNumber string
  | JString string
  | JArray "json list"
  | JObject "(string \<times> json) list"

type_synonym json_map = "(string \<times> json) list"

text \<open>The checked type assertions on a value of a map; a missing key gives a nil interface.\<close>

fun as_object :: "json option \<Rightarrow> json_map option" where
  "as_object (Some (JObject m)) = Some m"
| "as_object _ = None"

fun as_string :: "json option \<Rightarrow> string option" where
  "as_string (Some (JString s)) = Some s"
| "as_string _ = None"

text \<open>The pairs in the order of \<^verbatim>\<open>getSortedKeys\<close>.\<close>

definition sorted_pairs :: "json_map \<Rightarrow> json_map" where
  "sorted_pairs m = sort_key fst m"

lemma size_sorted_pairs: "size_list f (sorted_pairs m) = size_list f m"
proof -
  have "mset (map f (sorted_pairs m)) = mset (map f m)" by (simp add: sorted_pairs_def)
  then have "sum_list (map f (sorted_pairs m)) = sum_list (map f m)" by (metis sum_mset_sum_list)
  then show ?thesis by (simp add: size_list_conv_sum_list sorted_pairs_def)
qed

lemma as_object_size: "as_object (map_of m k) = Some ps \<Longrightarrow> size_list (size_prod (\<lambda>_. 0) size) ps < size_list (size_prod (\<lambda>_. 0) size) m"
proof -
  assume "as_object (map_of m k) = Some ps"
  then have "(k, JObject ps) \<in> set m" by (cases "map_of m k" rule: as_object.cases) (auto dest: map_of_SomeD)
  from size_list_estimation' [OF this, of _ "size_prod (\<lambda>_. 0) size", OF order_refl] show ?thesis by simp
qed

section \<open>Types\<close>

definition os_typeMap :: "json_map \<Rightarrow> ydb_type res" where
  "os_typeMap mapping =
     (case as_string (map_of mapping ''type'') of
        None \<Rightarrow> Err (NewErr ''missing 'type' in mapping'')
      | Some t \<Rightarrow>
          bind_res
            (if t = ''integer'' then Ok (MakePrimitiveType Type_INT32)
             else if t = ''long'' then Ok (MakePrimitiveType Type_INT64)
             else if t = ''float'' then Ok (MakePrimitiveType Type_FLOAT)
             else if t = ''double'' then Ok (MakePrimitiveType Type_DOUBLE)
             else if t = ''boolean'' then Ok (MakePrimitiveType Type_BOOL)
             else if t = ''keyword'' \<or> t = ''text'' then Ok (MakePrimitiveType Type_UTF8)
             else if t = ''date'' then Ok (MakePrimitiveType Type_TIMESTAMP)
             else Err (Wrap ''unsupported type'' (Sentinel ErrDataTypeNotSupported)))
            (\<lambda>y. Ok (MakeOptionalType y)))"

definition applyMetaAnnotation :: "json \<Rightarrow> ydb_type \<Rightarrow> ydb_type res" where
  "applyMetaAnnotation metaValue t =
     (case metaValue of
        JString s \<Rightarrow>
          if s \<noteq> ''list'' then Err (NewErr ''unsupported meta value'') else Ok (MakeOptionalType (MakeListType t))
      | _ \<Rightarrow> Err (NewErr ''meta value must be string''))"

definition handleSimpleField :: "string \<Rightarrow> json_map \<Rightarrow> json_map \<Rightarrow> ydb_type res" where
  "handleSimpleField qualifiedName mapping meta =
     bind_res (wrap_res ''map type for field'' (os_typeMap mapping)) (\<lambda>t.
       Ok (if map_of meta qualifiedName \<noteq> None then MakeOptionalType (MakeListType t) else t))"

text \<open>The tail of \<^verbatim>\<open>handleStructField\<close>, after the children.\<close>

definition struct_field :: "string \<Rightarrow> (string \<times> ydb_type) list \<Rightarrow> json_map \<Rightarrow> ydb_type res" where
  "struct_field qualifiedName children meta =
     (let t = MakeOptionalType (MakeStructType children) in
      case map_of meta qualifiedName of
        None \<Rightarrow> Ok t
      | Some v \<Rightarrow> wrap_res ''apply meta annotation for field'' (applyMetaAnnotation v t))"

text \<open>\<^verbatim>\<open>inferField\<close> with \<^verbatim>\<open>handleStructField\<close>; a column is its name and its type. \<^verbatim>\<open>processChildFields\<close> runs over the
  children in the order of their names.\<close>

function (sequential) inferField :: "string \<Rightarrow> json_map \<Rightarrow> json_map \<Rightarrow> ydb_type res"
  and processChildFields :: "string \<Rightarrow> json_map \<Rightarrow> json_map \<Rightarrow> (string \<times> ydb_type) list res" where
  "inferField qualifiedName mapping meta =
     (case as_object (map_of mapping ''properties'') of
        None \<Rightarrow> handleSimpleField qualifiedName mapping meta
      | Some properties \<Rightarrow>
          bind_res (wrap_res ''process struct field'' (processChildFields qualifiedName (sorted_pairs properties) meta)) (\<lambda>children.
            struct_field qualifiedName children meta))"
| "processChildFields parent [] meta = Ok []"
| "processChildFields parent ((n, JObject childProps) # rest) meta =
     bind_res (wrap_res ''process child field'' (inferField (parent @ ''.'' @ n) childProps meta)) (\<lambda>t.
     bind_res (processChildFields parent rest meta) (\<lambda>ts. Ok ((n, t) # ts)))"
| "processChildFields parent ((n, child) # rest) meta = Err (NewErr ''invalid properties for child field'')"
  by pat_completeness auto

termination
  by (relation "measure (\<lambda>x. case x of
        Inl (q, mapping, meta) \<Rightarrow> size_list (size_prod (\<lambda>_. 0) size) mapping
      | Inr (p, children, meta) \<Rightarrow> size_list (size_prod (\<lambda>_. 0) size) children)")
    (auto simp: size_sorted_pairs as_object_size)

declare inferField.simps [simp del]

fun parse_columns :: "json_map \<Rightarrow> json_map \<Rightarrow> column list res" where
  "parse_columns [] meta = Ok []"
| "parse_columns ((n, JObject props) # rest) meta =
     bind_res (wrap_res ''infer field'' (inferField n props meta)) (\<lambda>t.
     bind_res (parse_columns rest meta) (\<lambda>cs. Ok (\<lparr>col_name = n, col_type = t\<rparr> # cs)))"
| "parse_columns ((n, v) # rest) meta = Err (NewErr ''invalid properties for field'')"

definition parseMapping :: "json_map \<Rightarrow> column list res" where
  "parseMapping mappings =
     (let meta = (case as_object (map_of mappings ''_meta'') of Some m \<Rightarrow> m | None \<Rightarrow> []) in
      case as_object (map_of mappings ''properties'') of
        None \<Rightarrow> Err (NewErr ''extract 'properties' from mapping'')
      | Some properties \<Rightarrow> parse_columns (sorted_pairs properties) meta)"

section \<open>The data source\<close>

text \<open>A response: its status and its body, decoded or not.\<close>

definition checkStatusCode :: "nat \<Rightarrow> unit res" where
  "checkStatusCode code = (if code \<noteq> 200 then Err (NewErr ''unexpected status code'') else Ok ())"

definition os_DescribeTable ::
    "bool \<Rightarrow> 'conn res \<Rightarrow> ('conn \<Rightarrow> string \<Rightarrow> (nat \<times> json_map res) res) \<Rightarrow> string \<Rightarrow> column list res" where
  "os_DescribeTable http connect get_mapping indexName =
     (if \<not> http then Err (NewErr ''cannot run OpenSearch connection with protocol'')
      else
        bind_res (wrap_res ''make connection'' connect) (\<lambda>client.
        bind_res (wrap_res ''get mapping'' (get_mapping client indexName)) (\<lambda>(code, body).
        bind_res (wrap_res ''check status code'' (checkStatusCode code)) (\<lambda>_.
        bind_res (wrap_res ''decode response body'' body) (\<lambda>result.
          case as_object (map_of result indexName) of
            None \<Rightarrow> Panic ''interface conversion''
          | Some idx \<Rightarrow>
              (case as_object (map_of idx ''mappings'') of
                 None \<Rightarrow> Err (NewErr ''extract mappings: invalid response format'')
               | Some mapping \<Rightarrow> wrap_res ''parse mapping'' (parseMapping mapping)))))))"

definition os_ReadSplit :: "unit res" where
  "os_ReadSplit = Err (NewErr ''unimplemented'')"

text \<open>\<^verbatim>\<open>ListSplits\<close>: the table is one split, unless the context is done first.\<close>

definition os_ListSplits :: "go_error option \<Rightarrow> 'q \<Rightarrow> 'q list \<times> unit res" where
  "os_ListSplits ctx_err slct = (case ctx_err of None \<Rightarrow> ([slct], Ok ()) | Some e \<Rightarrow> ([], Err e))"

section \<open>The order of a map does not matter\<close>

text \<open>The same JSON: objects with the same keys and, under each key, the same JSON.\<close>

inductive same_json :: "json \<Rightarrow> json \<Rightarrow> bool" where
  same: "same_json j j"
| object: "distinct (map fst m) \<Longrightarrow> distinct (map fst m') \<Longrightarrow> fst ` set m = fst ` set m' \<Longrightarrow>
    (\<And>k v v'. (k, v) \<in> set m \<Longrightarrow> (k, v') \<in> set m' \<Longrightarrow> same_json v v') \<Longrightarrow> same_json (JObject m) (JObject m')"

inductive_cases same_json_objectE: "same_json (JObject m) (JObject m')"

inductive_simps same_json_string [simp]: "same_json (JString s) j" and same_json_string' [simp]: "same_json j (JString s)"

lemma same_json_object: "same_json (JObject m) j \<Longrightarrow> \<exists>m'. j = JObject m'"
  by (auto elim: same_json.cases)

lemma same_json_object': "same_json j (JObject m) \<Longrightarrow> \<exists>m'. j = JObject m'"
  by (auto elim: same_json.cases)

definition same_pair :: "string \<times> json \<Rightarrow> string \<times> json \<Rightarrow> bool" where
  "same_pair p q \<longleftrightarrow> fst p = fst q \<and> same_json (snd p) (snd q)"

lemma same_lookup:
  assumes "same_json (JObject m) (JObject m')"
  shows "rel_option same_json (map_of m k) (map_of m' k)"
  using assms
proof (rule same_json_objectE)
  assume "m' = m"
  then show ?thesis by (simp add: option.rel_refl same_json.same)
next
  assume *: "distinct (map fst m)" "distinct (map fst m')" "fst ` set m = fst ` set m'"
    "\<And>k v v'. (k, v) \<in> set m \<Longrightarrow> (k, v') \<in> set m' \<Longrightarrow> same_json v v'"
  have "map_of m k = None \<longleftrightarrow> map_of m' k = None" using *(3) by (simp add: map_of_eq_None_iff)
  moreover have "same_json v v'" if "map_of m k = Some v" "map_of m' k = Some v'" for v v'
    using that map_of_SomeD *(4) by metis
  ultimately show ?thesis by (cases "map_of m k"; cases "map_of m' k") auto
qed

lemma same_sorted_pairs:
  assumes "same_json (JObject m) (JObject m')"
  shows "list_all2 same_pair (sorted_pairs m) (sorted_pairs m')"
  using assms
proof (rule same_json_objectE)
  assume "m' = m"
  then show ?thesis by (simp add: list.rel_refl same_pair_def same_json.same)
next
  assume *: "distinct (map fst m)" "distinct (map fst m')" "fst ` set m = fst ` set m'"
    "\<And>k v v'. (k, v) \<in> set m \<Longrightarrow> (k, v') \<in> set m' \<Longrightarrow> same_json v v'"
  have d: "distinct (map fst (sorted_pairs xs))" if "distinct (map fst xs)" for xs
    using that by (metis mset_eq_imp_distinct_iff mset_map mset_sort sorted_pairs_def)
  have "map fst (sorted_pairs m) = map fst (sorted_pairs m')"
    by (rule sorted_distinct_set_unique) (use *(3) d [OF *(1)] d [OF *(2)] in \<open>simp_all add: sorted_pairs_def\<close>)
  then have "length (sorted_pairs m) = length (sorted_pairs m')"
    "\<And>i. i < length (sorted_pairs m) \<Longrightarrow> fst (sorted_pairs m ! i) = fst (sorted_pairs m' ! i)"
    by (metis length_map, metis length_map nth_map)
  moreover have "sorted_pairs m ! i \<in> set m" if "i < length (sorted_pairs m)" for i
    using nth_mem [OF that] by (simp add: sorted_pairs_def)
  moreover have "sorted_pairs m' ! i \<in> set m'" if "i < length (sorted_pairs m')" for i
    using nth_mem [OF that] by (simp add: sorted_pairs_def)
  ultimately show ?thesis using *(4) by (auto simp: list_all2_conv_all_nth same_pair_def) (metis prod.collapse)
qed

lemma same_string: "rel_option same_json x y \<Longrightarrow> as_string x = as_string y"
  by (cases x rule: as_string.cases; cases y rule: as_string.cases) auto

lemma same_object:
  assumes "rel_option same_json x y"
  shows "as_object x = None \<longleftrightarrow> as_object y = None"
    and "as_object x = Some m \<Longrightarrow> as_object y = Some m' \<Longrightarrow> same_json (JObject m) (JObject m')"
  using assms same_json_object same_json_object'
  by (cases x rule: as_object.cases; cases y rule: as_object.cases; fastforce)+

lemma same_annotation: "same_json v v' \<Longrightarrow> applyMetaAnnotation v t = applyMetaAnnotation v' t"
  by (cases v; cases v') (auto simp: applyMetaAnnotation_def elim: same_json.cases)

lemma same_simple:
  assumes "same_json (JObject m) (JObject m')" and "same_json (JObject meta) (JObject meta')"
  shows "handleSimpleField q m meta = handleSimpleField q m' meta'"
  using same_string [OF same_lookup [OF assms(1), of "''type''"]] same_lookup [OF assms(2), of q]
  by (cases "map_of meta q"; cases "map_of meta' q") (auto simp: handleSimpleField_def os_typeMap_def)

lemma same_struct: "same_json (JObject meta) (JObject meta') \<Longrightarrow> struct_field q cs meta = struct_field q cs meta'"
  using same_lookup [of meta meta' q] same_annotation
  by (cases "map_of meta q"; cases "map_of meta' q") (auto simp: struct_field_def Let_def)

lemma same_fields:
  assumes "same_json (JObject meta) (JObject meta')"
  shows "same_json (JObject m) (JObject m') \<Longrightarrow> inferField q m meta = inferField q m' meta'"
    and "list_all2 same_pair ps ps' \<Longrightarrow> processChildFields p ps meta = processChildFields p ps' meta'"
  using assms
proof (induction q m meta and p ps meta arbitrary: m' and ps' rule: inferField_processChildFields.induct)
  case (1 q m meta)
  note lookup = same_lookup [OF 1(2), of "''properties''"]
  show ?case
  proof (cases "as_object (map_of m ''properties'')")
    case None
    with same_object(1) [OF lookup] show ?thesis using same_simple [OF 1(2,3)] by (simp add: inferField.simps)
  next
    case (Some a)
    with same_object(1) [OF lookup] obtain b where b: "as_object (map_of m' ''properties'') = Some b" by fastforce
    from 1(1) [OF Some same_sorted_pairs [OF same_object(2) [OF lookup Some b]] 1(3)]
    show ?thesis using Some b same_struct [OF 1(3)] by (simp add: inferField.simps)
  qed
next
  case (3 p n childProps rest meta)
  then obtain v' rest' where ps': "ps' = (n, v') # rest'" "same_json (JObject childProps) v'" "list_all2 same_pair rest rest'"
    unfolding list_all2_Cons1 by (auto simp: same_pair_def)
  then obtain m' where v': "v' = JObject m'" using same_json_object by blast
  show ?case
    using 3(1) [OF ps'(2) [unfolded v'] 3(4)] 3(2) [OF ps'(3) 3(4)]
    by (simp add: ps'(1) v')
qed (auto simp: list_all2_Cons1 same_pair_def elim!: same_json.cases)

lemma same_columns:
  assumes "same_json (JObject meta) (JObject meta')"
  shows "list_all2 same_pair ps ps' \<Longrightarrow> parse_columns ps meta = parse_columns ps' meta'"
proof (induction rule: list_all2_induct)
  case (Cons p ps q qs)
  obtain n v v' where pq: "p = (n, v)" "q = (n, v')" "same_json v v'"
    using Cons.hyps by (cases p; cases q) (auto simp: same_pair_def)
  show ?case
  proof (cases v)
    case (JObject m)
    then obtain m' where "v' = JObject m'" using pq(3) same_json_object by blast
    then show ?thesis using same_fields(1) [OF assms, of m m' n] Cons.IH pq JObject by simp
  qed (use pq in \<open>auto elim: same_json.cases\<close>)
qed simp

lemma typeMap_optional: "os_typeMap m = Ok t \<Longrightarrow> \<exists>u. t = OptionalType u"
  by (cases "as_string (map_of m ''type'')") (auto simp: os_typeMap_def res_simps)

lemma simple_optional: "handleSimpleField q m meta = Ok t \<Longrightarrow> \<exists>u. t = OptionalType u"
  by (cases "map_of meta q") (auto simp: handleSimpleField_def res_simps dest: typeMap_optional)

lemma struct_optional: "struct_field q cs meta = Ok t \<Longrightarrow> \<exists>u. t = OptionalType u"
  by (cases "map_of meta q") (auto simp: struct_field_def applyMetaAnnotation_def split: json.splits if_splits)

lemma inferField_optional: "inferField q m meta = Ok t \<Longrightarrow> \<exists>u. t = OptionalType u"
  by (cases "as_object (map_of m ''properties'')")
     (auto simp: inferField.simps res_simps dest: simple_optional struct_optional)

lemma parse_columns_Ok:
  "parse_columns ps meta = Ok cols \<Longrightarrow> map col_name cols = map fst ps \<and> (\<forall>c \<in> set cols. \<exists>u. col_type c = OptionalType u)"
proof (induction ps meta arbitrary: cols rule: parse_columns.induct)
  case (2 n props rest meta)
  then obtain t cs where "inferField n props meta = Ok t" "parse_columns rest meta = Ok cs"
    "cols = \<lparr>col_name = n, col_type = t\<rparr> # cs" by (auto simp: res_simps)
  with 2(1) inferField_optional [of n props meta t] show ?case by auto
qed auto

text \<open>C31: the description of an index is determined by its mapping: whatever order Go iterates over the decoded maps in, at
  every level, the columns are the same, their names are the sorted names of the properties, each once, and every type is
  optional.\<close>

theorem opensearch_schema_deterministic:
  assumes "same_json (JObject mappings) (JObject mappings')"
  shows "parseMapping mappings = parseMapping mappings' \<and>
         (\<forall>cols properties. parseMapping mappings = Ok cols \<longrightarrow> map_of mappings ''properties'' = Some (JObject properties) \<longrightarrow>
            map col_name cols = sort (map fst properties) \<and> (\<forall>c \<in> set cols. \<exists>u. col_type c = OptionalType u))"
proof
  define meta where "meta m = (case as_object (map_of m ''_meta'') of Some m \<Rightarrow> m | None \<Rightarrow> [])" for m
  have "same_json (JObject (meta mappings)) (JObject (meta mappings'))"
    using same_object [OF same_lookup [OF assms, of "''_meta''"]]
    by (cases "as_object (map_of mappings ''_meta'')"; cases "as_object (map_of mappings' ''_meta'')")
       (auto simp: meta_def same_json.same)
  note columns = same_columns [OF this same_sorted_pairs]
  note props = same_object [OF same_lookup [OF assms, of "''properties''"]]
  show "parseMapping mappings = parseMapping mappings'"
    using props columns
    by (cases "as_object (map_of mappings ''properties'')"; cases "as_object (map_of mappings' ''properties'')")
       (auto simp: parseMapping_def meta_def Let_def)
  have "map fst (sorted_pairs ps) = sort (map fst ps)" for ps
    by (rule properties_for_sort [symmetric]) (simp_all add: sorted_pairs_def)
  then show "\<forall>cols properties. parseMapping mappings = Ok cols \<longrightarrow> map_of mappings ''properties'' = Some (JObject properties) \<longrightarrow>
            map col_name cols = sort (map fst properties) \<and> (\<forall>c \<in> set cols. \<exists>u. col_type c = OptionalType u)"
    using parse_columns_Ok by (fastforce simp: parseMapping_def Let_def)
qed

definition demo_mapping :: "(json_map \<Rightarrow> json_map) \<Rightarrow> json_map" where
  "demo_mapping order = order
     [(''properties'', JObject (order
        [(''name'', JObject [(''type'', JString ''text'')]),
         (''address'', JObject [(''properties'', JObject (order
            [(''zip'', JObject [(''type'', JString ''integer'')]), (''city'', JObject [(''type'', JString ''keyword'')])]))])])),
      (''_meta'', JObject [(''name'', JString ''list'')])]"

lemma demo_mapping_same: "same_json (JObject (demo_mapping id)) (JObject (demo_mapping rev))"
  by (auto simp: demo_mapping_def intro!: same_json.object intro: same_json.same)

lemma demo_mapping_parsed: "\<exists>cols. parseMapping (demo_mapping id) = Ok cols"
  by (simp add: parseMapping_def demo_mapping_def sorted_pairs_def inferField.simps handleSimpleField_def os_typeMap_def struct_field_def)

theorem opensearch_schema_deterministic_witness:
  "\<exists>cols. parseMapping (demo_mapping id) = Ok cols \<and> parseMapping (demo_mapping rev) = Ok cols \<and>
     map col_name cols = [''address'', ''name'']"
proof -
  obtain cols where cols: "parseMapping (demo_mapping id) = Ok cols" using demo_mapping_parsed by blast
  have "map_of (demo_mapping id) ''properties'' = Some (JObject
      [(''name'', JObject [(''type'', JString ''text'')]),
       (''address'', JObject [(''properties'', JObject
          [(''zip'', JObject [(''type'', JString ''integer'')]), (''city'', JObject [(''type'', JString ''keyword'')])])])])"
    by (simp add: demo_mapping_def)
  with opensearch_schema_deterministic [OF demo_mapping_same] cols
  have "parseMapping (demo_mapping rev) = Ok cols \<and> map col_name cols = [''address'', ''name'']" by auto
  then show ?thesis using cols by (intro exI [of _ cols] conjI) simp_all
qed

text \<open>A simple field becomes a list under any annotation, one that a struct rejects included.\<close>

theorem opensearch_simple_field_annotation:
  assumes "os_typeMap mapping = Ok t" and "as_object (map_of mapping ''properties'') = None"
    and "map_of meta q = Some v" and "v \<noteq> JString ''list''"
  shows "inferField q mapping meta = Ok (OptionalType (ListType t))"
    and "\<exists>e. struct_field q children meta = Err e"
  using assms by (auto simp: inferField.simps handleSimpleField_def struct_field_def applyMetaAnnotation_def split: json.splits)

text \<open>A response that does not name the index, as the one for an alias, which names the index behind it, panics.\<close>

theorem opensearch_alias_panics:
  assumes "as_object (map_of result table) = None" and "connect = Ok c" and "get_mapping c table = Ok (200, Ok result)"
  shows "os_DescribeTable True connect get_mapping table = Panic ''interface conversion''"
  using assms by (simp add: os_DescribeTable_def checkStatusCode_def)

end
