(* ===== verification/SplitListing.thy ===== *)
theory SplitListing
  imports Service MongoDb Redis OpenSearch
begin

text \<open>
  The handler of ListSplits over the code below it: what the data source of each kind lists (\<^verbatim>\<open>ListSplits\<close> of the relational sources
  with their three split providers, of MongoDB, Redis and OpenSearch), the streamer that sends it (theory \<open>Streaming\<close>) and
  the loop of the collection over the selects of a request (theory \<open>Service\<close>).
\<close>

section \<open>What a data source lists\<close>

text \<open>The descriptions of all kinds of splits, as one type.\<close>

datatype listed_description = YdbDescription ydb_split_description | LoggingDescription "ydb_source \<times> u64 list"

type_synonym listed_split = "(tselect option, listed_description) list_split_result"

definition with_description :: "('d \<Rightarrow> listed_description) \<Rightarrow> (tselect option, 'd) list_split_result \<Rightarrow> listed_split" where
  "with_description f x = \<lparr>lr_select = lr_select x, lr_description = map_option f (lr_description x)\<rparr>"

definition undescribed :: "tselect option \<Rightarrow> listed_split" where
  "undescribed slct = \<lparr>lr_select = slct, lr_description = None\<rparr>"

text \<open>
  The splits that \<^verbatim>\<open>ListSplits\<close> of a data source may emit and the result it may return, for any connections, answers of the
  driver and cancellations: those of the split provider of a relational source, and one split without a description for
  the document stores. Connections are numbers.
\<close>

definition relational_lists :: "split_policy \<Rightarrow> tselect option \<Rightarrow> listed_split list \<Rightarrow> unit res \<Rightarrow> bool" where
  "relational_lists policy slct results r \<longleftrightarrow>
     (case policy of
        DefaultSplits \<Rightarrow> \<exists>deliver. default_ListSplits deliver slct = (results, r)
      | YdbSplits enabled \<Rightarrow>
          \<exists>b connections D deliver out.
            (enabled = None \<or> enabled = Some b) \<and> results = map (with_description YdbDescription) out \<and>
            ydb_ListSplits b connections (D :: nat ydb_driver) deliver slct = Some (out, r)
      | LoggingSplits resolver enabled \<Rightarrow>
          \<exists>resolved connect D deliver out.
            results = map (with_description LoggingDescription) out \<and>
            logging_ListSplits resolved connect (D :: nat ydb_driver) deliver slct out r)"

definition single_lists :: "(go_error option \<Rightarrow> tselect option \<Rightarrow> tselect option list \<times> unit res) \<Rightarrow>
    tselect option \<Rightarrow> listed_split list \<Rightarrow> unit res \<Rightarrow> bool" where
  "single_lists list_splits slct results r \<longleftrightarrow>
     (\<exists>cancelled out. list_splits cancelled slct = (out, r) \<and> results = map undescribed out)"

definition source_lists :: "source \<Rightarrow> tselect option \<Rightarrow> listed_split list \<Rightarrow> unit res \<Rightarrow> bool" where
  "source_lists ds slct results r \<longleftrightarrow>
     (case ds of
        RelationalSource p \<Rightarrow> \<exists>q. relational_lists (pr_splits p) slct results q \<and> (results, r) = ds_ListSplits (results, q)
      | MongoSource retriers cfg \<Rightarrow> single_lists mg_ListSplits slct results r
      | RedisSource retriers cfg \<Rightarrow> single_lists redis_ListSplits slct results r
      | OpenSearchSource retriers cfg \<Rightarrow> single_lists os_ListSplits slct results r
      | S3Source \<Rightarrow> False)"

section \<open>Streamers\<close>

definition error_of :: "unit res \<Rightarrow> go_error option" where
  "error_of r = (case r of Err e \<Rightarrow> Some e | _ \<Rightarrow> None)"

text \<open>A streamer that runs the code: its messages and its result are those of a run over what the data source
  lists, up to the return of \<^verbatim>\<open>Run\<close>; a panic of the data source ends it. S3 has no streamer for splits.\<close>

definition streams_code ::
    "(listed_description \<Rightarrow> string res) \<Rightarrow> (nat \<Rightarrow> source \<Rightarrow> tselect option \<Rightarrow> tselect option split_response list \<times> unit res) \<Rightarrow> bool" where
  "streams_code marshal streamer \<longleftrightarrow>
     (\<forall>i ds slct sent r. ds \<noteq> S3Source \<longrightarrow> streamer i ds slct = (sent, r) \<longrightarrow>
        (\<exists>results q. source_lists ds slct results q \<and>
           ((\<exists>m. q = Panic m) \<and> r = q \<or>
            (\<exists>s. (\<forall>m. q \<noteq> Panic m) \<and> ls_reach marshal (ls_init results (error_of q)) s \<and> ls_outcome s = Some r \<and> sent = ls_sent s))))"

text \<open>The messages of a select: the first \<open>n\<close> splits of its data source, numbered from zero, each with its select and its
  description.\<close>

definition answers :: "(listed_description \<Rightarrow> string res) \<Rightarrow> collection \<Rightarrow> bool \<Rightarrow> tselect option \<Rightarrow> tselect option split_response list \<Rightarrow> bool" where
  "answers marshal C full slct sent \<longleftrightarrow>
     (\<exists>ds results q. source_of False C (select_kind slct) = Ok ds \<and> source_lists ds slct results q \<and>
        length sent \<le> length results \<and> (full \<longrightarrow> length sent = length results) \<and>
        (\<forall>i < length sent. carries marshal i (results ! i) (sent ! i)))"

lemma ls_run_answers:
  assumes "ls_reach marshal (ls_init results final) s"
  shows "length (ls_sent s) \<le> length results \<and> (ls_outcome s = Some (Ok ()) \<longrightarrow> length (ls_sent s) = length results) \<and>
    (\<forall>i < length (ls_sent s). carries marshal i (results ! i) (ls_sent s ! i))"
  using ls_inv_answers [OF ls_inv_reach [OF assms]] .

lemma not_s3: "source_of False C kind = Ok ds \<Longrightarrow> ds \<noteq> S3Source"
  by (auto simp: source_of_def unsupported_kind_def bind_res_Ok_iff split: data_source_kind.splits option.splits if_splits)

lemma served_answers:
  assumes "streams_code marshal streamer" and "served streamer C i slct sent r" and "\<And>m. r \<noteq> Panic m"
  shows "answers marshal C (r = Ok ()) slct sent"
proof -
  from assms(2) obtain ds where ds: "source_of False C (select_kind slct) = Ok ds" "streamer i ds slct = (sent, r)"
    by (auto simp: served_def)
  with assms(1) not_s3 [OF ds(1)] obtain results q where q: "source_lists ds slct results q"
    "(\<exists>m. q = Panic m) \<and> r = q \<or>
      (\<exists>s. (\<forall>m. q \<noteq> Panic m) \<and> ls_reach marshal (ls_init results (error_of q)) s \<and> ls_outcome s = Some r \<and> sent = ls_sent s)"
    unfolding streams_code_def by metis
  with assms(3) obtain s where "ls_reach marshal (ls_init results (error_of q)) s" "ls_outcome s = Some r" "sent = ls_sent s" by auto
  with ls_run_answers [of marshal results "error_of q" s] q(1) ds(1) show ?thesis unfolding answers_def by auto
qed

section \<open>The answer to a request\<close>

text \<open>C26: a request for splits is answered in full or with an error. When the handler ends normally, then in whatever way the
  streamers ran, the stream holds for the selects of the request, in order, one message for every split that the
  data source of the select emitted, each with its number, its select and its description: either for all selects, or for the
  first ones and a part of the next, followed by one message that the client recognises as a failure. (A data
  source that fails after it emitted its splits may still count as answered, \<open>list_splits_error_lost\<close>.)\<close>

theorem list_splits_answered:
  assumes "streams_code marshal streamer" and "svc_ListSplits D (Ok ()) streamer C request = (msgs, Ok ())"
  shows "\<exists>parts part.
    length parts \<le> length (lsr_Selects request) \<and>
    (\<forall>k < length parts. answers marshal C True (lsr_Selects request ! k) (parts ! k)) \<and>
    (msgs = map Payload (concat parts) \<and> length parts = length (lsr_Selects request) \<or>
     (\<exists>a. msgs = map Payload (concat parts @ part) @ [Failure a] \<and> IsSuccess (Some a) = Ok False \<and>
        (part = [] \<or> length parts < length (lsr_Selects request) \<and> answers marshal C False (lsr_Selects request ! length parts) part)))"
proof (cases "ValidateListSplitsRequest request")
  case (Ok u)
  obtain sent r where run: "dsc_ListSplits streamer C 0 (lsr_Selects request) = (sent, r)" by fastforce
  from dsc_ListSplits_parts [OF this, unfolded add_0] obtain parts part where p: "sent = concat parts @ part"
    "length parts \<le> length (lsr_Selects request)"
    "\<forall>k < length parts. served streamer C k (lsr_Selects request ! k) (parts ! k) (Ok ())"
    "r = Ok () \<longrightarrow> length parts = length (lsr_Selects request) \<and> part = []"
    "part = [] \<or> length parts < length (lsr_Selects request) \<and>
       (\<exists>q. served streamer C (length parts) (lsr_Selects request ! length parts) part q \<and> ((\<exists>e. r = Err e) \<longrightarrow> (\<exists>e. q = Err e)))"
    by blast
  have all: "\<forall>k < length parts. answers marshal C True (lsr_Selects request ! k) (parts ! k)"
    using p(3) served_answers [OF assms(1), of C _ _ _ "Ok ()"] by auto
  show ?thesis
  proof (cases r)
    case r: (Ok u')
    with run assms(2) Ok have "msgs = map Payload sent" by (simp add: svc_ListSplits_def)
    with p r all show ?thesis by (intro exI [of _ parts] exI [of _ part]) simp
  next
    case (Err e)
    obtain a where a: "NewAPIErrorFromStdError D (Some e) KIND_UNSPECIFIED = Ok a" "IsSuccess (Some a) = Ok False"
      by (rule connector_failure)
    with run assms(2) Ok Err have "msgs = map Payload sent @ [Failure a]" by (simp add: svc_ListSplits_def send_failure_def)
    moreover have "part = [] \<or> length parts < length (lsr_Selects request) \<and>
        answers marshal C False (lsr_Selects request ! length parts) part"
      using p(5) Err served_answers [OF assms(1), of C "length parts" _ part] by fastforce
    ultimately show ?thesis using p(1,2) all a(2) by (intro exI [of _ parts] exI [of _ part]) auto
  qed (use run assms(2) Ok in \<open>simp add: svc_ListSplits_def\<close>)
next
  case (Err e)
  obtain a where a: "NewAPIErrorFromStdError D (Some e) KIND_UNSPECIFIED = Ok a" "IsSuccess (Some a) = Ok False"
    by (rule connector_failure)
  then have "msgs = [Failure a]" using Err assms(2) by (simp add: svc_ListSplits_def send_failure_def)
  with a show ?thesis by (intro exI [of _ "[]"] exI [of _ "[]"]) simp
qed (use assms(2) in \<open>simp add: svc_ListSplits_def\<close>)

text \<open>A streamer of a real run: one split without a description, announced, sent and followed by the end.\<close>

definition demo_response :: "tselect option \<Rightarrow> tselect option split_response" where
  "demo_response slct = \<lparr>sr_select = slct, sr_description = '''', sr_id = 0\<rparr>"

lemma single_split_run:
  "\<exists>s. ls_reach marshal (ls_init [undescribed slct] None) s \<and> ls_outcome s = Some (Ok ()) \<and> ls_sent s = [demo_response slct]"
proof -
  let ?s0 = "ls_init [undescribed slct] None"
  let ?s1 = "?s0\<lparr>ls_pending := [], ls_resultChan := [undescribed slct]\<rparr>"
  let ?s2 = "?s1\<lparr>ls_returned := True, ls_errChan := Some None\<rparr>"
  let ?s3 = "?s2\<lparr>ls_closed := True\<rparr>"
  let ?s4 = "?s3\<lparr>ls_resultChan := [], ls_sent := [demo_response slct], ls_splitCounter := 1\<rparr>"
  have 1: "ls_step marshal ?s0 ?s1" using emit [of ?s0 "undescribed slct" "[]" marshal] by (simp add: ls_init_def)
  have 2: "ls_step marshal ?s1 ?s2" using return_from_source [of ?s1 marshal] by (simp add: ls_init_def)
  have 3: "ls_step marshal ?s2 ?s3" by (rule close_channel) simp
  have "sendResultToStream marshal 0 (undescribed slct) = Ok (demo_response slct)"
    by (simp add: sendResultToStream_def undescribed_def demo_response_def)
  then have 4: "ls_step marshal ?s3 ?s4"
    using split_sent [of ?s3 "undescribed slct" "[]" marshal "demo_response slct"] by (simp add: ls_init_def)
  have 5: "ls_step marshal ?s4 (?s4\<lparr>ls_outcome := Some (Ok ())\<rparr>)" by (rule all_responded) (simp_all add: ls_init_def)
  have "ls_reach marshal ?s0 (?s4\<lparr>ls_outcome := Some (Ok ())\<rparr>)"
    by (rule ls_next [OF ls_next [OF ls_next [OF ls_next [OF ls_next [OF ls_start 1] 2] 3] 4] 5])
  then show ?thesis by (intro exI [of _ "?s4\<lparr>ls_outcome := Some (Ok ())\<rparr>"]) simp
qed

text \<open>The listings of this streamer: one split everywhere; YDB and Cloud Logging fail to connect.\<close>

definition demo_streamer :: "nat \<Rightarrow> source \<Rightarrow> tselect option \<Rightarrow> tselect option split_response list \<times> unit res" where
  "demo_streamer i ds slct =
     (case ds of
        RelationalSource p \<Rightarrow>
          (case pr_splits p of
             DefaultSplits \<Rightarrow> ([demo_response slct], Ok ())
           | YdbSplits enabled \<Rightarrow> ([], Err (Wrap ''list splits'' (NewErr ''lost'')))
           | LoggingSplits resolver enabled \<Rightarrow> ([], Err (Wrap ''list splits'' (Wrap ''resolve YDB endpoint'' (NewErr ''lost'')))))
      | _ \<Rightarrow> ([demo_response slct], Ok ()))"

lemma failed_listing_run: "\<exists>s. ls_reach marshal (ls_init [] (Some e)) s \<and> ls_outcome s = Some (Err e) \<and> ls_sent s = []"
proof -
  let ?s0 = "ls_init [] (Some e)"
  let ?s1 = "?s0\<lparr>ls_returned := True, ls_errChan := Some (Some e)\<rparr>"
  have "ls_step marshal ?s0 ?s1" using return_from_source [of ?s0 marshal] by (simp add: ls_init_def)
  moreover have "ls_step marshal ?s1 (?s1\<lparr>ls_errChan := None, ls_outcome := Some (Err e)\<rparr>)"
    by (rule list_error) (simp_all add: ls_init_def)
  ultimately have "ls_reach marshal ?s0 (?s1\<lparr>ls_errChan := None, ls_outcome := Some (Err e)\<rparr>)" by (blast intro: ls_start ls_next)
  then show ?thesis by (force simp: ls_init_def)
qed

lemma demo_lists:
  "single_lists mg_ListSplits slct [undescribed slct] (Ok ())" "single_lists redis_ListSplits slct [undescribed slct] (Ok ())"
  "single_lists os_ListSplits slct [undescribed slct] (Ok ())" "relational_lists DefaultSplits slct [undescribed slct] (Ok ())"
  "relational_lists (YdbSplits enabled) slct [] (Err e)"
  "relational_lists (LoggingSplits resolver enabled) slct [] (Err (Wrap ''resolve YDB endpoint'' e))"
proof -
  show "single_lists mg_ListSplits slct [undescribed slct] (Ok ())" "single_lists redis_ListSplits slct [undescribed slct] (Ok ())"
    "single_lists os_ListSplits slct [undescribed slct] (Ok ())"
    by (auto simp: single_lists_def mg_ListSplits_def redis_ListSplits_def os_ListSplits_def intro!: exI [of _ None])
  show "relational_lists DefaultSplits slct [undescribed slct] (Ok ())"
    by (auto simp: relational_lists_def default_ListSplits_def undescribed_def intro!: exI [of _ "\<lambda>_. True"])
  show "relational_lists (YdbSplits enabled) slct [] (Err e)"
    by (cases enabled) (auto simp: relational_lists_def ydb_ListSplits_def intro!: exI [of _ "Some (Err e)"])
  show "relational_lists (LoggingSplits resolver enabled) slct [] (Err (Wrap ''resolve YDB endpoint'' e))"
    by (auto simp: relational_lists_def logging_ListSplits_def intro!: exI [of _ "Err e"])
qed

lemma relational_source_lists:
  "relational_lists (pr_splits p) slct results q \<Longrightarrow> source_lists (RelationalSource p) slct results (wrap_res ''list splits'' q)"
  by (auto simp: source_lists_def ds_ListSplits_def wrap_snd_def)

lemma demo_streamer_streams_code: "streams_code marshal demo_streamer"
  unfolding streams_code_def
proof (intro allI impI)
  fix i ds slct sent r
  assume ds: "ds \<noteq> S3Source" and run: "demo_streamer i ds slct = (sent, r)"
  let ?code = "\<lambda>results q s. source_lists ds slct results q \<and> (\<forall>m. q \<noteq> Panic m) \<and>
    ls_reach marshal (ls_init results (error_of q)) s \<and> ls_outcome s = Some r \<and> sent = ls_sent s"
  have ok: "\<exists>results q s. ?code results q s"
    if "source_lists ds slct [undescribed slct] (Ok ())" "sent = [demo_response slct]" "r = Ok ()"
    using single_split_run [of marshal slct] that by (fastforce simp: error_of_def)
  have err: "\<exists>results q s. ?code results q s" if "source_lists ds slct [] (Err e)" "sent = []" "r = Err e" for e
    using failed_listing_run [of marshal e] that by (fastforce simp: error_of_def)
  have "\<exists>results q s. ?code results q s"
  proof (cases ds)
    case (RelationalSource p)
    show ?thesis
    proof (cases "pr_splits p")
      case DefaultSplits
      from relational_source_lists [of p slct "[undescribed slct]" "Ok ()"] RelationalSource DefaultSplits run demo_lists(4) [of slct]
      show ?thesis by (intro ok) (auto simp: demo_streamer_def)
    next
      case (YdbSplits enabled)
      let ?e = "NewErr ''lost''"
      from relational_source_lists [of p slct "[]" "Err ?e"] RelationalSource YdbSplits run demo_lists(5) [of enabled slct ?e]
      show ?thesis by (intro err [of "Wrap ''list splits'' ?e"]) (auto simp: demo_streamer_def)
    next
      case (LoggingSplits resolver enabled)
      let ?e = "Wrap ''resolve YDB endpoint'' (NewErr ''lost'')"
      from relational_source_lists [of p slct "[]" "Err ?e"] RelationalSource LoggingSplits run
        demo_lists(6) [of resolver enabled slct "NewErr ''lost''"]
      show ?thesis by (intro err [of "Wrap ''list splits'' ?e"]) (auto simp: demo_streamer_def)
    qed
  next
    case S3Source
    with ds show ?thesis by simp
  next
    case (MongoSource retriers cfg)
    with run demo_lists(1) [of slct] show ?thesis by (intro ok) (auto simp: demo_streamer_def source_lists_def)
  next
    case (RedisSource retriers cfg)
    with run demo_lists(2) [of slct] show ?thesis by (intro ok) (auto simp: demo_streamer_def source_lists_def)
  next
    case (OpenSearchSource retriers cfg)
    with run demo_lists(3) [of slct] show ?thesis by (intro ok) (auto simp: demo_streamer_def source_lists_def)
  qed
  then show "\<exists>results q. source_lists ds slct results q \<and>
      ((\<exists>m. q = Panic m) \<and> r = q \<or>
       (\<exists>s. (\<forall>m. q \<noteq> Panic m) \<and> ls_reach marshal (ls_init results (error_of q)) s \<and> ls_outcome s = Some r \<and> sent = ls_sent s))"
    by blast
qed

theorem list_splits_answered_witness:
  "\<exists>parts. length parts = 1 \<and> answers (\<lambda>d. Ok '''') demo_collection True (Some (demo_select CLICKHOUSE (TypeId Type_INT32))) (parts ! 0) \<and>
     map Payload (concat parts) = [Payload (demo_response (Some (demo_select CLICKHOUSE (TypeId Type_INT32))))]"
proof -
  let ?slct = "Some (demo_select CLICKHOUSE (TypeId Type_INT32))"
  let ?request = "\<lparr>lsr_Selects = [?slct], lsr_MaxSplitCount = 0, lsr_SplitNumberLimit = 0, lsr_SplitSize = 0\<rparr>"
  have "svc_ListSplits demo_drivers (Ok ()) demo_streamer demo_collection ?request = ([Payload (demo_response ?slct)], Ok ())"
    by (simp add: svc_ListSplits_def ValidateListSplitsRequest_def validateSelect_def validateDataSourceInstance_def
      demo_select_def demo_instance_def dsi_validateEndpoint_def validateDatabase_def validateUseTLS_def
      validateDataSourceOptions_def source_of_def select_kind_def instance_kind_def Make_def demo_collection_def demo_preset_def
      demo_streamer_def)
  from list_splits_answered [OF demo_streamer_streams_code this, of "\<lambda>d. Ok ''''"] show ?thesis
    by (auto simp: Cons_eq_append_conv eq_commute [of "[_]"])
qed

end
