(* ===== verification/ObservationHttp.thy ===== *)
theory ObservationHttp
  imports Observation
begin

text \<open>
  The HTTP service over the storage of observations (\<^verbatim>\<open>src/app/server/observation/service.go\<close>): the parsing of the
  parameters, the handlers with every status they answer, the data of the pages and the routes. A request has the
  parameters as \<^verbatim>\<open>url.Values.Get\<close> gives them (the empty string for one that is absent). The bodies are values:
  the JSON of a list of queries is the list, an HTML page is the data handed to its template. The encoding of JSON, the
  rendering of the embedded templates and failures of writing to the connection are not modelled; the files under
  \<^verbatim>\<open>/assets/\<close> are a parameter.
\<close>

section \<open>Requests and responses\<close>

record http_request =
  rq_method :: string
  rq_path :: string
  rq_params :: "string \<Rightarrow> string"

record 'q page =
  pg_Queries :: "'q list"
  pg_Limit :: int
  pg_Offset :: int
  pg_NextOffset :: int
  pg_PrevOffset :: int
  pg_HasPrev :: bool
  pg_HasNext :: bool
  pg_StateFilter :: string
  pg_IncomingQueryID :: "nat option"

record home_link =
  hl_Name :: string
  hl_URL :: string
  hl_Description :: string

datatype http_response =
    HttpError nat string
  | HttpHome string "home_link list"
  | JsonIncoming "incoming_query list"
  | JsonOutgoing "outgoing_query list"
  | JsonGroups "outgoing_query list list"
  | HtmlIncoming "incoming_query page"
  | HtmlOutgoing "outgoing_query page"
  | HtmlGroups "outgoing_query list list" nat
  | HttpAsset string

definition method_not_allowed :: http_response where
  "method_not_allowed = HttpError 405 ''Method not allowed''"

text \<open>\<^verbatim>\<open>strconv.Atoi\<close> and \<^verbatim>\<open>strconv.ParseUint(s, 10, 64)\<close>.\<close>

definition Atoi :: "string \<Rightarrow> int option" where
  "Atoi s =
     (let neg = (s \<noteq> [] \<and> hd s = CHR ''-'');
          t = (if s \<noteq> [] \<and> (hd s = CHR ''-'' \<or> hd s = CHR ''+'') then tl s else s);
          n = int (read_dec 0 t)
      in if t = [] \<or> \<not> list_all is_digit t then None
         else if neg then (if n > 2 ^ 63 then None else Some (- n))
         else if n \<ge> 2 ^ 63 then None else Some n)"

definition parse_query_id :: "string \<Rightarrow> nat option" where
  "parse_query_id s =
     (if s = [] \<or> \<not> list_all is_digit s \<or> int (read_dec 0 s) \<ge> 2 ^ 64 then None else Some (read_dec 0 s))"

text \<open>A parameter with a default: absent, or an integer the handler accepts.\<close>

definition int_param :: "string \<Rightarrow> int \<Rightarrow> (int \<Rightarrow> bool) \<Rightarrow> int option" where
  "int_param s dflt accept =
     (if s = [] then Some dflt
      else case Atoi s of None \<Rightarrow> None | Some n \<Rightarrow> if accept n then Some n else None)"

definition state_param :: "http_request \<Rightarrow> string option" where
  "state_param r = (let s = rq_params r ''state'' in if s = [] then None else Some s)"

section \<open>Pages\<close>

text \<open>The arithmetic of the offsets wraps as that of a 64-bit \<^verbatim>\<open>int\<close> does.\<close>

definition wrap_int :: "int \<Rightarrow> int" where
  "wrap_int n = (n + 2 ^ 63) mod 2 ^ 64 - 2 ^ 63"

definition make_page :: "http_request \<Rightarrow> 'q list \<Rightarrow> int \<Rightarrow> int \<Rightarrow> nat option \<Rightarrow> 'q page" where
  "make_page r queries limit offset incomingQueryID =
     \<lparr>pg_Queries = queries, pg_Limit = limit, pg_Offset = offset, pg_NextOffset = wrap_int (offset + limit),
      pg_PrevOffset = wrap_int (offset - limit), pg_HasPrev = offset > 0, pg_HasNext = int (length queries) \<ge> limit,
      pg_StateFilter = rq_params r ''state'', pg_IncomingQueryID = incomingQueryID\<rparr>"

definition renderIncomingQueriesHTML :: "http_request \<Rightarrow> incoming_query list \<Rightarrow> int \<Rightarrow> int \<Rightarrow> http_response" where
  "renderIncomingQueriesHTML r queries limit offset = HtmlIncoming (make_page r queries limit offset None)"

definition renderOutgoingQueriesHTML ::
    "http_request \<Rightarrow> outgoing_query list \<Rightarrow> int \<Rightarrow> int \<Rightarrow> nat option \<Rightarrow> http_response" where
  "renderOutgoingQueriesHTML r queries limit offset incomingQueryID =
     HtmlOutgoing (make_page r queries limit offset incomingQueryID)"

definition renderSimilarOutgoingQueriesHTML :: "outgoing_query list list \<Rightarrow> http_response" where
  "renderSimilarOutgoingQueriesHTML groups = HtmlGroups groups (length groups)"

text \<open>The choice of the format, after the storage answered.\<close>

definition formatted :: "http_request \<Rightarrow> 'x res \<Rightarrow> string \<Rightarrow> ('x \<Rightarrow> http_response) \<Rightarrow> ('x \<Rightarrow> http_response) \<Rightarrow> http_response" where
  "formatted r answer failure json html =
     (case answer of
        Ok x \<Rightarrow>
          (let format = rq_params r ''format''
           in if format = ''json'' \<or> format = [] then json x
              else if format = ''html'' then html x
              else HttpError 400 ''Unsupported format'')
      | _ \<Rightarrow> HttpError 500 failure)"

section \<open>Handlers\<close>

definition handleHomePage :: "http_request \<Rightarrow> http_response" where
  "handleHomePage r =
     (if rq_path r \<noteq> ''/'' then HttpError 404 ''404 page not found''
      else if rq_method r \<noteq> ''GET'' then method_not_allowed
      else HttpHome ''Query Observation Service''
        [\<lparr>hl_Name = ''List Incoming Queries'', hl_URL = ''/api/queries/incoming/list'',
          hl_Description = ''List all incoming queries with pagination''\<rparr>,
         \<lparr>hl_Name = ''List Running Incoming Queries'', hl_URL = ''/api/queries/incoming/running'',
          hl_Description = ''List all currently running incoming queries''\<rparr>,
         \<lparr>hl_Name = ''List Outgoing Queries'', hl_URL = ''/api/queries/outgoing/list'',
          hl_Description = ''List all outgoing queries with pagination''\<rparr>,
         \<lparr>hl_Name = ''List Running Outgoing Queries'', hl_URL = ''/api/queries/outgoing/running'',
          hl_Description = ''List all currently running outgoing queries''\<rparr>,
         \<lparr>hl_Name = ''List Similar Outgoing Queries with Different Stats'',
          hl_URL = ''/api/queries/outgoing/similar_with_different_stats'',
          hl_Description = ''Find groups of similar outgoing queries with different row counts''\<rparr>])"

text \<open>The storage as the handlers use it: its three listings.\<close>

record storage_lists =
  st_incoming :: "string option \<Rightarrow> int \<Rightarrow> int \<Rightarrow> incoming_query list res"
  st_outgoing :: "nat option \<Rightarrow> string option \<Rightarrow> int \<Rightarrow> int \<Rightarrow> outgoing_query list res"
  st_similar :: "outgoing_query list list res"

definition handleListIncomingQueries :: "storage_lists \<Rightarrow> http_request \<Rightarrow> http_response" where
  "handleListIncomingQueries S r =
     (if rq_method r \<noteq> ''GET'' then method_not_allowed
      else case int_param (rq_params r ''limit'') 50 (\<lambda>n. n > 0) of
        None \<Rightarrow> HttpError 400 ''Invalid limit parameter''
      | Some limit \<Rightarrow>
          (case int_param (rq_params r ''offset'') 0 (\<lambda>n. n \<ge> 0) of
             None \<Rightarrow> HttpError 400 ''Invalid offset parameter''
           | Some offset \<Rightarrow>
               formatted r (st_incoming S (state_param r) limit offset) ''Failed to list incoming queries''
                 JsonIncoming (\<lambda>qs. renderIncomingQueriesHTML r qs limit offset)))"

definition handleListRunningIncomingQueries :: "storage_lists \<Rightarrow> http_request \<Rightarrow> http_response" where
  "handleListRunningIncomingQueries S r =
     (if rq_method r \<noteq> ''GET'' then method_not_allowed
      else formatted r (st_incoming S (Some QueryStateRunning) 1000 0) ''Failed to list running incoming queries''
             JsonIncoming (\<lambda>qs. renderIncomingQueriesHTML r qs 1000 0))"

definition handleListOutgoingQueries :: "storage_lists \<Rightarrow> http_request \<Rightarrow> http_response" where
  "handleListOutgoingQueries S r =
     (if rq_method r \<noteq> ''GET'' then method_not_allowed
      else case int_param (rq_params r ''limit'') 50 (\<lambda>n. n > 0) of
        None \<Rightarrow> HttpError 400 ''Invalid limit parameter''
      | Some limit \<Rightarrow>
          (case int_param (rq_params r ''offset'') 0 (\<lambda>n. n \<ge> 0) of
             None \<Rightarrow> HttpError 400 ''Invalid offset parameter''
           | Some offset \<Rightarrow>
               (let s = rq_params r ''incoming_query_id''
                in if s \<noteq> [] \<and> parse_query_id s = None then HttpError 400 ''Invalid incoming_query_id parameter''
                   else let i = (if s = [] then None else parse_query_id s)
                     in formatted r (st_outgoing S i (state_param r) limit offset) ''Failed to list outgoing queries''
                          JsonOutgoing (\<lambda>qs. renderOutgoingQueriesHTML r qs limit offset i))))"

definition handleListRunningOutgoingQueries :: "storage_lists \<Rightarrow> http_request \<Rightarrow> http_response" where
  "handleListRunningOutgoingQueries S r =
     (if rq_method r \<noteq> ''GET'' then method_not_allowed
      else formatted r (st_outgoing S None (Some QueryStateRunning) 1000 0) ''Failed to list running outgoing queries''
             JsonOutgoing (\<lambda>qs. renderOutgoingQueriesHTML r qs 1000 0 None))"

definition handleListSimilarOutgoingQueriesWithDifferentStats :: "storage_lists \<Rightarrow> http_request \<Rightarrow> http_response" where
  "handleListSimilarOutgoingQueriesWithDifferentStats S r =
     (if rq_method r \<noteq> ''GET'' then method_not_allowed
      else formatted r (st_similar S) ''Failed to find similar outgoing queries with different stats''
             JsonGroups renderSimilarOutgoingQueriesHTML)"

text \<open>The routes \<^verbatim>\<open>NewService\<close> registers; the pattern of the home page matches every path no other pattern matches.\<close>

definition route :: "(string \<Rightarrow> http_response) \<Rightarrow> storage_lists \<Rightarrow> http_request \<Rightarrow> http_response" where
  "route assets S r =
     (if has_prefix (rq_path r) ''/assets/'' then assets (trim_prefix (rq_path r) ''/assets/'')
      else if rq_path r = ''/api/queries/incoming/list'' then handleListIncomingQueries S r
      else if rq_path r = ''/api/queries/incoming/running'' then handleListRunningIncomingQueries S r
      else if rq_path r = ''/api/queries/outgoing/list'' then handleListOutgoingQueries S r
      else if rq_path r = ''/api/queries/outgoing/running'' then handleListRunningOutgoingQueries S r
      else if rq_path r = ''/api/queries/outgoing/similar_with_different_stats''
        then handleListSimilarOutgoingQueriesWithDifferentStats S r
      else handleHomePage r)"

text \<open>The service on the SQLite storage.\<close>

definition sqlite_lists ::
    "(incoming_query list \<Rightarrow> incoming_query list) \<Rightarrow> (outgoing_query list \<Rightarrow> outgoing_query list) \<Rightarrow>
     (query_key list \<Rightarrow> query_key list) \<Rightarrow> (outgoing_query list \<Rightarrow> outgoing_query list) \<Rightarrow> sqlite_db \<Rightarrow> storage_lists" where
  "sqlite_lists order_in order_out order_keys order_group db =
     \<lparr>st_incoming = (\<lambda>s l k. ListIncomingQueries order_in no_faults s l k db),
      st_outgoing = (\<lambda>i s l k. ListOutgoingQueries order_out no_faults i s l k db),
      st_similar = ListSimilarOutgoingQueriesWithDifferentStats order_keys order_group no_faults (\<lambda>k. no_faults) db\<rparr>"

definition dummy_lists :: storage_lists where
  "dummy_lists = \<lparr>st_incoming = (\<lambda>s l k. Ok []), st_outgoing = (\<lambda>i s l k. Ok []), st_similar = Ok []\<rparr>"

section \<open>Paging\<close>

lemma Atoi_dec: "int n < 2 ^ 63 \<Longrightarrow> Atoi (dec n) = Some (int n)"
proof -
  assume n: "int n < 2 ^ 63"
  obtain c t where d: "dec n = c # t" by (cases "dec n") auto
  then have "is_digit c" using dec_digits [of n] by simp
  then have "c \<noteq> CHR ''-''" and "c \<noteq> CHR ''+''" by (auto simp: is_digit_def)
  then show ?thesis using d n dec_digits [of n] read_dec_dec [of n] by (simp add: Atoi_def Let_def)
qed

lemma Atoi_range: "Atoi s = Some n \<Longrightarrow> - (2 ^ 63) \<le> n \<and> n < 2 ^ 63"
  by (auto simp: Atoi_def Let_def split: if_splits)

definition list_request :: "string \<Rightarrow> string \<Rightarrow> string \<Rightarrow> http_request" where
  "list_request state limit offset =
     \<lparr>rq_method = ''GET'', rq_path = ''/api/queries/incoming/list'',
      rq_params = (\<lambda>k. if k = ''format'' then ''html'' else if k = ''state'' then state
                       else if k = ''limit'' then limit else if k = ''offset'' then offset else [])\<rparr>"

lemma wrap_int_id: "- (2 ^ 63) \<le> n \<Longrightarrow> n < 2 ^ 63 \<Longrightarrow> wrap_int n = n"
  by (simp add: wrap_int_def)

lemma take_drop_pages: "0 < L \<Longrightarrow> concat (map (\<lambda>k. take L (drop (k * L) xs)) [0..<n]) = take (n * L) xs"
  by (induction n) (simp_all add: take_add [symmetric] add.commute)

text \<open>The list of incoming queries a request selects, in the order of the storage.\<close>

definition selected_incoming :: "(incoming_query list \<Rightarrow> incoming_query list) \<Rightarrow> string \<Rightarrow> sqlite_db \<Rightarrow> incoming_query list" where
  "selected_incoming order state db =
     order (if state = [] then incoming_queries db else filter (\<lambda>r. iq_State r = state) (incoming_queries db))"

lemma incoming_page:
  assumes "0 < L" and "int L < 2 ^ 63" and "int k < 2 ^ 63"
  shows "route assets (sqlite_lists order oo ok og db) (list_request state (dec L) (dec k)) =
    HtmlIncoming (make_page (list_request state (dec L) (dec k)) (take L (drop k (selected_incoming order state db))) (int L) (int k) None)"
  using assms
  by (simp add: route_def list_request_def handleListIncomingQueries_def int_param_def Atoi_dec formatted_def
      sqlite_lists_def ListIncomingQueries_def list_fault_def no_faults_def limit_offset_def state_param_def
      renderIncomingQueriesHTML_def selected_incoming_def Let_def split: option.splits)

text \<open>What the page of a response shows, and the offset its link to the next page has.\<close>

definition shown :: "http_response \<Rightarrow> incoming_query list" where
  "shown h = (case h of HtmlIncoming p \<Rightarrow> pg_Queries p | _ \<Rightarrow> [])"

definition next_link :: "http_response \<Rightarrow> int option" where
  "next_link h = (case h of HtmlIncoming p \<Rightarrow> if pg_HasNext p then Some (pg_NextOffset p) else None | _ \<Rightarrow> None)"

definition prev_link :: "http_response \<Rightarrow> int option" where
  "prev_link h = (case h of HtmlIncoming p \<Rightarrow> if pg_HasPrev p then Some (pg_PrevOffset p) else None | _ \<Rightarrow> None)"

definition answer :: "(string \<Rightarrow> http_response) \<Rightarrow> storage_lists \<Rightarrow> string \<Rightarrow> nat \<Rightarrow> nat \<Rightarrow> http_response" where
  "answer assets S state L k = route assets S (list_request state (dec L) (dec k))"

text \<open>Browsing the incoming queries page by page shows every selected query exactly once, in order: the pages
  reached by the links to the next page, up to the first page without such a link, concatenate to the whole list, and
  each link names the offset of the page that follows.\<close>

theorem browsing_complete:
  assumes "0 < L" and "int (length (selected_incoming order state db)) + int L < 2 ^ 63"
  shows "\<exists>n. concat (map (\<lambda>k. shown (answer assets (sqlite_lists order oo ok og db) state L (k * L))) [0..<Suc n]) = selected_incoming order state db \<and>
     (\<forall>k \<le> n. next_link (answer assets (sqlite_lists order oo ok og db) state L (k * L)) = (if k < n then Some (int (Suc k * L)) else None))"
proof -
  let ?all = "selected_incoming order state db"
  define n where "n = length ?all div L"
  have bound: "int (k * L) + int L < 2 ^ 63" and le: "k * L \<le> length ?all" if "k \<le> n" for k
  proof -
    have "k * L \<le> n * L" using that by simp
    also have "\<dots> \<le> length ?all" unfolding n_def by simp
    finally show "k * L \<le> length ?all" .
    then show "int (k * L) + int L < 2 ^ 63" using assms(2) by linarith
  qed
  have page: "answer assets (sqlite_lists order oo ok og db) state L (k * L) = HtmlIncoming (make_page (list_request state (dec L) (dec (k * L)))
      (take L (drop (k * L) ?all)) (int L) (int (k * L)) None)" if "k \<le> n" for k
  proof -
    have "int L < 2 ^ 63" and "int (k * L) < 2 ^ 63" using bound [OF that] assms(2) by linarith+
    then show ?thesis unfolding answer_def by (rule incoming_page [OF assms(1)])
  qed
  have "concat (map (\<lambda>k. shown (answer assets (sqlite_lists order oo ok og db) state L (k * L))) [0..<Suc n]) = concat (map (\<lambda>k. take L (drop (k * L) ?all)) [0..<Suc n])"
    by (rule arg_cong [where f = concat], rule map_cong) (auto simp: page make_page_def shown_def)
  also have "\<dots> = ?all"
    using dividend_less_div_times [OF assms(1), of "length ?all"]
    by (simp only: take_drop_pages [OF assms(1)]) (simp add: n_def)
  finally have "concat (map (\<lambda>k. shown (answer assets (sqlite_lists order oo ok og db) state L (k * L))) [0..<Suc n]) = ?all" .
  moreover have "next_link (answer assets (sqlite_lists order oo ok og db) state L (k * L)) = (if k < n then Some (int (Suc k * L)) else None)" if "k \<le> n" for k
  proof -
    have "L \<le> length ?all - k * L \<longleftrightarrow> Suc k * L \<le> length ?all" using le [OF that] by (simp add: le_diff_conv2 add.commute)
    also have "\<dots> \<longleftrightarrow> k < n" using assms(1) by (simp only: n_def less_eq_div_iff_mult_less_eq Suc_le_eq [symmetric])
    finally have full: "L \<le> length ?all - k * L \<longleftrightarrow> k < n" .
    have "- (2 ^ 63) \<le> int (k * L) + int L" by (rule order.trans [of _ 0]) simp_all
    from wrap_int_id [OF this bound [OF that]]
    have "wrap_int (int (k * L) + int L) = int (Suc k * L)" by (simp add: add.commute)
    moreover have "int L \<le> int (length (take L (drop (k * L) ?all))) \<longleftrightarrow> k < n" using full by simp
    ultimately show ?thesis
      unfolding page [OF that] next_link_def make_page_def by simp
  qed
  ultimately show ?thesis by blast
qed

theorem browsing_complete_witness:
  "\<exists>n. concat (map (\<lambda>k. shown (answer HttpAsset (sqlite_lists rev rev rev rev empty_db) ''running'' 2 (k * 2))) [0..<Suc n]) = selected_incoming rev ''running'' empty_db"
  using browsing_complete [of 2 rev "''running''" empty_db HttpAsset rev rev rev]
  by (auto simp: selected_incoming_def empty_db_def)

text \<open>A page that starts inside the first \<open>limit\<close> rows links to a previous page at a negative offset, and the
  service answers that link with an error: the rows before the page cannot be reached from it.\<close>

theorem previous_link_broken:
  assumes "0 < k" and "k < L" and "int L < 2 ^ 63"
  shows "prev_link (answer assets (sqlite_lists order oo ok og db) state L k) = Some (- int (L - k)) \<and>
    route assets (sqlite_lists order oo ok og db) (list_request state (dec L) (''-'' @ dec (L - k))) =
      HttpError 400 ''Invalid offset parameter''"
proof
  have "int k < 2 ^ 63" using assms by linarith
  with incoming_page [of L k assets order oo ok og db state] assms
  show "prev_link (answer assets (sqlite_lists order oo ok og db) state L k) = Some (- int (L - k))"
    using wrap_int_id [of "int k - int L"] by (simp add: answer_def prev_link_def make_page_def)
  have "Atoi (''-'' @ dec (L - k)) = Some (- int (L - k))"
    using assms dec_digits [of "L - k"] by (simp add: Atoi_def Let_def)
  then show "route assets (sqlite_lists order oo ok og db) (list_request state (dec L) (''-'' @ dec (L - k))) =
      HttpError 400 ''Invalid offset parameter''"
    using assms by (simp add: route_def list_request_def handleListIncomingQueries_def int_param_def Atoi_dec)
qed

theorem previous_link_broken_witness:
  "prev_link (answer HttpAsset (sqlite_lists rev rev rev rev empty_db) ''running'' 50 10) = Some (- int (50 - 10)) \<and>
   route HttpAsset (sqlite_lists rev rev rev rev empty_db) (list_request ''running'' (dec 50) (''-'' @ dec (50 - 10))) =
     HttpError 400 ''Invalid offset parameter''"
  by (rule previous_link_broken) simp_all

text \<open>The pages of running queries show the first thousand of them.\<close>

lemma running_page_bound:
  assumes "rq_method r = ''GET''" and "rq_params r ''format'' = ''json''"
  shows "handleListRunningIncomingQueries (sqlite_lists order oo ok og db) r =
    JsonIncoming (take 1000 (selected_incoming order QueryStateRunning db))"
  using assms
  by (simp add: handleListRunningIncomingQueries_def formatted_def sqlite_lists_def ListIncomingQueries_def list_fault_def
      no_faults_def limit_offset_def selected_incoming_def QueryStateRunning_def Let_def)

end
