(* ===== verification/DriverRows.thy ===== *)
theory DriverRows
  imports Transformers
begin

text \<open>
  The rows of the drivers that the connector scans itself: MySQL (\<^verbatim>\<open>rdbms/mysql/rows.go\<close> and the goroutine of
  \<^verbatim>\<open>mysql/connection.go\<close>) and Oracle (\<^verbatim>\<open>rdbms/oracle/rows.go\<close>). A destination is an acceptor of the transformer;
  an unchecked type assertion is a panic. \<^verbatim>\<open>time.Parse\<close> is written out for the two layouts of MySQL. The MySQL
  stream is a step relation between the goroutine that reads the connection and the reader of its channels.
\<close>

section \<open>Parsing dates and times\<close>

definition bad_time :: "'a res" where
  "bad_time = Err (NewErr ''parsing time'')"

text \<open>\<^verbatim>\<open>getnum\<close> of the package \<^verbatim>\<open>time\<close>: two digits, or one when the width is not fixed.\<close>

fun getnum :: "bool \<Rightarrow> string \<Rightarrow> (nat \<times> string) res" where
  "getnum fixed (a # b # s) =
     (if \<not> is_digit a then bad_time
      else if is_digit b then Ok (10 * digit_val a + digit_val b, s)
      else if fixed then bad_time else Ok (digit_val a, b # s))"
| "getnum fixed [a] = (if \<not> fixed \<and> is_digit a then Ok (digit_val a, []) else bad_time)"
| "getnum fixed [] = bad_time"

definition get_year :: "string \<Rightarrow> (nat \<times> string) res" where
  "get_year s =
     (if length s \<ge> 4 \<and> list_all is_digit (take 4 s) then Ok (read_dec 0 (take 4 s), drop 4 s) else bad_time)"

definition skip :: "char \<Rightarrow> string \<Rightarrow> string res" where
  "skip c s = (case s of d # t \<Rightarrow> if d = c then Ok t else bad_time | [] \<Rightarrow> bad_time)"

definition days_in :: "int \<Rightarrow> int \<Rightarrow> int" where
  "days_in y m = (if m = 2 \<and> isLeap y then 29 else daysBefore ! nat m - daysBefore ! nat (m - 1))"

definition civil_time :: "int \<Rightarrow> int \<Rightarrow> int \<Rightarrow> int \<Rightarrow> nat \<Rightarrow> go_time" where
  "civil_time y m d secs ns =
     \<lparr>unix_sec = 86400 * (days_before_year y + days_before_month (isLeap y) m + d - 1 - 719162) + secs, nano = ns, zone = 0\<rparr>"

text \<open>The common part of both layouts: \<^verbatim>\<open>2006-01-02\<close>. The range of the month is checked at once, that of the day at the end.\<close>

definition parse_ymd :: "string \<Rightarrow> (int \<times> int \<times> int \<times> string) res" where
  "parse_ymd s =
     bind_res (get_year s) (\<lambda>(y, s).
     bind_res (skip CHR ''-'' s) (\<lambda>s.
     bind_res (getnum True s) (\<lambda>(m, s).
       if m = 0 \<or> m > 12 then bad_time
       else
         bind_res (skip CHR ''-'' s) (\<lambda>s.
         bind_res (getnum True s) (\<lambda>(d, s). Ok (int y, int m, int d, s))))))"

definition day_ok :: "int \<Rightarrow> int \<Rightarrow> int \<Rightarrow> bool" where
  "day_ok y m d \<longleftrightarrow> 1 \<le> d \<and> d \<le> days_in y m"

definition parse_date :: "string \<Rightarrow> go_time res" where
  "parse_date s =
     bind_res (parse_ymd s) (\<lambda>(y, m, d, s).
       if s \<noteq> [] \<or> \<not> day_ok y m d then bad_time else Ok (civil_time y m d 0 0))"

text \<open>The fraction \<^verbatim>\<open>.999999\<close> of the layout accepts any number of digits, of which nine count, or none.\<close>

definition parse_fraction :: "string \<Rightarrow> nat \<times> string" where
  "parse_fraction s =
     (case s of
        p # d # t \<Rightarrow>
          if p \<in> {CHR ''.'', CHR '',''} \<and> is_digit d then
            (let ds = takeWhile is_digit (d # t); ds9 = take 9 ds
             in (read_dec 0 ds9 * 10 ^ (9 - length ds9), dropWhile is_digit (d # t)))
          else (0, s)
      | _ \<Rightarrow> (0, s))"

definition parse_datetime :: "string \<Rightarrow> go_time res" where
  "parse_datetime s =
     bind_res (parse_ymd s) (\<lambda>(y, m, d, s).
     bind_res (skip CHR '' '' s) (\<lambda>s.
     bind_res (getnum False s) (\<lambda>(h, s).
       if h \<ge> 24 then bad_time
       else
         bind_res (skip CHR '':'' s) (\<lambda>s.
         bind_res (getnum True s) (\<lambda>(mi, s).
           if mi \<ge> 60 then bad_time
           else
             bind_res (skip CHR '':'' s) (\<lambda>s.
             bind_res (getnum True s) (\<lambda>(sec, s).
               if sec \<ge> 60 then bad_time
               else
                 (case parse_fraction s of (ns, s) \<Rightarrow>
                    if s \<noteq> [] \<or> \<not> day_ok y m d then bad_time
                    else Ok (civil_time y m d (int (3600 * h + 60 * mi + sec)) ns)))))))))"

section \<open>Scanning MySQL values\<close>

text \<open>\<^verbatim>\<open>FieldValue.Value()\<close> of the driver.\<close>

datatype my_raw = RawNil | RawInt "64 word" | RawUint "64 word" | RawFloat "64 word" | RawBytes string

definition UNSIGNED_FLAG :: u16 where
  "UNSIGNED_FLAG = 32"

text \<open>\<^verbatim>\<open>OUT(value.(IN))\<close> for numbers: \<open>None\<close> when the assertion fails. Integers are truncated to the width of \<^verbatim>\<open>OUT\<close>; the
  rounding of a \<^verbatim>\<open>float64\<close> to a \<^verbatim>\<open>float32\<close> is a parameter, since the bits of floats are not interpreted.\<close>

fun word_value :: "go_kind \<Rightarrow> 64 word \<Rightarrow> go_value" where
  "word_value KInt8 w = VInt8 (ucast w)"
| "word_value KInt16 w = VInt16 (ucast w)"
| "word_value KInt32 w = VInt32 (ucast w)"
| "word_value KInt64 w = VInt64 w"
| "word_value KUint8 w = VUint8 (ucast w)"
| "word_value KUint16 w = VUint16 (ucast w)"
| "word_value KUint32 w = VUint32 (ucast w)"
| "word_value _ w = VUint64 w"

definition number_out :: "(64 word \<Rightarrow> 32 word) \<Rightarrow> go_kind \<Rightarrow> go_kind \<Rightarrow> my_raw \<Rightarrow> go_value option" where
  "number_out f32 IN OUT v =
     (case v of
        RawInt w \<Rightarrow> if IN = KInt64 then Some (word_value OUT w) else None
      | RawUint w \<Rightarrow> if IN = KUint64 then Some (word_value OUT w) else None
      | RawFloat w \<Rightarrow> if IN = KFloat64 then Some (if OUT = KFloat32 then VFloat32 (f32 w) else VFloat64 w) else None
      | _ \<Rightarrow> None)"

definition out_of_type_bounds :: "'a res" where
  "out_of_type_bounds = Err (Wrap ''mysql'' (Sentinel ErrValueOutOfTypeBounds))"

definition assertion_fails :: "'a res" where
  "assertion_fails = Panic ''interface conversion''"

text \<open>\<^verbatim>\<open>*dest.(**OUT) = nil\<close>\<close>

definition set_nil :: "go_kind \<Rightarrow> acceptor \<Rightarrow> acceptor res" where
  "set_nil OUT dest =
     (case dest of PtrPtr k p \<Rightarrow> if k = OUT then Ok (PtrPtr k None) else assertion_fails | _ \<Rightarrow> assertion_fails)"

text \<open>The type switch on the destination for a value that is not NULL.\<close>

definition set_value :: "go_kind \<Rightarrow> acceptor \<Rightarrow> go_value option \<Rightarrow> acceptor res" where
  "set_value OUT dest v =
     (case dest of
        PtrPtr k p \<Rightarrow>
          if k \<noteq> OUT then out_of_type_bounds
          else (case v of Some g \<Rightarrow> Ok (PtrPtr k (Some g)) | None \<Rightarrow> assertion_fails)
      | _ \<Rightarrow> out_of_type_bounds)"

definition scanNumberValue :: "(64 word \<Rightarrow> 32 word) \<Rightarrow> go_kind \<Rightarrow> go_kind \<Rightarrow> acceptor \<Rightarrow> bool \<Rightarrow> my_raw \<Rightarrow> acceptor res" where
  "scanNumberValue f32 IN OUT dest null v =
     (if null then set_nil OUT dest else set_value OUT dest (number_out f32 IN OUT v))"

definition bytes_out :: "go_kind \<Rightarrow> my_raw \<Rightarrow> go_value option" where
  "bytes_out OUT v = (case v of RawBytes s \<Rightarrow> Some (if OUT = KString then VString s else VBytes s) | _ \<Rightarrow> None)"

definition scanStringValue :: "go_kind \<Rightarrow> acceptor \<Rightarrow> bool \<Rightarrow> my_raw \<Rightarrow> acceptor res" where
  "scanStringValue OUT dest null v =
     (if null then set_nil OUT dest
      else case dest of
        Ptr z \<Rightarrow>
          if kind_of z \<noteq> OUT then out_of_type_bounds
          else (case bytes_out OUT v of Some g \<Rightarrow> Ok (Ptr g) | None \<Rightarrow> assertion_fails)
      | _ \<Rightarrow> set_value OUT dest (bytes_out OUT v))"

definition scanBoolValue :: "acceptor \<Rightarrow> bool \<Rightarrow> my_raw \<Rightarrow> acceptor res" where
  "scanBoolValue dest null v =
     (if null then set_nil KBool dest
      else set_value KBool dest (case v of RawInt w \<Rightarrow> Some (VBool (0 < sint w)) | _ \<Rightarrow> None))"

definition scan_time :: "(string \<Rightarrow> go_time res) \<Rightarrow> acceptor \<Rightarrow> bool \<Rightarrow> my_raw \<Rightarrow> acceptor res" where
  "scan_time parse dest null v =
     (case dest of
        PtrPtr k p \<Rightarrow>
          if k \<noteq> KTime then assertion_fails
          else if null then Ok (PtrPtr k None)
          else (case v of
                  RawBytes s \<Rightarrow> bind_res (wrap_res ''time parse'' (parse s)) (\<lambda>t. Ok (PtrPtr k (Some (VTime t))))
                | _ \<Rightarrow> assertion_fails)
      | _ \<Rightarrow> assertion_fails)"

definition scanDateValue :: "acceptor \<Rightarrow> bool \<Rightarrow> my_raw \<Rightarrow> acceptor res" where
  "scanDateValue = scan_time parse_date"

definition scanDatetimeValue :: "acceptor \<Rightarrow> bool \<Rightarrow> my_raw \<Rightarrow> acceptor res" where
  "scanDatetimeValue = scan_time parse_datetime"

definition string_dest :: "acceptor \<Rightarrow> bool" where
  "string_dest dest = (case dest of Ptr z \<Rightarrow> kind_of z = KString | PtrPtr k p \<Rightarrow> k = KString | _ \<Rightarrow> False)"

definition bool_dest :: "acceptor \<Rightarrow> bool" where
  "bool_dest dest = (case dest of PtrPtr k p \<Rightarrow> k = KBool | _ \<Rightarrow> False)"

text \<open>The unsigned and the signed branch of an integer type.\<close>

definition scan_integer ::
    "(64 word \<Rightarrow> 32 word) \<Rightarrow> u16 \<Rightarrow> go_kind \<Rightarrow> go_kind \<Rightarrow> acceptor \<Rightarrow> bool \<Rightarrow> my_raw \<Rightarrow> acceptor res" where
  "scan_integer f32 flag U S dest null v =
     (if flag = UNSIGNED_FLAG then scanNumberValue f32 KUint64 U dest null v else scanNumberValue f32 KInt64 S dest null v)"

definition my_scanToDest ::
    "(64 word \<Rightarrow> 32 word) \<Rightarrow> acceptor \<Rightarrow> my_raw \<Rightarrow> mysql_type \<Rightarrow> u16 \<Rightarrow> bool \<Rightarrow> acceptor res" where
  "my_scanToDest f32 dest v valueType flag null =
     (case valueType of
        MYSQL_TYPE_STRING \<Rightarrow> wrap_res ''scan value'' (scanStringValue KString dest null v)
      | MYSQL_TYPE_VARCHAR \<Rightarrow> wrap_res ''scan value'' (scanStringValue KString dest null v)
      | MYSQL_TYPE_VAR_STRING \<Rightarrow> wrap_res ''scan value'' (scanStringValue KString dest null v)
      | MYSQL_TYPE_JSON \<Rightarrow> wrap_res ''scan value'' (scanStringValue KString dest null v)
      | MYSQL_TYPE_LONGLONG \<Rightarrow> wrap_res ''scan value'' (scan_integer f32 flag KUint64 KInt64 dest null v)
      | MYSQL_TYPE_LONG \<Rightarrow> wrap_res ''scan value'' (scan_integer f32 flag KUint32 KInt32 dest null v)
      | MYSQL_TYPE_INT24 \<Rightarrow> wrap_res ''scan value'' (scan_integer f32 flag KUint32 KInt32 dest null v)
      | MYSQL_TYPE_SHORT \<Rightarrow> wrap_res ''scan value'' (scan_integer f32 flag KUint16 KInt16 dest null v)
      | MYSQL_TYPE_TINY \<Rightarrow>
          wrap_res ''scan value''
            (if flag \<noteq> UNSIGNED_FLAG \<and> bool_dest dest then scanBoolValue dest null v
             else scan_integer f32 flag KUint8 KInt8 dest null v)
      | MYSQL_TYPE_FLOAT \<Rightarrow> wrap_res ''scan value'' (scanNumberValue f32 KFloat64 KFloat32 dest null v)
      | MYSQL_TYPE_DOUBLE \<Rightarrow> wrap_res ''scan value'' (scanNumberValue f32 KFloat64 KFloat64 dest null v)
      | MYSQL_TYPE_DATE \<Rightarrow> wrap_res ''scan value'' (scanDateValue dest null v)
      | MYSQL_TYPE_DATETIME \<Rightarrow> wrap_res ''scan value'' (scanDatetimeValue dest null v)
      | MYSQL_TYPE_TIMESTAMP \<Rightarrow> wrap_res ''scan value'' (scanDatetimeValue dest null v)
      | _ \<Rightarrow>
          if valueType \<in> {MYSQL_TYPE_MEDIUM_BLOB, MYSQL_TYPE_LONG_BLOB, MYSQL_TYPE_BLOB, MYSQL_TYPE_TINY_BLOB}
          then wrap_res ''scan value'' (scanStringValue (if string_dest dest then KString else KBytes) dest null v)
          else Err (Wrap ''type'' (Sentinel ErrDataTypeNotSupported)))"

record my_field =
  mf_type :: mysql_type
  mf_flag :: u16

fun my_Scan :: "(64 word \<Rightarrow> 32 word) \<Rightarrow> (my_field \<times> bool \<times> my_raw) list \<Rightarrow> acceptor list \<Rightarrow> acceptor list res" where
  "my_Scan f32 [] dests = Ok dests"
| "my_Scan f32 (_ # cells) [] = Panic ''index out of range''"
| "my_Scan f32 ((f, null, v) # cells) (dest # dests) =
     bind_res (wrap_res ''scan to dest value'' (my_scanToDest f32 dest v (mf_type f) (mf_flag f) null)) (\<lambda>a.
     bind_res (my_Scan f32 cells dests) (\<lambda>as. Ok (a # as)))"

section \<open>Scanning Oracle values\<close>

datatype ora_raw = OraNil | OraString string | OraBytes string | OraTime go_time | OraFloat "64 word" | OraOther nat

definition ora_unsupported :: "'a res" where
  "ora_unsupported = Err (Wrap ''unsupported Scan'' (Sentinel ErrDataTypeNotSupported))"

definition scanNilToDest :: "acceptor \<Rightarrow> acceptor res" where
  "scanNilToDest dest =
     (case dest of
        PtrPtr k p \<Rightarrow> if k \<in> {KString, KInt64, KBytes, KTime, KFloat64} then Ok (PtrPtr k None) else ora_unsupported
      | _ \<Rightarrow> ora_unsupported)"

text \<open>\<^verbatim>\<open>strconv.Atoi\<close> on a host with 64-bit integers.\<close>

definition unsigned_text :: "string \<Rightarrow> nat option" where
  "unsigned_text s = (if s \<noteq> [] \<and> list_all is_digit s then Some (read_dec 0 s) else None)"

definition Atoi64 :: "string \<Rightarrow> 64 word res" where
  "Atoi64 s =
     (case (case s of
              [] \<Rightarrow> None
            | c # t \<Rightarrow>
                if c = CHR ''-'' then map_option (\<lambda>n. - int n) (unsigned_text t)
                else if c = CHR ''+'' then map_option int (unsigned_text t)
                else map_option int (unsigned_text s)) of
        None \<Rightarrow> Err (NewErr ''invalid syntax'')
      | Some n \<Rightarrow> if - (2 ^ 63) \<le> n \<and> n < 2 ^ 63 then Ok (word_of_int n) else Err (NewErr ''value out of range''))"

text \<open>The switch on the value, then the test of the destination; a pointer that is nil is allocated first.\<close>

definition pointer_kind :: "acceptor \<Rightarrow> go_kind option" where
  "pointer_kind dest = (case dest of PtrPtr k p \<Rightarrow> Some k | _ \<Rightarrow> None)"

definition store :: "go_kind \<Rightarrow> acceptor \<Rightarrow> go_value \<Rightarrow> acceptor res" where
  "store k dest g = (if pointer_kind dest = Some k then Ok (PtrPtr k (Some g)) else ora_unsupported)"

definition ora_scanToDest :: "acceptor \<Rightarrow> ora_raw \<Rightarrow> acceptor res" where
  "ora_scanToDest dest src =
     (case src of
        OraString s \<Rightarrow>
          if pointer_kind dest = Some KInt64 then
            bind_res (wrap_res ''unsupported scan'' (Atoi64 s)) (\<lambda>w. Ok (PtrPtr KInt64 (Some (VInt64 w))))
          else store KString dest (VString s)
      | OraBytes s \<Rightarrow> store KBytes dest (VBytes s)
      | OraTime t \<Rightarrow> store KTime dest (VTime t)
      | OraFloat w \<Rightarrow> store KFloat64 dest (VFloat64 w)
      | OraNil \<Rightarrow> scanNilToDest dest
      | OraOther n \<Rightarrow> ora_unsupported)"

fun ora_Scan :: "ora_raw list \<Rightarrow> acceptor list \<Rightarrow> acceptor list res" where
  "ora_Scan [] dests = Ok dests"
| "ora_Scan (_ # vals) [] = Panic ''index out of range''"
| "ora_Scan (v # vals) (dest # dests) =
     bind_res (wrap_res ''scan to dest column'' (ora_scanToDest dest v)) (\<lambda>a.
     bind_res (ora_Scan vals dests) (\<lambda>as. Ok (a # as)))"

text \<open>\<^verbatim>\<open>Next\<close>: what the driver returns for the next row, \<open>None\<close> at the end of the data.\<close>

record ora_rows =
  ora_buffer :: "ora_raw list"
  ora_finished :: bool
  ora_err :: "go_error option"

definition ora_Next :: "go_error + ora_raw list option \<Rightarrow> ora_rows \<Rightarrow> bool \<times> ora_rows" where
  "ora_Next next_row r =
     (if ora_finished r then (False, r)
      else case next_row of
        Inr (Some vals) \<Rightarrow> (True, r\<lparr>ora_buffer := vals\<rparr>)
      | Inr None \<Rightarrow> (False, r\<lparr>ora_finished := True\<rparr>)
      | Inl e \<Rightarrow> (False, r\<lparr>ora_err := Some (Wrap ''next row values'' e)\<rparr>))"

section \<open>Parsing inverts formatting\<close>

lemma last_digits_digits: "list_all is_digit (last_digits k n)"
  by (induction k arbitrary: n) simp_all

lemma read_last_digits: "read_dec 0 (last_digits k n) = n mod 10 ^ k"
proof (induction k arbitrary: n)
  case (Suc k)
  have "n mod (10 * 10 ^ k) = 10 * (n div 10 mod 10 ^ k) + n mod 10" by (simp add: mod_mult2_eq)
  then show ?case by (simp add: Suc)
qed simp

lemma get_year_appendInt:
  assumes "0 \<le> y" and "y \<le> 9999"
  shows "get_year (appendInt y 4 @ s) = Ok (nat y, s)"
proof -
  have "appendInt y 4 = last_digits 4 (nat y)" using assms pad_dec [of "nat y" 4] by (simp add: appendInt_def)
  moreover have "nat y mod 10 ^ 4 = nat y" using assms by simp
  ultimately show ?thesis
    using last_digits_digits [of 4 "nat y"] read_last_digits [of 4 "nat y"] by (simp add: get_year_def del: last_digits.simps)
qed

lemma getnum_appendInt:
  assumes "0 \<le> x" and "x < 100"
  shows "getnum fixed (appendInt x 2 @ s) = Ok (nat x, s)"
proof -
  have x: "appendInt x 2 = [digit_char (nat x div 10 mod 10), digit_char (nat x mod 10)]"
    using assms pad_dec [of "nat x" 2] by (simp add: appendInt_def numeral_2_eq_2)
  have "nat x div 10 < 10" using assms by (simp add: div_less_iff_less_mult)
  moreover have "10 * (nat x div 10) + nat x mod 10 = nat x" by simp
  ultimately show ?thesis by (simp add: x)
qed

lemma skip_Cons [simp]: "skip c (c # s) = Ok s"
  by (simp add: skip_def)

definition month_days_ok :: "bool \<Rightarrow> int \<Rightarrow> bool" where
  "month_days_ok leap yd =
     (case month_day leap yd of (m, d) \<Rightarrow>
        d \<le> (if m = 2 \<and> leap then 29 else daysBefore ! nat m - daysBefore ! nat (m - 1)))"

lemma month_days_table: "list_all (month_days_ok True) [0..365]" "list_all (month_days_ok False) [0..364]"
  by code_simp+

lemma Date_day_ok:
  assumes "Date t = (y, m, d)"
  shows "day_ok y m d"
proof -
  obtain yd where yd: "year_yday (wall_sec t div 86400 + 719162) = (y, yd)" "month_day (isLeap y) yd = (m, d)"
    using assms by (auto simp: Date_def Let_def split: prod.splits)
  have "0 \<le> yd" "yd < (if isLeap y then 366 else 365)" using year_yday_correct [OF yd(1)] by auto
  then have "month_days_ok (isLeap y) yd" using month_days_table by (cases "isLeap y") (auto simp: list_all_iff)
  with yd(2) Date_correct [OF assms] show ?thesis by (simp add: month_days_ok_def day_ok_def days_in_def)
qed

lemma parse_ymd_format:
  assumes "Date t = (y, m, d)" and "0 \<le> y" and "y \<le> 9999"
  shows "parse_ymd (format_date t @ s) = Ok (y, m, d, s)"
proof -
  have "\<not> 12 < nat m" "nat m \<noteq> 0" using Date_correct [OF assms(1)] by auto
  with Date_correct [OF assms(1)] assms show ?thesis
    by (simp add: parse_ymd_def format_date_def get_year_appendInt getnum_appendInt)
qed

lemma civil_time_inverse:
  assumes "Date t = (y, m, d)" and "zone t = 0" and "secs = unix_sec t mod 86400" and "ns = nano t"
  shows "civil_time y m d secs ns = t"
proof -
  have "unix_sec t div 86400 = days_before_year y + days_before_month (isLeap y) m + d - 1 - 719162"
    using Date_correct [OF assms(1)] assms(2) by (simp add: wall_sec_def)
  then have "86400 * (days_before_year y + days_before_month (isLeap y) m + d - 1 - 719162) + unix_sec t mod 86400 = unix_sec t"
    by (metis mult_div_mod_eq)
  then show ?thesis using assms(2-4) by (simp add: civil_time_def)
qed

lemma takeWhile_all_digits: "list_all is_digit s \<Longrightarrow> takeWhile is_digit s = s \<and> dropWhile is_digit s = []"
  by (induction s) auto

text \<open>MySQL prints a \<^verbatim>\<open>DATETIME(k)\<close> or a \<^verbatim>\<open>TIMESTAMP(k)\<close> with exactly \<open>k\<close> digits of the fraction, trailing zeros included, and without a
  point when \<open>k\<close> is zero.\<close>

definition mysql_fraction :: "nat \<Rightarrow> nat \<Rightarrow> string" where
  "mysql_fraction k ns = (if k = 0 then '''' else CHR ''.'' # last_digits k (ns div 10 ^ (9 - k)))"

lemma parse_mysql_fraction:
  assumes "ns < 1000000000" and "k \<le> 6"
  shows "parse_fraction (mysql_fraction k ns) = (ns div 10 ^ (9 - k) * 10 ^ (9 - k), [])"
proof (cases "k = 0")
  case False
  define f where "f = last_digits k (ns div 10 ^ (9 - k))"
  have "(10 :: nat) ^ (9 - k) * 10 ^ k = 10 ^ 9" using assms(2) by (simp flip: power_add)
  then have "ns div 10 ^ (9 - k) < 10 ^ k" using assms(1) by (simp add: div_less_iff_less_mult mult.commute)
  then have "read_dec 0 f = ns div 10 ^ (9 - k)" by (simp add: f_def read_last_digits)
  moreover have digits: "list_all is_digit f" "length f = k" by (simp_all add: f_def last_digits_digits)
  moreover have "take 9 f = f" using digits(2) assms(2) by simp
  ultimately show ?thesis using takeWhile_all_digits [OF digits(1)] False
    unfolding mysql_fraction_def parse_fraction_def f_def [symmetric]
    by (cases f) (auto simp: Let_def takeWhile_all_digits)
qed (use assms in \<open>simp add: mysql_fraction_def parse_fraction_def\<close>)

text \<open>C19: the texts of dates and times that MySQL prints are read back exactly. For every UTC time of the years 0 to 9999 the text of a
  column with \<open>k\<close> digits of fraction, at most six, is parsed to that time in the precision of the column (the
  text \<^verbatim>\<open>1988-11-20 12:55:28.123000\<close> for six digits), and the text of a date to its midnight.\<close>

theorem mysql_times_roundtrip:
  assumes "Date t = (y, m, d)" and "0 \<le> y" and "y \<le> 9999" and "zone t = 0" and "nano t < 1000000000" and "k \<le> 6"
  shows "parse_datetime (format_date t @ '' '' @ format_clock t @ mysql_fraction k (nano t)) =
           Ok (t\<lparr>nano := nano t div 10 ^ (9 - k) * 10 ^ (9 - k)\<rparr>) \<and>
         parse_date (format_date t) = Ok (t\<lparr>unix_sec := 86400 * (unix_sec t div 86400), nano := 0\<rparr>)"
proof
  obtain h mi s where c: "Clock t = (h, mi, s)" by (cases "Clock t") auto
  note b = Clock_bounds [OF c]
  define v where "v = t\<lparr>nano := nano t div 10 ^ (9 - k) * 10 ^ (9 - k)\<rparr>"
  have v: "Date v = (y, m, d)" "zone v = 0" using assms(1,4) by (simp_all add: v_def Date_def wall_sec_def)
  have secs: "int (3600 * nat h + 60 * nat mi + nat s) = unix_sec v mod 86400"
    using b assms(4) by (simp add: wall_sec_def v_def)
  have inv: "civil_time y m d (int (3600 * nat h + 60 * nat mi + nat s)) (nano t div 10 ^ (9 - k) * 10 ^ (9 - k)) = v"
    by (rule civil_time_inverse [OF v secs]) (simp add: v_def)
  have "\<not> 24 \<le> nat h" "\<not> 60 \<le> nat mi" "\<not> 60 \<le> nat s" using b by auto
  then show "parse_datetime (format_date t @ '' '' @ format_clock t @ mysql_fraction k (nano t)) =
      Ok (t\<lparr>nano := nano t div 10 ^ (9 - k) * 10 ^ (9 - k)\<rparr>)"
    using b Date_day_ok [OF assms(1)] inv parse_mysql_fraction [OF assms(5,6)] unfolding v_def [symmetric]
    by (simp add: parse_datetime_def parse_ymd_format [OF assms(1-3)] format_clock_def c getnum_appendInt nat_less_iff)
  define u where "u = t\<lparr>unix_sec := 86400 * (unix_sec t div 86400), nano := 0\<rparr>"
  have "Date u = Date t" by (simp add: u_def Date_def wall_sec_def assms(4))
  then have "civil_time y m d 0 0 = u" using assms(1,4) by (intro civil_time_inverse) (simp_all add: u_def)
  then show "parse_date (format_date t) = Ok (t\<lparr>unix_sec := 86400 * (unix_sec t div 86400), nano := 0\<rparr>)"
    using parse_ymd_format [OF assms(1-3), of "[]"] Date_day_ok [OF assms(1)] by (simp add: parse_date_def u_def)
qed

definition demo_time :: go_time where
  "demo_time = \<lparr>unix_sec = 596033728, nano = 123000000, zone = 0\<rparr>"

theorem mysql_times_roundtrip_witness:
  "format_date demo_time @ '' '' @ format_clock demo_time @ mysql_fraction 6 (nano demo_time) = ''1988-11-20 12:55:28.123000'' \<and>
   parse_datetime ''1988-11-20 12:55:28.123000'' = Ok demo_time"
proof -
  let ?second = "\<lparr>unix_sec = 596033728, nano = 0, zone = 0\<rparr>"
  have "Date ?second = (1988, 11, 20)" "format_date ?second = ''1988-11-20''" "format_clock ?second = ''12:55:28''"
    by code_simp+
  moreover have "Date demo_time = Date ?second" "Clock demo_time = Clock ?second"
    by (simp_all add: demo_time_def Date_def Clock_def wall_sec_def)
  ultimately have d: "Date demo_time = (1988, 11, 20)" "format_date demo_time = ''1988-11-20''" "format_clock demo_time = ''12:55:28''"
    by (simp_all only: format_date_def format_clock_def)
  have z: "zone demo_time = 0" "nano demo_time < 1000000000" by (simp_all add: demo_time_def)
  have six: "last_digits 6 n = last_digits (Suc (Suc (Suc (Suc (Suc (Suc 0)))))) n" for n by (rule arg_cong [of _ _ "\<lambda>k. last_digits k n"]) simp
  have "digit_char 0 = CHR ''0''" "digit_char 1 = CHR ''1''" "digit_char 2 = CHR ''2''" "digit_char 3 = CHR ''3''" by code_simp+
  then have "mysql_fraction 6 (nano demo_time) = ''.123000''"
    by (simp add: mysql_fraction_def demo_time_def six)
  with d(2,3) have printed: "format_date demo_time @ '' '' @ format_clock demo_time @ mysql_fraction 6 (nano demo_time) =
      ''1988-11-20 12:55:28.123000''" by simp
  have "demo_time\<lparr>nano := nano demo_time div 10 ^ (9 - 6) * 10 ^ (9 - 6)\<rparr> = demo_time" by (simp add: demo_time_def)
  then show ?thesis using mysql_times_roundtrip [OF d(1) _ _ z, of 6] unfolding printed by simp
qed

section \<open>Described MySQL columns are scanned exactly\<close>

































text \<open>The flags of a column are a set of bits. An unsigned column that has another flag too, as one that is NOT NULL or indexed, is
  taken for a signed one, and its values cannot be scanned.\<close>

theorem mysql_unsigned_with_flags_fails:
  assumes "flag \<noteq> UNSIGNED_FLAG"
  shows "my_scanToDest f32 (PtrPtr KUint32 p) (RawUint w) MYSQL_TYPE_LONG flag False =
           Err (Wrap ''scan value'' (Wrap ''mysql'' (Sentinel ErrValueOutOfTypeBounds)))"
  using assms by (simp add: my_scanToDest_def scan_integer_def scanNumberValue_def set_value_def out_of_type_bounds_def)

section \<open>Oracle columns are scanned exactly\<close>

lemma Atoi64_int_text:
  assumes "- (2 ^ 63) \<le> n" and "n < 2 ^ 63"
  shows "Atoi64 (int_text n) = Ok (word_of_int n)"
proof (cases "n < 0")
  case True
  then show ?thesis using assms by (simp add: Atoi64_def int_text_def unsigned_text_def dec_digits)
next
  case False
  obtain c s where c: "dec (nat n) = c # s" by (cases "dec (nat n)") auto
  have "is_digit c" using dec_digits [of "nat n"] by (simp add: c)
  then have "c \<noteq> CHR ''-''" "c \<noteq> CHR ''+''" by (auto simp: is_digit_def)
  moreover have "unsigned_text (c # s) = Some (nat n)" using dec_digits [of "nat n"] read_dec_dec [of "nat n"]
    by (simp add: c unsigned_text_def)
  ultimately show ?thesis using False assms by (simp add: Atoi64_def int_text_def c)
qed

text \<open>What the driver gives for the acceptor of a column, and the value that is stored: a number comes as its text.\<close>

definition ora_stored :: "go_kind \<Rightarrow> ora_raw \<Rightarrow> go_value \<Rightarrow> bool" where
  "ora_stored k v g \<longleftrightarrow>
     (case v of
        OraString s \<Rightarrow>
          k = KString \<and> g = VString s \<or>
          k = KInt64 \<and> (\<exists>n. s = int_text n \<and> - (2 ^ 63) \<le> n \<and> n < 2 ^ 63 \<and> g = VInt64 (word_of_int n))
      | OraBytes s \<Rightarrow> k = KBytes \<and> g = VBytes s
      | OraTime t \<Rightarrow> k = KTime \<and> g = VTime t
      | OraFloat w \<Rightarrow> k = KFloat64 \<and> g = VFloat64 w
      | _ \<Rightarrow> False)"

lemma ora_column_kind:
  assumes "ora_column d y = Ok (z, app)"
  shows "\<exists>k \<in> {KString, KInt64, KBytes, KTime, KFloat64}. z = PtrPtr k None"
proof -
  have table: "list_all (\<lambda>(n, c, ab). conv_in c \<in> {KString, KInt64, KBytes, KTime, KFloat64}) ora_converters"
    by (simp add: ora_converters_def)
  have named: "conv_in c \<in> {KString, KInt64, KBytes, KTime, KFloat64}" if "map_of ora_converters d = Some (c, ab)" for c ab
    using map_of_SomeD [OF that] table by (auto simp: list_all_iff)
  show ?thesis
  proof (cases "map_of ora_converters d")
    case (Some e)
    with assms named show ?thesis by (cases e) (auto simp: ora_column_def nullable_def)
  next
    case None
    with assms show ?thesis
      by (auto simp: ora_column_def nullable_def by_ydb_type_def unsupported_type_def res_simps split: if_splits option.splits)
  qed
qed

theorem oracle_scan_exact:
  assumes "ora_column d y = Ok (z, app)"
  shows "\<exists>k. z = PtrPtr k None \<and> (\<forall>p. ora_scanToDest (PtrPtr k p) OraNil = Ok (PtrPtr k None)) \<and>
           (\<forall>v g p. ora_stored k v g \<longrightarrow> ora_scanToDest (PtrPtr k p) v = Ok (PtrPtr k (Some g)))"
proof -
  obtain k where k: "k \<in> {KString, KInt64, KBytes, KTime, KFloat64}" "z = PtrPtr k None" using ora_column_kind [OF assms] by blast
  have "ora_scanToDest (PtrPtr k p) OraNil = Ok (PtrPtr k None)" for p
    using k(1) by (auto simp: ora_scanToDest_def scanNilToDest_def)
  moreover have "ora_scanToDest (PtrPtr k p) v = Ok (PtrPtr k (Some g))" if "ora_stored k v g" for v g p
    using that by (cases v) (auto simp: ora_stored_def ora_scanToDest_def store_def pointer_kind_def Atoi64_int_text)
  ultimately show ?thesis using k(2) by blast
qed

text \<open>A number with a fraction cannot be read.\<close>

lemma oracle_fraction_fails:
  "\<exists>e. ora_scanToDest (PtrPtr KInt64 p) (OraString ''1.5'') = Err e"
  by (simp add: ora_scanToDest_def pointer_kind_def Atoi64_def unsigned_text_def is_digit_def)

end
