(* ===== verification/MySqlStream.thy ===== *)
theory MySqlStream
  imports Transformers
begin

text \<open>
  The stream of a MySQL result: the goroutine that \<^verbatim>\<open>connection.Query\<close> starts (\<^verbatim>\<open>rdbms/mysql/connection.go\<close>) and the methods
  \<^verbatim>\<open>MakeTransformer\<close>, \<^verbatim>\<open>Next\<close> and \<^verbatim>\<open>Err\<close> of its reader (\<^verbatim>\<open>rdbms/mysql/rows.go\<close>). The driver hands the rows of the result to a
  callback one by one and then returns; the callback announces the column types before the first row and sends
  copies of the rows over a bounded channel. One rule of the step relation is one visible action of either side, so every
  interleaving and every choice of a \<^verbatim>\<open>select\<close> is covered.
\<close>

section \<open>State\<close>

datatype 'r my_reader =
    Preparing
  | Scanning "mysql_type list" "'r list"
  | Ended "'r list"
  | Failed go_error
  | Crashed

record 'r my_stream =
  pending :: "'r list"
  ctx_done :: bool
  initFinished :: bool
  initChan :: "mysql_type list option"
  rowChan :: "'r list"
  errSent :: bool
  errChan :: "go_error option option"
  rows_closed :: bool
  reader :: "'r my_reader"

text \<open>What a result is made of: its rows, their column types, how the driver's call ends, the capacity of the channel
  and the error of a cancelled context.\<close>

record 'r my_result =
  res_rows :: "'r list"
  res_types :: "mysql_type list"
  res_failure :: "go_error option"
  res_capacity :: nat
  res_ctx_err :: go_error

definition stream_start :: "'r my_result \<Rightarrow> 'r my_stream" where
  "stream_start R =
     \<lparr>pending = res_rows R, ctx_done = False, initFinished = False, initChan = None, rowChan = [],
      errSent = False, errChan = None, rows_closed = False, reader = Preparing\<rparr>"

section \<open>Steps\<close>

text \<open>
  Rules \<open>w_\<close> belong to the goroutine: \<^verbatim>\<open>maybeInitializeTransformer\<close>, the send of a row, the result of the driver's call
  and the deferred closing of the channels. Rules \<open>r_\<close> belong to the reader: the branches of the \<^verbatim>\<open>select\<close> in
  \<^verbatim>\<open>MakeTransformer\<close>, where a nil error means an empty table and an empty list of types, and \<^verbatim>\<open>Next\<close> followed by
  \<^verbatim>\<open>Scan\<close>, which indexes the acceptors made from the types. At the end of the rows \<^verbatim>\<open>Err\<close> returns nil.
\<close>

inductive stream_step :: "'r my_result \<Rightarrow> 'r my_stream \<Rightarrow> 'r my_stream \<Rightarrow> bool" for R where
  cancel: "\<not> ctx_done st \<Longrightarrow> stream_step R st (st\<lparr>ctx_done := True\<rparr>)"
| w_init: "\<not> errSent st \<Longrightarrow> pending st \<noteq> [] \<Longrightarrow> \<not> initFinished st \<Longrightarrow>
    stream_step R st (st\<lparr>initFinished := True, initChan := Some (res_types R)\<rparr>)"
| w_init_cancelled: "\<not> errSent st \<Longrightarrow> pending st \<noteq> [] \<Longrightarrow> \<not> initFinished st \<Longrightarrow> ctx_done st \<Longrightarrow>
    stream_step R st (st\<lparr>initFinished := True\<rparr>)"
| w_row: "\<not> errSent st \<Longrightarrow> initFinished st \<Longrightarrow> pending st = r # rs \<Longrightarrow> length (rowChan st) < res_capacity R \<Longrightarrow>
    stream_step R st (st\<lparr>pending := rs, rowChan := rowChan st @ [r]\<rparr>)"
| w_row_cancelled: "\<not> errSent st \<Longrightarrow> initFinished st \<Longrightarrow> pending st \<noteq> [] \<Longrightarrow> ctx_done st \<Longrightarrow>
    stream_step R st (st\<lparr>errSent := True, errChan := Some (Some (res_ctx_err R))\<rparr>)"
| w_end: "\<not> errSent st \<Longrightarrow> pending st = [] \<Longrightarrow>
    stream_step R st (st\<lparr>errSent := True, errChan := Some (res_failure R)\<rparr>)"
| w_close: "errSent st \<Longrightarrow> \<not> rows_closed st \<Longrightarrow> stream_step R st (st\<lparr>rows_closed := True\<rparr>)"
| r_types: "reader st = Preparing \<Longrightarrow> initChan st = Some ts \<Longrightarrow>
    stream_step R st (st\<lparr>reader := Scanning ts [], initChan := None\<rparr>)"
| r_not_ready: "reader st = Preparing \<Longrightarrow> initFinished st \<Longrightarrow> initChan st = None \<Longrightarrow>
    stream_step R st (st\<lparr>reader := Failed (NewErr ''mysql types are not ready'')\<rparr>)"
| r_error: "reader st = Preparing \<Longrightarrow> errChan st = Some (Some e) \<Longrightarrow>
    stream_step R st (st\<lparr>reader := Failed (Wrap ''error occurred during async reading'' e), errChan := None\<rparr>)"
| r_empty: "reader st = Preparing \<Longrightarrow> errChan st = Some None \<Longrightarrow>
    stream_step R st (st\<lparr>reader := Scanning [] [], errChan := None\<rparr>)"
| r_cancelled: "reader st = Preparing \<Longrightarrow> ctx_done st \<Longrightarrow> stream_step R st (st\<lparr>reader := Failed (res_ctx_err R)\<rparr>)"
| r_next: "reader st = Scanning ts got \<Longrightarrow> rowChan st = r # rs \<Longrightarrow> length (res_types R) \<le> length ts \<Longrightarrow>
    stream_step R st (st\<lparr>reader := Scanning ts (got @ [r]), rowChan := rs\<rparr>)"
| r_crash: "reader st = Scanning ts got \<Longrightarrow> rowChan st = r # rs \<Longrightarrow> length ts < length (res_types R) \<Longrightarrow>
    stream_step R st (st\<lparr>reader := Crashed, rowChan := rs\<rparr>)"
| r_end: "reader st = Scanning ts got \<Longrightarrow> rowChan st = [] \<Longrightarrow> rows_closed st \<Longrightarrow>
    stream_step R st (st\<lparr>reader := Ended got\<rparr>)"

inductive stream_reach :: "'r my_result \<Rightarrow> 'r my_stream \<Rightarrow> bool" for R where
  start: "stream_reach R (stream_start R)"
| step: "stream_reach R st \<Longrightarrow> stream_step R st st' \<Longrightarrow> stream_reach R st'"

definition at_end :: "'r my_stream \<Rightarrow> bool" where
  "at_end st \<longleftrightarrow> (case reader st of Preparing \<Rightarrow> False | Scanning ts got \<Rightarrow> False | _ \<Rightarrow> True)"

section \<open>Invariant\<close>

fun received :: "'r my_reader \<Rightarrow> 'r list option" where
  "received Preparing = Some []"
| "received (Scanning ts got) = Some got"
| "received (Ended got) = Some got"
| "received _ = None"

definition stream_inv :: "'r my_result \<Rightarrow> 'r my_stream \<Rightarrow> bool" where
  "stream_inv R st \<longleftrightarrow>
     (\<forall>got. received (reader st) = Some got \<longrightarrow> got @ rowChan st @ pending st = res_rows R) \<and>
     (rows_closed st \<longrightarrow> errSent st) \<and> (errSent st \<longrightarrow> ctx_done st \<or> pending st = []) \<and>
     (errSent st \<longrightarrow> reader st = Preparing \<longrightarrow> errChan st \<noteq> None) \<and>
     (initChan st \<noteq> None \<longrightarrow> initFinished st) \<and>
     (\<forall>got. reader st = Ended got \<longrightarrow> rowChan st = [] \<and> errSent st)"

lemma stream_inv_start: "stream_inv R (stream_start R)"
  by (simp add: stream_inv_def stream_start_def)

lemma stream_inv_step: "stream_step R st st' \<Longrightarrow> stream_inv R st \<Longrightarrow> stream_inv R st'"
  by (induction rule: stream_step.induct) (auto simp: stream_inv_def)

lemma stream_inv_reach: "stream_reach R st \<Longrightarrow> stream_inv R st"
  by (induction rule: stream_reach.induct) (auto intro: stream_inv_start stream_inv_step)






section \<open>A stream comes to an end\<close>

text \<open>Every step uses up something: a row on its way, a message to send, a phase of the reader.\<close>

fun reader_phase :: "'r my_reader \<Rightarrow> nat" where
  "reader_phase Preparing = 2"
| "reader_phase (Scanning ts got) = 1"
| "reader_phase _ = 0"

definition work_left :: "'r my_stream \<Rightarrow> nat" where
  "work_left st =
     2 * length (pending st) + length (rowChan st) + of_bool (\<not> ctx_done st) + of_bool (\<not> initFinished st) +
     of_bool (\<not> errSent st) + of_bool (\<not> rows_closed st) + reader_phase (reader st)"

lemma step_uses_work: "stream_step R st st' \<Longrightarrow> work_left st' < work_left st"
  by (induction rule: stream_step.induct) (auto simp: work_left_def)

lemma stream_progress:
  assumes "stream_inv R st" and "0 < res_capacity R" and "\<not> at_end st"
  shows "\<exists>st'. stream_step R st st'"
proof (cases "reader st")
  case Preparing
  show ?thesis
  proof (cases "errSent st")
    case True
    with assms(1) Preparing obtain x where "errChan st = Some x" by (auto simp: stream_inv_def)
    with Preparing show ?thesis by (cases x) (auto intro: stream_step.r_error stream_step.r_empty)
  next
    case False
    show ?thesis
    proof (cases "initChan st")
      case None
      with False Preparing show ?thesis
        by (cases "pending st"; cases "initFinished st")
           (auto intro: stream_step.w_end stream_step.w_init stream_step.r_not_ready)
    qed (use Preparing in \<open>auto intro: stream_step.r_types\<close>)
  qed
next
  case (Scanning ts got)
  show ?thesis
  proof (cases "rowChan st")
    case (Cons r rs)
    with Scanning show ?thesis
      by (cases "length ts < length (res_types R)") (auto simp: not_less intro: stream_step.r_crash stream_step.r_next)
  next
    case Nil
    show ?thesis
    proof (cases "errSent st")
      case True
      with Nil Scanning show ?thesis by (cases "rows_closed st") (auto intro: stream_step.r_end stream_step.w_close)
    next
      case False
      with Nil assms(2) stream_step.w_row [of st _ _ R] show ?thesis
        by (cases "pending st"; cases "initFinished st") (auto intro: stream_step.w_end stream_step.w_init)
    qed
  qed
qed (use assms(3) in \<open>simp_all add: at_end_def\<close>)

text \<open>C16: reading a MySQL stream always comes to an end: no interleaving gets stuck before the reader is done, and every step uses up work, so
  that every run is finite.\<close>

theorem mysql_stream_ends:
  assumes "stream_reach R st" and "0 < res_capacity R"
  shows "(\<forall>st'. stream_step R st st' \<longrightarrow> work_left st' < work_left st) \<and>
         (\<exists>st'. (stream_step R)\<^sup>*\<^sup>* st st' \<and> at_end st')"
proof
  show "\<forall>st'. stream_step R st st' \<longrightarrow> work_left st' < work_left st" using step_uses_work by blast
  show "\<exists>st'. (stream_step R)\<^sup>*\<^sup>* st st' \<and> at_end st'"
    using assms(1)
  proof (induction "work_left st" arbitrary: st rule: less_induct)
    case less
    show ?case
    proof (cases "at_end st")
      case False
      with stream_progress [OF stream_inv_reach [OF less.prems] assms(2)] obtain st1 where st1: "stream_step R st st1" by blast
      with less.hyps [of st1] less.prems step_uses_work obtain st' where "(stream_step R)\<^sup>*\<^sup>* st1 st'" "at_end st'"
        by (blast intro: stream_reach.step)
      with st1 show ?thesis by (meson converse_rtranclp_into_rtranclp)
    qed blast
  qed
qed

section \<open>Small runs\<close>

text \<open>A result of one row with one column, through a channel for one row.\<close>

definition one_row :: "go_error option \<Rightarrow> string my_result" where
  "one_row failure =
     \<lparr>res_rows = [''r''], res_types = [MYSQL_TYPE_LONG], res_failure = failure, res_capacity = 1, res_ctx_err = NewErr ''cancelled''\<rparr>"

text \<open>The goroutine announces the types, sends the row and finishes before the reader asks for the types.\<close>

definition row_sent :: "string my_stream" where
  "row_sent = (stream_start (one_row None))\<lparr>pending := [], initFinished := True, initChan := Some [MYSQL_TYPE_LONG], rowChan := [''r'']\<rparr>"

lemma row_sent_reached: "stream_reach (one_row failure) row_sent"
proof -
  have "stream_reach (one_row failure)
      ((stream_start (one_row failure))\<lparr>initFinished := True, initChan := Some (res_types (one_row failure))\<rparr>)"
    by (rule stream_reach.step [OF stream_reach.start stream_step.w_init]) (simp_all add: stream_start_def one_row_def)
  from stream_reach.step [OF this stream_step.w_row [of _ "''r''" "[]"]] show ?thesis
    by (simp add: stream_start_def one_row_def row_sent_def)
qed

lemma row_sent_finished: "stream_reach (one_row failure) (row_sent\<lparr>errSent := True, errChan := Some failure\<rparr>)"
  using stream_reach.step [OF row_sent_reached [of failure] stream_step.w_end]
  by (simp add: row_sent_def stream_start_def one_row_def)

definition row_read :: "go_error option \<Rightarrow> string my_stream" where
  "row_read failure = row_sent\<lparr>errSent := True, errChan := Some failure, initChan := None, rows_closed := True, rowChan := [],
     reader := Ended [''r'']\<rparr>"

lemma row_read_reached: "stream_reach (one_row failure) (row_read failure)"
proof -
  let ?R = "one_row failure"
  let ?s1 = "row_sent\<lparr>errSent := True, errChan := Some failure, initChan := None, reader := Scanning [MYSQL_TYPE_LONG] []\<rparr>"
  let ?s2 = "?s1\<lparr>rows_closed := True\<rparr>"
  let ?s3 = "?s2\<lparr>rowChan := [], reader := Scanning [MYSQL_TYPE_LONG] [''r'']\<rparr>"
  have "stream_step ?R (row_sent\<lparr>errSent := True, errChan := Some failure\<rparr>) ?s1"
    using stream_step.r_types [of "row_sent\<lparr>errSent := True, errChan := Some failure\<rparr>" "[MYSQL_TYPE_LONG]" ?R]
    by (simp add: row_sent_def stream_start_def)
  moreover have "stream_step ?R ?s1 ?s2"
    using stream_step.w_close [of ?s1 ?R] by (simp add: row_sent_def stream_start_def)
  moreover have "stream_step ?R ?s2 ?s3"
    using stream_step.r_next [of ?s2 "[MYSQL_TYPE_LONG]" "[]" "''r''" "[]" ?R]
    by (simp add: row_sent_def stream_start_def one_row_def)
  moreover have "stream_step ?R ?s3 (row_read failure)"
    using stream_step.r_end [of ?s3 "[MYSQL_TYPE_LONG]" "[''r'']" ?R] by (simp add: row_read_def row_sent_def stream_start_def)
  ultimately show ?thesis using row_sent_finished [of failure] stream_reach.step by meson
qed


theorem mysql_stream_ends_witness:
  "\<exists>st'. (stream_step (one_row None))\<^sup>*\<^sup>* row_sent st' \<and> at_end st'"
  using mysql_stream_ends [OF row_sent_reached [of None]] by (simp add: one_row_def)

text \<open>A failure of the driver after the first row is lost: nobody reads the error channel any more, and the read ends as
  a successful one.\<close>

theorem mysql_stream_error_lost:
  "\<exists>st. stream_reach (one_row (Some e)) st \<and> reader st = Ended [''r''] \<and> \<not> ctx_done st"
  using row_read_reached [of "Some e"] by (force simp: row_read_def row_sent_def stream_start_def)

text \<open>When the goroutine is finished before the reader asks for the types, both channels are ready; a \<^verbatim>\<open>select\<close> that takes the nil
  error makes a transformer without acceptors, and the first row is scanned into an empty list.\<close>

theorem mysql_small_result_crashes:
  "\<exists>st. stream_reach (one_row None) st \<and> reader st = Crashed"
proof -
  let ?s1 = "row_sent\<lparr>errSent := True, errChan := None, reader := Scanning [] []\<rparr>"
  have "stream_reach (one_row None) ?s1"
    using stream_reach.step [OF row_sent_finished [of None] stream_step.r_empty]
    by (simp add: row_sent_def stream_start_def)
  moreover have "stream_step (one_row None) ?s1 (?s1\<lparr>reader := Crashed, rowChan := []\<rparr>)"
    by (rule stream_step.r_crash [of _ "[]" "[]" "''r''" "[]"]) (simp_all add: row_sent_def stream_start_def one_row_def)
  ultimately have "stream_reach (one_row None) (?s1\<lparr>reader := Crashed, rowChan := []\<rparr>)" by (rule stream_reach.step)
  then show ?thesis by force
qed

end
