(* ===== verification/YdbNative.thy ===== *)
theory YdbNative
  imports PredicateBuilder TypeMappers
begin

text \<open>
  The native connection to YDB (\<^verbatim>\<open>rdbms/ydb/connection_native.go\<close>): the query text with the declarations of its parameters,
  the parameters themselves, and the iteration over result sets and rows. The session of the driver and the
  answers of its streams are parameters.
\<close>

section \<open>The text of a query\<close>

definition arg_type :: "query_arg \<Rightarrow> ydb_type" where
  "arg_type arg = (case arg_ydb_type arg of Some t \<Rightarrow> t | None \<Rightarrow> TypeUnset)"

text \<open>One iteration of the loop: the name of the declared type. An untyped argument has a nil type, whose getters return
  zero values.\<close>

definition declared_type :: "query_arg \<Rightarrow> string res" where
  "declared_type arg =
     bind_res
       (case arg_type arg of
          OptionalType (TypeId p) \<Rightarrow> Ok p
        | OptionalType _ \<Rightarrow> Err (NewErr ''optional type contains no primitive type'')
        | t \<Rightarrow> Ok (GetTypeId t)) (\<lambda>primitiveTypeID.
     bind_res (wrap_res ''get YQL type name from value'' (primitiveYqlTypeName primitiveTypeID)) (\<lambda>typeName.
       Ok (if is_OptionalType (arg_type arg) then typeName @ ''?'' else typeName)))"

definition line_end :: string where
  "line_end = [CHR 0x3B, CHR 0x0A]"

definition declare_text :: "string \<Rightarrow> string \<Rightarrow> string" where
  "declare_text name typeName = ''DECLARE '' @ name @ '' AS '' @ typeName @ line_end"

fun declarations :: "nat \<Rightarrow> query_args \<Rightarrow> string res" where
  "declarations i [] = Ok []"
| "declarations i (arg # args) =
     bind_res (declared_type arg) (\<lambda>typeName.
     bind_res (declarations (Suc i) args) (\<lambda>rest. Ok (declare_text (''$p'' @ dec i) typeName @ rest)))"

definition pragma_text :: "string \<Rightarrow> string" where
  "pragma_text database = ''PRAGMA TablePathPrefix('' @ [CHR 0x22] @ database @ [CHR 0x22] @ '')'' @ line_end"

definition rewriteQuery :: "string \<Rightarrow> query_args \<Rightarrow> string \<Rightarrow> string res" where
  "rewriteQuery database args queryText =
     bind_res (declarations 0 args) (\<lambda>decls. Ok (pragma_text database @ decls @ queryText))"

section \<open>Parameters\<close>

text \<open>A parameter: its name, whether it is optional, its type, and its value, \<open>None\<close> for NULL.\<close>

record ydb_param =
  prm_name :: string
  prm_optional :: bool
  prm_type :: prim_type
  prm_value :: "arg_value option"

fun scalar_type :: "go_scalar \<Rightarrow> prim_type" where
  "scalar_type GoBool = Type_BOOL"
| "scalar_type GoInt8 = Type_INT8" | "scalar_type GoUint8 = Type_UINT8"
| "scalar_type GoInt16 = Type_INT16" | "scalar_type GoUint16 = Type_UINT16"
| "scalar_type GoInt32 = Type_INT32" | "scalar_type GoUint32 = Type_UINT32"
| "scalar_type GoInt64 = Type_INT64" | "scalar_type GoUint64 = Type_UINT64"
| "scalar_type GoBytes = Type_STRING" | "scalar_type GoString = Type_UTF8"

fun value_type :: "prim_type \<Rightarrow> arg_value \<Rightarrow> prim_type option" where
  "value_type declared (ArgBool b) = Some Type_BOOL"
| "value_type declared (ArgInt32 x) = Some Type_INT32"
| "value_type declared (ArgUint32 x) = Some Type_UINT32"
| "value_type declared (ArgInt64 x) = Some Type_INT64"
| "value_type declared (ArgUint64 x) = Some Type_UINT64"
| "value_type declared (ArgFloat x) = Some Type_FLOAT"
| "value_type declared (ArgDouble x) = Some Type_DOUBLE"
| "value_type declared (ArgText s) = Some Type_UTF8"
| "value_type declared (ArgBytes s) = Some Type_STRING"
| "value_type declared (ArgTimeUTC t) = (if declared = Type_TIMESTAMP then Some Type_TIMESTAMP else None)"
| "value_type declared _ = None"

definition optional_item :: "ydb_type \<Rightarrow> prim_type" where
  "optional_item t = (case t of OptionalType u \<Rightarrow> GetTypeId u | _ \<Rightarrow> Type_UNSPECIFIED)"

definition unsupported_arg :: "'a res" where
  "unsupported_arg = Err (Wrap ''unsupported type'' (Sentinel ErrUnimplementedPredicateType))"

text \<open>The switch on the dynamic type of an argument.\<close>

definition make_param :: "string \<Rightarrow> query_arg \<Rightarrow> ydb_param res" where
  "make_param placeholder arg =
     (case arg_val arg of
        ArgNilPtr s \<Rightarrow> Ok \<lparr>prm_name = placeholder, prm_optional = True, prm_type = scalar_type s, prm_value = None\<rparr>
      | ArgPtr v \<Rightarrow>
          (case value_type (optional_item (arg_type arg)) v of
             Some t \<Rightarrow> Ok \<lparr>prm_name = placeholder, prm_optional = True, prm_type = t, prm_value = Some v\<rparr>
           | None \<Rightarrow> unsupported_arg)
      | v \<Rightarrow>
          (case value_type (GetTypeId (arg_type arg)) v of
             Some t \<Rightarrow> Ok \<lparr>prm_name = placeholder, prm_optional = False, prm_type = t, prm_value = Some v\<rparr>
           | None \<Rightarrow> unsupported_arg))"

fun make_params :: "sql_formatter \<Rightarrow> nat \<Rightarrow> query_args \<Rightarrow> ydb_param list res" where
  "make_params F i [] = Ok []"
| "make_params F i (arg # args) =
     bind_res (GetPlaceholder F i) (\<lambda>placeholder.
     bind_res (make_param placeholder arg) (\<lambda>p.
     bind_res (make_params F (Suc i) args) (\<lambda>ps. Ok (p # ps))))"

text \<open>One attempt of the closure that the driver retries: the query is rewritten and run, and the first result set is
  obtained.\<close>

definition query_attempt ::
    "sql_formatter \<Rightarrow> string \<Rightarrow> (string \<Rightarrow> ydb_param list \<Rightarrow> 's res) \<Rightarrow> ('s \<Rightarrow> 'r res) \<Rightarrow> query_args \<Rightarrow> string \<Rightarrow> ('s \<times> 'r) res" where
  "query_attempt F database session_query nextResultSet args queryText =
     bind_res (wrap_res ''rewrite query'' (rewriteQuery database args queryText)) (\<lambda>queryRewritten.
     bind_res (make_params F 0 args) (\<lambda>params.
     bind_res (wrap_res ''session query'' (session_query queryRewritten params)) (\<lambda>streamResult.
     bind_res (wrap_res ''next result set'' (nextResultSet streamResult)) (\<lambda>resultSet.
       Ok (streamResult, resultSet)))))"

section \<open>Rows\<close>

text \<open>An answer of the driver: the next item, or an error, of which \<open>None\<close> is the end of the stream.\<close>

record 'r native_rows =
  nr_err :: "go_error option"
  nr_lastRow :: "'r option"

definition native_Next :: "go_error option + 'r \<Rightarrow> 'r native_rows \<Rightarrow> bool \<times> 'r native_rows" where
  "native_Next answer r =
     (case answer of
        Inr row \<Rightarrow> (True, r\<lparr>nr_lastRow := Some row\<rparr>)
      | Inl None \<Rightarrow> (False, r\<lparr>nr_lastRow := None, nr_err := None\<rparr>)
      | Inl (Some e) \<Rightarrow> (False, r\<lparr>nr_lastRow := None, nr_err := Some (Wrap ''next row'' e)\<rparr>))"

definition native_NextResultSet :: "go_error option + unit \<Rightarrow> 'r native_rows \<Rightarrow> bool \<times> 'r native_rows" where
  "native_NextResultSet answer r =
     (case answer of
        Inr _ \<Rightarrow> (True, r)
      | Inl None \<Rightarrow> (False, r\<lparr>nr_err := None\<rparr>)
      | Inl (Some e) \<Rightarrow> (False, r\<lparr>nr_err := Some (Wrap ''next result set'' e)\<rparr>))"

text \<open>
  The loop of the data source over a stream: the rows of each result set with what ended them, and the
  answer to \<^verbatim>\<open>NextResultSet\<close> after the last one. The result is the rows that were read and \<^verbatim>\<open>Err\<close> at the end.
\<close>

fun drain_set :: "'r list \<Rightarrow> go_error option \<Rightarrow> 'r native_rows \<Rightarrow> 'r list \<times> 'r native_rows" where
  "drain_set [] stop r = ([], snd (native_Next (Inl stop) r))"
| "drain_set (row # rows) stop r =
     (case drain_set rows stop (snd (native_Next (Inr row) r)) of (got, r') \<Rightarrow> (row # got, r'))"

fun drain ::
    "'r list \<times> go_error option \<Rightarrow> ('r list \<times> go_error option) list \<Rightarrow> go_error option \<Rightarrow> 'r native_rows \<Rightarrow> 'r list \<times> go_error option" where
  "drain (rows, ended) [] stop r =
     (case drain_set rows ended r of (got, r1) \<Rightarrow> (got, nr_err (snd (native_NextResultSet (Inl stop) r1))))"
| "drain (rows, ended) (next_set # sets) stop r =
     (case drain_set rows ended r of (got, r1) \<Rightarrow>
        (case drain next_set sets stop (snd (native_NextResultSet (Inr ()) r1)) of (others, err) \<Rightarrow> (got @ others, err)))"

section \<open>What is declared is what is passed\<close>

text \<open>Literals whose Protobuf value is the one of their type. Narrow integers travel as 32-bit ones.\<close>

definition wide_literal :: "prim_type \<Rightarrow> ydb_value \<Rightarrow> bool" where
  "wide_literal p v \<longleftrightarrow>
     (case v of
        BoolValue b \<Rightarrow> p = Type_BOOL
      | Int32Value x \<Rightarrow> p = Type_INT32
      | Uint32Value x \<Rightarrow> p = Type_UINT32
      | Int64Value x \<Rightarrow> p = Type_INT64
      | Uint64Value x \<Rightarrow> p = Type_UINT64
      | FloatValue x \<Rightarrow> p = Type_FLOAT
      | DoubleValue x \<Rightarrow> p = Type_DOUBLE
      | BytesValue x \<Rightarrow> p = Type_STRING
      | TextValue x \<Rightarrow> p = Type_UTF8
      | _ \<Rightarrow> False)"

definition micros_literal :: "prim_type \<Rightarrow> ydb_value \<Rightarrow> bool" where
  "micros_literal p v \<longleftrightarrow> p = Type_TIMESTAMP \<and> (\<exists>x. v = Int64Value x)"

definition native_literal :: "typed_value \<Rightarrow> bool" where
  "native_literal v =
     (case tv_type v of
        TypeId p \<Rightarrow> wide_literal p (tv_value v) \<or> micros_literal p (tv_value v)
      | OptionalType (TypeId p) \<Rightarrow>
          wide_literal p (tv_value v) \<or> tv_value v = NullFlagValue \<and> null_acceptor p \<noteq> None
      | _ \<Rightarrow> False)"

text \<open>The argument that the predicate builder makes of a literal that is not embedded.\<close>

definition literal_arg :: "sql_formatter \<Rightarrow> typed_value \<Rightarrow> query_arg \<Rightarrow> bool" where
  "literal_arg F v arg \<longleftrightarrow> snd (formatValue F v False []) = [arg]"

definition param_type_name :: "ydb_param \<Rightarrow> string" where
  "param_type_name p =
     (case primitiveYqlTypeName (prm_type p) of Ok n \<Rightarrow> if prm_optional p then n @ ''?'' else n | _ \<Rightarrow> [])"

definition declare_param :: "ydb_param \<Rightarrow> string" where
  "declare_param p = declare_text (prm_name p) (param_type_name p)"

text \<open>The acceptor of a NULL has the type that is declared.\<close>

lemma snd_wrap_fst: "snd (wrap_fst m x) = snd x"
  by (cases x) simp

lemma null_param: "null_acceptor p = Some a \<Longrightarrow> scalar_type a = p \<and> (\<exists>n. primitiveYqlTypeName p = Ok n)"
  by (cases p) auto

text \<open>For such a literal the declared type is the type of the parameter.\<close>

lemma literal_param:
  assumes "native_literal v" and "literal_arg F v arg"
  shows "\<exists>p. make_param name arg = Ok p \<and> prm_name p = name \<and> declared_type arg = Ok (param_type_name p)"
proof (cases "tv_type v")
  case (TypeId p)
  with assms show ?thesis
    by (cases "tv_value v")
      (auto simp: native_literal_def wide_literal_def micros_literal_def literal_arg_def formatValue_def add_arg_def AddTyped_def
        make_param_def declared_type_def arg_type_def param_type_name_def)
next
  case (OptionalType t)
  then obtain p where "t = TypeId p" using assms(1) by (auto simp: native_literal_def split: ydb_type.splits)
  show ?thesis
  proof (cases "tv_value v = NullFlagValue")
    case True
    with OptionalType \<open>t = TypeId p\<close> assms(1) obtain a where a: "null_acceptor p = Some a"
      by (auto simp: native_literal_def wide_literal_def)
    with OptionalType \<open>t = TypeId p\<close> True assms(2) have "arg = \<lparr>arg_ydb_type = Some (OptionalType (TypeId p)), arg_val = ArgNilPtr a\<rparr>"
      by (simp add: literal_arg_def formatValue_def add_arg_def addTypedNull_def AddTyped_def snd_wrap_fst)
    then show ?thesis using null_param [OF a]
      by (auto simp: make_param_def declared_type_def arg_type_def param_type_name_def)
  next
    case False
    with OptionalType \<open>t = TypeId p\<close> assms show ?thesis
      by (cases "tv_value v")
        (auto simp: native_literal_def wide_literal_def literal_arg_def formatValue_def add_arg_def AddTyped_def make_param_def
          declared_type_def arg_type_def param_type_name_def optional_item_def)
  qed
qed (use assms(1) in \<open>simp_all add: native_literal_def\<close>)

text \<open>For any other literal it is not: a type is known by its name.\<close>

lemma type_of_name:
  "primitiveYqlTypeName p = Ok ''Bool'' \<longleftrightarrow> p = Type_BOOL" "primitiveYqlTypeName p = Ok ''Int32'' \<longleftrightarrow> p = Type_INT32"
  "primitiveYqlTypeName p = Ok ''Uint32'' \<longleftrightarrow> p = Type_UINT32" "primitiveYqlTypeName p = Ok ''Int64'' \<longleftrightarrow> p = Type_INT64"
  "primitiveYqlTypeName p = Ok ''Uint64'' \<longleftrightarrow> p = Type_UINT64" "primitiveYqlTypeName p = Ok ''Float'' \<longleftrightarrow> p = Type_FLOAT"
  "primitiveYqlTypeName p = Ok ''Double'' \<longleftrightarrow> p = Type_DOUBLE" "primitiveYqlTypeName p = Ok ''String'' \<longleftrightarrow> p = Type_STRING"
  "primitiveYqlTypeName p = Ok ''Utf8'' \<longleftrightarrow> p = Type_UTF8" "primitiveYqlTypeName p = Ok ''Timestamp'' \<longleftrightarrow> p = Type_TIMESTAMP"
  by (cases p; simp)+

lemma type_name_chars:
  assumes "primitiveYqlTypeName p = Ok n"
  shows "CHR 0x3B \<notin> set n"
  using assms by (cases p) auto

lemma declared_chars:
  assumes "declared_type arg = Ok n"
  shows "CHR 0x3B \<notin> set n"
proof -
  obtain p m where "primitiveYqlTypeName p = Ok m" "n = (if is_OptionalType (arg_type arg) then m @ ''?'' else m)"
    using assms by (auto simp: declared_type_def bind_res_Ok_iff)
  then show ?thesis using type_name_chars [of p m] by auto
qed

lemma param_chars: "CHR 0x3B \<notin> set (param_type_name p)"
  using type_name_chars by (auto simp: param_type_name_def split: res.splits)

lemmas literal_simps = native_literal_def wide_literal_def micros_literal_def literal_arg_def formatValue_def add_arg_def AddTyped_def
  addTypedNull_def snd_wrap_fst make_param_def declared_type_def arg_type_def param_type_name_def optional_item_def bind_res_Ok_iff
  type_of_name

lemma optional_name: "m @ ''?'' = s \<longleftrightarrow> s \<noteq> [] \<and> last s = CHR ''?'' \<and> m = butlast s"
  by (cases s rule: rev_cases) auto

lemma param_native:
  assumes "literal_arg F v arg" and "make_param name arg = Ok p" and "declared_type arg = Ok (param_type_name p)"
  shows "native_literal v"
proof (cases "tv_type v")
  case (TypeId q)
  show ?thesis
  proof (cases "tv_value v")
    case (Int64Value x)
    with TypeId assms show ?thesis by (cases q) (simp_all add: literal_simps)
  qed (use TypeId assms in \<open>auto simp: literal_simps\<close>)
next
  case (OptionalType t)
  show ?thesis
  proof (cases t)
    case (TypeId q)
    with OptionalType have tv: "tv_type v = OptionalType (TypeId q)" by simp
    with assms show ?thesis
      by (cases "tv_value v") (auto simp: literal_simps optional_name tv split: option.splits)
  qed (use OptionalType assms in \<open>cases "tv_value v"; auto simp: literal_simps\<close>)+
qed (use assms in \<open>cases "tv_value v"; auto simp: literal_simps\<close>)+

lemma literal_param_iff:
  assumes "literal_arg F v arg"
  shows "(\<exists>p. make_param name arg = Ok p \<and> declared_type arg = Ok (param_type_name p)) \<longleftrightarrow> native_literal v"
  using literal_param [OF _ assms, of name] param_native [OF assms] by blast

lemma make_param_name: "make_param name arg = Ok p \<Longrightarrow> prm_name p = name"
  by (auto simp: make_param_def unsupported_arg_def split: arg_value.splits option.splits)

text \<open>The declarations can be told apart in the text: a name of a type has no semicolon.\<close>

lemma separator_cancel: "c \<notin> set t \<Longrightarrow> c \<notin> set u \<Longrightarrow> t @ c # rest = u @ c # rest' \<longleftrightarrow> t = u \<and> rest = rest'"
proof (induction t arbitrary: u)
  case Nil
  then show ?case by (cases u) auto
next
  case (Cons a t)
  then show ?case by (cases u) auto
qed

lemma declare_text_cancel:
  assumes "CHR 0x3B \<notin> set t" and "CHR 0x3B \<notin> set u"
  shows "declare_text name t @ rest = declare_text name u @ rest' \<longleftrightarrow> t = u \<and> rest = rest'"
  using separator_cancel [OF assms] by (simp add: declare_text_def line_end_def)

lemma params_declared:
  assumes "list_all2 (literal_arg F) vs args"
    and "GetPlaceholder F = ydb_GetPlaceholder MODE_QUERY_SERVICE_NATIVE"
  shows "(\<exists>ps. make_params F i args = Ok ps \<and> declarations i args = Ok (concat (map declare_param ps))) \<longleftrightarrow>
    list_all native_literal vs"
  using assms(1)
proof (induction vs args arbitrary: i rule: list_all2_induct)
  case (Cons v vs arg args)
  note one = literal_param_iff [OF Cons.hyps(1), of "''$p'' @ dec i"]
  show ?case
  proof
    assume "list_all native_literal (v # vs)"
    then have l: "native_literal v" "list_all native_literal vs" by simp_all
    from l(1) one obtain p where p: "make_param (''$p'' @ dec i) arg = Ok p" "declared_type arg = Ok (param_type_name p)" by blast
    moreover from l(2) Cons.IH obtain ps where "make_params F (Suc i) args = Ok ps"
      "declarations (Suc i) args = Ok (concat (map declare_param ps))" by blast
    ultimately show "\<exists>ps. make_params F i (arg # args) = Ok ps \<and> declarations i (arg # args) = Ok (concat (map declare_param ps))"
      using make_param_name [OF p(1)] by (simp add: assms(2) declare_param_def [of p])
  next
    assume "\<exists>ps. make_params F i (arg # args) = Ok ps \<and> declarations i (arg # args) = Ok (concat (map declare_param ps))"
    then obtain p ps n rest where p: "make_param (''$p'' @ dec i) arg = Ok p" "make_params F (Suc i) args = Ok ps"
      "declared_type arg = Ok n" "declarations (Suc i) args = Ok rest"
      "declare_text (''$p'' @ dec i) n @ rest = declare_text (''$p'' @ dec i) (param_type_name p) @ concat (map declare_param ps)"
      by (auto simp: assms(2) bind_res_Ok_iff declare_param_def make_param_name)
    from p(5) have "n = param_type_name p" "rest = concat (map declare_param ps)"
      using declare_text_cancel [OF declared_chars [OF p(3)] param_chars] by simp_all
    with p one Cons.IH show "list_all native_literal (v # vs)" by auto
  qed
qed simp

text \<open>C18: when the native connection to YDB declares exactly the parameters that it passes. For arguments made from literals, the
  rewritten query consists of the table prefix, one declaration for each parameter with the name and the type
  it is passed with, in order, and the text of the query, exactly when every literal is a boolean, a 32-bit or 64-bit
  integer, a float, a string or a text of its own type, optional or not, a timestamp that is not optional, or a typed
  NULL. With any other literal (an 8-bit or 16-bit integer, an optional timestamp) a declared type differs from the
  type of its parameter, or there is no such query.\<close>

theorem ydb_native_parameters_declared:
  assumes "list_all2 (literal_arg (ydb_formatter unmarshal MODE_QUERY_SERVICE_NATIVE ts)) vs args"
  shows "(\<exists>ps. make_params (ydb_formatter unmarshal MODE_QUERY_SERVICE_NATIVE ts) 0 args = Ok ps \<and>
            rewriteQuery database args queryText = Ok (pragma_text database @ concat (map declare_param ps) @ queryText)) \<longleftrightarrow>
         list_all native_literal vs"
  using params_declared [OF assms, of 0] by (simp add: ydb_formatter_def rewriteQuery_def bind_res_Ok_iff)

definition demo_literal :: typed_value where
  "demo_literal = \<lparr>tv_type = TypeId Type_INT32, tv_value = Int32Value 7\<rparr>"

definition demo_arg :: query_arg where
  "demo_arg = \<lparr>arg_ydb_type = Some (TypeId Type_INT32), arg_val = ArgInt32 7\<rparr>"

theorem ydb_native_parameters_declared_witness:
  "\<exists>ps. make_params (ydb_formatter (\<lambda>_. Ok undefined) MODE_QUERY_SERVICE_NATIVE False) 0 [demo_arg] = Ok ps \<and>
     rewriteQuery ''db'' [demo_arg] ''SELECT $p0'' = Ok (pragma_text ''db'' @ concat (map declare_param ps) @ ''SELECT $p0'') \<and>
     map declare_param ps = [''DECLARE $p0 AS Int32'' @ line_end]"
proof -
  have "list_all2 (literal_arg (ydb_formatter (\<lambda>_. Ok undefined) MODE_QUERY_SERVICE_NATIVE False)) [demo_literal] [demo_arg]"
    by (simp add: demo_literal_def demo_arg_def literal_arg_def formatValue_def add_arg_def AddTyped_def)
  moreover have "list_all native_literal [demo_literal]" by (simp add: demo_literal_def native_literal_def wide_literal_def)
  moreover have zero: "dec 0 = ''0''" by code_simp
  ultimately show ?thesis using ydb_native_parameters_declared [of "\<lambda>_. Ok undefined" False "[demo_literal]" "[demo_arg]" "''db''" "''SELECT $p0''"]
    by (auto simp: demo_arg_def ydb_formatter_def make_param_def arg_type_def declare_param_def declare_text_def
        param_type_name_def zero)
qed

text \<open>A narrow integer is declared with its type and passed as a 32-bit one, and an optional timestamp is passed as an integer.\<close>

theorem ydb_narrow_literal_mismatch:
  assumes "tv_type v = TypeId Type_INT8" and "tv_value v = Int32Value x" and "literal_arg F v arg"
  shows "declared_type arg = Ok ''Int8'' \<and> (\<exists>p. make_param name arg = Ok p \<and> prm_type p = Type_INT32)"
  using assms by (auto simp: literal_arg_def formatValue_def add_arg_def AddTyped_def make_param_def declared_type_def arg_type_def)

theorem ydb_optional_timestamp_mismatch:
  assumes "tv_type v = OptionalType (TypeId Type_TIMESTAMP)" and "tv_value v = Int64Value x" and "literal_arg F v arg"
  shows "declared_type arg = Ok ''Timestamp?'' \<and> (\<exists>p. make_param name arg = Ok p \<and> prm_type p = Type_INT64)"
  using assms by (auto simp: literal_arg_def formatValue_def add_arg_def AddTyped_def make_param_def declared_type_def arg_type_def
      optional_item_def)

section \<open>Rows that were read\<close>

lemma drain_set_rows: "drain_set rows stop r = (got, r') \<Longrightarrow> got = rows"
  by (induction rows arbitrary: r got) (auto split: prod.splits)

text \<open>All rows of all result sets are read, in order; the error at the end is the one of the last call of \<^verbatim>\<open>NextResultSet\<close>, whatever
  stopped the rows of a result set before.\<close>

theorem ydb_native_drain:
  "drain (rows, ended) sets stop r = (concat (rows # map fst sets), map_option (Wrap ''next result set'') stop)"
proof (induction sets arbitrary: rows ended r)
  case Nil
  show ?case by (auto simp: native_NextResultSet_def dest: drain_set_rows split: prod.splits option.splits)
next
  case (Cons next_set sets)
  obtain rows' ended' where "next_set = (rows', ended')" by fastforce
  then show ?case by (auto simp: Cons dest: drain_set_rows split: prod.splits)
qed

end
