(* ===== verification/S3Csv.thy ===== *)
theory S3Csv
  imports DriverRows SinkFactory
begin

text \<open>
  Reading CSV objects from S3 (\<^verbatim>\<open>src/app/server/datasource/s3/datasource.go\<close>). The object that the client of the service
  returns is seen through the reader of \<^verbatim>\<open>encoding/csv\<close>: the records and errors that its calls return in
  turn, after which it reports the end of the file.
\<close>

section \<open>Appenders\<close>

datatype s3_appender = AppendAtoi | AppendText

definition makeAppender :: "ydb_type \<Rightarrow> s3_appender res" where
  "makeAppender ydbType =
     (case GetTypeId ydbType of
        Type_INT32 \<Rightarrow> Ok AppendAtoi
      | Type_STRING \<Rightarrow> Ok AppendText
      | _ \<Rightarrow> Err (Wrap ''unexpected type'' (Sentinel ErrDataTypeNotSupported)))"

text \<open>The closures: the field is parsed, then the type of the builder is asserted.\<close>

fun run_s3_appender :: "s3_appender \<Rightarrow> string \<Rightarrow> arrow_type \<Rightarrow> cell res" where
  "run_s3_appender AppendAtoi field builder =
     bind_res (wrap_res ''strconv atoi'' (Atoi64 field)) (\<lambda>v.
       if builder = Arrow_Int32 then Ok (Cell (VInt32 (ucast v))) else Panic ''interface conversion'')"
| "run_s3_appender AppendText field builder =
     (if builder = Arrow_String then Ok (Cell (VString field)) else Panic ''interface conversion'')"

section \<open>Columns of a request\<close>

text \<open>The two loops of \<^verbatim>\<open>prepareReading\<close>: for every requested name, the positions in the schema that have it.\<close>

fun match_columns :: "string \<Rightarrow> nat \<Rightarrow> column list \<Rightarrow> (nat \<times> s3_appender) list res" where
  "match_columns name i [] = Ok []"
| "match_columns name i (column # columns) =
     (if name = col_name column then
        bind_res (wrap_res ''make appender for column'' (makeAppender (col_type column))) (\<lambda>app.
        bind_res (match_columns name (Suc i) columns) (\<lambda>rest. Ok ((i, app) # rest)))
      else match_columns name (Suc i) columns)"

fun match_items :: "select_what \<Rightarrow> column list \<Rightarrow> (nat \<times> s3_appender) list res" where
  "match_items [] columns = Ok []"
| "match_items (item # rest) columns =
     (case item of
        None \<Rightarrow> if columns = [] then match_items rest columns else Panic ''nil pointer dereference''
      | Some c \<Rightarrow>
          bind_res (match_columns (col_name c) 0 columns) (\<lambda>found.
          bind_res (match_items rest columns) (\<lambda>others. Ok (found @ others))))"

definition prepareReading :: "select_what \<Rightarrow> column list \<Rightarrow> (nat \<times> s3_appender) list res" where
  "prepareReading selectWhat columns =
     bind_res (match_items selectWhat columns) (\<lambda>result.
       if length result \<noteq> length selectWhat then
         Err (Wrap ''requested column with schema mismatch'' (Sentinel ErrInvalidRequest))
       else Ok result)"

section \<open>Reading\<close>

text \<open>The loop over the records: each one is kept in the transformer, and the sink is not touched.\<close>

record s3_transformer =
  s3_acceptors :: "string list"
  s3_columns :: "(nat \<times> s3_appender) list"

fun csv_loop :: "nat \<Rightarrow> (go_error + string list) list \<Rightarrow> s3_transformer \<Rightarrow> unit res \<times> s3_transformer" where
  "csv_loop width [] rt = (Ok (), rt)"
| "csv_loop width (Inl e # _) rt = (Err (Wrap ''csv reader failure'' e), rt)"
| "csv_loop width (Inr row # reads) rt =
     (if width \<noteq> length row then (Err (NewErr ''schema and data mismatch''), rt)
      else csv_loop width reads (rt\<lparr>s3_acceptors := row\<rparr>))"

definition transformCSV ::
    "select_what \<Rightarrow> column list \<Rightarrow> (go_error + string list) list \<Rightarrow> 'c sink \<Rightarrow> unit res \<times> 'c sink" where
  "transformCSV selectWhat columns reads sink =
     (case wrap_res ''get wanted columns ids'' (prepareReading selectWhat columns) of
        Ok wanted \<Rightarrow> (fst (csv_loop (length columns) reads \<lparr>s3_acceptors = [], s3_columns = wanted\<rparr>), sink)
      | Err e \<Rightarrow> (Err e, sink)
      | Panic m \<Rightarrow> (Panic m, sink))"

record s3_select =
  s3_bucket :: string
  s3_key :: string
  s3_what :: select_what
  s3_schema :: "column list"

definition s3_doReadSplit ::
    "bool \<Rightarrow> bool \<Rightarrow> (string \<Rightarrow> string \<Rightarrow> (go_error + string list) list res) \<Rightarrow> s3_select \<Rightarrow> 'c sink_factory \<Rightarrow>
     unit res \<times> 'c sink_factory" where
  "s3_doReadSplit delivered notified getObject slct f =
     (if s3_bucket slct = [] then (Err (Wrap ''empty field `bucket`'' (Sentinel ErrInvalidRequest)), f)
      else if s3_key slct = [] then (Err (Wrap ''empty field `key`'' (Sentinel ErrInvalidRequest)), f)
      else case wrap_res ''get object'' (getObject (s3_bucket slct) (s3_key slct)) of
        Err e \<Rightarrow> (Err e, f)
      | Panic m \<Rightarrow> (Panic m, f)
      | Ok reads \<Rightarrow>
          (case MakeSinks 1 f of
             (Err e, f) \<Rightarrow> (Err (Wrap ''make sinks'' e), f)
           | (Panic m, f) \<Rightarrow> (Panic m, f)
           | (Ok _, f) \<Rightarrow>
               (case transformCSV (s3_what slct) (s3_schema slct) reads (sf_sinks f ! 0) of
                  (Err e, s) \<Rightarrow> (Err (Wrap ''transform csv'' e), f\<lparr>sf_sinks := (sf_sinks f)[0 := s]\<rparr>)
                | (Panic m, s) \<Rightarrow> (Panic m, f\<lparr>sf_sinks := (sf_sinks f)[0 := s]\<rparr>)
                | (Ok _, s) \<Rightarrow>
                    (case Finish delivered notified s of (r, s) \<Rightarrow> (r, f\<lparr>sf_sinks := (sf_sinks f)[0 := s]\<rparr>)))))"

section \<open>Columns of a request that the schema has\<close>

lemma match_columns_absent: "name \<notin> set (map col_name columns) \<Longrightarrow> match_columns name i columns = Ok []"
  by (induction columns arbitrary: i) auto

text \<open>A name that the schema has once is found where it stands.\<close>

lemma match_columns_found:
  assumes "distinct (map col_name columns)" and "j < length columns" and "makeAppender (col_type (columns ! j)) = Ok app"
  shows "match_columns (col_name (columns ! j)) i columns = Ok [(i + j, app)]"
  using assms
proof (induction columns arbitrary: i j)
  case (Cons c cs)
  show ?case
  proof (cases j)
    case 0
    with Cons.prems show ?thesis by (simp add: match_columns_absent)
  next
    case (Suc k)
    with Cons.prems have "col_name (cs ! k) \<noteq> col_name c" using Suc by (metis distinct.simps(2) length_Cons length_map list.simps(9) nat_less_le not_less_eq nth_map nth_mem)
    with Suc Cons.prems Cons.IH [of k "Suc i"] show ?thesis by simp
  qed
qed simp

definition readable_item :: "column list \<Rightarrow> column option \<Rightarrow> bool" where
  "readable_item columns item \<longleftrightarrow>
     (\<exists>c j app. item = Some c \<and> j < length columns \<and> col_name (columns ! j) = col_name c \<and>
        makeAppender (col_type (columns ! j)) = Ok app)"

definition reads_item :: "column list \<Rightarrow> column option \<Rightarrow> nat \<times> s3_appender \<Rightarrow> bool" where
  "reads_item columns item w \<longleftrightarrow>
     (\<exists>c. item = Some c \<and> fst w < length columns \<and> col_name (columns ! fst w) = col_name c \<and>
        makeAppender (col_type (columns ! fst w)) = Ok (snd w))"

lemma match_items_exact:
  "distinct (map col_name columns) \<Longrightarrow> list_all (readable_item columns) what \<Longrightarrow>
     \<exists>ws. match_items what columns = Ok ws \<and> list_all2 (reads_item columns) what ws"
proof (induction what)
  case (Cons item what)
  then obtain c j app where item: "item = Some c" "j < length columns" "col_name (columns ! j) = col_name c"
      "makeAppender (col_type (columns ! j)) = Ok app" by (auto simp: readable_item_def)
  have "match_columns (col_name c) 0 columns = Ok [(j, app)]"
    using match_columns_found [OF Cons.prems(1) item(2,4), of 0] item(3) by simp
  moreover from Cons obtain ws where "match_items what columns = Ok ws" "list_all2 (reads_item columns) what ws" by auto
  moreover have "reads_item columns item (j, app)" using item by (simp add: reads_item_def)
  ultimately show ?case using item(1) by simp
qed simp

text \<open>For a schema without repeated names and requested columns that it has, with the supported types, every requested column
  is read at the position of its name and with the appender of its type, in the order of the request.\<close>

theorem s3_columns_exact:
  assumes "distinct (map col_name columns)" and "list_all (readable_item columns) what"
  shows "\<exists>ws. prepareReading what columns = Ok ws \<and> list_all2 (reads_item columns) what ws"
proof -
  from match_items_exact [OF assms] obtain ws where "match_items what columns = Ok ws" "list_all2 (reads_item columns) what ws"
    by blast
  then show ?thesis by (auto simp: prepareReading_def dest: list_all2_lengthD)
qed

text \<open>Only the number of the positions is checked: a repeated name in the schema hides a missing one, and the missing column
  is read from the second occurrence.\<close>

theorem s3_missing_column_accepted:
  fixes a b :: column
  defines "a \<equiv> \<lparr>col_name = ''a'', col_type = TypeId Type_INT32\<rparr>" and "b \<equiv> \<lparr>col_name = ''b'', col_type = TypeId Type_INT32\<rparr>"
  shows "prepareReading [Some a, Some b] [a, a] = Ok [(0, AppendAtoi), (1, AppendAtoi)]"
  by (simp add: a_def b_def prepareReading_def makeAppender_def)

section \<open>Values\<close>

text \<open>The builder of a \<^verbatim>\<open>String\<close> column is a binary one, which the appender of such a column does not accept.\<close>

theorem s3_text_panics:
  "\<exists>b m. YdbTypesToArrowBuilders [TypeId Type_STRING] = Ok [b] \<and> run_s3_appender AppendText field b = Panic m"
  by simp

text \<open>A number that needs more than 32 bits is cut off without an error.\<close>

theorem s3_int32_wraps:
  "run_s3_appender AppendAtoi ''4294967297'' Arrow_Int32 = Ok (Cell (VInt32 1))"
  by (simp add: Atoi64_def unsigned_text_def is_digit_def digit_val_def)

section \<open>Rows\<close>

lemma new_sink_empty:
  assumes "make_sinks n f = Ok sinks" and "s \<in> set sinks"
  shows "resultQueue s = [] \<and> (\<exists>b. currBuffer s = Some b \<and> MakeBuffer (sf_bufferFactory f) = Ok b)"
  using assms
  by (induction n arbitrary: sinks) (auto simp: new_sink_def res_simps split: res.splits)

lemma builders_length: "YdbTypesToArrowBuilders ts = Ok bs \<Longrightarrow> length bs = length ts"
  by (induction ts arbitrary: bs) (auto simp: res_simps)

lemma MakeBuffer_empty:
  assumes "MakeBuffer fac = Ok b"
  shows "TotalRows b = 0"
proof -
  from assms obtain bs where "YdbTypesToArrowBuilders (bf_types fac) = Ok bs"
    and b: "b = (if bf_types fac = [] then RowCount 0 else Columns (map (\<lambda>b. []) bs))"
    by (auto simp: MakeBuffer_def res_simps split: if_splits)
  then have "length bs = length (bf_types fac)" by (simp add: builders_length)
  with b show ?thesis by (cases bs) auto
qed

text \<open>Reading ends with success and no page was sent, whatever the object holds: the rows never reach the sink.\<close>

theorem s3_reads_nothing:
  assumes "s3_doReadSplit True True getObject slct (NewSinkFactory fac bpp rpp rl) = (Ok (), f)" and "s \<in> set (sf_sinks f)"
  shows "resultQueue s = [] \<and> sinkState s = sinkFinished"
proof -
  let ?f0 = "NewSinkFactory fac bpp rpp rl"
  from assms(1) obtain reads f1 s1 s2 where
    mk: "MakeSinks 1 ?f0 = (Ok (), f1)" and tr: "transformCSV (s3_what slct) (s3_schema slct) reads (sf_sinks f1 ! 0) = (Ok (), s1)"
    and fin: "Finish True True s1 = (Ok (), s2)" and f: "f = f1\<lparr>sf_sinks := (sf_sinks f1)[0 := s2]\<rparr>"
    by (auto simp: s3_doReadSplit_def res_simps split: if_splits res.splits prod.splits)
  from mk obtain sinks where sinks: "make_sinks 1 ?f0 = Ok sinks" "sf_sinks f1 = sinks"
    by (auto simp: MakeSinks_def split: res.splits)
  from sinks(1) obtain s0 where s0: "sinks = [s0]" "sinkState s0 = sinkOperational" by (auto simp: new_sink_def res_simps)
  with new_sink_empty [OF sinks(1)] obtain b where "resultQueue s0 = []" "currBuffer s0 = Some b" "TotalRows b = 0"
    by (auto dest: MakeBuffer_empty)
  moreover from tr sinks s0 have "s1 = s0" by (auto simp: transformCSV_def split: res.splits)
  ultimately have "resultQueue s2 = [] \<and> sinkState s2 = sinkFinished" using fin s0(2) by (auto simp: Finish_def flush_def)
  with assms(2) f sinks s0 show ?thesis by simp
qed

end
