(* ===== verification/GrpcMetrics.thy ===== *)
theory GrpcMetrics
  imports ApiErrors "HOL-Library.Multiset"
begin

text \<open>
  The interceptors of the gRPC server that fill its sensors (\<^verbatim>\<open>src/app/server/grpc_metrics.go\<close>). A vector of counters that
  are only incremented is the multiset of its label values, since one increment adds one occurrence; the gauges and the
  counters of bytes are functions of the endpoint. The code of a transport error and the name of a status come from
  the libraries and are parameters. The durations, which only the histogram sees, are left out.
\<close>

section \<open>Messages, outcomes and sensors\<close>

text \<open>
  A response as the interceptors see it: whether its type has a method \<^verbatim>\<open>GetError\<close> and what the method
  returns, and the size of its encoding. The generated handlers always pass a pointer to a message, possibly nil,
  so the assertion to \<^verbatim>\<open>proto.Message\<close> holds.
\<close>

record grpc_message =
  msg_error :: "api_error option option"
  msg_size :: nat

text \<open>A Go call either returns or panics; what it did to the sensors before the panic stays.\<close>

datatype 'a call_outcome = Returned 'a | Panicked string

record grpc_names =
  grpc_code :: "go_error \<Rightarrow> string"
  status_name :: "status_code \<Rightarrow> string"

definition transport_code :: "grpc_names \<Rightarrow> go_error option \<Rightarrow> string" where
  "transport_code G err = (case err of None \<Rightarrow> ''OK'' | Some e \<Rightarrow> grpc_code G e)"

text \<open>What the call registers: nothing, or one status of the endpoint.\<close>

definition maybeRegisterStatusCode ::
  "grpc_names \<Rightarrow> string \<Rightarrow> bool \<Rightarrow> grpc_message \<Rightarrow> go_error option \<Rightarrow> (string \<times> string) multiset \<Rightarrow>
   unit call_outcome \<times> (string \<times> string) multiset" where
  "maybeRegisterStatusCode G opName streamingMethod response err statusCount =
     (if transport_code G err \<noteq> ''OK'' then (Returned (), add_mset (opName, transport_code G err) statusCount)
      else case msg_error response of
        None \<Rightarrow> (Panicked ''failed to cast response to errorGetter'', statusCount)
      | Some None \<Rightarrow>
          (if streamingMethod then (Returned (), statusCount)
           else (Panicked ''message has no filled error'', statusCount))
      | Some (Some e) \<Rightarrow>
          (Returned (), add_mset (opName, if api_status e \<noteq> SUCCESS then status_name G (api_status e) else ''OK'') statusCount))"

section \<open>Unary methods\<close>

record unary_sensors =
  requestCount :: "string multiset"
  panicsCount :: "string multiset"
  inflightRequests :: "string \<Rightarrow> int"
  statusCount :: "(string \<times> string) multiset"
  requestBytes :: "string \<Rightarrow> nat"
  responseBytes :: "string \<Rightarrow> nat"

definition add_at :: "string \<Rightarrow> 'n \<Rightarrow> (string \<Rightarrow> 'n) \<Rightarrow> string \<Rightarrow> 'n::plus" where
  "add_at opName k f = f(opName := f opName + k)"

text \<open>The interceptor in its three parts: before the handler, after the handler has returned or panicked, and the
  deferred function, which turns a panic into a transport error.\<close>

definition unary_begin :: "string \<Rightarrow> grpc_message \<Rightarrow> unary_sensors \<Rightarrow> unary_sensors" where
  "unary_begin opName req M =
     M\<lparr>requestBytes := add_at opName (msg_size req) (requestBytes M), requestCount := add_mset opName (requestCount M),
       inflightRequests := add_at opName 1 (inflightRequests M)\<rparr>"

definition unary_register ::
  "grpc_names \<Rightarrow> string \<Rightarrow> (grpc_message \<times> go_error option) call_outcome \<Rightarrow> unary_sensors \<Rightarrow>
   (grpc_message \<times> go_error option) call_outcome \<times> unary_sensors" where
  "unary_register G opName handled M =
     (case handled of
        Panicked p \<Rightarrow> (Panicked p, M)
      | Returned (resp, err) \<Rightarrow>
          (case maybeRegisterStatusCode G opName False resp err (statusCount M) of
             (Panicked p, st) \<Rightarrow> (Panicked p, M\<lparr>statusCount := st\<rparr>)
           | (Returned u, st) \<Rightarrow>
               (Returned (resp, err),
                M\<lparr>statusCount := st, responseBytes := add_at opName (msg_size resp) (responseBytes M)\<rparr>)))"

definition server_paniced :: go_error where
  "server_paniced = NewErr ''Server paniced''"

definition unary_defer ::
  "string \<Rightarrow> (grpc_message \<times> go_error option) call_outcome \<Rightarrow> unary_sensors \<Rightarrow>
   (grpc_message option \<times> go_error option) \<times> unary_sensors" where
  "unary_defer opName handled M =
     (let M' = M\<lparr>inflightRequests := add_at opName (- 1) (inflightRequests M)\<rparr>
      in case handled of
           Returned (resp, err) \<Rightarrow> ((Some resp, err), M')
         | Panicked p \<Rightarrow> ((None, Some server_paniced), M'\<lparr>panicsCount := add_mset opName (panicsCount M')\<rparr>))"

definition UnaryServerMetrics ::
  "grpc_names \<Rightarrow> string \<Rightarrow> grpc_message \<Rightarrow> (grpc_message \<times> go_error option) call_outcome \<Rightarrow> unary_sensors \<Rightarrow>
   (grpc_message option \<times> go_error option) \<times> unary_sensors" where
  "UnaryServerMetrics G opName req handled M =
     (let (out, M') = unary_register G opName handled (unary_begin opName req M) in unary_defer opName out M')"

section \<open>Requests at the same time\<close>

text \<open>
  The server runs every request in a goroutine of its own and all of them share the sensors. The state holds the
  sensors, the endpoints whose handlers are running, and the requests whose deferred function is still to run. The
  counters are updated atomically and their updates commute, so the parts above are taken as single steps.
\<close>

record unary_server =
  sensors :: unary_sensors
  running :: "string multiset"
  leaving :: "(string \<times> (grpc_message \<times> go_error option) call_outcome) multiset"

definition unary_idle :: unary_server where
  "unary_idle =
     \<lparr>sensors = \<lparr>requestCount = {#}, panicsCount = {#}, inflightRequests = (\<lambda>_. 0), statusCount = {#},
                 requestBytes = (\<lambda>_. 0), responseBytes = (\<lambda>_. 0)\<rparr>,
      running = {#}, leaving = {#}\<rparr>"

inductive unary_step :: "grpc_names \<Rightarrow> unary_server \<Rightarrow> unary_server \<Rightarrow> bool" for G where
  arrive: "unary_step G s (s\<lparr>sensors := unary_begin opName req (sensors s), running := add_mset opName (running s)\<rparr>)"
| handled: "opName \<in># running s \<Longrightarrow> unary_register G opName h (sensors s) = (out, M) \<Longrightarrow>
    unary_step G s (s\<lparr>sensors := M, running := running s - {#opName#}, leaving := add_mset (opName, out) (leaving s)\<rparr>)"
| leave: "(opName, out) \<in># leaving s \<Longrightarrow> unary_defer opName out (sensors s) = (result, M) \<Longrightarrow>
    unary_step G s (s\<lparr>sensors := M, leaving := leaving s - {#(opName, out)#}\<rparr>)"

inductive unary_reach :: "grpc_names \<Rightarrow> unary_server \<Rightarrow> bool" for G where
  idle: "unary_reach G unary_idle"
| step: "unary_reach G s \<Longrightarrow> unary_step G s s' \<Longrightarrow> unary_reach G s'"

fun panicked :: "'a call_outcome \<Rightarrow> bool" where
  "panicked (Panicked p) = True"
| "panicked (Returned x) = False"

text \<open>Every request that was counted is running, has one status, or has panicked; the gauge counts the requests that
  have not left.\<close>

definition unary_balance :: "unary_server \<Rightarrow> bool" where
  "unary_balance s \<longleftrightarrow>
     requestCount (sensors s) =
       running s + image_mset fst (statusCount (sensors s)) + panicsCount (sensors s)
       + image_mset fst (filter_mset (\<lambda>p. panicked (snd p)) (leaving s)) \<and>
     inflightRequests (sensors s) = (\<lambda>ep. int (count (running s + image_mset fst (leaving s)) ep))"

lemma register_counts:
  "unary_register G opName h M = (out, M') \<Longrightarrow>
     requestCount M' = requestCount M \<and> panicsCount M' = panicsCount M \<and> inflightRequests M' = inflightRequests M \<and>
     (if panicked out then image_mset fst (statusCount M') = image_mset fst (statusCount M)
      else image_mset fst (statusCount M') = add_mset opName (image_mset fst (statusCount M)))"
  by (auto simp: unary_register_def maybeRegisterStatusCode_def split: call_outcome.splits prod.splits if_splits option.splits)

lemma defer_counts:
  "unary_defer opName out M = (result, M') \<Longrightarrow>
     requestCount M' = requestCount M \<and> statusCount M' = statusCount M \<and>
     inflightRequests M' = add_at opName (- 1) (inflightRequests M) \<and>
     panicsCount M' = (if panicked out then add_mset opName (panicsCount M) else panicsCount M)"
  by (auto simp: unary_defer_def Let_def split: call_outcome.splits prod.splits)

lemma unary_balance_step:
  assumes "unary_step G s s'" and "unary_balance s"
  shows "unary_balance s'"
  using assms
proof (induction rule: unary_step.induct)
  case (arrive s opName req)
  then show ?case by (auto simp: unary_balance_def unary_begin_def add_at_def fun_eq_iff)
next
  case (handled opName s h out M)
  obtain rest where rest: "running s = add_mset opName rest" using handled(1) by (metis insert_DiffM)
  show ?case using handled(3) register_counts [OF handled(2)] rest by (auto simp: unary_balance_def fun_eq_iff)
next
  case (leave opName out s result M)
  obtain rest where rest: "leaving s = add_mset (opName, out) rest" using leave(1) by (metis insert_DiffM)
  show ?case using leave(3) defer_counts [OF leave(2)] rest by (auto simp: unary_balance_def add_at_def fun_eq_iff)
qed

lemma unary_balance_reach: "unary_reach G s \<Longrightarrow> unary_balance s"
proof (induction rule: unary_reach.induct)
  case idle
  show ?case by (simp add: unary_balance_def unary_idle_def)
qed (rule unary_balance_step)

text \<open>C20: in every interleaving of the requests to unary methods the sensors account for each of them: once no request is in progress the gauge of
  every endpoint is zero, and the requests counted for an endpoint are exactly the statuses counted for it
  together with its panics.\<close>

theorem unary_requests_accounted:
  assumes "unary_reach G s" and "running s = {#}" and "leaving s = {#}"
  shows "inflightRequests (sensors s) = (\<lambda>_. 0) \<and>
    requestCount (sensors s) = image_mset fst (statusCount (sensors s)) + panicsCount (sensors s)"
  using unary_balance_reach [OF assms(1)] assms(2,3) by (simp add: unary_balance_def fun_eq_iff)

section \<open>Streaming methods\<close>

record stream_sensors =
  streamCount :: "string multiset"
  inflightStreams :: "string \<Rightarrow> int"
  streamPanics :: "string multiset"
  streamStatus :: "(string \<times> string) multiset"
  sentStreamMessages :: "string multiset"
  sentBytes :: "string \<Rightarrow> nat"
  receivedStreamMessages :: "string multiset"
  receivedBytes :: "string \<Rightarrow> nat"

text \<open>The methods of \<^verbatim>\<open>serverStreamWithMessagesCount\<close>, given what the transport answered.\<close>

definition SendMsg ::
  "grpc_names \<Rightarrow> string \<Rightarrow> grpc_message \<Rightarrow> go_error option \<Rightarrow> stream_sensors \<Rightarrow> go_error option call_outcome \<times> stream_sensors" where
  "SendMsg G method msg err M =
     (let M1 = (if err = None then
                  M\<lparr>sentStreamMessages := add_mset method (sentStreamMessages M),
                    sentBytes := add_at method (msg_size msg) (sentBytes M)\<rparr>
                else M)
      in case maybeRegisterStatusCode G method True msg err (streamStatus M1) of
           (Returned u, st) \<Rightarrow> (Returned err, M1\<lparr>streamStatus := st\<rparr>)
         | (Panicked p, st) \<Rightarrow> (Panicked p, M1\<lparr>streamStatus := st\<rparr>))"

definition RecvMsg ::
  "string \<Rightarrow> grpc_message \<Rightarrow> go_error option \<Rightarrow> stream_sensors \<Rightarrow> go_error option call_outcome \<times> stream_sensors" where
  "RecvMsg method msg err M =
     (Returned err,
      if err = None then
        M\<lparr>receivedStreamMessages := add_mset method (receivedStreamMessages M),
          receivedBytes := add_at method (msg_size msg) (receivedBytes M)\<rparr>
      else M)"

text \<open>
  A handler as the calls it makes on the stream, which may depend on the answers, and its end. The answers of the
  transport, for the calls in turn, are a parameter; for a received message they include the message.
\<close>

datatype stream_handler =
    HReturn "go_error option"
  | HPanic string
  | HSend grpc_message "go_error option \<Rightarrow> stream_handler"
  | HRecv "grpc_message \<Rightarrow> go_error option \<Rightarrow> stream_handler"

primrec run_handler ::
  "grpc_names \<Rightarrow> string \<Rightarrow> stream_handler \<Rightarrow> (nat \<Rightarrow> grpc_message \<times> go_error option) \<Rightarrow> nat \<Rightarrow> stream_sensors \<Rightarrow>
   go_error option call_outcome \<times> stream_sensors" where
  "run_handler G method (HReturn err) transport n M = (Returned err, M)"
| "run_handler G method (HPanic p) transport n M = (Panicked p, M)"
| "run_handler G method (HSend msg k) transport n M =
     (case SendMsg G method msg (snd (transport n)) M of
        (Returned err, M') \<Rightarrow> run_handler G method (k err) transport (Suc n) M'
      | (Panicked p, M') \<Rightarrow> (Panicked p, M'))"
| "run_handler G method (HRecv k) transport n M =
     (case RecvMsg method (fst (transport n)) (snd (transport n)) M of
        (Returned err, M') \<Rightarrow> run_handler G method (k (fst (transport n)) err) transport (Suc n) M'
      | (Panicked p, M') \<Rightarrow> (Panicked p, M'))"

text \<open>The deferred function assigns its error to a variable of its own, so after a panic the interceptor returns the zero
  value of its result. The error is passed to \<^verbatim>\<open>SendMsg\<close> of the unwrapped stream, which has no sensors.\<close>

definition stream_defer :: "string \<Rightarrow> go_error option call_outcome \<Rightarrow> stream_sensors \<Rightarrow> go_error option \<times> stream_sensors" where
  "stream_defer opName handled M =
     (let M' = M\<lparr>inflightStreams := add_at opName (- 1) (inflightStreams M)\<rparr>
      in case handled of
           Returned err \<Rightarrow> (err, M')
         | Panicked p \<Rightarrow> (None, M'\<lparr>streamPanics := add_mset opName (streamPanics M')\<rparr>))"

definition StreamServerMetrics ::
  "grpc_names \<Rightarrow> string \<Rightarrow> stream_handler \<Rightarrow> (nat \<Rightarrow> grpc_message \<times> go_error option) \<Rightarrow> stream_sensors \<Rightarrow>
   go_error option \<times> stream_sensors" where
  "StreamServerMetrics G opName handler transport M =
     (let M1 = M\<lparr>streamCount := add_mset opName (streamCount M), inflightStreams := add_at opName 1 (inflightStreams M)\<rparr>;
          (out, M2) = run_handler G opName handler transport 0 M1
      in stream_defer opName out M2)"

text \<open>What a handler does to the sensors that are not its own.\<close>

lemma run_handler_keeps:
  "run_handler G method h transport n M = (out, M') \<Longrightarrow>
     streamCount M' = streamCount M \<and> inflightStreams M' = inflightStreams M \<and> streamPanics M' = streamPanics M"
proof (induction h arbitrary: n M)
  case (HSend msg k)
  obtain o1 M1 where s: "SendMsg G method msg (snd (transport n)) M = (o1, M1)" by (cases "SendMsg G method msg (snd (transport n)) M")
  then have "streamCount M1 = streamCount M \<and> inflightStreams M1 = inflightStreams M \<and> streamPanics M1 = streamPanics M"
    by (auto simp: SendMsg_def Let_def split: prod.splits call_outcome.splits if_splits)
  with HSend.prems HSend.IH [OF rangeI] s show ?case by (cases o1) (fastforce, simp)
next
  case (HRecv k)
  from HRecv.prems HRecv.IH [OF rangeI rangeI] show ?case by (fastforce simp: RecvMsg_def)
qed simp_all

text \<open>Every stream is counted once and leaves the gauge as it found it, whatever its handler does.\<close>

theorem stream_gauge_restored:
  "\<exists>M'. snd (StreamServerMetrics G opName h transport M) = M' \<and> inflightStreams M' = inflightStreams M \<and>
     streamCount M' = add_mset opName (streamCount M)"
proof -
  let ?M1 = "M\<lparr>streamCount := add_mset opName (streamCount M), inflightStreams := add_at opName 1 (inflightStreams M)\<rparr>"
  obtain out M2 where r: "run_handler G opName h transport 0 ?M1 = (out, M2)" by (cases "run_handler G opName h transport 0 ?M1")
  from run_handler_keeps [OF r] r show ?thesis
    by (auto simp: StreamServerMetrics_def stream_defer_def Let_def add_at_def fun_eq_iff split: call_outcome.splits)
qed

text \<open>A handler that panics ends the stream without an error: the client takes the messages sent so far for the whole
  result.\<close>

theorem stream_panic_looks_successful:
  assumes "run_handler G opName h transport 0
    (M\<lparr>streamCount := add_mset opName (streamCount M), inflightStreams := add_at opName 1 (inflightStreams M)\<rparr>) = (Panicked p, M2)"
  shows "fst (StreamServerMetrics G opName h transport M) = None"
  using assms by (simp add: StreamServerMetrics_def stream_defer_def Let_def)

section \<open>Example\<close>

definition demo_names :: grpc_names where
  "demo_names = \<lparr>grpc_code = (\<lambda>_. ''Unknown''), status_name = (\<lambda>_. ''OTHER'')\<rparr>"

definition demo_message :: grpc_message where
  "demo_message = \<lparr>msg_error = Some (Some NewSuccess), msg_size = 7\<rparr>"

text \<open>Two requests at the same time, one of which panics.\<close>

definition demo_traffic :: unary_server where
  "demo_traffic =
     \<lparr>sensors = \<lparr>requestCount = {#''A'', ''B''#}, panicsCount = {#''B''#}, inflightRequests = (\<lambda>_. 0),
                 statusCount = {#(''A'', ''OK'')#},
                 requestBytes = (\<lambda>_. 0)(''A'' := 7, ''B'' := 7), responseBytes = (\<lambda>_. 0)(''A'' := 7)\<rparr>,
      running = {#}, leaving = {#}\<rparr>"

lemma demo_traffic_reached: "unary_reach demo_names demo_traffic"
proof -
  let ?out = "Returned (demo_message, None) :: (grpc_message \<times> go_error option) call_outcome"
  let ?S1 = "unary_idle\<lparr>sensors := unary_begin ''A'' demo_message (sensors unary_idle), running := {#''A''#}\<rparr>"
  let ?S2 = "?S1\<lparr>sensors := unary_begin ''B'' demo_message (sensors ?S1), running := add_mset ''B'' {#''A''#}\<rparr>"
  have 1: "unary_reach demo_names ?S1"
    using unary_reach.step [OF unary_reach.idle unary_step.arrive, of demo_names "''A''" demo_message] by (simp add: unary_idle_def)
  have 2: "unary_reach demo_names ?S2"
    using unary_reach.step [OF 1 unary_step.arrive, of "''B''" demo_message] by simp
  have 3: "unary_reach demo_names (?S2\<lparr>sensors := M, running := {#''B''#}, leaving := {#(''A'', ?out)#}\<rparr>)"
    if "unary_register demo_names ''A'' ?out (sensors ?S2) = (?out, M)" for M
    using unary_reach.step [OF 2 unary_step.handled [OF _ that]] by (simp add: unary_idle_def)
  let ?M3 = "snd (unary_register demo_names ''A'' ?out (sensors ?S2))"
  let ?S3 = "?S2\<lparr>sensors := ?M3, running := {#''B''#}, leaving := {#(''A'', ?out)#}\<rparr>"
  let ?bad = "Panicked ''p'' :: (grpc_message \<times> go_error option) call_outcome"
  have s3: "unary_reach demo_names ?S3"
    by (rule 3) (simp add: unary_register_def maybeRegisterStatusCode_def transport_code_def demo_message_def)
  have "unary_reach demo_names (?S3\<lparr>sensors := ?M3, running := {#''B''#} - {#''B''#}, leaving := add_mset (''B'', ?bad) {#(''A'', ?out)#}\<rparr>)"
    using unary_reach.step [OF s3 unary_step.handled [of "''B''" _ demo_names ?bad ?bad ?M3]]
    by (simp add: unary_register_def)
  then have s4: "unary_reach demo_names (?S3\<lparr>running := {#}, leaving := add_mset (''B'', ?bad) {#(''A'', ?out)#}\<rparr>)" by simp
  let ?S4 = "?S3\<lparr>running := {#}, leaving := add_mset (''B'', ?bad) {#(''A'', ?out)#}\<rparr>"
  let ?M5 = "snd (unary_defer ''A'' ?out ?M3)"
  have s5: "unary_reach demo_names (?S4\<lparr>sensors := ?M5, leaving := {#(''B'', ?bad)#}\<rparr>)"
    using unary_reach.step [OF s4 unary_step.leave [of "''A''" ?out _ "fst (unary_defer ''A'' ?out ?M3)" ?M5]] by simp
  let ?M6 = "snd (unary_defer ''B'' ?bad ?M5)"
  have s6: "unary_reach demo_names (?S4\<lparr>sensors := ?M6, leaving := {#}\<rparr>)"
    using unary_reach.step [OF s5 unary_step.leave [of "''B''" ?bad _ "fst (unary_defer ''B'' ?bad ?M5)" ?M6]] by simp
  moreover have "?S4\<lparr>sensors := ?M6, leaving := {#}\<rparr> = demo_traffic"
    by (simp add: demo_traffic_def unary_idle_def unary_begin_def unary_register_def unary_defer_def maybeRegisterStatusCode_def
        transport_code_def demo_message_def demo_names_def NewSuccess_def add_at_def fun_eq_iff Let_def)
  ultimately show ?thesis by simp
qed

theorem unary_requests_accounted_witness:
  "unary_reach demo_names demo_traffic \<and> running demo_traffic = {#} \<and> leaving demo_traffic = {#} \<and>
   requestCount (sensors demo_traffic) = image_mset fst (statusCount (sensors demo_traffic)) + panicsCount (sensors demo_traffic) \<and>
   requestCount (sensors demo_traffic) = {#''A'', ''B''#}"
  using unary_requests_accounted [OF demo_traffic_reached] demo_traffic_reached by (simp add: demo_traffic_def)

end
