(* ===== verification/Spec2Isabelle.thy ===== *)
theory Spec2Isabelle
  imports Pushdown SinkFactory Streaming ApiErrors Conversion Transformers Service SplitListing ObservationHttp
    DriverRows MySqlStream YdbNative S3Csv GrpcMetrics MongoDb Redis OpenSearch
begin

text \<open>
  A verification of the server of the federated-query connector (\<^verbatim>\<open>src/app/server\<close> and \<^verbatim>\<open>src/common\<close>): the program
  that lets YDB read tables of ClickHouse, PostgreSQL, Greenplum, MySQL, MS SQL Server, Oracle, YDB, Cloud Logging,
  MongoDB, Redis, OpenSearch and S3 as streams of Arrow pages over gRPC.

  \<^bold>\<open>How the program works.\<close> A client calls three methods. \<^verbatim>\<open>DescribeTable\<close> asks a data source for the columns of a
  table and maps their types to YDB types. \<^verbatim>\<open>ListSplits\<close> asks it to divide the table. \<^verbatim>\<open>ReadSplits\<close> turns each split
  into a SELECT query with as much of the requested filter as the dialect supports, reads the rows over one or more
  connections, collects them in columnar buffers and streams the pages back. Beside this the server loads and validates
  its configuration, retries connections, limits what a request may read, translates errors into statuses and records
  every query in a storage that an HTTP service shows.

  \<^bold>\<open>Conventions.\<close> Go values are HOL values: a struct is a record, an enum a datatype, an integer of fixed width a word
  (or an integer with its wrap-around written out), a string a list of characters, a nil pointer \<open>None\<close>. A call that
  returns an error or panics has a result of type \<open>'a res\<close> (theory \<open>GoErrors\<close>): \<open>Ok\<close>, \<open>Err\<close> with the chain of the
  errors it wraps, or \<open>Panic\<close>. State that a method changes is passed and returned; goroutines, channels and shared state
  are step relations, one rule per visible action, so a theorem about reachable states covers every interleaving. What
  comes from outside the repository (drivers, servers, parsers, the clock, serialisation) is a parameter.

  \<^bold>\<open>Theories.\<close>

  \<^item> \<open>Prelude\<close>, \<open>GoErrors\<close>: strings, numerals and results; the sentinel errors and error chains of
    \<^verbatim>\<open>common/errors.go\<close>.
  \<^item> \<open>YdbTypes\<close>, \<open>ArrowHelpers\<close>: YDB types (\<^verbatim>\<open>common/ydb_type_helpers.go\<close>), Arrow schemas and builders
    (\<^verbatim>\<open>common/arrow_helpers.go\<close>); the two conversions agree column by column.
  \<^item> \<open>SqlModel\<close>, \<open>SqlFormatters\<close>, \<open>PredicateBuilder\<close>: query arguments, the seven SQL dialects
    (\<^verbatim>\<open>rdbms/*/sql_formatter.go\<close>), and the builder of SELECT queries (\<^verbatim>\<open>rdbms/utils/predicate_builder.go\<close>,
    \<^verbatim>\<open>select_query.go\<close>, \<^verbatim>\<open>select_helpers.go\<close>). \<open>SqlTerms\<close>, \<open>PushdownSemantics\<close>, \<open>SqlText\<close> and \<open>Pushdown\<close> give the
    text a meaning: a grammar and a parser for the conditions of five dialects, three-valued evaluation, and the theorems
    that the pushed-down text means the requested filter when no operand was suppressed, and otherwise drops no row that
    satisfies it as long as the placeholders fit the arguments.
  \<^item> \<open>Sizes\<close>, \<open>Traffic\<close>, \<open>ColumnarBuffers\<close>, \<open>Sinks\<close>, \<open>SinkFactory\<close>: the package \<^verbatim>\<open>paging\<close>. Sizes of values, counters and
    read limits, buffers, the state machine of a sink, the factory with its termination handler. A sink delivers exactly
    the rows it was given; the result queue is closed after the last sink; the read limit of a split holds over one
    connection, and the race of several is modelled beside it.
  \<^item> \<open>Streaming\<close>: the streamers of \<^verbatim>\<open>streaming/*.go\<close> and the reading of a connection (\<^verbatim>\<open>rdbms/datasource.go\<close>).
  \<^item> \<open>GoTime\<close>, \<open>Conversion\<close>: \<^verbatim>\<open>common/time.go\<close> and the package \<^verbatim>\<open>conversion\<close>: ranges and rounding of dates, and the
    equivalence of the fast converters with the plain ones.
  \<^item> \<open>GoRegexp\<close>, \<open>TypeMappers\<close>, \<open>Appenders\<close>, \<open>Transformers\<close>: the type mappers (\<^verbatim>\<open>rdbms/*/type_mapper.go\<close>), the schema
    builder, and the acceptors and appenders of every column. What is described can be read: the type assertions of the
    appenders never fail on a described column.
  \<^item> \<open>ApiErrors\<close>: the translation of errors into statuses (\<^verbatim>\<open>common/errors.go\<close>).
  \<^item> \<open>Durations\<close>, \<open>Config\<close>, \<open>Retry\<close>: \<^verbatim>\<open>config/config.go\<close> with its defaults and validation, \<^verbatim>\<open>common/duration.go\<close>, and
    \<^verbatim>\<open>utils/retry\<close>. A configuration that is accepted is complete; a retrier returns.
  \<^item> \<open>Splits\<close>: the split providers of YDB and Cloud Logging, its resolvers and connection manager, \<^verbatim>\<open>common/endpoint.go\<close>.
    The splits cover the table; a retry of the driver repeats those of the tablets it had already read.
  \<^item> \<open>Observation\<close>, \<open>ObservationHttp\<close>: the storage of queries (\<^verbatim>\<open>observation/storage_*.go\<close>) and the HTTP service over
    it. The tables refine a registry of queries; the pages of the service show every query once.
  \<^item> \<open>DataSource\<close>, \<open>Validation\<close>, \<open>Service\<close>: the relational data source with its goroutines, \<^verbatim>\<open>validate.go\<close>, the factory of
    data sources, \<^verbatim>\<open>data_source_collection.go\<close> and \<^verbatim>\<open>service_connector.go\<close>. Queries are closed in the storage in
    every interleaving of a fault-free database. \<open>SplitListing\<close> puts the handler of ListSplits, the streamers and the data
    sources together: a request for splits is answered in full or with a failure.
  \<^item> \<open>DriverRows\<close>, \<open>MySqlStream\<close>: the rows of MySQL and Oracle (\<^verbatim>\<open>rdbms/mysql/rows.go\<close>, \<^verbatim>\<open>rdbms/oracle/rows.go\<close>) and the
    goroutine of \<^verbatim>\<open>rdbms/mysql/connection.go\<close>. A scanned value is the value of the driver (unsigned columns with further
    flags fail), dates and times are parsed to what was printed; a stream delivers the rows in order and comes to an end in
    every interleaving.
  \<^item> \<open>YdbNative\<close>: the native connection to YDB (\<^verbatim>\<open>rdbms/ydb/connection_native.go\<close>). The query declares the parameters that are
    passed with it, for exactly the literals whose values have the width of their type.
  \<^item> \<open>MongoDb\<close>, \<open>Redis\<close>, \<open>OpenSearch\<close>, \<open>S3Csv\<close>: the data sources under \<^verbatim>\<open>nosql\<close> and \<^verbatim>\<open>s3\<close>: the schemas they deduce and the
    rows they deliver. For MongoDB and Redis both are equal to reference definitions; the schema of an OpenSearch index does
    not depend on the iteration order of Go maps; the columns of a CSV object are found by name.
  \<^item> \<open>GrpcMetrics\<close>: the interceptors of \<^verbatim>\<open>grpc_metrics.go\<close>. The sensors account for every request, panics included.

  \<^bold>\<open>Interfaces.\<close> The locales are the contracts between components: \<open>page_buffer\<close> (what a sink needs of a buffer) and
  \<open>query_table\<close> (what the server needs of the storage) are interpreted on the buffers and on the two tables of the
  storage; the properties use the interpreted lemmas.

  \<^bold>\<open>Bounds and fuel.\<close> No function uses fuel. The retry loop is a partial function whose results are proved to exist; the
  other loops recurse on their data. The theorems on identifiers and offsets assume that they stay below \<open>2 ^ 63\<close>, the
  bound of the database driver and of a Go \<^verbatim>\<open>int\<close>.

  \<^bold>\<open>Not modelled.\<close> The drivers and connection managers (network calls and library options), the records of the CSV reader
  and the answers of the servers of MongoDB, Redis, OpenSearch and S3, all of which are parameters; the serialisation of
  pages by the Arrow library; the life cycle of the gRPC, metrics and pprof servers and the metrics registry under
  \<^verbatim>\<open>library/go\<close>; the command-line clients, benchmarks, tools and the test infrastructure; generated protobuf code.
\<close>

end
